(* ===== verification/Js_Prelude.thy ===== *)
theory Js_Prelude
  imports Main "HOL-Library.Word"
begin

text \<open>
  What the model needs of the JavaScript language and of the typed-array part of its standard
  library: strings as lists of UTF-16 code units, bytes of a \<open>Uint8Array\<close>, 32-bit integer
  conversion, exceptions as values, and the state-and-exception combinators in which the stateful
  operations of the other theories are written.  No definition of this theory models a line of the
  repository; the theories that import it do.
\<close>

unbundle bit_operations_syntax

named_theorems op_simps \<open>unfolding equations of the state-and-exception combinators\<close>
named_theorems byte_simps \<open>arithmetic forms of the bit operations on bytes and code units\<close>

section \<open>Strings and bytes\<close>

type_synonym byte = "8 word"
type_synonym code_unit = "16 word"
type_synonym js_string = "code_unit list"

definition js :: "string \<Rightarrow> js_string" where
  "js s = map of_char s"

lemma js_simps [simp]:
  "js [] = []"
  "js (c # cs) = of_char c # js cs"
  by (simp_all add: js_def)

lemma js_append [simp]: "js (s @ t) = js s @ js t"
  by (simp add: js_def)

lemma length_js [simp]: "length (js s) = length s"
  by (simp add: js_def)

text \<open>
  A JavaScript number that may be \<open>NaN\<close>: reading an array out of range gives \<open>undefined\<close>, and
  arithmetic on it gives \<open>NaN\<close>.  Numbers are the integers the code computes with.
\<close>

datatype js_num = Num int | NaN

primrec num_of :: "int option \<Rightarrow> js_num" where
  "num_of None = NaN"
| "num_of (Some n) = Num n"

text \<open>
  The order of the own keys of an object that is indexed by numbers: the integer indices come
  first, in ascending order, then the one string key \<open>NaN\<close>.
\<close>

instantiation js_num :: linorder
begin

fun less_eq_js_num :: "js_num \<Rightarrow> js_num \<Rightarrow> bool" where
  "less_eq_js_num (Num a) (Num b) = (a \<le> b)"
| "less_eq_js_num _ NaN = True"
| "less_eq_js_num NaN (Num b) = False"

definition less_js_num :: "js_num \<Rightarrow> js_num \<Rightarrow> bool" where
  "less_js_num a b = (a \<le> b \<and> \<not> b \<le> (a :: js_num))"

instance
proof
  fix x y z :: js_num
  show "(x < y) = (x \<le> y \<and> \<not> y \<le> x)" by (simp add: less_js_num_def)
  show "x \<le> x" by (cases x) auto
  show "x \<le> y \<Longrightarrow> y \<le> z \<Longrightarrow> x \<le> z" by (cases x; cases y; cases z) auto
  show "x \<le> y \<Longrightarrow> y \<le> x \<Longrightarrow> x = y" by (cases x; cases y) auto
  show "x \<le> y \<or> y \<le> x" by (cases x; cases y) auto
qed

end

lemma less_js_num_simps [simp]:
  "(Num a < Num b) = (a < b)"
  "Num a < NaN"
  "\<not> NaN < x"
  by (cases x; auto simp: less_js_num_def)+

subsection \<open>Rendering of numbers\<close>

definition digit :: "nat \<Rightarrow> code_unit" where
  "digit d = (if d < 10 then word_of_nat (48 + d) else word_of_nat (87 + d))"

fun nat_str :: "nat \<Rightarrow> nat \<Rightarrow> js_string" where
  "nat_str base n =
     (if n < base \<or> base < 2 then [digit n] else nat_str base (n div base) @ [digit (n mod base)])"

declare nat_str.simps [simp del]

definition int_str :: "nat \<Rightarrow> int \<Rightarrow> js_string" where
  "int_str base n = (if n < 0 then of_char CHR ''-'' # nat_str base (nat (- n)) else nat_str base (nat n))"

primrec num_str :: "js_num \<Rightarrow> js_string" where
  "num_str (Num n) = int_str 10 n"
| "num_str NaN = js ''NaN''"

subsection \<open>Dynamic values\<close>

text \<open>
  A value that reaches an argument check of the program before its type is known: what \<open>typeof\<close> and
  the conversion to a string give for it.
\<close>

datatype js_value =
    V_undefined
  | V_bool bool
  | V_number js_num
  | V_string js_string
  | V_function nat
  | V_object js_string \<comment> \<open>an object, \<open>null\<close> included, by its conversion to a string\<close>

primrec typeof :: "js_value \<Rightarrow> js_string" where
  "typeof V_undefined = js ''undefined''"
| "typeof (V_bool b) = js ''boolean''"
| "typeof (V_number n) = js ''number''"
| "typeof (V_string s) = js ''string''"
| "typeof (V_function f) = js ''function''"
| "typeof (V_object s) = js ''object''"

primrec to_string :: "js_value \<Rightarrow> js_string" where
  "to_string V_undefined = js ''undefined''"
| "to_string (V_bool b) = (if b then js ''true'' else js ''false'')"
| "to_string (V_number n) = num_str n"
| "to_string (V_string s) = s"
| "to_string (V_function f) = js ''function''"
| "to_string (V_object s) = s"

section \<open>32-bit integers and bits\<close>

text \<open>
  The operands of \<open>>>\<close>, \<open>&\<close> and \<open>|\<close> are converted to signed 32-bit integers.  Where the source
  applies them to values that are known to be in range (bytes, code points) the theories use the
  operations of \<open>int\<close> directly.
\<close>

definition to_int32 :: "int \<Rightarrow> int" where
  "to_int32 n = signed_take_bit 31 n"

lemma to_int32_id: "0 \<le> n \<Longrightarrow> n < 2 ^ 31 \<Longrightarrow> to_int32 n = n"
  by (simp add: to_int32_def signed_take_bit_int_eq_self)

lemma or_disjoint: "x AND y = 0 \<Longrightarrow> x OR y = x + (y :: int)"
  using plus_and_or [of x y] by simp

lemma and_mod: "(x :: int) AND (2 ^ n - 1) = x mod 2 ^ n"
  by (simp flip: mask_eq_exp_minus_1 take_bit_eq_mask take_bit_eq_mod)

lemma mod_or: "(x :: int) mod 2 ^ n OR 2 ^ n * k = x mod 2 ^ n + 2 ^ n * k"
proof (rule or_disjoint)
  have "take_bit n x AND push_bit n k = 0"
    by (rule bit_eqI) (auto simp: bit_simps)
  then show "x mod 2 ^ n AND 2 ^ n * k = 0"
    by (simp add: take_bit_eq_mod push_bit_eq_mult mult.commute)
qed

lemma less_or: "0 \<le> (x :: int) \<Longrightarrow> x < 2 ^ n \<Longrightarrow> x OR 2 ^ n * k = x + 2 ^ n * k"
  using mod_or [of x n k] by simp

lemma word8_ge_0 [simp]: "0 \<le> uint (b :: byte)" and word8_lt [simp]: "uint (b :: byte) < 256"
  using uint_lt2p [of b] by simp_all

lemma word16_lt [simp]: "uint (c :: code_unit) < 65536"
  using uint_lt2p [of c] by simp

lemma uint_word_of_int_8 [simp]: "uint (word_of_int v :: byte) = v mod 256"
  by (simp add: uint_word_of_int)

lemma uint_word_of_int_16 [simp]: "uint (word_of_int v :: code_unit) = v mod 65536"
  by (simp add: uint_word_of_int)

lemma word_of_int_mod_8: "word_of_int (v mod 256) = (word_of_int v :: byte)"
  by (metis word_of_int_uint uint_word_of_int_8)

section \<open>Exceptions\<close>

text \<open>
  What a statement can throw: an \<open>Error\<close> object with its message, a thrown string (the \<open>Message\<close>
  constructor throws one), and the engine's own errors.
\<close>

datatype js_exn =
    Error js_string
  | Thrown_string js_string
  | Type_error
  | Range_error
  | Invalid_state_error
  | Out_of_fuel

text \<open>
  \<open>Out_of_fuel\<close> is not an exception of the program: it marks a run of a loop whose bound, a
  parameter of the model, was too small.  No handler of the model catches it.
\<close>

type_synonym 'a res = "js_exn + 'a"

definition bind_res :: "'a res \<Rightarrow> ('a \<Rightarrow> 'b res) \<Rightarrow> 'b res" where
  "bind_res m f = (case m of Inl e \<Rightarrow> Inl e | Inr x \<Rightarrow> f x)"

lemma bind_res_simps [simp]:
  "bind_res (Inl e) f = Inl e"
  "bind_res (Inr x) f = f x"
  by (simp_all add: bind_res_def)

lemma bind_res_Inr_iff: "bind_res m f = Inr y \<longleftrightarrow> (\<exists>x. m = Inr x \<and> f x = Inr y)"
  by (cases m) auto

lemma bind_res_Inl_iff: "bind_res m f = Inl e \<longleftrightarrow> m = Inl e \<or> (\<exists>x. m = Inr x \<and> f x = Inl e)"
  by (cases m) auto

section \<open>Typed arrays\<close>

text \<open>
  An indexed write \<open>a[i] = v\<close> to a \<open>Uint8Array\<close> keeps \<open>v\<close> modulo 256 and is ignored out of range;
  \<open>a.set(src, pos)\<close> raises a \<open>RangeError\<close> when \<open>src\<close> does not fit.  An indexed read out of range is
  \<open>undefined\<close>.
\<close>

definition buf_put :: "byte list \<Rightarrow> nat \<Rightarrow> int \<Rightarrow> byte list" where
  "buf_put b i v = b[i := word_of_int v]"

definition buf_set :: "byte list \<Rightarrow> byte list \<Rightarrow> nat \<Rightarrow> byte list res" where
  "buf_set b src pos =
     (if pos + length src \<le> length b then Inr (take pos b @ src @ drop (pos + length src) b)
      else Inl Range_error)"

definition buf_get :: "byte list \<Rightarrow> nat \<Rightarrow> int option" where
  "buf_get b i = (if i < length b then Some (uint (b ! i)) else None)"

lemma length_buf_put [simp]: "length (buf_put b i v) = length b"
  by (simp add: buf_put_def)

lemma length_buf_set: "buf_set b src pos = Inr b' \<Longrightarrow> length b' = length b"
  by (auto simp: buf_set_def split: if_splits)

lemma buf_get_in [simp]: "i < length b \<Longrightarrow> buf_get b i = Some (uint (b ! i))"
  by (simp add: buf_get_def)

lemma buf_get_out [simp]: "length b \<le> i \<Longrightarrow> buf_get b i = None"
  by (simp add: buf_get_def)

text \<open>
  The shape in which buffers are filled: the bytes written so far, and the untouched rest.  Writing
  at the border consumes bytes of the rest.
\<close>

lemma buf_put_border [simp]:
  "buf_put (xs @ r # rs) (length xs) v = xs @ word_of_int v # rs"
  by (simp add: buf_put_def)

lemma buf_put_at:
  "pos = length xs \<Longrightarrow> buf_put (xs @ r # rs) pos v = xs @ word_of_int v # rs"
  by simp

lemma buf_set_at:
  "pos = length xs \<Longrightarrow> length src \<le> length rs \<Longrightarrow>
   buf_set (xs @ rs) src pos = Inr (xs @ src @ drop (length src) rs)"
  by (simp add: buf_set_def)

section \<open>State and exceptions\<close>

text \<open>
  A stateful operation maps the state to its result, or the exception it throws, and the state it
  leaves: an exception does not undo what was already changed.
\<close>

type_synonym ('s, 'a) op = "'s \<Rightarrow> 'a res \<times> 's"

definition ret :: "'a \<Rightarrow> ('s, 'a) op" where
  "ret x = (\<lambda>s. (Inr x, s))"

definition throw :: "js_exn \<Rightarrow> ('s, 'a) op" where
  "throw e = (\<lambda>s. (Inl e, s))"

definition andthen :: "('s, 'a) op \<Rightarrow> ('a \<Rightarrow> ('s, 'b) op) \<Rightarrow> ('s, 'b) op" where
  "andthen m f = (\<lambda>s. case m s of (Inl e, t) \<Rightarrow> (Inl e, t) | (Inr x, t) \<Rightarrow> f x t)"

definition try_catch :: "('s, 'a) op \<Rightarrow> (js_exn \<Rightarrow> ('s, 'a) op) \<Rightarrow> ('s, 'a) op" where
  "try_catch m h = (\<lambda>s. case m s of (Inl e, t) \<Rightarrow> h e t | (Inr x, t) \<Rightarrow> (Inr x, t))"

text \<open>A \<open>catch\<close> clause catches what the program can throw.\<close>

definition catching :: "('s, 'a) op \<Rightarrow> (js_exn \<Rightarrow> ('s, 'a) op) \<Rightarrow> ('s, 'a) op" where
  "catching m h = try_catch m (\<lambda>e. if e = Out_of_fuel then throw e else h e)"

abbreviation seqn :: "('s, 'a) op \<Rightarrow> ('s, 'b) op \<Rightarrow> ('s, 'b) op" where
  "seqn m n \<equiv> andthen m (\<lambda>_. n)"

text \<open>A statement that reads the state first.\<close>

definition reading :: "('s \<Rightarrow> 'x) \<Rightarrow> ('x \<Rightarrow> ('s, 'a) op) \<Rightarrow> ('s, 'a) op" where
  "reading g f = (\<lambda>s. f (g s) s)"

definition modify :: "('s \<Rightarrow> 's) \<Rightarrow> ('s, unit) op" where
  "modify f = (\<lambda>s. (Inr (), f s))"

definition lift_res :: "'a res \<Rightarrow> ('s, 'a) op" where
  "lift_res r = (\<lambda>s. (r, s))"

lemma op_apply [simp]:
  "ret x s = (Inr x, s)"
  "throw e s = (Inl e, s)"
  "modify f s = (Inr (), f s)"
  "lift_res r s = (r, s)"
  by (simp_all add: ret_def throw_def modify_def lift_res_def)

lemma reading_apply [simp]: "reading g f s = f (g s) s"
  by (simp add: reading_def)

lemma andthen_apply:
  "andthen m f s = (case m s of (Inl e, t) \<Rightarrow> (Inl e, t) | (Inr x, t) \<Rightarrow> f x t)"
  by (simp add: andthen_def)

lemma andthen_Inr [simp]: "m s = (Inr x, t) \<Longrightarrow> andthen m f s = f x t"
  by (simp add: andthen_def)

lemma andthen_Inl [simp]: "m s = (Inl e, t) \<Longrightarrow> andthen m f s = (Inl e, t)"
  by (simp add: andthen_def)

lemma try_catch_Inr [simp]: "m s = (Inr x, t) \<Longrightarrow> try_catch m h s = (Inr x, t)"
  by (simp add: try_catch_def)

lemma try_catch_Inl [simp]: "m s = (Inl e, t) \<Longrightarrow> try_catch m h s = h e t"
  by (simp add: try_catch_def)

text \<open>Preservation of a state predicate, the shape of every invariant proof of the client.\<close>

definition keeps :: "('s \<Rightarrow> bool) \<Rightarrow> ('s, 'a) op \<Rightarrow> bool" where
  "keeps P m \<longleftrightarrow> (\<forall>s. P s \<longrightarrow> P (snd (m s)))"

lemma keepsI: "(\<And>s. P s \<Longrightarrow> P (snd (m s))) \<Longrightarrow> keeps P m"
  by (simp add: keeps_def)

lemma keepsD: "keeps P m \<Longrightarrow> P s \<Longrightarrow> P (snd (m s))"
  by (simp add: keeps_def)

lemma keeps_ret [intro, simp]: "keeps P (ret x)"
  by (simp add: keeps_def)

lemma keeps_throw [intro, simp]: "keeps P (throw e)"
  by (simp add: keeps_def)

lemma keeps_lift_res [intro, simp]: "keeps P (lift_res r)"
  by (simp add: keeps_def)

lemma keeps_Pair [intro, simp]: "keeps P (Pair r)"
  by (simp add: keeps_def)

lemma keeps_modify: "(\<And>s. P s \<Longrightarrow> P (f s)) \<Longrightarrow> keeps P (modify f)"
  by (simp add: keeps_def)

lemma keeps_andthen: "keeps P m \<Longrightarrow> (\<And>x. keeps P (f x)) \<Longrightarrow> keeps P (andthen m f)"
  unfolding keeps_def andthen_def
  by (fastforce split: prod.splits sum.splits)

lemma keeps_try_catch: "keeps P m \<Longrightarrow> (\<And>e. keeps P (h e)) \<Longrightarrow> keeps P (try_catch m h)"
  unfolding keeps_def try_catch_def
  by (fastforce split: prod.splits sum.splits)

lemma keeps_catching: "keeps P m \<Longrightarrow> (\<And>e. keeps P (h e)) \<Longrightarrow> keeps P (catching m h)"
  unfolding catching_def by (rule keeps_try_catch) auto

lemma keeps_reading: "(\<And>x. keeps P (f x)) \<Longrightarrow> keeps P (reading g f)"
  by (simp add: keeps_def)

lemma keeps_if: "(b \<Longrightarrow> keeps P m) \<Longrightarrow> (\<not> b \<Longrightarrow> keeps P n) \<Longrightarrow> keeps P (if b then m else n)"
  by simp

lemma keeps_case_option:
  "(x = None \<Longrightarrow> keeps P m) \<Longrightarrow> (\<And>y. x = Some y \<Longrightarrow> keeps P (f y)) \<Longrightarrow>
   keeps P (case x of None \<Rightarrow> m | Some y \<Rightarrow> f y)"
  by (cases x) auto

lemmas keeps_intros =
  keeps_andthen keeps_catching keeps_reading keeps_if keeps_case_option
  keeps_ret keeps_throw keeps_lift_res keeps_Pair

end
