(* ===== verification/Js_Object.thy ===== *)
theory Js_Object
  imports Js_Prelude "HOL-Library.AList"
begin

text \<open>
  JavaScript objects used as dictionaries.  The interface \<open>js_object\<close> states what a client of such
  a dictionary relies on: \<open>get\<close> after \<open>put\<close> and \<open>del\<close>, and an enumeration of the own keys that
  lists each present key once.  It has two providers: the tables indexed by message identifiers,
  whose keys are enumerated in ascending order, and the key/value store of \<open>localStorage\<close>, whose
  keys are enumerated in the order of insertion.
\<close>

section \<open>The interface\<close>

locale js_object =
  fixes get :: "'m \<Rightarrow> 'k \<Rightarrow> 'v option"
    and put :: "'k \<Rightarrow> 'v \<Rightarrow> 'm \<Rightarrow> 'm"
    and del :: "'k \<Rightarrow> 'm \<Rightarrow> 'm"
    and keys :: "'m \<Rightarrow> 'k list"
    and ok :: "'m \<Rightarrow> bool"
  assumes get_put: "ok m \<Longrightarrow> get (put k v m) j = (if j = k then Some v else get m j)"
    and get_del: "ok m \<Longrightarrow> get (del k m) j = (if j = k then None else get m j)"
    and keys_get: "ok m \<Longrightarrow> k \<in> set (keys m) \<longleftrightarrow> get m k \<noteq> None"
    and keys_distinct: "ok m \<Longrightarrow> distinct (keys m)"
    and ok_put: "ok m \<Longrightarrow> ok (put k v m)"
    and ok_del: "ok m \<Longrightarrow> ok (del k m)"
begin

lemma get_put_same: "ok m \<Longrightarrow> get (put k v m) k = Some v"
  by (simp add: get_put)

lemma set_keys: "ok m \<Longrightarrow> set (keys m) = {k. get m k \<noteq> None}"
  using keys_get by auto

lemma set_keys_put: "ok m \<Longrightarrow> set (keys (put k v m)) = insert k (set (keys m))"
  by (auto simp: set_keys get_put ok_put split: if_splits)

lemma set_keys_del: "ok m \<Longrightarrow> set (keys (del k m)) = set (keys m) - {k}"
  by (auto simp: set_keys get_del ok_del split: if_splits)

lemma count_card: "ok m \<Longrightarrow> length (keys m) = card (set (keys m))"
  by (simp add: distinct_card keys_distinct)

lemma count_put_fresh: "ok m \<Longrightarrow> get m k = None \<Longrightarrow> length (keys (put k v m)) = Suc (length (keys m))"
proof -
  assume ok: "ok m" and none: "get m k = None"
  then have "k \<notin> set (keys m)" by (simp add: keys_get)
  then show ?thesis using ok
    by (simp add: count_card ok_put set_keys_put)
qed

lemma count_put_present: "ok m \<Longrightarrow> get m k \<noteq> None \<Longrightarrow> length (keys (put k v m)) = length (keys m)"
  by (simp add: count_card ok_put set_keys_put insert_absorb keys_get)

lemma count_del_present: "ok m \<Longrightarrow> get m k \<noteq> None \<Longrightarrow> Suc (length (keys (del k m))) = length (keys m)"
proof -
  assume ok: "ok m" and some: "get m k \<noteq> None"
  then have "Suc (card (set (keys m) - {k})) = card (set (keys m))"
    by (intro card_Suc_Diff1) (simp_all add: keys_get)
  then show ?thesis using ok
    by (simp only: count_card ok_del set_keys_del)
qed

text \<open>A search upwards from any index finds an absent one: the table is finite.\<close>

lemma absent_above:
  assumes "ok m" and "inj f"
  shows "\<exists>n \<ge> (i :: nat). get m (f n) = None"
proof (rule ccontr)
  assume "\<not> ?thesis"
  then have "f ` {i..} \<subseteq> set (keys m)" using assms(1) by (auto simp: keys_get)
  then have "finite (f ` {i..})" using finite_subset by blast
  then have "finite {i..}" using assms(2) by (meson finite_imageD inj_on_subset subset_UNIV)
  then show False by (simp add: infinite_Ici)
qed

end

section \<open>Tables with ascending keys\<close>

text \<open>An object whose own keys are numbers: its keys are enumerated in ascending order.\<close>

type_synonym ('k, 'v) table = "('k \<times> 'v) list"

abbreviation tget :: "('k, 'v) table \<Rightarrow> 'k \<Rightarrow> 'v option" where
  "tget \<equiv> map_of"

fun tput :: "'k :: linorder \<Rightarrow> 'v \<Rightarrow> ('k, 'v) table \<Rightarrow> ('k, 'v) table" where
  "tput k v [] = [(k, v)]"
| "tput k v ((j, w) # m) =
     (if k < j then (k, v) # (j, w) # m
      else if k = j then (k, v) # m
      else (j, w) # tput k v m)"

definition tdel :: "'k \<Rightarrow> ('k, 'v) table \<Rightarrow> ('k, 'v) table" where
  "tdel k m = filter (\<lambda>(j, _). j \<noteq> k) m"

definition tkeys :: "('k, 'v) table \<Rightarrow> 'k list" where
  "tkeys m = map fst m"

definition tok :: "('k :: linorder, 'v) table \<Rightarrow> bool" where
  "tok m = sorted_wrt (<) (map fst m)"

lemma tget_tput: "tok m \<Longrightarrow> tget (tput k v m) j = (if j = k then Some v else tget m j)"
  by (induction k v m rule: tput.induct) (auto simp: tok_def)

lemma tget_tdel: "tget (tdel k m) j = (if j = k then None else tget m j)"
  by (induction m) (auto simp: tdel_def)

lemma set_tput_keys: "set (map fst (tput k v m)) = insert k (set (map fst m))"
  by (induction k v m rule: tput.induct) auto

lemma tok_tput: "tok m \<Longrightarrow> tok (tput k v m)"
proof (induction k v m rule: tput.induct)
  case (1 k v)
  then show ?case by (simp add: tok_def)
next
  case (2 k v j w m)
  then have IH: "\<not> k < j \<Longrightarrow> k \<noteq> j \<Longrightarrow> tok (tput k v m)"
    by (auto simp: tok_def)
  show ?case using 2(2) IH
    by (auto simp: tok_def set_tput_keys [unfolded set_map] not_less le_less)
qed

lemma tok_tdel: "tok m \<Longrightarrow> tok (tdel k m)"
  by (auto simp: tok_def tdel_def sorted_wrt_map intro: sorted_wrt_filter)

lemma tok_Nil [simp]: "tok []"
  by (simp add: tok_def)

interpretation table: js_object tget tput tdel tkeys tok
proof unfold_locales
  fix m :: "('k :: linorder, 'v) table" and k
  assume "tok m"
  show "k \<in> set (tkeys m) \<longleftrightarrow> tget m k \<noteq> None"
    by (simp add: tkeys_def map_of_eq_None_iff)
  show "distinct (tkeys m)"
    using \<open>tok m\<close> unfolding tok_def tkeys_def by (simp add: strict_sorted_iff)
qed (simp_all add: tget_tput tget_tdel tok_tput tok_tdel)

section \<open>The key/value store\<close>

type_synonym ('k, 'v) storage = "('k \<times> 'v) list"

definition getItem :: "('k, 'v) storage \<Rightarrow> 'k \<Rightarrow> 'v option" where
  "getItem d k = map_of d k"

definition setItem :: "'k \<Rightarrow> 'v \<Rightarrow> ('k, 'v) storage \<Rightarrow> ('k, 'v) storage" where
  "setItem k v d = AList.update k v d"

definition removeItem :: "'k \<Rightarrow> ('k, 'v) storage \<Rightarrow> ('k, 'v) storage" where
  "removeItem k d = AList.delete k d"

definition storage_keys :: "('k, 'v) storage \<Rightarrow> 'k list" where
  "storage_keys d = map fst d"

definition storage_ok :: "('k, 'v) storage \<Rightarrow> bool" where
  "storage_ok d = distinct (map fst d)"

lemma storage_ok_Nil [simp]: "storage_ok []"
  by (simp add: storage_ok_def)

interpretation storage: js_object getItem setItem removeItem storage_keys storage_ok
proof unfold_locales
  fix d :: "('k, 'v) storage" and k j v
  assume ok: "storage_ok d"
  show "getItem (setItem k v d) j = (if j = k then Some v else getItem d j)"
    by (simp add: getItem_def setItem_def update_conv')
  show "getItem (removeItem k d) j = (if j = k then None else getItem d j)"
    by (simp add: getItem_def removeItem_def delete_conv')
  show "k \<in> set (storage_keys d) \<longleftrightarrow> getItem d k \<noteq> None"
    by (simp add: storage_keys_def getItem_def map_of_eq_None_iff)
  show "distinct (storage_keys d)"
    using ok by (simp add: storage_ok_def storage_keys_def)
  show "storage_ok (setItem k v d)"
    using ok by (simp add: storage_ok_def setItem_def distinct_update)
  show "storage_ok (removeItem k d)"
    using ok by (simp add: storage_ok_def removeItem_def distinct_delete)
qed

end
