(* ===== verification/Paho_Base.thy ===== *)
theory Paho_Base
  imports Js_Object
begin

text \<open>
  The private constants and helpers at the head of \<open>paho-mqtt.js\<close>: the packet types, the table of
  error codes and texts, the message formatter, the option validator, and the two protocol
  identifiers of the CONNECT packet.
\<close>

section \<open>Packet types\<close>

datatype MESSAGE_TYPE =
    CONNECT | CONNACK | PUBLISH | PUBACK | PUBREC | PUBREL | PUBCOMP
  | SUBSCRIBE | SUBACK | UNSUBSCRIBE | UNSUBACK | PINGREQ | PINGRESP | DISCONNECT

primrec mt :: "MESSAGE_TYPE \<Rightarrow> nat" where
  "mt CONNECT = 1"
| "mt CONNACK = 2"
| "mt PUBLISH = 3"
| "mt PUBACK = 4"
| "mt PUBREC = 5"
| "mt PUBREL = 6"
| "mt PUBCOMP = 7"
| "mt SUBSCRIBE = 8"
| "mt SUBACK = 9"
| "mt UNSUBSCRIBE = 10"
| "mt UNSUBACK = 11"
| "mt PINGREQ = 12"
| "mt PINGRESP = 13"
| "mt DISCONNECT = 14"

lemma mt_bounds: "0 < mt t" "mt t < 16"
  by (cases t; simp)+

lemma mt_inj: "mt a = mt b \<Longrightarrow> a = b"
  by (cases a; cases b; simp)

section \<open>Errors\<close>

datatype ERROR =
    OK | CONNECT_TIMEOUT | SUBSCRIBE_TIMEOUT | UNSUBSCRIBE_TIMEOUT | PING_TIMEOUT
  | INTERNAL_ERROR | CONNACK_RETURNCODE | SOCKET_ERROR | SOCKET_CLOSE | MALFORMED_UTF
  | UNSUPPORTED | INVALID_STATE | INVALID_TYPE | INVALID_ARGUMENT | UNSUPPORTED_OPERATION
  | INVALID_STORED_DATA | INVALID_MQTT_MESSAGE_TYPE | MALFORMED_UNICODE | BUFFER_FULL

primrec error_code :: "ERROR \<Rightarrow> nat" where
  "error_code OK = 0"
| "error_code CONNECT_TIMEOUT = 1"
| "error_code SUBSCRIBE_TIMEOUT = 2"
| "error_code UNSUBSCRIBE_TIMEOUT = 3"
| "error_code PING_TIMEOUT = 4"
| "error_code INTERNAL_ERROR = 5"
| "error_code CONNACK_RETURNCODE = 6"
| "error_code SOCKET_ERROR = 7"
| "error_code SOCKET_CLOSE = 8"
| "error_code MALFORMED_UTF = 9"
| "error_code UNSUPPORTED = 10"
| "error_code INVALID_STATE = 11"
| "error_code INVALID_TYPE = 12"
| "error_code INVALID_ARGUMENT = 13"
| "error_code UNSUPPORTED_OPERATION = 14"
| "error_code INVALID_STORED_DATA = 15"
| "error_code INVALID_MQTT_MESSAGE_TYPE = 16"
| "error_code MALFORMED_UNICODE = 17"
| "error_code BUFFER_FULL = 18"

primrec error_text :: "ERROR \<Rightarrow> js_string" where
  "error_text OK = js ''AMQJSC0000I OK.''"
| "error_text CONNECT_TIMEOUT = js ''AMQJSC0001E Connect timed out.''"
| "error_text SUBSCRIBE_TIMEOUT = js ''AMQJS0002E Subscribe timed out.''"
| "error_text UNSUBSCRIBE_TIMEOUT = js ''AMQJS0003E Unsubscribe timed out.''"
| "error_text PING_TIMEOUT = js ''AMQJS0004E Ping timed out.''"
| "error_text INTERNAL_ERROR =
     js ''AMQJS0005E Internal error. Error Message: {0}, Stack trace: {1}''"
| "error_text CONNACK_RETURNCODE = js ''AMQJS0006E Bad Connack return code:{0} {1}.''"
| "error_text SOCKET_ERROR = js ''AMQJS0007E Socket error:{0}.''"
| "error_text SOCKET_CLOSE = js ''AMQJS0008I Socket closed.''"
| "error_text MALFORMED_UTF = js ''AMQJS0009E Malformed UTF data:{0} {1} {2}.''"
| "error_text UNSUPPORTED = js ''AMQJS0010E {0} is not supported by this browser.''"
| "error_text INVALID_STATE = js ''AMQJS0011E Invalid state {0}.''"
| "error_text INVALID_TYPE = js ''AMQJS0012E Invalid type {0} for {1}.''"
| "error_text INVALID_ARGUMENT = js ''AMQJS0013E Invalid argument {0} for {1}.''"
| "error_text UNSUPPORTED_OPERATION = js ''AMQJS0014E Unsupported operation.''"
| "error_text INVALID_STORED_DATA =
     js ''AMQJS0015E Invalid data in local storage key={0} value={1}.''"
| "error_text INVALID_MQTT_MESSAGE_TYPE = js ''AMQJS0016E Invalid MQTT message type {0}.''"
| "error_text MALFORMED_UNICODE = js ''AMQJS0017E Malformed Unicode string:{0} {1}.''"
| "error_text BUFFER_FULL = js ''AMQJS0018E Message buffer is full, maximum buffer size: {0}.''"

definition CONNACK_RC :: "nat \<Rightarrow> js_string" where
  "CONNACK_RC rc =
     (if rc = 0 then js ''Connection Accepted''
      else if rc = 1 then js ''Connection Refused: unacceptable protocol version''
      else if rc = 2 then js ''Connection Refused: identifier rejected''
      else if rc = 3 then js ''Connection Refused: server unavailable''
      else if rc = 4 then js ''Connection Refused: bad user name or password''
      else if rc = 5 then js ''Connection Refused: not authorized''
      else js ''undefined'')"

subsection \<open>Formatting of error texts\<close>

text \<open>
  \<open>String.indexOf\<close>: the first position at which the pattern occurs, \<open>None\<close> for \<open>-1\<close>.
\<close>

fun indexOf :: "'a list \<Rightarrow> 'a list \<Rightarrow> nat option" where
  "indexOf s pat =
     (if take (length pat) s = pat then Some 0
      else case s of [] \<Rightarrow> None | _ # s' \<Rightarrow> map_option Suc (indexOf s' pat))"

declare indexOf.simps [simp del]

text \<open>The substitution values are given as the strings they are concatenated as.\<close>

fun format_from :: "nat \<Rightarrow> js_string \<Rightarrow> js_string list \<Rightarrow> js_string" where
  "format_from i text [] = text"
| "format_from i text (v # vs) =
     (let field = js ''{'' @ nat_str 10 i @ js ''}''
      in format_from (Suc i)
           (case indexOf text field of
              None \<Rightarrow> text
            | Some start \<Rightarrow>
                if 0 < start
                then take start text @ v @ drop (start + length field) text
                else text) vs)"

definition format :: "ERROR \<Rightarrow> js_string list \<Rightarrow> js_string" where
  "format error substitutions = format_from 0 (error_text error) substitutions"

abbreviation Error_of :: "ERROR \<Rightarrow> js_string list \<Rightarrow> js_exn" where
  "Error_of e vs \<equiv> Error (format e vs)"

section \<open>Validation of option objects\<close>

text \<open>
  An object is given by its own properties in order, each with the \<open>typeof\<close> of its value; the
  valid keys with the type each of them expects.
\<close>

type_synonym typed_props = "(js_string \<times> js_string) list"

definition unknown_property :: "js_string \<Rightarrow> typed_props \<Rightarrow> js_string" where
  "unknown_property key keys =
     js ''Unknown property, '' @ key @ js ''. Valid properties are:''
     @ concat (map (\<lambda>(k, _). js '' '' @ k) keys)"

fun validate :: "typed_props \<Rightarrow> typed_props \<Rightarrow> unit res" where
  "validate [] keys = Inr ()"
| "validate ((key, ty) # obj) keys =
     (case map_of keys key of
        Some expected \<Rightarrow>
          if ty \<noteq> expected then Inl (Error_of INVALID_TYPE [ty, key]) else validate obj keys
      | None \<Rightarrow> Inl (Error (unknown_property key keys)))"

lemma validate_ok_iff:
  "validate obj keys = Inr () \<longleftrightarrow> (\<forall>(key, ty) \<in> set obj. map_of keys key = Some ty)"
  by (induction obj) (auto split: option.splits if_splits)

text \<open>The first offending property decides the exception.\<close>

lemma validate_append:
  "validate (xs @ ys) keys = bind_res (validate xs keys) (\<lambda>_. validate ys keys)"
  by (induction xs) (auto split: option.splits if_splits)

section \<open>Protocol identifiers\<close>

definition MqttProtoIdentifierv3 :: "byte list" where
  "MqttProtoIdentifierv3 = [0x00, 0x06, 0x4d, 0x51, 0x49, 0x73, 0x64, 0x70, 0x03]"

definition MqttProtoIdentifierv4 :: "byte list" where
  "MqttProtoIdentifierv4 = [0x00, 0x04, 0x4d, 0x51, 0x54, 0x54, 0x04]"

lemma length_MqttProtoIdentifier [simp]:
  "length MqttProtoIdentifierv3 = 9"
  "length MqttProtoIdentifierv4 = 7"
  by (simp_all add: MqttProtoIdentifierv3_def MqttProtoIdentifierv4_def)

end
