(* ===== verification/Utf8.thy ===== *)
theory Utf8
  imports Paho_Base
begin

text \<open>
  The UTF-8 codec of \<open>paho-mqtt.js\<close>: \<open>UTF8Length\<close>, \<open>stringToUTF8\<close> and \<open>parseUTF8\<close>, between strings
  of UTF-16 code units and bytes.  The encoder writes into a buffer that the caller sized with
  \<open>UTF8Length\<close>; the lemmas show that for strings whose surrogates are paired it fills exactly that
  many bytes and that the decoder returns the string.
\<close>

section \<open>The code\<close>

definition high_surrogate :: "code_unit \<Rightarrow> bool" where
  "high_surrogate c = (0xD800 \<le> uint c \<and> uint c \<le> 0xDBFF)"

fun UTF8Length :: "js_string \<Rightarrow> nat" where
  "UTF8Length [] = 0"
| "UTF8Length (c # cs) =
     (let charCode = uint c in
      if charCode > 0x7FF then
        (if high_surrogate c
         then 4 + UTF8Length (drop 1 cs)
         else 3 + UTF8Length cs)
      else if charCode > 0x7F then 2 + UTF8Length cs
      else 1 + UTF8Length cs)"

text \<open>
  The bytes of one character code, each as the source computes it, before the store into the
  \<open>Uint8Array\<close> truncates it.
\<close>

definition utf8_bytes :: "int \<Rightarrow> int list" where
  "utf8_bytes charCode =
     (if charCode \<le> 0x7F then [charCode]
      else if charCode \<le> 0x7FF then
        [drop_bit 6 charCode AND 0x1F OR 0xC0,
         charCode AND 0x3F OR 0x80]
      else if charCode \<le> 0xFFFF then
        [drop_bit 12 charCode AND 0x0F OR 0xE0,
         drop_bit 6 charCode AND 0x3F OR 0x80,
         charCode AND 0x3F OR 0x80]
      else
        [drop_bit 18 charCode AND 0x07 OR 0xF0,
         drop_bit 12 charCode AND 0x3F OR 0x80,
         drop_bit 6 charCode AND 0x3F OR 0x80,
         charCode AND 0x3F OR 0x80])"

text \<open>\<open>output[pos++] = b\<close> for each byte in turn.\<close>

fun put_bytes :: "byte list \<Rightarrow> nat \<Rightarrow> int list \<Rightarrow> byte list \<times> nat" where
  "put_bytes output pos [] = (output, pos)"
| "put_bytes output pos (b # bs) = put_bytes (buf_put output pos b) (Suc pos) bs"

fun stringToUTF8 :: "js_string \<Rightarrow> byte list \<Rightarrow> nat \<Rightarrow> byte list res" where
  "stringToUTF8 [] output pos = Inr output"
| "stringToUTF8 (c # cs) output pos =
     (let charCode = uint c in
      if high_surrogate c then
        (case cs of
           [] \<Rightarrow> Inl (Error_of MALFORMED_UNICODE [int_str 10 charCode, js ''NaN''])
         | d # ds \<Rightarrow>
             let lowCharCode = uint d;
                 charCode = push_bit 10 (charCode - 0xD800) + (lowCharCode - 0xDC00) + 0x10000;
                 (output, pos) = put_bytes output pos (utf8_bytes charCode)
             in stringToUTF8 ds output pos)
      else
        let (output, pos) = put_bytes output pos (utf8_bytes charCode)
        in stringToUTF8 cs output pos)"

text \<open>
  Decoding.  A read past the end is \<open>undefined\<close>, so \<open>input[pos++] - 128\<close> is then \<open>NaN\<close> and all
  comparisons with it are false; \<open>String.fromCharCode(NaN)\<close> is the code unit 0.
\<close>

definition lt_num :: "int option \<Rightarrow> int \<Rightarrow> bool" where
  "lt_num x k = (case x of None \<Rightarrow> False | Some n \<Rightarrow> n < k)"

definition hex_num :: "int option \<Rightarrow> js_string" where
  "hex_num x = (case x of None \<Rightarrow> js ''NaN'' | Some n \<Rightarrow> int_str 16 n)"

definition cont_byte :: "byte list \<Rightarrow> nat \<Rightarrow> int option" where
  "cont_byte input pos = map_option (\<lambda>b. b - 128) (buf_get input pos)"

definition malformed :: "int option \<Rightarrow> js_string list \<Rightarrow> js_exn" where
  "malformed byte1 rest =
     (case byte1 of None \<Rightarrow> Type_error
      | Some b \<Rightarrow> Error_of MALFORMED_UTF (int_str 16 b # rest))"

definition emit_utf16 :: "int option \<Rightarrow> js_string" where
  "emit_utf16 utf16 =
     (case utf16 of
        None \<Rightarrow> [0]
      | Some u \<Rightarrow>
          if u > 0xFFFF
          then let v = u - 0x10000
               in [word_of_int (0xD800 + drop_bit 10 v), word_of_int (0xDC00 + (v AND 0x3FF))]
          else [word_of_int u])"

text \<open>One iteration of the loop: the code units emitted and the next position.\<close>

definition parse_char :: "byte list \<Rightarrow> nat \<Rightarrow> (js_string \<times> nat) res" where
  "parse_char input pos =
     (let byte1 = buf_get input pos in
      if lt_num byte1 128 then Inr (emit_utf16 byte1, pos + 1)
      else
        let byte2 = cont_byte input (pos + 1) in
        if lt_num byte2 0 then Inl (malformed byte1 [hex_num byte2, []])
        else if lt_num byte1 0xE0 then
          Inr (emit_utf16 (case (byte1, byte2) of
                 (Some b1, Some b2) \<Rightarrow> Some (64 * (b1 - 0xC0) + b2) | _ \<Rightarrow> None), pos + 2)
        else
          let byte3 = cont_byte input (pos + 2) in
          if lt_num byte3 0 then Inl (malformed byte1 [hex_num byte2, hex_num byte3])
          else if lt_num byte1 0xF0 then
            Inr (emit_utf16 (case (byte1, byte2, byte3) of
                   (Some b1, Some b2, Some b3) \<Rightarrow> Some (4096 * (b1 - 0xE0) + 64 * b2 + b3)
                 | _ \<Rightarrow> None), pos + 3)
          else
            let byte4 = cont_byte input (pos + 3) in
            if lt_num byte4 0
            then Inl (malformed byte1 [hex_num byte2, hex_num byte3, hex_num byte4])
            else if lt_num byte1 0xF8 then
              Inr (emit_utf16 (case (byte1, byte2, byte3, byte4) of
                     (Some b1, Some b2, Some b3, Some b4) \<Rightarrow>
                       Some (262144 * (b1 - 0xF0) + 4096 * b2 + 64 * b3 + b4)
                   | _ \<Rightarrow> None), pos + 4)
            else Inl (malformed byte1 [hex_num byte2, hex_num byte3, hex_num byte4]))"

lemma parse_char_progress: "parse_char input pos = Inr (u, pos') \<Longrightarrow> pos < pos'"
  by (auto simp: parse_char_def Let_def split: if_splits)

function parse_loop :: "byte list \<Rightarrow> nat \<Rightarrow> nat \<Rightarrow> js_string \<Rightarrow> js_string res" where
  "parse_loop input endp pos output =
     (if pos < endp then
        (case parse_char input pos of
           Inl e \<Rightarrow> Inl e
         | Inr (u, pos') \<Rightarrow> parse_loop input endp pos' (output @ u))
      else Inr output)"
  by pat_completeness auto
termination
  by (relation "measure (\<lambda>(input, endp, pos, output). endp - pos)")
     (auto dest!: parse_char_progress)

declare parse_loop.simps [simp del]

definition parseUTF8 :: "byte list \<Rightarrow> nat \<Rightarrow> nat \<Rightarrow> js_string res" where
  "parseUTF8 input offset len = parse_loop input (offset + len) offset []"

section \<open>The bytes of a character code\<close>

lemma utf8_bytes_arith:
  assumes "0 \<le> c" "c < 0x200000"
  shows "utf8_bytes c =
     (if c \<le> 0x7F then [c]
      else if c \<le> 0x7FF then [c div 64 + 192, c mod 64 + 128]
      else if c \<le> 0xFFFF then [c div 4096 + 224, c div 64 mod 64 + 128, c mod 64 + 128]
      else [c div 262144 + 240, c div 4096 mod 64 + 128, c div 64 mod 64 + 128, c mod 64 + 128])"
proof -
  have mask: "x AND 0x3F = x mod 64" "x AND 0x1F = x mod 32" "x AND 0x0F = x mod 16" "x AND 7 = x mod 8"
    for x :: int
    using and_mod [of x 6] and_mod [of x 5] and_mod [of x 4] and_mod [of x 3] by simp_all
  have tag: "x mod 64 OR 0x80 = x mod 64 + 128" "x mod 32 OR 0xC0 = x mod 32 + 192"
    "x mod 16 OR 0xE0 = x mod 16 + 224" "x mod 8 OR 0xF0 = x mod 8 + 240" for x :: int
    using mod_or [of x 6 2] mod_or [of x 5 6] mod_or [of x 4 14] mod_or [of x 3 30] by simp_all
  have shift: "drop_bit 6 c = c div 64" "drop_bit 12 c = c div 4096" "drop_bit 18 c = c div 262144"
    by (simp_all add: drop_bit_eq_div)
  have small: "c \<le> 0x7FF \<Longrightarrow> c div 64 mod 32 = c div 64" "c \<le> 0xFFFF \<Longrightarrow> c div 4096 mod 16 = c div 4096"
    "c div 262144 mod 8 = c div 262144"
    using assms by auto
  have lead: "c \<le> 0x7FF \<Longrightarrow> c div 64 OR 0xC0 = c div 64 + 192"
    "c \<le> 0xFFFF \<Longrightarrow> c div 4096 OR 0xE0 = c div 4096 + 224"
    "c div 262144 OR 0xF0 = c div 262144 + 240"
    using assms less_or [of "c div 64" 5 6] less_or [of "c div 4096" 4 14]
      less_or [of "c div 262144" 3 30] by simp_all
  show ?thesis
    by (simp add: utf8_bytes_def mask tag shift small lead)
qed

lemma utf8_bytes_nonempty: "utf8_bytes c \<noteq> []"
  by (simp add: utf8_bytes_def)

lemma put_bytes_at:
  "length bs \<le> length rs \<Longrightarrow>
   put_bytes (xs @ rs) (length xs) bs =
     (xs @ map word_of_int bs @ drop (length bs) rs, length xs + length bs)"
proof (induction bs arbitrary: xs rs)
  case Nil
  then show ?case by simp
next
  case (Cons b bs)
  then obtain r rs' where rs: "rs = r # rs'" by (cases rs) auto
  have "put_bytes (xs @ rs) (length xs) (b # bs)
      = put_bytes ((xs @ [word_of_int b]) @ rs') (length (xs @ [word_of_int b])) bs"
    by (simp add: rs)
  also have "\<dots> = ((xs @ [word_of_int b]) @ map word_of_int bs @ drop (length bs) rs',
      length (xs @ [word_of_int b]) + length bs)"
    using Cons.prems rs by (intro Cons.IH) simp
  finally show ?case by (simp add: rs)
qed

text \<open>The decoder reads back the bytes of one character code.\<close>

lemma parse_char_1:
  "buf_get input pos = Some b1 \<Longrightarrow> b1 < 128 \<Longrightarrow>
   parse_char input pos = Inr (emit_utf16 (Some b1), pos + 1)"
  by (simp add: parse_char_def lt_num_def)

lemma parse_char_2:
  "buf_get input pos = Some b1 \<Longrightarrow> buf_get input (pos + 1) = Some (b2 + 128) \<Longrightarrow>
   128 \<le> b1 \<Longrightarrow> b1 < 0xE0 \<Longrightarrow> 0 \<le> b2 \<Longrightarrow>
   parse_char input pos = Inr (emit_utf16 (Some (64 * (b1 - 0xC0) + b2)), pos + 2)"
  by (simp add: parse_char_def lt_num_def cont_byte_def Let_def)

lemma parse_char_3:
  "buf_get input pos = Some b1 \<Longrightarrow> buf_get input (pos + 1) = Some (b2 + 128) \<Longrightarrow>
   buf_get input (pos + 2) = Some (b3 + 128) \<Longrightarrow>
   0xE0 \<le> b1 \<Longrightarrow> b1 < 0xF0 \<Longrightarrow> 0 \<le> b2 \<Longrightarrow> 0 \<le> b3 \<Longrightarrow>
   parse_char input pos = Inr (emit_utf16 (Some (4096 * (b1 - 0xE0) + 64 * b2 + b3)), pos + 3)"
  by (simp add: parse_char_def lt_num_def cont_byte_def Let_def)

lemma parse_char_4:
  "buf_get input pos = Some b1 \<Longrightarrow> buf_get input (pos + 1) = Some (b2 + 128) \<Longrightarrow>
   buf_get input (pos + 2) = Some (b3 + 128) \<Longrightarrow> buf_get input (pos + 3) = Some (b4 + 128) \<Longrightarrow>
   0xF0 \<le> b1 \<Longrightarrow> b1 < 0xF8 \<Longrightarrow> 0 \<le> b2 \<Longrightarrow> 0 \<le> b3 \<Longrightarrow> 0 \<le> b4 \<Longrightarrow>
   parse_char input pos
     = Inr (emit_utf16 (Some (262144 * (b1 - 0xF0) + 4096 * b2 + 64 * b3 + b4)), pos + 4)"
  by (simp add: parse_char_def lt_num_def cont_byte_def Let_def)

text \<open>The digits of a number in base 64.\<close>

lemma base64_3: "4096 * (c div 4096) + 64 * (c div 64 mod 64) + c mod 64 = (c :: int)"
proof -
  have "c div 4096 = c div 64 div 64" by (simp flip: div_mult2_eq)
  then show ?thesis
    using div_mult_mod_eq [of c 64] div_mult_mod_eq [of "c div 64" 64] by linarith
qed

lemma base64_4:
  "262144 * (c div 262144) + 4096 * (c div 4096 mod 64) + 64 * (c div 64 mod 64) + c mod 64 = (c :: int)"
proof -
  have "c div 262144 = c div 4096 div 64" by (simp flip: div_mult2_eq)
  then show ?thesis
    using base64_3 [of c] div_mult_mod_eq [of "c div 4096" 64] by linarith
qed

lemma parse_char_utf8_bytes:
  assumes "0 \<le> c" "c < 0x110000"
  shows "parse_char (xs @ map word_of_int (utf8_bytes c) @ ys) (length xs)
     = Inr (emit_utf16 (Some c), length xs + length (utf8_bytes c))"
proof -
  let ?in = "xs @ map word_of_int (utf8_bytes c) @ ys"
  have get: "i < length (utf8_bytes c) \<Longrightarrow> buf_get ?in (length xs + i) = Some (utf8_bytes c ! i mod 256)" for i
    by (simp add: nth_append)
  note get0 = get [of 0, simplified] and get1 = get [of 1] and get2 = get [of 2] and get3 = get [of 3]
  note arith = utf8_bytes_arith [of c]
  consider (one) "c \<le> 0x7F" | (two) "0x7F < c" "c \<le> 0x7FF" | (three) "0x7FF < c" "c \<le> 0xFFFF"
    | (four) "0xFFFF < c" by linarith
  then show ?thesis
  proof cases
    case one
    then have eq: "utf8_bytes c = [c]" using assms arith by simp
    then have "buf_get ?in (length xs) = Some c" using get0 one assms by simp
    from parse_char_1 [OF this] one show ?thesis by (simp add: eq)
  next
    case two
    then have eq: "utf8_bytes c = [c div 64 + 192, c mod 64 + 128]" using assms arith by simp
    have lead: "c div 64 < 32" "2 \<le> c div 64" using two by linarith+
    have "buf_get ?in (length xs) = Some (c div 64 + 192)" using get0 lead by (simp add: eq)
    moreover have "buf_get ?in (length xs + 1) = Some (c mod 64 + 128)" using get1 by (simp add: eq)
    ultimately have "parse_char ?in (length xs)
        = Inr (emit_utf16 (Some (64 * (c div 64 + 192 - 0xC0) + c mod 64)), length xs + 2)"
      by (rule parse_char_2) (use lead in simp_all)
    then show ?thesis by (simp add: eq)
  next
    case three
    then have eq: "utf8_bytes c = [c div 4096 + 224, c div 64 mod 64 + 128, c mod 64 + 128]"
      using assms arith by simp
    have lead: "c div 4096 < 16" "0 \<le> c div 4096" using three by linarith+
    have "buf_get ?in (length xs) = Some (c div 4096 + 224)" using get0 lead by (simp add: eq)
    moreover have "buf_get ?in (length xs + 1) = Some (c div 64 mod 64 + 128)" using get1 by (simp add: eq)
    moreover have "buf_get ?in (length xs + 2) = Some (c mod 64 + 128)" using get2 by (simp add: eq)
    ultimately have "parse_char ?in (length xs)
        = Inr (emit_utf16 (Some (4096 * (c div 4096 + 224 - 0xE0) + 64 * (c div 64 mod 64) + c mod 64)),
               length xs + 3)"
      by (rule parse_char_3) (use lead in simp_all)
    then show ?thesis using base64_3 [of c] by (simp add: eq)
  next
    case four
    then have eq: "utf8_bytes c = [c div 262144 + 240, c div 4096 mod 64 + 128, c div 64 mod 64 + 128,
        c mod 64 + 128]"
      using assms arith by simp
    have lead: "c div 262144 < 8" "0 \<le> c div 262144" using four assms by linarith+
    have "buf_get ?in (length xs) = Some (c div 262144 + 240)" using get0 lead by (simp add: eq)
    moreover have "buf_get ?in (length xs + 1) = Some (c div 4096 mod 64 + 128)" using get1 by (simp add: eq)
    moreover have "buf_get ?in (length xs + 2) = Some (c div 64 mod 64 + 128)" using get2 by (simp add: eq)
    moreover have "buf_get ?in (length xs + 3) = Some (c mod 64 + 128)" using get3 by (simp add: eq)
    ultimately have "parse_char ?in (length xs)
        = Inr (emit_utf16 (Some (262144 * (c div 262144 + 240 - 0xF0) + 4096 * (c div 4096 mod 64)
            + 64 * (c div 64 mod 64) + c mod 64)), length xs + 4)"
      by (rule parse_char_4) (use lead in simp_all)
    then show ?thesis using base64_4 [of c] by (simp add: eq)
  qed
qed

section \<open>Strings\<close>

definition low_surrogate :: "code_unit \<Rightarrow> bool" where
  "low_surrogate c = (0xDC00 \<le> uint c \<and> uint c \<le> 0xDFFF)"

text \<open>Every high surrogate is followed by a low one, as in a string of Unicode characters.\<close>

fun paired :: "js_string \<Rightarrow> bool" where
  "paired [] = True"
| "paired (c # cs) =
     (if high_surrogate c then (case cs of [] \<Rightarrow> False | d # ds \<Rightarrow> low_surrogate d \<and> paired ds)
      else paired cs)"

definition code_point :: "code_unit \<Rightarrow> code_unit \<Rightarrow> int" where
  "code_point c d = push_bit 10 (uint c - 0xD800) + (uint d - 0xDC00) + 0x10000"

text \<open>The reference encoding: the bytes of each character code, one after the other.\<close>

fun utf8 :: "js_string \<Rightarrow> byte list" where
  "utf8 [] = []"
| "utf8 (c # cs) =
     (if high_surrogate c then
        (case cs of [] \<Rightarrow> []
         | d # ds \<Rightarrow> map word_of_int (utf8_bytes (code_point c d)) @ utf8 ds)
      else map word_of_int (utf8_bytes (uint c)) @ utf8 cs)"

lemma code_point_arith: "code_point c d = (uint c - 0xD800) * 1024 + (uint d - 0xDC00) + 0x10000"
  by (simp add: code_point_def push_bit_eq_mult)

lemma code_point_range:
  "high_surrogate c \<Longrightarrow> low_surrogate d \<Longrightarrow> 0x10000 \<le> code_point c d \<and> code_point c d < 0x110000"
  by (simp add: code_point_arith high_surrogate_def low_surrogate_def)

lemma length_utf8_bytes:
  "length (utf8_bytes c) = (if c \<le> 0x7F then 1 else if c \<le> 0x7FF then 2 else if c \<le> 0xFFFF then 3 else 4)"
  by (simp add: utf8_bytes_def)

lemma high_surrogate_big: "high_surrogate c \<Longrightarrow> 0x7FF < uint c"
  by (simp add: high_surrogate_def)

lemma length_utf8: "paired s \<Longrightarrow> length (utf8 s) = UTF8Length s"
proof (induction s rule: utf8.induct)
  case 1
  then show ?case by simp
next
  case (2 c cs)
  show ?case
  proof (cases "high_surrogate c")
    case True
    with 2 obtain d ds where "cs = d # ds" "low_surrogate d" "paired ds" by (auto split: list.splits)
    with 2 True code_point_range [of c d] show ?thesis
      by (simp add: length_utf8_bytes high_surrogate_big Let_def)
  next
    case False
    moreover have "uint c \<le> 65535" using word16_lt [of c] by linarith
    ultimately show ?thesis using 2 by (simp add: length_utf8_bytes Let_def)
  qed
qed

text \<open>Writing at the border of the filled part of a buffer with room for the encoding.\<close>

lemma stringToUTF8_at:
  "paired s \<Longrightarrow> length (utf8 s) \<le> length rs \<Longrightarrow>
   stringToUTF8 s (xs @ rs) (length xs) = Inr (xs @ utf8 s @ drop (length (utf8 s)) rs)"
proof (induction s arbitrary: xs rs rule: utf8.induct)
  case 1
  then show ?case by simp
next
  case (2 c cs)
  show ?case
  proof (cases "high_surrogate c")
    case True
    with 2(3) obtain d ds where cs: "cs = d # ds" and "paired ds" by (auto split: list.splits)
    let ?b = "utf8_bytes (code_point c d)"
    have room: "length ?b \<le> length rs" "length (utf8 ds) \<le> length (drop (length ?b) rs)"
      using 2(4) True cs by simp_all
    have "stringToUTF8 (c # cs) (xs @ rs) (length xs)
        = stringToUTF8 ds ((xs @ map word_of_int ?b) @ drop (length ?b) rs) (length (xs @ map word_of_int ?b))"
      using True room(1) by (simp add: cs put_bytes_at code_point_def Let_def)
    also have "\<dots> = Inr ((xs @ map word_of_int ?b) @ utf8 ds @ drop (length (utf8 ds)) (drop (length ?b) rs))"
      using True cs \<open>paired ds\<close> room(2) by (intro 2(1)) auto
    finally show ?thesis using True by (simp add: cs add.commute)
  next
    case False
    let ?b = "utf8_bytes (uint c)"
    have room: "length ?b \<le> length rs" "length (utf8 cs) \<le> length (drop (length ?b) rs)"
      using 2(4) False by simp_all
    have "stringToUTF8 (c # cs) (xs @ rs) (length xs)
        = stringToUTF8 cs ((xs @ map word_of_int ?b) @ drop (length ?b) rs) (length (xs @ map word_of_int ?b))"
      using False room(1) by (simp add: put_bytes_at Let_def)
    also have "\<dots> = Inr ((xs @ map word_of_int ?b) @ utf8 cs @ drop (length (utf8 cs)) (drop (length ?b) rs))"
      using False 2(3) room(2) by (intro 2(2)) auto
    finally show ?thesis using False by (simp add: add.commute)
  qed
qed

lemma emit_utf16_unit: "emit_utf16 (Some (uint c)) = [c]"
proof -
  have "\<not> 0xFFFF < uint c" using word16_lt [of c] by linarith
  then show ?thesis by (simp add: emit_utf16_def)
qed

lemma emit_utf16_pair:
  assumes "high_surrogate c" "low_surrogate d"
  shows "emit_utf16 (Some (code_point c d)) = [c, d]"
proof -
  define h l where "h = uint c - 0xD800" and "l = uint d - 0xDC00"
  have v: "code_point c d - 0x10000 = h * 1024 + l"
    by (simp add: code_point_arith h_def l_def)
  have l: "0 \<le> l" "l < 1024" using assms(2) by (auto simp: low_surrogate_def l_def)
  have "drop_bit 10 (h * 1024 + l) = h" "(h * 1024 + l) AND 0x3FF = l"
    using l and_mod [of "h * 1024 + l" 10] by (simp_all add: drop_bit_eq_div)
  then have "drop_bit 10 (code_point c d - 0x10000) = uint c - 0xD800"
    "(code_point c d - 0x10000) AND 0x3FF = uint d - 0xDC00"
    by (simp_all only: v) (simp_all add: h_def l_def)
  with code_point_range [OF assms] show ?thesis
    by (simp add: emit_utf16_def Let_def)
qed

lemma parse_loop_utf8:
  "paired s \<Longrightarrow>
   parse_loop (xs @ utf8 s @ ys) (length xs + length (utf8 s)) (length xs) out = Inr (out @ s)"
proof (induction s arbitrary: xs out rule: utf8.induct)
  case 1
  then show ?case by (simp add: parse_loop.simps)
next
  case (2 c cs)
  show ?case
  proof (cases "high_surrogate c")
    case True
    with 2(3) obtain d ds where cs: "cs = d # ds" and d: "low_surrogate d" "paired ds"
      by (auto split: list.splits)
    let ?b = "utf8_bytes (code_point c d)"
    let ?xs = "xs @ map word_of_int ?b"
    have "parse_loop (xs @ utf8 (c # cs) @ ys) (length xs + length (utf8 (c # cs))) (length xs) out
        = parse_loop (?xs @ utf8 ds @ ys) (length ?xs + length (utf8 ds)) (length ?xs) (out @ [c, d])"
      using True parse_char_utf8_bytes [of "code_point c d" xs "utf8 ds @ ys"] code_point_range [OF True d(1)]
      by (simp add: cs parse_loop.simps [of _ _ "length xs"] utf8_bytes_nonempty emit_utf16_pair [OF True d(1)]
          add.assoc)
    also have "\<dots> = Inr ((out @ [c, d]) @ ds)"
      using True cs d by (intro 2(1)) auto
    finally show ?thesis by (simp add: cs)
  next
    case False
    let ?b = "utf8_bytes (uint c)"
    let ?xs = "xs @ map word_of_int ?b"
    have range: "0 \<le> uint c" by simp
    have range': "uint c < 0x110000" using word16_lt [of c] by linarith
    have "parse_loop (xs @ utf8 (c # cs) @ ys) (length xs + length (utf8 (c # cs))) (length xs) out
        = parse_loop (?xs @ utf8 cs @ ys) (length ?xs + length (utf8 cs)) (length ?xs) (out @ [c])"
      using False parse_char_utf8_bytes [of "uint c" xs "utf8 cs @ ys", OF range range']
      by (simp add: parse_loop.simps [of _ _ "length xs"] utf8_bytes_nonempty emit_utf16_unit add.assoc)
    also have "\<dots> = Inr ((out @ [c]) @ cs)"
      using False 2(3) by (intro 2(2)) auto
    finally show ?thesis by simp
  qed
qed

lemma parseUTF8_utf8:
  "paired s \<Longrightarrow> pos = length xs \<Longrightarrow> n = length (utf8 s) \<Longrightarrow> parseUTF8 (xs @ utf8 s @ ys) pos n = Inr s"
  by (simp add: parseUTF8_def parse_loop_utf8)

section \<open>Properties\<close>

text \<open>Property C36.  A string whose surrogates are paired is encoded into exactly \<open>UTF8Length\<close> bytes of a
  buffer of that size, without an exception, and decoding those bytes gives the string back.\<close>

theorem utf8_round_trip:
  assumes "paired s"
  shows "\<exists>bytes. stringToUTF8 s (replicate (UTF8Length s) 0) 0 = Inr bytes
    \<and> length bytes = UTF8Length s \<and> parseUTF8 bytes 0 (length bytes) = Inr s"
proof -
  have "stringToUTF8 s (replicate (UTF8Length s) 0) 0 = Inr (utf8 s)"
    using stringToUTF8_at [of s "replicate (UTF8Length s) 0" "[]"] assms by (simp add: length_utf8)
  then show ?thesis
    using parseUTF8_utf8 [OF assms, of 0 "[]" "length (utf8 s)" "[]"] length_utf8 [OF assms] by auto
qed

theorem utf8_round_trip_witness:
  "\<exists>bytes. stringToUTF8 [0x41, 0xE9, 0x20AC, 0xD83D, 0xDE00] (replicate 10 0) 0 = Inr bytes
    \<and> length bytes = 10 \<and> parseUTF8 bytes 0 (length bytes) = Inr [0x41, 0xE9, 0x20AC, 0xD83D, 0xDE00]"
proof -
  have p: "paired [0x41, 0xE9, 0x20AC, 0xD83D, 0xDE00]"
    by (simp add: high_surrogate_def low_surrogate_def)
  have len: "UTF8Length [0x41, 0xE9, 0x20AC, 0xD83D, 0xDE00] = 10"
    by (simp add: high_surrogate_def)
  from utf8_round_trip [OF p] show ?thesis by (simp only: len)
qed

text \<open>
  The scan of \<open>stringToUTF8\<close> skips the unit after a high surrogate; \<open>dangling\<close> says that it arrives
  at a high surrogate with nothing after it.
\<close>

fun dangling :: "js_string \<Rightarrow> bool" where
  "dangling [] = False"
| "dangling (c # cs) =
     (if high_surrogate c then (case cs of [] \<Rightarrow> True | d # ds \<Rightarrow> dangling ds) else dangling cs)"

lemma paired_not_dangling: "paired s \<Longrightarrow> \<not> dangling s"
  by (induction s rule: dangling.induct) (auto split: list.splits if_splits)

text \<open>The number of high surrogates at the end of a string.\<close>

definition final_highs :: "js_string \<Rightarrow> nat" where
  "final_highs s = length (takeWhile high_surrogate (rev s))"

lemma final_highs_Cons:
  "final_highs (c # cs) = (if high_surrogate c \<and> (\<forall>d \<in> set cs. high_surrogate d) then Suc (length cs) else final_highs cs)"
proof (cases "\<forall>d \<in> set cs. high_surrogate d")
  case True
  then have "takeWhile high_surrogate (rev cs) = rev cs" by (simp add: takeWhile_eq_all_conv)
  from arg_cong [OF this, of length] have "length (takeWhile high_surrogate (rev cs)) = length cs" by simp
  then show ?thesis using True by (simp add: final_highs_def takeWhile_append)
qed (auto simp: final_highs_def takeWhile_append)

lemma final_highs_all: "\<forall>d \<in> set cs. high_surrogate d \<Longrightarrow> final_highs cs = length cs"
  by (simp add: final_highs_def takeWhile_eq_all_conv [THEN iffD2])

lemma dangling_final_highs: "dangling s \<longleftrightarrow> odd (final_highs s)"
proof (induction s rule: dangling.induct)
  case (2 c cs)
  show ?case
  proof (cases "high_surrogate c")
    case False
    then show ?thesis using 2(2) by (simp add: final_highs_Cons)
  next
    case high: True
    show ?thesis
    proof (cases cs)
      case Nil
      then show ?thesis using high by (simp add: final_highs_def)
    next
      case (Cons d ds)
      then have "dangling (c # cs) = odd (final_highs ds)" using 2(1) high by simp
      then show ?thesis using Cons high by (auto simp: final_highs_Cons final_highs_all)
    qed
  qed
qed (simp add: final_highs_def)

lemma encoding_fails_dangling:
  "case stringToUTF8 s buf pos of
     Inl e \<Rightarrow> dangling s \<and> (\<exists>vs. e = Error_of MALFORMED_UNICODE vs)
   | Inr bytes \<Rightarrow> \<not> dangling s \<and> length bytes = length buf"
proof (induction s arbitrary: buf pos rule: utf8.induct)
  case 1
  then show ?case by simp
next
  case (2 c cs)
  have len: "length (fst (put_bytes b p bs)) = length b" for b p bs
    by (induction b p bs rule: put_bytes.induct) auto
  show ?case
  proof (cases "high_surrogate c")
    case True
    show ?thesis
    proof (cases cs)
      case Nil
      then show ?thesis using True by auto
    next
      case (Cons d ds)
      let ?r = "put_bytes buf pos (utf8_bytes (code_point c d))"
      show ?thesis
        using 2(1) [OF True Cons, of "fst ?r" "snd ?r"] True Cons len
        by (simp add: Let_def case_prod_beta code_point_def split: sum.splits)
    qed
  next
    case False
    let ?r = "put_bytes buf pos (utf8_bytes (uint c))"
    show ?thesis
      using 2(2) [OF False, of "fst ?r" "snd ?r"] False len
      by (simp add: Let_def case_prod_beta split: sum.splits)
  qed
qed

text \<open>
  Property C39.  When encoding fails: exactly when the string ends in an odd number of high surrogates,
  and then with \<open>MALFORMED_UNICODE\<close>; otherwise it writes into the buffer and keeps its size.  A high
  surrogate in front of anything else is combined with what follows, so an even number of them at the
  end passes, and so does an unpaired one inside the string.
\<close>

theorem stringToUTF8_result:
  "case stringToUTF8 s buf pos of
     Inl e \<Rightarrow> odd (length (takeWhile high_surrogate (rev s))) \<and> (\<exists>vs. e = Error_of MALFORMED_UNICODE vs)
   | Inr bytes \<Rightarrow> even (length (takeWhile high_surrogate (rev s))) \<and> length bytes = length buf"
  using encoding_fails_dangling [of s buf pos]
  by (simp add: dangling_final_highs final_highs_def split: sum.splits)

end
