(* ===== verification/Mbi.thy ===== *)
theory Mbi
  imports Utf8
begin

text \<open>
  The integers of the wire format: \<open>writeUint16\<close>, \<open>readUint16\<close>, \<open>writeString\<close>, the encoding of the
  remaining length (\<open>encodeMBI\<close>) and the loop of \<open>decodeMessage\<close> that decodes it.  A write goes
  through a cursor, the pair of the buffer and the position at which the next byte goes.  The multiplier
  and the length of the decoding loop are unbounded integers, where the program has doubles: they agree
  up to seven bytes, which is more than the four of a length that is well formed.
\<close>

type_synonym cursor = "byte list \<times> nat"

section \<open>Two-byte integers\<close>

text \<open>The remainder operator keeps the sign of the dividend.\<close>

definition js_rem :: "int \<Rightarrow> int \<Rightarrow> int" where
  "js_rem a b = sgn a * (\<bar>a\<bar> mod \<bar>b\<bar>)"

definition put_byte :: "int \<Rightarrow> cursor \<Rightarrow> cursor" where
  "put_byte v c = (buf_put (fst c) (snd c) v, snd c + 1)"

definition writeUint16 :: "js_num \<Rightarrow> cursor \<Rightarrow> cursor" where
  "writeUint16 input c =
     put_byte (case input of NaN \<Rightarrow> 0 | Num n \<Rightarrow> js_rem n 256)
       (put_byte (case input of NaN \<Rightarrow> 0 | Num n \<Rightarrow> drop_bit 8 (to_int32 n)) c)"

definition readUint16 :: "byte list \<Rightarrow> nat \<Rightarrow> js_num" where
  "readUint16 buffer offset =
     (case (buf_get buffer offset, buf_get buffer (offset + 1)) of
        (Some a, Some b) \<Rightarrow> Num (256 * a + b)
      | _ \<Rightarrow> NaN)"

definition writeString :: "js_string \<Rightarrow> nat \<Rightarrow> cursor \<Rightarrow> cursor res" where
  "writeString input utf8Length c =
     (let (buffer, offset) = writeUint16 (Num (int utf8Length)) c
      in bind_res (stringToUTF8 input buffer offset) (\<lambda>buffer. Inr (buffer, offset + utf8Length)))"

text \<open>\<open>byteStream.set(src, pos); pos += src.length\<close>\<close>

definition put_array :: "byte list \<Rightarrow> cursor \<Rightarrow> cursor res" where
  "put_array src c = bind_res (buf_set (fst c) src (snd c)) (\<lambda>b. Inr (b, snd c + length src))"

section \<open>The remaining length\<close>

function encodeMBI_loop :: "nat \<Rightarrow> int \<Rightarrow> int list" where
  "encodeMBI_loop numBytes number =
     (let digit = js_rem number 128;
          number = drop_bit 7 (to_int32 number);
          digit = (if number > 0 then digit OR 0x80 else digit)
      in digit # (if number > 0 \<and> Suc numBytes < 4 then encodeMBI_loop (Suc numBytes) number else []))"
  by pat_completeness auto
termination
  by (relation "measure (\<lambda>(numBytes, number). 4 - numBytes)") auto

declare encodeMBI_loop.simps [simp del]

definition encodeMBI :: "int \<Rightarrow> byte list" where
  "encodeMBI number = map word_of_int (encodeMBI_loop 0 number)"

text \<open>
  The decoding loop: \<open>None\<close> when the input ends first, otherwise the value and the position after
  it.  The loop starts inside the input, so its test \<open>pos == input.length\<close> and the test \<open>\<ge>\<close> agree.
\<close>

function decodeMBI :: "byte list \<Rightarrow> nat \<Rightarrow> int \<Rightarrow> int \<Rightarrow> (int \<times> nat) option" where
  "decodeMBI input pos remLength multiplier =
     (if length input \<le> pos then None
      else
        let digit = uint (input ! pos);
            remLength = remLength + (digit AND 0x7F) * multiplier
        in if digit AND 0x80 \<noteq> 0 then decodeMBI input (Suc pos) remLength (multiplier * 128)
           else Some (remLength, Suc pos))"
  by pat_completeness auto
termination
  by (relation "measure (\<lambda>(input, pos, _). length input - pos)") auto

declare decodeMBI.simps [simp del]

section \<open>Cursors at the border of the filled part\<close>

text \<open>\<open>cur d k\<close>: the bytes \<open>d\<close> have been written and \<open>k\<close> zero bytes are left.\<close>

definition cur :: "byte list \<Rightarrow> nat \<Rightarrow> cursor" where
  "cur d k = (d @ replicate k 0, length d)"

definition u16 :: "js_num \<Rightarrow> byte list" where
  "u16 v = [word_of_int (case v of NaN \<Rightarrow> 0 | Num n \<Rightarrow> drop_bit 8 (to_int32 n)),
            word_of_int (case v of NaN \<Rightarrow> 0 | Num n \<Rightarrow> js_rem n 256)]"

definition mqtt_string :: "js_string \<Rightarrow> byte list" where
  "mqtt_string s = u16 (Num (int (UTF8Length s))) @ utf8 s"

lemma length_u16 [simp]: "length (u16 v) = 2"
  by (simp add: u16_def)

lemma length_mqtt_string [simp]: "paired s \<Longrightarrow> length (mqtt_string s) = UTF8Length s + 2"
  by (simp add: mqtt_string_def length_utf8)

lemma fst_cur [simp]: "fst (cur d k) = d @ replicate k 0" and snd_cur [simp]: "snd (cur d k) = length d"
  by (simp_all add: cur_def)

lemma put_byte_cur: "0 < k \<Longrightarrow> put_byte v (cur d k) = cur (d @ [word_of_int v]) (k - 1)"
  by (cases k) (simp_all add: put_byte_def cur_def)

lemma writeUint16_cur: "2 \<le> k \<Longrightarrow> writeUint16 v (cur d k) = cur (d @ u16 v) (k - 2)"
  by (simp add: writeUint16_def put_byte_cur u16_def numeral_2_eq_2)

lemma put_array_cur: "length src \<le> k \<Longrightarrow> put_array src (cur d k) = Inr (cur (d @ src) (k - length src))"
  by (simp add: put_array_def buf_set_at cur_def)

lemma writeString_cur:
  assumes "paired s" and "UTF8Length s + 2 \<le> k"
  shows "writeString s (UTF8Length s) (cur d k) = Inr (cur (d @ mqtt_string s) (k - (UTF8Length s + 2)))"
proof -
  let ?d = "d @ u16 (Num (int (UTF8Length s)))"
  have "stringToUTF8 s (?d @ replicate (k - 2) 0) (length ?d)
      = Inr (?d @ utf8 s @ drop (length (utf8 s)) (replicate (k - 2) 0))"
    using assms by (intro stringToUTF8_at) (simp_all add: length_utf8)
  then show ?thesis
    using assms by (simp add: writeString_def writeUint16_cur)
      (simp add: cur_def mqtt_string_def length_utf8 diff_diff_left)
qed

lemmas cur_simps = put_byte_cur writeUint16_cur put_array_cur writeString_cur

section \<open>Reading back\<close>

lemma readUint16_u16:
  assumes "0 \<le> n" "n < 65536" and "pos = length xs"
  shows "readUint16 (xs @ u16 (Num n) @ ys) pos = Num n"
proof -
  have "to_int32 n = n" using assms by (intro to_int32_id) auto
  moreover have "n div 256 mod 256 = n div 256" using assms by simp
  moreover have "js_rem n 256 = n mod 256" using assms by (cases "n = 0") (auto simp: js_rem_def)
  ultimately show ?thesis
    using assms by (simp add: readUint16_def u16_def buf_get_def nth_append drop_bit_eq_div)
qed

lemma readUint16_range:
  assumes "readUint16 b p = Num n"
  shows "0 \<le> n \<and> n < 65536"
proof -
  have "uint (x :: byte) \<le> 255" for x using word8_lt [of x] by linarith
  from this [of "b ! p"] this [of "b ! Suc p"] show ?thesis
    using assms by (auto simp: readUint16_def buf_get_def split: if_splits)
qed

lemma readUint16_in: "pos + 1 < length b \<Longrightarrow> readUint16 b pos \<noteq> NaN"
  by (simp add: readUint16_def)

lemma and_0x80: "0 \<le> d \<Longrightarrow> d < 256 \<Longrightarrow> (d AND 0x80 \<noteq> 0) = (128 \<le> (d :: int))"
proof -
  assume "0 \<le> d" "d < 256"
  have "(d AND 128 = 0) = even (d div 128)"
    using and_exp_eq_0_iff_not_bit [of d 7] by (simp add: bit_iff_odd)
  moreover have "even (d div 128) = (d < 128)"
    using \<open>0 \<le> d\<close> \<open>d < 256\<close> by presburger
  ultimately show ?thesis by auto
qed

lemma and_0x7F: "d AND 0x7F = d mod (128 :: int)"
  using and_mod [of d 7] by simp

text \<open>One round of the encoder on a number in range.\<close>

lemma encodeMBI_loop_in_range:
  assumes "0 \<le> n" "n < 2 ^ 31"
  shows "encodeMBI_loop k n =
    (if n < 128 then [n]
     else (n mod 128 + 128) # (if Suc k < 4 then encodeMBI_loop (Suc k) (n div 128) else []))"
proof -
  have "to_int32 n = n" using assms by (intro to_int32_id)
  moreover have "js_rem n 128 = n mod 128" using assms by (cases "n = 0") (auto simp: js_rem_def)
  moreover have "n mod 128 OR 0x80 = n mod 128 + 128" using mod_or [of n 7 1] by simp
  moreover have "(0 < n div 128) = (\<not> n < 128)" using assms by presburger
  ultimately show ?thesis
    using assms by (subst encodeMBI_loop.simps) (simp add: drop_bit_eq_div Let_def)
qed

lemma decodeMBI_encode:
  assumes "k < 4" "0 \<le> n" "n < 128 ^ (4 - k)"
  shows "decodeMBI (xs @ map word_of_int (encodeMBI_loop k n) @ ys) (length xs) r m
     = Some (r + n * m, length xs + length (encodeMBI_loop k n))"
  using assms
proof (induction "4 - k" arbitrary: k n xs r m)
  case 0
  then show ?case by simp
next
  case (Suc j)
  have "(128 :: int) ^ (4 - k) \<le> 128 ^ 4" by (intro power_increasing) auto
  with Suc.prems have n: "0 \<le> n" "n < 2 ^ 31" by simp_all
  show ?case
  proof (cases "n < 128")
    case True
    then show ?thesis
      using n by (simp add: encodeMBI_loop_in_range [OF n] decodeMBI.simps [of _ "length xs"] and_0x80 and_0x7F)
  next
    case False
    have "Suc k < 4"
    proof (rule ccontr)
      assume "\<not> Suc k < 4"
      with Suc.prems have "4 - k = 1" by simp
      with Suc.prems False show False by simp
    qed
    moreover have "n div 128 < 128 ^ (4 - Suc k)"
    proof -
      have "4 - k = Suc (4 - Suc k)" using \<open>Suc k < 4\<close> by simp
      with Suc.prems(3) have "n < 128 * 128 ^ (4 - Suc k)" by (simp only: power_Suc)
      then show ?thesis by linarith
    qed
    moreover define b :: byte where "b = word_of_int (n mod 128 + 128)"
    ultimately have IH: "decodeMBI ((xs @ [b]) @ map word_of_int (encodeMBI_loop (Suc k) (n div 128)) @ ys)
        (length (xs @ [b])) (r + n mod 128 * m) (m * 128)
      = Some (r + n mod 128 * m + n div 128 * (m * 128),
          length (xs @ [b]) + length (encodeMBI_loop (Suc k) (n div 128)))"
      using Suc.hyps(2) n by (intro Suc.hyps(1)) auto
    have "a * m + q * (m * 128) = (q * 128 + a) * m" for a q :: int
      by (simp add: algebra_simps)
    from this [of "n mod 128" "n div 128"]
    have val: "r + n mod 128 * m + n div 128 * (m * 128) = r + n * m" by simp
    have low: "(n mod 128 + 128) mod 256 = n mod 128 + 128"
      by (simp add: mod_pos_pos_trivial)
    have ub: "uint b = n mod 128 + 128"
      by (simp only: b_def uint_word_of_int_8 low)
    have enc: "map word_of_int (encodeMBI_loop k n)
        = b # map word_of_int (encodeMBI_loop (Suc k) (n div 128))"
      "length (encodeMBI_loop k n) = Suc (length (encodeMBI_loop (Suc k) (n div 128)))"
      using False \<open>Suc k < 4\<close> by (simp_all add: encodeMBI_loop_in_range [OF n] b_def)
    show ?thesis
      using IH by (simp add: enc decodeMBI.simps [of _ "length xs"] and_0x80 and_0x7F ub val Let_def)
  qed
qed

lemma decodeMBI_progress: "decodeMBI input pos r m = Some (n, p) \<Longrightarrow> pos < p \<and> p \<le> length input"
proof (induction input pos r m rule: decodeMBI.induct)
  case (1 input pos r m)
  from "1.prems" show ?case
    using "1.IH" [OF _ refl refl]
    by (auto simp: decodeMBI.simps [of input pos r m] Let_def split: if_splits)
qed

lemma encodeMBI_decode:
  assumes "0 \<le> n" "n < 2 ^ 28" "pos = length xs"
  shows "decodeMBI (xs @ encodeMBI n @ ys) pos 0 1 = Some (n, pos + length (encodeMBI n))"
  using decodeMBI_encode [of 0 n xs ys 0 1] assms by (simp add: encodeMBI_def)

lemma length_encodeMBI_loop: "k < 4 \<Longrightarrow> 0 < length (encodeMBI_loop k n) \<and> length (encodeMBI_loop k n) \<le> 4 - k"
proof (induction k n rule: encodeMBI_loop.induct)
  case (1 k n)
  show ?case
  proof (cases "Suc k < 4")
    case True
    then show ?thesis
      using "1.IH" [OF refl refl refl]
      by (subst (1 2) encodeMBI_loop.simps) (auto simp: Let_def)
  next
    case False
    with "1.prems" show ?thesis
      by (subst (1 2) encodeMBI_loop.simps) (auto simp: Let_def)
  qed
qed

section \<open>Properties\<close>

text \<open>Property C38.  The remaining length of a packet takes one to four bytes, the fewest that hold it, and
  the decoding loop reads back every length below 268435456, whatever follows it.\<close>

theorem remaining_length_round_trip:
  assumes "0 \<le> n" "n < 2 ^ 28"
  shows "decodeMBI (encodeMBI n @ rest) 0 0 1 = Some (n, length (encodeMBI n))
    \<and> length (encodeMBI n) = (if n < 128 then 1 else if n < 16384 then 2 else if n < 2097152 then 3 else 4)"
proof
  show "decodeMBI (encodeMBI n @ rest) 0 0 1 = Some (n, length (encodeMBI n))"
    using encodeMBI_decode [of n 0 "[]" rest] assms by simp
  have "n < 268435456" using assms by simp
  then have n31: "n < 2147483648" "n div 128 < 2147483648" "n div 128 div 128 < 2147483648"
    "n div 128 div 128 div 128 < 2147483648"
    by linarith+
  have small: "(n div 128 < 128) = (n < 16384)" "(n div 128 div 128 < 128) = (n < 2097152)"
    "n div 128 div 128 div 128 < 128"
    using \<open>n < 268435456\<close> by linarith+
  show "length (encodeMBI n) = (if n < 128 then 1 else if n < 16384 then 2 else if n < 2097152 then 3 else 4)"
    using assms n31 small
    by (simp add: encodeMBI_def encodeMBI_loop_in_range [of n] encodeMBI_loop_in_range [of "n div 128"]
        encodeMBI_loop_in_range [of "n div 128 div 128"] encodeMBI_loop_in_range [of "n div 128 div 128 div 128"]
        pos_imp_zdiv_nonneg_iff)
qed

theorem remaining_length_round_trip_witness:
  "decodeMBI (encodeMBI 321 @ [7]) 0 0 1 = Some (321, 2)"
proof -
  have "decodeMBI (encodeMBI 321 @ [7]) 0 0 1 = Some (321, length (encodeMBI 321)) \<and>
      length (encodeMBI 321) = (if 321 < (128 :: int) then 1 else if 321 < (16384 :: int) then 2
        else if 321 < (2097152 :: int) then 3 else 4)"
    by (rule remaining_length_round_trip) simp_all
  then show ?thesis by simp
qed

end
