(* ===== verification/Paho_Message.thy ===== *)
theory Paho_Message
  imports Mbi
begin

text \<open>
  The application message of \<open>paho-mqtt.js\<close> (\<open>Paho.Message\<close>): its constructor, its two payload
  getters and the setters of its properties.  A payload is a string, a \<open>Uint8Array\<close> or an
  \<open>ArrayBuffer\<close>; views of other element types are not modelled.
\<close>

section \<open>The code\<close>

datatype payload =
    PString js_string
  | PUint8 "byte list"
  | PBuffer "byte list"

record message =
  payload :: payload
  destinationName :: "js_string option"
  qos :: int
  retained :: bool
  duplicate :: bool

text \<open>The argument of the constructor: a payload, or a value of another type.\<close>

datatype payload_arg = Is_payload payload | Not_payload js_value

fun Message :: "payload_arg \<Rightarrow> message res" where
  "Message (Is_payload p) =
     Inr \<lparr>payload = p, destinationName = None, qos = 0, retained = False, duplicate = False\<rparr>"
| "Message (Not_payload v) =
     Inl (Thrown_string (format INVALID_ARGUMENT [to_string v, js ''newPayload'']))"

text \<open>
  The getter of \<open>payloadString\<close>.  An \<open>ArrayBuffer\<close> has no \<open>length\<close>, so the decoding loop of
  \<open>parseUTF8\<close> compares with \<open>NaN\<close> and does not run.
\<close>

definition payloadString :: "message \<Rightarrow> js_string res" where
  "payloadString m =
     (case payload m of
        PString s \<Rightarrow> Inr s
      | PUint8 b \<Rightarrow> parseUTF8 b 0 (length b)
      | PBuffer b \<Rightarrow> Inr [])"

definition payloadBytes :: "message \<Rightarrow> payload res" where
  "payloadBytes m =
     (case payload m of
        PString s \<Rightarrow>
          bind_res (stringToUTF8 s (replicate (UTF8Length s) 0) 0) (\<lambda>b. Inr (PUint8 b))
      | p \<Rightarrow> Inr p)"

text \<open>\<open>byteLength\<close> and the bytes of what \<open>payloadBytes\<close> returned.\<close>

primrec raw_bytes :: "payload \<Rightarrow> byte list" where
  "raw_bytes (PString s) = []"
| "raw_bytes (PUint8 b) = b"
| "raw_bytes (PBuffer b) = b"

fun set_destinationName :: "js_value \<Rightarrow> message \<Rightarrow> message res" where
  "set_destinationName (V_string s) m = Inr (m\<lparr>destinationName := Some s\<rparr>)"
| "set_destinationName v m =
     Inl (Error_of INVALID_ARGUMENT [to_string v, js ''newDestinationName''])"

definition set_qos :: "js_value \<Rightarrow> message \<Rightarrow> message res" where
  "set_qos newQos m =
     (if newQos = V_number (Num 0) \<or> newQos = V_number (Num 1) \<or> newQos = V_number (Num 2)
      then (case newQos of V_number (Num n) \<Rightarrow> Inr (m\<lparr>qos := n\<rparr>) | _ \<Rightarrow> Inr m)
      else Inl (Error (js ''Invalid argument:'' @ to_string newQos)))"

fun set_retained :: "js_value \<Rightarrow> message \<Rightarrow> message res" where
  "set_retained (V_bool b) m = Inr (m\<lparr>retained := b\<rparr>)"
| "set_retained v m = Inl (Error_of INVALID_ARGUMENT [to_string v, js ''newRetained''])"

text \<open>\<open>topic\<close> is an unchecked alias of \<open>destinationName\<close>; \<open>duplicate\<close> is unchecked as well.\<close>

definition set_topic :: "js_string \<Rightarrow> message \<Rightarrow> message" where
  "set_topic t m = m\<lparr>destinationName := Some t\<rparr>"

definition set_duplicate :: "bool \<Rightarrow> message \<Rightarrow> message" where
  "set_duplicate d m = m\<lparr>duplicate := d\<rparr>"

section \<open>Well-formed messages\<close>

text \<open>What the setters keep of every message: the quality of service is 0, 1 or 2.\<close>

definition message_ok :: "message \<Rightarrow> bool" where
  "message_ok m = (qos m = 0 \<or> qos m = 1 \<or> qos m = 2)"

lemma Message_ok: "Message a = Inr m \<Longrightarrow> message_ok m"
  by (cases a) (auto simp: message_ok_def)

lemma setters_ok:
  "message_ok m \<Longrightarrow> set_destinationName v m = Inr m' \<Longrightarrow> message_ok m'"
  "set_qos v m = Inr m' \<Longrightarrow> message_ok m \<Longrightarrow> message_ok m'"
  "message_ok m \<Longrightarrow> set_retained v m = Inr m' \<Longrightarrow> message_ok m'"
  "message_ok m \<Longrightarrow> message_ok (set_topic t m)"
  "message_ok m \<Longrightarrow> message_ok (set_duplicate d m)"
      apply (cases v; auto simp: message_ok_def)
     apply (auto simp: set_qos_def message_ok_def split: if_splits)[1]
    apply (cases v; auto simp: message_ok_def)
   apply (simp_all add: message_ok_def set_topic_def set_duplicate_def)
  done

text \<open>The bytes a message is sent as, where its text is well formed.\<close>

definition payload_ok :: "payload \<Rightarrow> bool" where
  "payload_ok p = (case p of PString s \<Rightarrow> paired s | _ \<Rightarrow> True)"

definition payload_image :: "payload \<Rightarrow> byte list" where
  "payload_image p = (case p of PString s \<Rightarrow> utf8 s | PUint8 b \<Rightarrow> b | PBuffer b \<Rightarrow> b)"

lemma payloadBytes_ok:
  assumes "payload_ok (payload m)"
  shows "\<exists>p. payloadBytes m = Inr p \<and> raw_bytes p = payload_image (payload m)"
proof (cases "payload m")
  case (PString s)
  with assms have "paired s" by (simp add: payload_ok_def)
  then have "stringToUTF8 s (replicate (UTF8Length s) 0) 0 = Inr (utf8 s)"
    using stringToUTF8_at [of s "replicate (UTF8Length s) 0" "[]"] by (simp add: length_utf8)
  with PString show ?thesis by (simp add: payloadBytes_def payload_image_def)
qed (simp_all add: payloadBytes_def payload_image_def)

section \<open>Properties\<close>

text \<open>The text of a message survives its conversion to bytes: the \<open>payloadString\<close> of a message
  that was built from the \<open>payloadBytes\<close> of a well-formed text message is that text, and building
  the message throws nothing.\<close>

theorem payload_text_round_trip:
  assumes "payload m = PString s" and "paired s"
  shows "\<exists>b m'. payloadBytes m = Inr b \<and> Message (Is_payload b) = Inr m' \<and> payloadString m' = Inr s"
proof -
  have "stringToUTF8 s (replicate (UTF8Length s) 0) 0 = Inr (utf8 s)"
    using stringToUTF8_at [of s "replicate (UTF8Length s) 0" "[]"] assms(2) by (simp add: length_utf8)
  with assms parseUTF8_utf8 [OF assms(2), of 0 "[]" "length (utf8 s)" "[]"] show ?thesis
    by (simp add: payloadBytes_def payloadString_def)
qed

theorem payload_text_round_trip_witness:
  "\<exists>b m'. payloadBytes \<lparr>payload = PString [0x68, 0x69], destinationName = None, qos = 0,
        retained = False, duplicate = False\<rparr> = Inr b
      \<and> Message (Is_payload b) = Inr m' \<and> payloadString m' = Inr [0x68, 0x69]"
  by (rule payload_text_round_trip) (simp_all add: high_surrogate_def)

end
