(* ===== verification/Wire.thy ===== *)
theory Wire
  imports Paho_Message
begin

text \<open>
  The packets of \<open>paho-mqtt.js\<close> and their byte format: the \<open>WireMessage\<close> object, its \<open>encode\<close>
  method, which sizes a buffer, fills it through a cursor and returns it, and \<open>decodeMessage\<close>, which
  reads one packet out of the received bytes.  The encoder is shown to implement a specification
  that just concatenates the fields.
\<close>

section \<open>Packets\<close>

text \<open>
  The options of \<open>connect\<close>; every property may be absent.  A callback of the application and a value
  it wants back (\<open>invocationContext\<close>) are named by numbers.
\<close>

type_synonym callback_id = nat

record connect_options =
  co_timeout :: "int option"
  co_userName :: "js_string option"
  co_password :: "js_string option"
  co_willMessage :: "message option"
  co_keepAliveInterval :: "int option"
  co_cleanSession :: "bool option"
  co_useSSL :: "bool option"
  co_invocationContext :: "nat option"
  co_onSuccess :: "callback_id option"
  co_onFailure :: "callback_id option"
  co_hosts :: "js_string list option"
  co_ports :: "int list option"
  co_reconnect :: "bool option"
  co_mqttVersion :: "int option"
  co_mqttVersionExplicit :: "bool option"
  co_uris :: "js_string list option"

definition no_options :: connect_options where
  "no_options = \<lparr>co_timeout = None, co_userName = None, co_password = None, co_willMessage = None,
     co_keepAliveInterval = None, co_cleanSession = None, co_useSSL = None,
     co_invocationContext = None, co_onSuccess = None, co_onFailure = None, co_hosts = None,
     co_ports = None, co_reconnect = None, co_mqttVersion = None, co_mqttVersionExplicit = None,
     co_uris = None\<rparr>"

text \<open>
  A packet object.  \<open>WireMessage(CONNECT, options)\<close> copies the options into the object; the field
  \<open>wm_options\<close> holds them.  \<open>wm_onSuccess\<close> and its companions are the callbacks that a SUBSCRIBE or
  UNSUBSCRIBE carries, with the \<open>invocationContext\<close> their closure captured.
\<close>

record wire_message =
  wm_type :: nat
  messageIdentifier :: "js_num option"
  payloadMessage :: "message option"
  topics :: "js_string list"
  requestedQos :: "int list"
  sessionPresent :: bool
  returnCode :: "int option"
  returnCodes :: "byte list"
  wm_options :: connect_options
  wm_clientId :: js_string
  wm_onSuccess :: "(callback_id \<times> nat option) option"
  wm_onFailure :: "(callback_id \<times> nat option) option"
  wm_callback :: "(callback_id \<times> nat option) option"
  timeOut :: "nat option"
  pubRecReceived :: bool
  sequence :: "nat option"

definition WireMessage :: "nat \<Rightarrow> wire_message" where
  "WireMessage type = \<lparr>wm_type = type, messageIdentifier = None, payloadMessage = None,
     topics = [], requestedQos = [], sessionPresent = False, returnCode = None, returnCodes = [],
     wm_options = no_options, wm_clientId = [], wm_onSuccess = None, wm_onFailure = None,
     wm_callback = None, timeOut = None, pubRecReceived = False, sequence = None\<rparr>"

abbreviation WireMessage_id :: "nat \<Rightarrow> js_num option \<Rightarrow> wire_message" where
  "WireMessage_id type i \<equiv> (WireMessage type)\<lparr>messageIdentifier := i\<rparr>"

section \<open>Encoding\<close>

text \<open>
  The first half of \<open>encode\<close>: the first byte of the fixed header and the number of bytes that
  follow it, with the payload bytes that the second half writes.  Reading a property of an absent
  object is a \<open>TypeError\<close>.
\<close>

record encode_plan =
  ep_first :: int
  ep_remLength :: nat
  ep_destinationNameLength :: nat
  ep_willMessagePayloadBytes :: "byte list"
  ep_payloadBytes :: "byte list"

definition needs :: "'a option \<Rightarrow> 'a res" where
  "needs x = (case x of None \<Rightarrow> Inl Type_error | Some v \<Rightarrow> Inr v)"

lemma needs_Some [simp]: "needs (Some v) = Inr v" and needs_None [simp]: "needs None = Inl Type_error"
  by (simp_all add: needs_def)

definition optional_string_length :: "js_string option \<Rightarrow> nat" where
  "optional_string_length s = (case s of None \<Rightarrow> 0 | Some s \<Rightarrow> UTF8Length s + 2)"

text \<open>
  The payload bytes of the will message.  The test for a \<open>Uint8Array\<close> converts anything else from the
  variable \<open>payloadBytes\<close>, which is declared further down and still undefined: the result is empty.
\<close>

definition will_bytes :: "message \<Rightarrow> byte list res" where
  "will_bytes will =
     bind_res (payloadBytes will) (\<lambda>p. Inr (case p of PUint8 b \<Rightarrow> b | _ \<Rightarrow> []))"

definition plan_connect :: "wire_message \<Rightarrow> encode_plan \<Rightarrow> encode_plan res" where
  "plan_connect m p =
     (let opts = wm_options m;
          header = (if co_mqttVersion opts = Some 3 then length MqttProtoIdentifierv3 + 3
                    else if co_mqttVersion opts = Some 4 then length MqttProtoIdentifierv4 + 3 else 0);
          p = p\<lparr>ep_remLength := ep_remLength p + header + UTF8Length (wm_clientId m) + 2\<rparr>
      in bind_res
           (case co_willMessage opts of
              None \<Rightarrow> Inr p
            | Some will \<Rightarrow>
                bind_res (needs (destinationName will)) (\<lambda>name.
                bind_res (will_bytes will) (\<lambda>bytes.
                Inr (p\<lparr>ep_remLength := ep_remLength p + UTF8Length name + 2 + length bytes + 2,
                       ep_willMessagePayloadBytes := bytes\<rparr>))))
           (\<lambda>p. Inr (p\<lparr>ep_remLength := ep_remLength p + optional_string_length (co_userName opts)
                        + optional_string_length (co_password opts)\<rparr>)))"

definition topics_length :: "js_string list \<Rightarrow> nat" where
  "topics_length ts = (\<Sum>t\<leftarrow>ts. UTF8Length t + 2)"

definition plan_publish :: "wire_message \<Rightarrow> encode_plan \<Rightarrow> encode_plan res" where
  "plan_publish m p =
     bind_res (needs (payloadMessage m)) (\<lambda>msg.
     let first = ep_first p;
         first = (if duplicate msg then first OR 0x08 else first);
         first = first OR push_bit 1 (qos msg);
         first = (if retained msg then first OR 0x01 else first)
     in bind_res (needs (destinationName msg)) (\<lambda>name.
        bind_res (payloadBytes msg) (\<lambda>bytes.
        Inr (p\<lparr>ep_first := first,
               ep_destinationNameLength := UTF8Length name,
               ep_remLength := ep_remLength p + UTF8Length name + 2 + length (raw_bytes bytes),
               ep_payloadBytes := raw_bytes bytes\<rparr>))))"

definition encode_sizes :: "wire_message \<Rightarrow> encode_plan res" where
  "encode_sizes m =
     (let type = wm_type m;
          p = \<lparr>ep_first = push_bit 4 (int type AND 0x0F),
               ep_remLength = (if messageIdentifier m \<noteq> None then 2 else 0),
               ep_destinationNameLength = 0, ep_willMessagePayloadBytes = [], ep_payloadBytes = []\<rparr>
      in if type = mt CONNECT then plan_connect m p
         else if type = mt SUBSCRIBE then
           Inr (p\<lparr>ep_first := ep_first p OR 0x02,
                  ep_remLength := ep_remLength p + topics_length (topics m) + length (requestedQos m)\<rparr>)
         else if type = mt UNSUBSCRIBE then
           Inr (p\<lparr>ep_first := ep_first p OR 0x02,
                  ep_remLength := ep_remLength p + topics_length (topics m)\<rparr>)
         else if type = mt PUBREL then Inr (p\<lparr>ep_first := ep_first p OR 0x02\<rparr>)
         else if type = mt PUBLISH then plan_publish m p
         else Inr p)"

text \<open>The second half: the writes, each at the cursor.\<close>

definition connect_flags :: "connect_options \<Rightarrow> int" where
  "connect_flags opts =
     (let f = (if co_cleanSession opts = Some True then 0x02 else 0);
          f = (case co_willMessage opts of
                 None \<Rightarrow> f
               | Some will \<Rightarrow>
                   let f = f OR 0x04; f = f OR push_bit 3 (qos will)
                   in if retained will then f OR 0x20 else f);
          f = (if co_userName opts \<noteq> None then f OR 0x80 else f)
      in if co_password opts \<noteq> None then f OR 0x40 else f)"

definition write_optional_string :: "js_string option \<Rightarrow> cursor \<Rightarrow> cursor res" where
  "write_optional_string s c =
     (case s of None \<Rightarrow> Inr c | Some s \<Rightarrow> writeString s (UTF8Length s) c)"

text \<open>The number at a property that may be absent, as \<open>writeUint16\<close> sees it.\<close>

definition num_or_undefined :: "int option \<Rightarrow> js_num" where
  "num_or_undefined n = num_of n"

definition write_connect_header :: "connect_options \<Rightarrow> cursor \<Rightarrow> cursor res" where
  "write_connect_header opts c =
     bind_res (if co_mqttVersion opts = Some 3 then put_array MqttProtoIdentifierv3 c
               else if co_mqttVersion opts = Some 4 then put_array MqttProtoIdentifierv4 c
               else Inr c)
       (\<lambda>c. Inr (writeUint16 (num_or_undefined (co_keepAliveInterval opts))
                   (put_byte (connect_flags opts) c)))"

definition write_connect_payload :: "js_string \<Rightarrow> connect_options \<Rightarrow> byte list \<Rightarrow> cursor \<Rightarrow> cursor res" where
  "write_connect_payload cid opts will_payload c =
     bind_res (writeString cid (UTF8Length cid) c) (\<lambda>c.
     bind_res (case co_willMessage opts of
                 None \<Rightarrow> Inr c
               | Some will \<Rightarrow>
                   bind_res (needs (destinationName will)) (\<lambda>name.
                   bind_res (writeString name (UTF8Length name) c) (\<lambda>c.
                   put_array will_payload (writeUint16 (Num (int (length will_payload))) c)))) (\<lambda>c.
     bind_res (write_optional_string (co_userName opts) c) (\<lambda>c.
     write_optional_string (co_password opts) c)))"

text \<open>
  \<open>byteStream[pos++] = this.requestedQos[i]\<close>; beyond the end of \<open>requestedQos\<close> the value is
  \<open>undefined\<close>, which a \<open>Uint8Array\<close> stores as 0.
\<close>

fun write_subscriptions :: "js_string list \<Rightarrow> int list \<Rightarrow> cursor \<Rightarrow> cursor res" where
  "write_subscriptions [] qs c = Inr c"
| "write_subscriptions (t # ts) qs c =
     bind_res (writeString t (UTF8Length t) c) (\<lambda>c.
     write_subscriptions ts (tl qs) (put_byte (case qs of [] \<Rightarrow> 0 | q # _ \<Rightarrow> q) c))"

fun write_topics :: "js_string list \<Rightarrow> cursor \<Rightarrow> cursor res" where
  "write_topics [] c = Inr c"
| "write_topics (t # ts) c = bind_res (writeString t (UTF8Length t) c) (write_topics ts)"

definition write_body :: "wire_message \<Rightarrow> encode_plan \<Rightarrow> cursor \<Rightarrow> cursor res" where
  "write_body m p c =
     bind_res
       (if wm_type m = mt PUBLISH then
          bind_res (needs (payloadMessage m)) (\<lambda>msg.
          bind_res (needs (destinationName msg)) (\<lambda>name.
          writeString name (ep_destinationNameLength p) c))
        else if wm_type m = mt CONNECT then write_connect_header (wm_options m) c
        else Inr c) (\<lambda>c.
     let c = (case messageIdentifier m of None \<Rightarrow> c | Some i \<Rightarrow> writeUint16 i c)
     in if wm_type m = mt CONNECT then
          write_connect_payload (wm_clientId m) (wm_options m) (ep_willMessagePayloadBytes p) c
        else if wm_type m = mt PUBLISH then put_array (ep_payloadBytes p) c
        else if wm_type m = mt SUBSCRIBE then write_subscriptions (topics m) (requestedQos m) c
        else if wm_type m = mt UNSUBSCRIBE then write_topics (topics m) c
        else Inr c)"

definition encode :: "wire_message \<Rightarrow> byte list res" where
  "encode m =
     bind_res (encode_sizes m) (\<lambda>p.
     let mbi = encodeMBI (int (ep_remLength p));
         pos = length mbi + 1;
         byteStream = buf_put (replicate (ep_remLength p + pos) 0) 0 (ep_first p)
     in bind_res (buf_set byteStream mbi 1) (\<lambda>byteStream.
        bind_res (write_body m p (byteStream, pos)) (\<lambda>c.
        Inr (fst c))))"

section \<open>Decoding\<close>

text \<open>
  \<open>input.subarray(pos, endPos)\<close>.
\<close>

definition subarray :: "byte list \<Rightarrow> nat \<Rightarrow> nat \<Rightarrow> byte list" where
  "subarray input pos endPos = drop pos (take endPos input)"

text \<open>
  The PUBLISH branch.  When the topic length cannot be read it is \<open>NaN\<close>; then \<open>parseUTF8\<close> returns the
  empty string, every later read is out of range, and \<open>subarray(NaN, endPos)\<close> starts at 0.  The setter
  of \<open>qos\<close> rejects the value 3, after the topic has been parsed.
\<close>

definition decode_publish :: "byte list \<Rightarrow> nat \<Rightarrow> nat \<Rightarrow> int \<Rightarrow> wire_message \<Rightarrow> wire_message res" where
  "decode_publish input pos endPos messageInfo wireMessage =
     (let qos = drop_bit 1 messageInfo AND 0x03;
          finish = (\<lambda>topicName i payload.
            if 2 < qos then Inl (Error (js ''Invalid argument:'' @ int_str 10 qos))
            else
              let message = \<lparr>payload = PUint8 payload, destinationName = Some topicName, qos = qos,
                    retained = (messageInfo AND 0x01 = 0x01), duplicate = (messageInfo AND 0x08 = 0x08)\<rparr>
              in Inr (wireMessage\<lparr>messageIdentifier := i, payloadMessage := Some message\<rparr>))
      in case readUint16 input pos of
           NaN \<Rightarrow> finish [] (if qos > 0 then Some NaN else None) (subarray input 0 endPos)
         | Num len \<Rightarrow>
             bind_res (parseUTF8 input (pos + 2) (nat len)) (\<lambda>topicName.
             let pos = pos + 2 + nat len
             in if qos > 0
                then finish topicName (Some (readUint16 input pos)) (subarray input (pos + 2) endPos)
                else finish topicName None (subarray input pos endPos)))"

datatype decoded = Incomplete nat | Packet wire_message nat

text \<open>The \<open>switch\<close> on the packet type, between the header and the result.\<close>

definition decode_body :: "byte list \<Rightarrow> nat \<Rightarrow> int \<Rightarrow> nat \<Rightarrow> nat \<Rightarrow> wire_message res" where
  "decode_body input type messageInfo pos endPos =
     (let wireMessage = WireMessage type in
      if type = mt CONNACK then
        Inr (wireMessage\<lparr>
          sessionPresent := (case buf_get input pos of
             None \<Rightarrow> False | Some flags \<Rightarrow> flags AND 0x01 \<noteq> 0),
          returnCode := buf_get input (pos + 1)\<rparr>)
      else if type = mt PUBLISH then decode_publish input pos endPos messageInfo wireMessage
      else if type \<in> {mt PUBACK, mt PUBREC, mt PUBREL, mt PUBCOMP, mt UNSUBACK} then
        Inr (wireMessage\<lparr>messageIdentifier := Some (readUint16 input pos)\<rparr>)
      else if type = mt SUBACK then
        Inr (wireMessage\<lparr>messageIdentifier := Some (readUint16 input pos),
                         returnCodes := subarray input (pos + 2) endPos\<rparr>)
      else Inr wireMessage)"

definition decodeMessage :: "byte list \<Rightarrow> nat \<Rightarrow> decoded res" where
  "decodeMessage input startingPos =
     (let first = uint (input ! startingPos);
          type = nat (drop_bit 4 first);
          messageInfo = first AND 0x0F
      in case decodeMBI input (startingPos + 1) 0 1 of
           None \<Rightarrow> Inr (Incomplete startingPos)
         | Some (remLength, pos) \<Rightarrow>
             let endPos = pos + nat remLength in
             if endPos > length input then Inr (Incomplete startingPos)
             else bind_res (decode_body input type messageInfo pos endPos)
                    (\<lambda>wireMessage. Inr (Packet wireMessage endPos)))"

lemma decodeMessage_progress:
  "decodeMessage input pos = Inr (Packet w endPos) \<Longrightarrow> pos < endPos \<and> endPos \<le> length input"
  by (auto simp: decodeMessage_def Let_def bind_res_Inr_iff dest: decodeMBI_progress
      split: option.splits prod.splits if_splits)

lemma decodeMessage_incomplete: "decodeMessage input pos = Inr (Incomplete p) \<Longrightarrow> p = pos"
  by (auto simp: decodeMessage_def Let_def bind_res_Inr_iff split: option.splits prod.splits if_splits)

end
