(* ===== verification/Client_State.thy ===== *)
theory Client_State
  imports Wire "HOL-Library.Option_ord"
begin

text \<open>
  The state of \<open>ClientImpl\<close> and of what it owns in the browser: the \<open>WebSocket\<close> objects, the pending
  timers, the \<open>Pinger\<close> objects and \<open>localStorage\<close>.  Objects that the code shares by reference
  (sockets, pingers) live in lists and are named by their index; a \<open>Timeout\<close> object is named by the
  timer it wraps.

  What is not under the control of this code is the parameter record \<open>env\<close>: the callbacks of the
  application, which run in the middle of an operation and may call the client again, the exceptions
  of the \<open>WebSocket\<close> interface, the texts of the engine's own errors, the order that
  sorting with an inconsistent comparison gives, and the bound for the one loop
  whose end depends on the callbacks.
\<close>

section \<open>Callbacks of the application\<close>

text \<open>The argument objects of the callbacks.\<close>

datatype callback_arg =
    CA_message "message option"
  | CA_connected bool js_string
  | CA_lost nat js_string "bool option" js_string
  | CA_success "nat option"
  | CA_failure "nat option" nat js_string
  | CA_granted "nat option" "byte list"
  | CA_refused "nat option" "byte list"
  | CA_done

text \<open>What a callback returns, as far as the code looks at it.\<close>

datatype js_ret = R_undefined | R_truthy | R_function callback_id

section \<open>Objects of the browser\<close>

record socket =
  ws_url :: js_string
  ws_protocols :: "js_string list"
  readyState :: nat
  ws_handlers :: bool
  ws_sent :: "byte list list"

record pinger =
  pg_interval :: int
  pg_isReset :: bool
  pg_timeout :: "nat option"

datatype timer_action =
    T_ping nat
  | T_disconnected nat js_string
  | T_reconnect
  | T_callback "callback_id option" callback_arg

text \<open>
  The object that \<open>store\<close> writes to \<open>localStorage\<close> as JSON text and \<open>restore\<close> parses; the model
  keeps the object itself.  A \<open>messageIdentifier\<close> of \<open>NaN\<close> has no JSON text and becomes \<open>null\<close>,
  which is \<open>None\<close> here.
\<close>

record stored_message =
  sm_type :: nat
  sm_messageIdentifier :: "js_num option"
  sm_version :: nat
  sm_pubRecReceived :: bool
  sm_payloadHex :: js_string
  sm_qos :: int
  sm_destinationName :: "js_string option"
  sm_duplicate :: bool
  sm_retained :: bool
  sm_sequence :: "nat option"

section \<open>The client\<close>

text \<open>
  \<open>_notify_msg_sent\<close> is indexed by packet objects, which all convert to the same property name, so it
  has at most one entry: a bound \<open>_disconnected\<close>, or what an \<open>onMessageDelivered\<close> callback returned.
\<close>

datatype notify = N_disconnected | N_returned js_ret

record client =
  host :: js_string
  port :: js_num
  path :: js_string
  uri :: js_string
  clientId :: js_string
  wsuri :: js_string
  localKey :: js_string
  msg_queue :: "wire_message list"
  buffered_msg_queue :: "wire_message list"
  sentMessages :: "(js_num option, wire_message) table"
  receivedMessages :: "(js_num option, wire_message) table"
  notify_msg_sent :: "notify option"
  message_identifier :: int
  c_sequence :: nat
  c_socket :: "nat option"
  connected :: bool
  maxMessageIdentifier :: int
  connectOptions :: "connect_options option"
  hostIndex :: "nat option"
  onConnected :: "callback_id option"
  onConnectionLost :: "callback_id option"
  onMessageDelivered :: "callback_id option"
  onMessageArrived :: "callback_id option"
  connectTimeout :: "nat option"
  sendPinger :: "nat option"
  receivePinger :: "nat option"
  reconnectInterval :: int
  reconnecting :: bool
  reconnectTimeout :: "nat option"
  disconnectedPublishing :: bool
  disconnectedBufferSize :: int
  receiveBuffer :: "byte list option"
  localStorage :: "(js_string, stored_message) storage"
  sockets :: "socket list"
  pingers :: "pinger list"
  timers :: "(nat, int \<times> timer_action) table"
  next_timer :: nat
  calls :: "(callback_id \<times> callback_arg) list"

type_synonym 'a client_op = "(client, 'a) op"

text \<open>
  The field \<open>calls\<close> is a record of the callbacks made, oldest first; no operation reads it.
\<close>

record env =
  app :: "callback_id \<Rightarrow> callback_arg \<Rightarrow> js_ret client_op"
  socket_open_error :: "js_string \<Rightarrow> js_exn option"
  socket_send_error :: "nat \<Rightarrow> js_exn option"
  engine_text :: "js_exn \<Rightarrow> js_string"
  engine_sort :: "wire_message list \<Rightarrow> wire_message list"
  loop_bound :: nat

text \<open>
  \<open>engine_sort\<close> is the order in which \<open>Array.prototype.sort\<close> leaves a list for which its comparison
  function is inconsistent; the language leaves it to the implementation.
\<close>

text \<open>The \<open>message\<close> property of a caught exception, as text.\<close>

definition exn_message :: "env \<Rightarrow> js_exn \<Rightarrow> js_string" where
  "exn_message E e =
     (case e of Error s \<Rightarrow> s | Thrown_string s \<Rightarrow> js ''undefined'' | e \<Rightarrow> engine_text E e)"

definition invoke :: "env \<Rightarrow> callback_id \<Rightarrow> callback_arg \<Rightarrow> js_ret client_op" where
  "invoke E f x = andthen (modify (\<lambda>c. c\<lparr>calls := calls c @ [(f, x)]\<rparr>)) (\<lambda>_. app E f x)"

text \<open>\<open>if (callback) callback(arg)\<close>, its result dropped.\<close>

definition invoke_opt :: "env \<Rightarrow> callback_id option \<Rightarrow> callback_arg \<Rightarrow> unit client_op" where
  "invoke_opt E f x = (case f of None \<Rightarrow> ret () | Some f \<Rightarrow> andthen (invoke E f x) (\<lambda>_. ret ()))"

section \<open>Timers and pingers\<close>

definition setTimeout :: "int \<Rightarrow> timer_action \<Rightarrow> nat client_op" where
  "setTimeout delay act = (\<lambda>c.
     (Inr (next_timer c), c\<lparr>timers := tput (next_timer c) (delay, act) (timers c), next_timer := Suc (next_timer c)\<rparr>))"

definition clearTimeout :: "nat option \<Rightarrow> unit client_op" where
  "clearTimeout t = (case t of None \<Rightarrow> ret () | Some t \<Rightarrow> modify (\<lambda>c. c\<lparr>timers := tdel t (timers c)\<rparr>))"

text \<open>\<open>new Timeout(client, timeoutSeconds, action, args)\<close>\<close>

definition Timeout :: "int option \<Rightarrow> timer_action \<Rightarrow> nat client_op" where
  "Timeout timeoutSeconds act =
     setTimeout ((case timeoutSeconds of None \<Rightarrow> 30 | Some s \<Rightarrow> if s = 0 then 30 else s) * 1000) act"

definition new_pinger :: "int option \<Rightarrow> nat client_op" where
  "new_pinger keepAliveInterval = (\<lambda>c.
     (Inr (length (pingers c)),
      c\<lparr>pingers := pingers c @ [\<lparr>pg_interval = (case keepAliveInterval of None \<Rightarrow> 0 | Some k \<Rightarrow> k * 1000),
          pg_isReset = False, pg_timeout = None\<rparr>]\<rparr>))"

definition set_pinger :: "nat \<Rightarrow> (pinger \<Rightarrow> pinger) \<Rightarrow> unit client_op" where
  "set_pinger i f = modify (\<lambda>c. c\<lparr>pingers := (pingers c)[i := f (pingers c ! i)]\<rparr>)"

definition arm_pinger :: "nat \<Rightarrow> unit client_op" where
  "arm_pinger i =
     reading (\<lambda>c. pg_interval (pingers c ! i)) (\<lambda>interval.
     andthen (setTimeout interval (T_ping i)) (\<lambda>t.
     set_pinger i (\<lambda>p. p\<lparr>pg_timeout := Some t\<rparr>)))"

definition pinger_cancel :: "nat \<Rightarrow> unit client_op" where
  "pinger_cancel i = reading (\<lambda>c. pg_timeout (pingers c ! i)) clearTimeout"

definition pinger_reset :: "nat \<Rightarrow> unit client_op" where
  "pinger_reset i =
     seqn (set_pinger i (\<lambda>p. p\<lparr>pg_isReset := True\<rparr>))
    (seqn (pinger_cancel i)
    (reading (\<lambda>c. pg_interval (pingers c ! i)) (\<lambda>interval.
     if interval > 0 then arm_pinger i else ret ())))"

text \<open>A method call on a pinger that is still \<open>null\<close> is a \<open>TypeError\<close>.\<close>

definition on_pinger :: "nat option \<Rightarrow> (nat \<Rightarrow> unit client_op) \<Rightarrow> unit client_op" where
  "on_pinger p f = (case p of None \<Rightarrow> throw Type_error | Some i \<Rightarrow> f i)"

section \<open>Sockets\<close>

definition set_socket :: "nat \<Rightarrow> (socket \<Rightarrow> socket) \<Rightarrow> client \<Rightarrow> client" where
  "set_socket s f c = c\<lparr>sockets := (sockets c)[s := f (sockets c ! s)]\<rparr>"

text \<open>
  \<open>socket.send(bytes)\<close>: the interface throws or takes the bytes, depending on the state of the
  connection; \<open>ws_sent\<close> lists the calls that did not throw.
\<close>

definition ws_send :: "env \<Rightarrow> nat \<Rightarrow> byte list \<Rightarrow> unit client_op" where
  "ws_send E s bytes = (\<lambda>c.
     case socket_send_error E (readyState (sockets c ! s)) of
       Some e \<Rightarrow> (Inl e, c)
     | None \<Rightarrow> (Inr (), set_socket s (\<lambda>w. w\<lparr>ws_sent := ws_sent w @ [bytes]\<rparr>) c))"

text \<open>The bytes sent on the current socket.\<close>

definition sent_bytes :: "client \<Rightarrow> byte list list" where
  "sent_bytes c = (case c_socket c of None \<Rightarrow> [] | Some s \<Rightarrow> ws_sent (sockets c ! s))"

section \<open>The constructor\<close>

definition local_key :: "js_string \<Rightarrow> js_num \<Rightarrow> js_string \<Rightarrow> js_string \<Rightarrow> js_string" where
  "local_key hst prt pth cid =
     hst @ js '':'' @ num_str prt @ (if pth \<noteq> js ''/mqtt'' then js '':'' @ pth else [])
     @ js '':'' @ cid @ js '':''"

definition fresh_client ::
  "js_string \<Rightarrow> js_string \<Rightarrow> js_num \<Rightarrow> js_string \<Rightarrow> js_string
   \<Rightarrow> (js_string, stored_message) storage \<Rightarrow> client" where
  "fresh_client ur hst prt pth cid store =
     \<lparr>host = hst, port = prt, path = pth, uri = ur, clientId = cid, wsuri = [],
      localKey = local_key hst prt pth cid,
      msg_queue = [], buffered_msg_queue = [], sentMessages = [], receivedMessages = [],
      notify_msg_sent = None, message_identifier = 1, c_sequence = 0, c_socket = None,
      connected = False, maxMessageIdentifier = 65536, connectOptions = None, hostIndex = None,
      onConnected = None, onConnectionLost = None, onMessageDelivered = None,
      onMessageArrived = None, connectTimeout = None, sendPinger = None, receivePinger = None,
      reconnectInterval = 1, reconnecting = False, reconnectTimeout = None,
      disconnectedPublishing = False, disconnectedBufferSize = 5000, receiveBuffer = None,
      localStorage = store, sockets = [], pingers = [], timers = [], next_timer = 0, calls = []\<rparr>"

end
