(* ===== verification/Client_Store.thy ===== *)
theory Client_Store
  imports Client_State
begin

text \<open>
  The durable state of the client: \<open>ClientImpl.prototype.store\<close> writes an unacknowledged message to
  \<open>localStorage\<close>, \<open>restore\<close> reads one back, and the constructor restores what an earlier run left.
\<close>

section \<open>Hexadecimal text\<close>

definition hex_byte :: "byte \<Rightarrow> js_string" where
  "hex_byte b =
     (if uint b \<le> 0xF then js ''0'' @ nat_str 16 (unat b) else nat_str 16 (unat b))"

definition hex_text :: "byte list \<Rightarrow> js_string" where
  "hex_text bs = concat (map hex_byte bs)"

text \<open>
  \<open>parseInt(_, 16)\<close> of two characters, written to a \<open>Uint8Array\<close>, where \<open>NaN\<close> becomes 0.  Of the
  forms \<open>parseInt\<close> accepts only digits are modelled: the texts come from \<open>store\<close>.
\<close>

definition hex_value :: "code_unit \<Rightarrow> int option" where
  "hex_value c =
     (let v = uint c in
      if 48 \<le> v \<and> v \<le> 57 then Some (v - 48)
      else if 97 \<le> v \<and> v \<le> 102 then Some (v - 87)
      else if 65 \<le> v \<and> v \<le> 70 then Some (v - 55) else None)"

definition parse_byte :: "code_unit \<Rightarrow> code_unit \<Rightarrow> byte" where
  "parse_byte a b =
     (case hex_value a of
        None \<Rightarrow> 0
      | Some x \<Rightarrow> (case hex_value b of None \<Rightarrow> word_of_int x | Some y \<Rightarrow> word_of_int (16 * x + y)))"

fun parse_hex :: "js_string \<Rightarrow> byte list" where
  "parse_hex (a # b # s) = parse_byte a b # parse_hex s"
| "parse_hex s = []"

lemma uint_unat: "uint (b :: byte) = int (unat b)"
  by (rule uint_nat)

lemma unat_byte_less: "unat (b :: byte) < 256"
  using word8_lt [of b] unfolding uint_unat by linarith

lemma hex_byte_digits:
  "hex_byte b = [digit (unat b div 16), digit (unat b mod 16)]"
proof -
  have "unat b < 256" by (rule unat_byte_less)
  then have "unat b div 16 < 16" by auto
  moreover have "uint b \<le> 15 \<longleftrightarrow> unat b < 16" unfolding uint_unat by linarith
  ultimately show ?thesis
    by (auto simp: hex_byte_def nat_str.simps [of 16 "unat b"] nat_str.simps [of 16 "unat b div 16"]
        digit_def)
qed

lemma hex_value_digits: "\<forall>d \<in> set [0..<16]. hex_value (digit d) = Some (int d)"
  by code_simp

lemma hex_value_digit: "d < 16 \<Longrightarrow> hex_value (digit d) = Some (int d)"
  using hex_value_digits by auto

lemma parse_hex_byte: "parse_byte (digit (unat b div 16)) (digit (unat b mod 16)) = (b :: byte)"
proof -
  have "unat b < 256" by (rule unat_byte_less)
  then have "unat b div 16 < 16" by auto
  moreover have "16 * int (unat b div 16) + int (unat b mod 16) = int (unat b)"
    by presburger
  moreover have "word_of_int (int (unat b)) = b" unfolding uint_unat [symmetric] by (rule word_of_int_uint)
  ultimately show ?thesis
    by (simp add: parse_byte_def hex_value_digit del: of_nat_unat)
qed

lemma parse_hex_text: "parse_hex (hex_text bs) = bs"
  by (induction bs) (simp_all add: hex_text_def hex_byte_digits parse_hex_byte)

section \<open>Storing a message\<close>

text \<open>
  The identifier at the end of a storage key.  Only a message restored with \<open>null\<close> has none.
\<close>

definition id_text :: "js_num option \<Rightarrow> js_string" where
  "id_text i = (case i of None \<Rightarrow> js ''null'' | Some n \<Rightarrow> num_str n)"

definition storage_key :: "js_string \<Rightarrow> client \<Rightarrow> js_num option \<Rightarrow> js_string" where
  "storage_key prefix c i = prefix @ localKey c @ id_text i"

definition json_id :: "js_num option \<Rightarrow> js_num option" where
  "json_id i = (case i of Some (Num n) \<Rightarrow> Some (Num n) | _ \<Rightarrow> None)"

text \<open>
  The bytes whose \<open>length\<close> the conversion loop reads: an \<open>ArrayBuffer\<close> has none, so the loop does
  not run.
\<close>

definition counted_bytes :: "payload \<Rightarrow> byte list" where
  "counted_bytes p = (case p of PUint8 b \<Rightarrow> b | _ \<Rightarrow> [])"

definition assign_sequence :: "js_string \<Rightarrow> wire_message \<Rightarrow> wire_message client_op" where
  "assign_sequence prefix m = (\<lambda>c.
     if indexOf prefix (js ''Sent:'') = Some 0 \<and> sequence m = None
     then (Inr (m\<lparr>sequence := Some (Suc (c_sequence c))\<rparr>), c\<lparr>c_sequence := Suc (c_sequence c)\<rparr>)
     else (Inr m, c))"

definition stored :: "js_string \<Rightarrow> wire_message \<Rightarrow> message \<Rightarrow> payload \<Rightarrow> stored_message" where
  "stored prefix m msg p =
     \<lparr>sm_type = wm_type m, sm_messageIdentifier = json_id (messageIdentifier m), sm_version = 1,
      sm_pubRecReceived = pubRecReceived m, sm_payloadHex = hex_text (counted_bytes p),
      sm_qos = qos msg, sm_destinationName = destinationName msg, sm_duplicate = duplicate msg,
      sm_retained = retained msg,
      sm_sequence = (if indexOf prefix (js ''Sent:'') = Some 0 then sequence m else None)\<rparr>"

text \<open>\<open>store\<close> numbers the message it stores; the result is the message with its number.\<close>

definition store :: "js_string \<Rightarrow> wire_message \<Rightarrow> wire_message client_op" where
  "store prefix m =
     (if wm_type m = mt PUBLISH then
        andthen (lift_res (needs (payloadMessage m))) (\<lambda>msg.
        andthen (lift_res (payloadBytes msg)) (\<lambda>p.
        andthen (assign_sequence prefix m) (\<lambda>m.
        andthen (modify (\<lambda>c. c\<lparr>localStorage :=
                   setItem (storage_key prefix c (messageIdentifier m)) (stored prefix m msg p)
                     (localStorage c)\<rparr>)) (\<lambda>_.
        ret m))))
      else reading (\<lambda>c. storage_key prefix c (messageIdentifier m)) (\<lambda>key.
        throw (Error_of INVALID_STORED_DATA [key, js ''[object Object]''])))"

section \<open>Restoring a message\<close>

text \<open>The JSON text of a stored object, which the error text for an unusable entry contains.\<close>

definition json_char :: "code_unit \<Rightarrow> js_string" where
  "json_char ch =
     (let v = uint ch; hex4 = (\<lambda>n. [digit (n div 4096), digit (n div 256 mod 16),
             digit (n div 16 mod 16), digit (n mod 16)]) in
      if v = 34 then [92, 34] else if v = 92 then [92, 92]
      else if v = 8 then [92, 98] else if v = 9 then [92, 116] else if v = 10 then [92, 110]
      else if v = 12 then [92, 102] else if v = 13 then [92, 114]
      else if v < 32 then [92, 117] @ hex4 (nat v) else [ch])"

definition json_string :: "js_string \<Rightarrow> js_string" where
  "json_string s = [34] @ concat (map json_char s) @ [34]"

definition json_member :: "string \<Rightarrow> js_string \<Rightarrow> js_string" where
  "json_member name text = json_string (js name) @ js '':'' @ text"

fun json_object :: "js_string list \<Rightarrow> js_string" where
  "json_object ms = js ''{'' @ concat (case ms of [] \<Rightarrow> [] | m # ms \<Rightarrow> m # map (\<lambda>t. js '','' @ t) ms)
     @ js ''}''"

definition json_stored :: "stored_message \<Rightarrow> js_string" where
  "json_stored sm = json_object
     ([json_member ''type'' (nat_str 10 (sm_type sm)),
       json_member ''messageIdentifier'' (id_text (sm_messageIdentifier sm)),
       json_member ''version'' (nat_str 10 (sm_version sm))]
      @ (if sm_pubRecReceived sm then [json_member ''pubRecReceived'' (js ''true'')] else [])
      @ [json_member ''payloadMessage'' (json_object
           ([json_member ''payloadHex'' (json_string (sm_payloadHex sm)),
             json_member ''qos'' (int_str 10 (sm_qos sm))]
            @ (case sm_destinationName sm of None \<Rightarrow> []
               | Some d \<Rightarrow> [json_member ''destinationName'' (json_string d)])
            @ (if sm_duplicate sm then [json_member ''duplicate'' (js ''true'')] else [])
            @ (if sm_retained sm then [json_member ''retained'' (js ''true'')] else [])))]
      @ (case sm_sequence sm of None \<Rightarrow> []
         | Some n \<Rightarrow> [json_member ''sequence'' (nat_str 10 n)]))"

definition restored_message :: "stored_message \<Rightarrow> message res" where
  "restored_message sm =
     bind_res (Message (Is_payload (PUint8 (parse_hex (sm_payloadHex sm))))) (\<lambda>m.
     bind_res (set_qos (V_number (Num (sm_qos sm))) m) (\<lambda>m.
     bind_res (set_destinationName
         (case sm_destinationName sm of None \<Rightarrow> V_undefined | Some d \<Rightarrow> V_string d) m) (\<lambda>m.
     let m = (if sm_duplicate sm then set_duplicate True m else m)
     in if sm_retained sm then set_retained (V_bool True) m else Inr m)))"

definition restored_wire :: "stored_message \<Rightarrow> wire_message" where
  "restored_wire sm = (WireMessage (sm_type sm))\<lparr>
     messageIdentifier := sm_messageIdentifier sm, pubRecReceived := sm_pubRecReceived sm,
     sequence := sm_sequence sm\<rparr>"

definition restore :: "js_string \<Rightarrow> unit client_op" where
  "restore key =
     reading (\<lambda>c. getItem (localStorage c) key) (\<lambda>value.
     andthen (lift_res (needs value)) (\<lambda>sm.
     if sm_type sm = mt PUBLISH then
       andthen (lift_res (restored_message sm)) (\<lambda>msg.
       modify (\<lambda>c.
         if indexOf key (js ''Sent:'' @ localKey c) = Some 0 then
           c\<lparr>sentMessages := tput (sm_messageIdentifier sm)
               ((restored_wire sm)\<lparr>payloadMessage := Some (set_duplicate True msg)\<rparr>) (sentMessages c)\<rparr>
         else if indexOf key (js ''Received:'' @ localKey c) = Some 0 then
           c\<lparr>receivedMessages := tput (sm_messageIdentifier sm)
               ((restored_wire sm)\<lparr>payloadMessage := Some msg\<rparr>) (receivedMessages c)\<rparr>
         else c))
     else throw (Error_of INVALID_STORED_DATA [key, json_stored sm])))"

fun restore_keys :: "js_string list \<Rightarrow> unit client_op" where
  "restore_keys [] = ret ()"
| "restore_keys (key # keys) =
     seqn
       (reading localKey (\<lambda>lk.
          if indexOf key (js ''Sent:'' @ lk) = Some 0 \<or> indexOf key (js ''Received:'' @ lk) = Some 0
          then restore key else ret ()))
       (restore_keys keys)"

definition ClientImpl ::
  "js_string \<Rightarrow> js_string \<Rightarrow> js_num \<Rightarrow> js_string \<Rightarrow> js_string
   \<Rightarrow> (js_string, stored_message) storage \<Rightarrow> unit res \<times> client" where
  "ClientImpl ur hst prt pth cid d =
     restore_keys (storage_keys d) (fresh_client ur hst prt pth cid d)"

end
