(* ===== verification/Client_Impl.thy ===== *)
theory Client_Impl
  imports Client_Store
begin

text \<open>
  The operations of \<open>ClientImpl\<close> that the application and the timers call: connecting and
  reconnecting, closing down, queueing and sending packets, the identifiers of messages that await
  an acknowledgement, and the application calls \<open>connect\<close>, \<open>subscribe\<close>, \<open>unsubscribe\<close>, \<open>send\<close> and
  \<open>disconnect\<close>.  Tracing is off, as it is unless the application turns it on.
\<close>

section \<open>Connecting\<close>

text \<open>\<open>wsurl.split(":")\<close> with its first part replaced by \<open>wss\<close>.\<close>

definition use_wss :: "js_string \<Rightarrow> js_string" where
  "use_wss wsurl = js ''wss'' @ dropWhile (\<lambda>ch. ch \<noteq> of_char CHR '':'') wsurl"

definition new_socket :: "env \<Rightarrow> js_string \<Rightarrow> js_string list \<Rightarrow> nat client_op" where
  "new_socket E url protocols = (\<lambda>c.
     case socket_open_error E url of
       Some e \<Rightarrow> (Inl e, c)
     | None \<Rightarrow> (Inr (length (sockets c)),
         c\<lparr>sockets := sockets c @ [\<lparr>ws_url = url, ws_protocols = protocols, readyState = 0,
             ws_handlers = False, ws_sent = []\<rparr>]\<rparr>))"

definition cancel_connect_timeout :: "unit client_op" where
  "cancel_connect_timeout =
     reading connectTimeout (\<lambda>t.
       if t \<noteq> None then seqn (clearTimeout t) (modify (\<lambda>c. c\<lparr>connectTimeout := None\<rparr>)) else ret ())"

definition truthy :: "bool option \<Rightarrow> bool" where
  "truthy b = (b = Some True)"

text \<open>An element of the list of addresses that is not there is \<open>undefined\<close>.\<close>

definition uri_at :: "js_string list \<Rightarrow> nat \<Rightarrow> js_string option" where
  "uri_at uris i = (if i < length uris then Some (uris ! i) else None)"

definition doConnect :: "env \<Rightarrow> js_string option \<Rightarrow> unit client_op" where
  "doConnect E wsurl =
     reading connectOptions (\<lambda>opts.
     andthen (lift_res (needs opts)) (\<lambda>opt.
     andthen (if truthy (co_useSSL opt) then lift_res (map_sum id use_wss (needs wsurl))
              else ret (case wsurl of None \<Rightarrow> js ''undefined'' | Some u \<Rightarrow> u)) (\<lambda>wsurl.
     seqn (modify (\<lambda>c. c\<lparr>wsuri := wsurl, connected := False\<rparr>))
     (andthen (new_socket E wsurl
          [if (case co_mqttVersion opt of None \<Rightarrow> False | Some v \<Rightarrow> v < 4) then js ''mqttv3.1''
           else js ''mqtt'']) (\<lambda>s.
      seqn (modify (\<lambda>c. set_socket s (\<lambda>w. w\<lparr>ws_handlers := True\<rparr>) (c\<lparr>c_socket := Some s\<rparr>)))
     (andthen (new_pinger (co_keepAliveInterval opt)) (\<lambda>p.
      seqn (modify (\<lambda>c. c\<lparr>sendPinger := Some p\<rparr>))
     (andthen (new_pinger (co_keepAliveInterval opt)) (\<lambda>p.
      seqn (modify (\<lambda>c. c\<lparr>receivePinger := Some p\<rparr>))
     (seqn cancel_connect_timeout
     (andthen (Timeout (co_timeout opt)
         (T_disconnected (error_code CONNECT_TIMEOUT) (format CONNECT_TIMEOUT []))) (\<lambda>t.
      modify (\<lambda>c. c\<lparr>connectTimeout := Some t\<rparr>)))))))))))))"

text \<open>\<open>if (connectOptions.uris) \<dots> else this._doConnect(this.uri)\<close>, from the first address.\<close>

definition connect_first :: "env \<Rightarrow> unit client_op" where
  "connect_first E =
     reading connectOptions (\<lambda>opts.
     andthen (lift_res (needs opts)) (\<lambda>opt.
     case co_uris opt of
       Some uris \<Rightarrow> seqn (modify (\<lambda>c. c\<lparr>hostIndex := Some 0\<rparr>)) (doConnect E (uri_at uris 0))
     | None \<Rightarrow> reading uri (\<lambda>u. doConnect E (Some u))))"

text \<open>\<open>this._reconnectTimeout.cancel()\<close> and the two assignments after it.\<close>

definition stop_reconnecting :: "unit client_op" where
  "stop_reconnecting =
     reading reconnecting (\<lambda>r.
     if r then
       reading reconnectTimeout (\<lambda>t.
       andthen (lift_res (needs t)) (\<lambda>t.
       seqn (clearTimeout (Some t)) (modify (\<lambda>c. c\<lparr>reconnectTimeout := None, reconnecting := False\<rparr>))))
     else ret ())"

definition connect :: "env \<Rightarrow> connect_options \<Rightarrow> unit client_op" where
  "connect E opts =
     reading (\<lambda>c. connected c \<or> c_socket c \<noteq> None) (\<lambda>busy.
     if busy then throw (Error_of INVALID_STATE [js ''already connected''])
     else
       seqn stop_reconnecting
      (seqn (modify (\<lambda>c. c\<lparr>connectOptions := Some opts, reconnectInterval := 1, reconnecting := False\<rparr>))
      (connect_first E)))"

section \<open>Closing down and reconnecting\<close>

definition reconnect :: "env \<Rightarrow> unit client_op" where
  "reconnect E =
     reading connected (\<lambda>up.
     if up then ret ()
     else
       seqn (modify (\<lambda>c. c\<lparr>reconnecting := True\<rparr>))
      (seqn (reading sendPinger (\<lambda>p. on_pinger p pinger_cancel))
      (seqn (reading receivePinger (\<lambda>p. on_pinger p pinger_cancel))
      (seqn (modify (\<lambda>c. c\<lparr>reconnectInterval :=
              if reconnectInterval c < 128 then reconnectInterval c * 2 else reconnectInterval c\<rparr>))
      (connect_first E)))))"

text \<open>
  The first half of \<open>_disconnected\<close>: timers, queues and the socket.  The stored and the unacknowledged
  messages stay, and so does \<open>receiveBuffer\<close>.
\<close>

definition drop_socket :: "client \<Rightarrow> client" where
  "drop_socket c =
     (case c_socket c of
        None \<Rightarrow> c
      | Some s \<Rightarrow> (set_socket s (\<lambda>w. w\<lparr>ws_handlers := False,
            readyState := if readyState w = 1 then 2 else readyState w\<rparr>) c)\<lparr>c_socket := None\<rparr>)"

definition teardown :: "unit client_op" where
  "teardown =
     seqn (reading sendPinger (\<lambda>p. on_pinger p pinger_cancel))
    (seqn (reading receivePinger (\<lambda>p. on_pinger p pinger_cancel))
    (seqn cancel_connect_timeout
    (modify (\<lambda>c. drop_socket (c\<lparr>msg_queue := [], buffered_msg_queue := [], notify_msg_sent := None\<rparr>)))))"

text \<open>The second half, after the last address has been tried.\<close>

definition connection_over :: "env \<Rightarrow> nat \<Rightarrow> js_string \<Rightarrow> unit client_op" where
  "connection_over E code text =
     reading connected (\<lambda>up.
     reading connectOptions (\<lambda>opts.
     andthen (lift_res (needs opts)) (\<lambda>opt.
     if up then
       seqn (modify (\<lambda>c. c\<lparr>connected := False\<rparr>))
      (seqn (reading onConnectionLost (\<lambda>f. reading wsuri (\<lambda>u.
               invoke_opt E f (CA_lost code text (co_reconnect opt) u))))
      (if code = error_code OK then ret ()
       else reading connectOptions (\<lambda>opts.
            andthen (lift_res (needs opts)) (\<lambda>opt.
            if truthy (co_reconnect opt)
            then seqn (modify (\<lambda>c. c\<lparr>reconnectInterval := 1\<rparr>)) (reconnect E)
            else ret ()))))
     else if co_mqttVersion opt = Some 4 \<and> co_mqttVersionExplicit opt = Some False then
       seqn (modify (\<lambda>c. c\<lparr>connectOptions := Some (opt\<lparr>co_mqttVersion := Some 3\<rparr>)\<rparr>)) (connect_first E)
     else invoke_opt E (co_onFailure opt) (CA_failure (co_invocationContext opt) code text))))"

definition next_host :: "client \<Rightarrow> nat option" where
  "next_host c =
     (case connectOptions c of
        None \<Rightarrow> None
      | Some opt \<Rightarrow>
          (case co_uris opt of
             None \<Rightarrow> None
           | Some uris \<Rightarrow>
               let i = (case hostIndex c of None \<Rightarrow> 0 | Some i \<Rightarrow> i)
               in if Suc i < length uris then Some (Suc i) else None))"

text \<open>
  \<open>_disconnected(errorCode, errorText)\<close>; without arguments it ends a connection at the application's
  request.
\<close>

definition disconnected :: "env \<Rightarrow> (nat \<times> js_string) option \<Rightarrow> unit client_op" where
  "disconnected E err =
     reading reconnecting (\<lambda>r.
     if err \<noteq> None \<and> r then
       reading reconnectInterval (\<lambda>i.
       andthen (Timeout (Some i) T_reconnect) (\<lambda>t. modify (\<lambda>c. c\<lparr>reconnectTimeout := Some t\<rparr>)))
     else
       seqn teardown
      (reading connectOptions (\<lambda>opts.
       andthen (lift_res (needs opts)) (\<lambda>opt.
       reading next_host (\<lambda>h.
       case h of
         Some i \<Rightarrow>
           seqn (modify (\<lambda>c. c\<lparr>hostIndex := Some i\<rparr>))
                (doConnect E (uri_at (case co_uris opt of None \<Rightarrow> [] | Some uris \<Rightarrow> uris) i))
       | None \<Rightarrow>
           (case err of
              None \<Rightarrow> connection_over E (error_code OK) (format OK [])
            | Some (code, text) \<Rightarrow> connection_over E code text))))))"

section \<open>Sending\<close>

definition socket_send :: "env \<Rightarrow> wire_message \<Rightarrow> unit client_op" where
  "socket_send E m =
     reading c_socket (\<lambda>s.
     andthen (lift_res (needs s)) (\<lambda>s.
     andthen (lift_res (encode m)) (\<lambda>bytes.
     seqn (ws_send E s bytes)
     (reading sendPinger (\<lambda>p. on_pinger p pinger_reset)))))"

text \<open>\<open>this._notify_msg_sent[message]()\<close> for the entry that is there, if it is truthy.\<close>

definition run_notify :: "env \<Rightarrow> unit client_op" where
  "run_notify E =
     reading notify_msg_sent (\<lambda>n.
     case n of
       None \<Rightarrow> ret ()
     | Some (N_returned R_undefined) \<Rightarrow> ret ()
     | Some (N_returned R_truthy) \<Rightarrow> throw Type_error
     | Some (N_returned (R_function f)) \<Rightarrow>
         seqn (invoke E f CA_done) (modify (\<lambda>c. c\<lparr>notify_msg_sent := None\<rparr>))
     | Some N_disconnected \<Rightarrow>
         seqn (disconnected E None) (modify (\<lambda>c. c\<lparr>notify_msg_sent := None\<rparr>)))"

text \<open>
  The loop of \<open>_process_queue\<close>.  The newest message is at the head of the queue and the oldest is
  popped from its end.  A callback in the loop may queue more messages, so the number of rounds is
  bounded by a parameter.
\<close>

fun process_queue_loop :: "env \<Rightarrow> nat \<Rightarrow> unit client_op" where
  "process_queue_loop E 0 = throw Out_of_fuel"
| "process_queue_loop E (Suc n) =
     reading msg_queue (\<lambda>q.
     if q = [] then ret ()
     else
       seqn (modify (\<lambda>c. c\<lparr>msg_queue := butlast q\<rparr>))
      (seqn (socket_send E (last q))
      (seqn (run_notify E)
      (process_queue_loop E n))))"

definition process_queue :: "env \<Rightarrow> unit client_op" where
  "process_queue E = process_queue_loop E (loop_bound E)"

definition schedule_message :: "env \<Rightarrow> wire_message \<Rightarrow> unit client_op" where
  "schedule_message E m =
     seqn (modify (\<lambda>c. c\<lparr>msg_queue := m # msg_queue c\<rparr>))
     (reading connected (\<lambda>up. if up then process_queue E else ret ()))"

section \<open>Identifiers of messages that await an acknowledgement\<close>

lemma next_free_measure:
  fixes m :: "(js_num option, 'w) table"
  assumes "tget m (Some (Num i)) = Some w"
  shows "card {j. i + 1 \<le> j \<and> Some (Num j) \<in> set (tkeys m)} < card {j. i \<le> j \<and> Some (Num j) \<in> set (tkeys m)}"
proof (rule psubset_card_mono)
  have "{j. i \<le> j \<and> Some (Num j) \<in> set (tkeys m)} \<subseteq> (\<lambda>k. case k of Some (Num j) \<Rightarrow> j | _ \<Rightarrow> 0) ` set (tkeys m)"
    by (force simp: image_iff)
  then show "finite {j. i \<le> j \<and> Some (Num j) \<in> set (tkeys m)}" using finite_subset by blast
  have "Some (Num i) \<in> set (tkeys m)"
    using assms by (force simp: tkeys_def dest: map_of_SomeD)
  then show "{j. i + 1 \<le> j \<and> Some (Num j) \<in> set (tkeys m)} \<subset> {j. i \<le> j \<and> Some (Num j) \<in> set (tkeys m)}"
    by force
qed

text \<open>\<open>while (this._sentMessages[id] !== undefined) id++\<close>\<close>

function next_free :: "(js_num option, wire_message) table \<Rightarrow> int \<Rightarrow> int" where
  "next_free m i = (if tget m (Some (Num i)) \<noteq> None then next_free m (i + 1) else i)"
  by pat_completeness auto

termination
  by (relation "measure (\<lambda>(m, i). card {j. i \<le> j \<and> Some (Num j) \<in> set (tkeys m)})")
     (auto dest: next_free_measure)

declare next_free.simps [simp del]

lemma next_free_unused: "tget m (Some (Num (next_free m i))) = None"
  by (induction m i rule: next_free.induct) (subst next_free.simps, auto simp: next_free.simps)

lemma next_free_le: "i \<le> next_free m i"
proof (induction m i rule: next_free.induct)
  case (1 m i)
  then show ?case by (subst next_free.simps) auto
qed

lemma next_free_least: "i \<le> j \<Longrightarrow> j < next_free m i \<Longrightarrow> tget m (Some (Num j)) \<noteq> None"
proof (induction m i rule: next_free.induct)
  case (1 m i)
  from "1.prems" have used: "tget m (Some (Num i)) \<noteq> None" by (subst (asm) next_free.simps) (auto split: if_splits)
  then have "next_free m i = next_free m (i + 1)" by (subst next_free.simps) simp
  with "1.IH" [OF used] "1.prems" used show ?case by (cases "i = j") auto
qed

text \<open>The result is the message with its identifier and, when it was stored, its sequence number.\<close>

definition note_sent :: "wire_message \<Rightarrow> client \<Rightarrow> client" where
  "note_sent m c = c\<lparr>sentMessages := tput (messageIdentifier m) m (sentMessages c)\<rparr>"

definition requires_ack :: "wire_message \<Rightarrow> wire_message client_op" where
  "requires_ack m = (\<lambda>c.
     let messageCount = length (tkeys (sentMessages c)) in
     if int messageCount > maxMessageIdentifier c
     then (Inl (Error (js ''Too many messages:'' @ nat_str 10 messageCount)), c)
     else
       let i = next_free (sentMessages c) (message_identifier c);
           m = m\<lparr>messageIdentifier := Some (Num i)\<rparr>
       in andthen (modify (\<lambda>c. note_sent m (c\<lparr>message_identifier := i\<rparr>))) (\<lambda>_.
          andthen (if wm_type m = mt PUBLISH
                   then andthen (store (js ''Sent:'') m) (\<lambda>m. seqn (modify (note_sent m)) (ret m))
                   else ret m) (\<lambda>m.
          seqn (modify (\<lambda>c. if message_identifier c = maxMessageIdentifier c
                            then c\<lparr>message_identifier := 1\<rparr> else c))
               (ret m))) c)"

section \<open>Calls of the application\<close>

record request_options =
  ro_qos :: "int option"
  ro_invocationContext :: "nat option"
  ro_onSuccess :: "callback_id option"
  ro_onFailure :: "callback_id option"
  ro_timeout :: "int option"

definition not_connected :: js_exn where
  "not_connected = Error_of INVALID_STATE [js ''not connected'']"

definition request_timeout :: "request_options \<Rightarrow> ERROR \<Rightarrow> nat option client_op" where
  "request_timeout opt err =
     (case ro_timeout opt of
        None \<Rightarrow> ret None
      | Some t \<Rightarrow>
          if t = 0 then ret None
          else andthen (Timeout (Some t)
                 (T_callback (ro_onFailure opt)
                    (CA_failure (ro_invocationContext opt) (error_code err) (format err []))))
               (\<lambda>i. ret (Some i)))"

text \<open>\<open>filter\<close> is one topic or an array of topics; either way the packet carries a list.\<close>

definition subscribe :: "env \<Rightarrow> js_string list \<Rightarrow> request_options \<Rightarrow> unit client_op" where
  "subscribe E filters opt =
     reading connected (\<lambda>up.
     if \<not> up then throw not_connected
     else
       let q = (case ro_qos opt of None \<Rightarrow> 0 | Some q \<Rightarrow> q);
           m = (WireMessage (mt SUBSCRIBE))\<lparr>topics := filters, requestedQos := map (\<lambda>_. q) filters,
             wm_onSuccess := map_option (\<lambda>f. (f, ro_invocationContext opt)) (ro_onSuccess opt),
             wm_onFailure := map_option (\<lambda>f. (f, ro_invocationContext opt)) (ro_onFailure opt)\<rparr>
       in andthen (request_timeout opt SUBSCRIBE_TIMEOUT) (\<lambda>t.
          andthen (requires_ack (m\<lparr>timeOut := t\<rparr>)) (schedule_message E)))"

definition unsubscribe :: "env \<Rightarrow> js_string list \<Rightarrow> request_options \<Rightarrow> unit client_op" where
  "unsubscribe E filters opt =
     reading connected (\<lambda>up.
     if \<not> up then throw not_connected
     else
       let m = (WireMessage (mt UNSUBSCRIBE))\<lparr>topics := filters,
             wm_callback := map_option (\<lambda>f. (f, ro_invocationContext opt)) (ro_onSuccess opt)\<rparr>
       in andthen (request_timeout opt UNSUBSCRIBE_TIMEOUT) (\<lambda>t.
          andthen (requires_ack (m\<lparr>timeOut := t\<rparr>)) (schedule_message E)))"

text \<open>The report of a message of quality 0, and the slot its result is left in.\<close>

definition report_delivered :: "env \<Rightarrow> message option \<Rightarrow> unit client_op" where
  "report_delivered E msg =
     reading onMessageDelivered (\<lambda>f.
     case f of
       None \<Rightarrow> ret ()
     | Some f \<Rightarrow> andthen (invoke E f (CA_message msg)) (\<lambda>r.
         modify (\<lambda>c. c\<lparr>notify_msg_sent := Some (N_returned r)\<rparr>)))"

definition buffer_message :: "wire_message \<Rightarrow> client \<Rightarrow> client" where
  "buffer_message m c =
     (let n = Suc (c_sequence c)
      in c\<lparr>c_sequence := n, buffered_msg_queue := m\<lparr>sequence := Some n\<rparr> # buffered_msg_queue c\<rparr>)"

definition buffered_count :: "client \<Rightarrow> nat" where
  "buffered_count c = length (tkeys (sentMessages c)) + length (buffered_msg_queue c)"

definition send :: "env \<Rightarrow> message \<Rightarrow> unit client_op" where
  "send E msg =
     (let m = (WireMessage (mt PUBLISH))\<lparr>payloadMessage := Some msg\<rparr> in
      reading connected (\<lambda>up.
      if up then
        andthen (if qos msg > 0 then requires_ack m else seqn (report_delivered E (Some msg)) (ret m))
          (schedule_message E)
      else
        reading (\<lambda>c. reconnecting c \<and> disconnectedPublishing c) (\<lambda>offline.
        if offline then
          reading (\<lambda>c. (int (buffered_count c), disconnectedBufferSize c)) (\<lambda>(n, size).
          if n > size then throw (Error_of BUFFER_FULL [int_str 10 size])
          else if qos msg > 0 then seqn (requires_ack m) (ret ())
          else modify (buffer_message m))
        else throw not_connected)))"

definition disconnect :: "env \<Rightarrow> unit client_op" where
  "disconnect E =
     seqn stop_reconnecting
    (reading c_socket (\<lambda>s.
     if s = None then throw (Error_of INVALID_STATE [js ''not connecting or connected''])
     else
       seqn (modify (\<lambda>c. c\<lparr>notify_msg_sent := Some N_disconnected\<rparr>))
            (schedule_message E (WireMessage (mt DISCONNECT)))))"

end
