(* ===== verification/Wire_Correct.thy ===== *)
theory Wire_Correct
  imports Wire
begin

text \<open>
  What the wire format promises.  \<open>packet_body\<close> and \<open>packet_first\<close> specify a packet as the
  concatenation of its fields; \<open>encode\<close> implements them, without writing out of its buffer and
  without an exception, for every packet whose strings are well formed; \<open>decodeMessage\<close> inverts them
  for the packets that travel in both directions, wherever the packet stands in the input.
\<close>

section \<open>The specification of a packet\<close>

definition id_bytes :: "wire_message \<Rightarrow> byte list" where
  "id_bytes m = (case messageIdentifier m of None \<Rightarrow> [] | Some i \<Rightarrow> u16 i)"

definition optional_string :: "js_string option \<Rightarrow> byte list" where
  "optional_string s = (case s of None \<Rightarrow> [] | Some s \<Rightarrow> mqtt_string s)"

definition will_image :: "message \<Rightarrow> byte list" where
  "will_image will = (case payload will of PString s \<Rightarrow> utf8 s | PUint8 b \<Rightarrow> b | PBuffer b \<Rightarrow> [])"

definition will_spec :: "message option \<Rightarrow> byte list" where
  "will_spec w = (case w of
     None \<Rightarrow> []
   | Some will \<Rightarrow> mqtt_string (the (destinationName will))
       @ u16 (Num (int (length (will_image will)))) @ will_image will)"

definition proto_spec :: "connect_options \<Rightarrow> byte list" where
  "proto_spec opts =
     (if co_mqttVersion opts = Some 3 then MqttProtoIdentifierv3 else MqttProtoIdentifierv4)"

definition connect_body :: "wire_message \<Rightarrow> byte list" where
  "connect_body m =
     (let opts = wm_options m in
      proto_spec opts @ [word_of_int (connect_flags opts)]
      @ u16 (num_or_undefined (co_keepAliveInterval opts)) @ id_bytes m
      @ mqtt_string (wm_clientId m) @ will_spec (co_willMessage opts)
      @ optional_string (co_userName opts) @ optional_string (co_password opts))"

definition publish_body :: "wire_message \<Rightarrow> message \<Rightarrow> byte list" where
  "publish_body m msg =
     mqtt_string (the (destinationName msg)) @ id_bytes m @ payload_image (payload msg)"

definition subscription_list :: "js_string list \<Rightarrow> int list \<Rightarrow> byte list" where
  "subscription_list ts qs = concat (map2 (\<lambda>t q. mqtt_string t @ [word_of_int q]) ts qs)"

definition packet_body :: "wire_message \<Rightarrow> byte list" where
  "packet_body m =
     (if wm_type m = mt CONNECT then connect_body m
      else if wm_type m = mt PUBLISH then publish_body m (the (payloadMessage m))
      else if wm_type m = mt SUBSCRIBE then id_bytes m @ subscription_list (topics m) (requestedQos m)
      else if wm_type m = mt UNSUBSCRIBE then id_bytes m @ concat (map mqtt_string (topics m))
      else id_bytes m)"

definition publish_flags :: "message \<Rightarrow> int" where
  "publish_flags msg =
     (if duplicate msg then 8 else 0) + 2 * qos msg + (if retained msg then 1 else 0)"

definition packet_first :: "wire_message \<Rightarrow> int" where
  "packet_first m =
     16 * int (wm_type m)
     + (if wm_type m = mt PUBLISH then publish_flags (the (payloadMessage m))
        else if wm_type m = mt SUBSCRIBE \<or> wm_type m = mt UNSUBSCRIBE \<or> wm_type m = mt PUBREL then 2
        else 0)"

definition packet :: "wire_message \<Rightarrow> byte list" where
  "packet m = word_of_int (packet_first m) # encodeMBI (int (length (packet_body m))) @ packet_body m"

text \<open>The packets the specification is about.\<close>

definition optional_paired :: "js_string option \<Rightarrow> bool" where
  "optional_paired s = (case s of None \<Rightarrow> True | Some s \<Rightarrow> paired s)"

definition named_message_ok :: "message \<Rightarrow> bool" where
  "named_message_ok msg =
     (message_ok msg \<and> payload_ok (payload msg)
      \<and> (case destinationName msg of None \<Rightarrow> False | Some t \<Rightarrow> paired t))"

definition connect_ok :: "wire_message \<Rightarrow> bool" where
  "connect_ok m =
     (let opts = wm_options m in
      co_mqttVersion opts \<in> {Some 3, Some 4} \<and> paired (wm_clientId m)
      \<and> (case co_willMessage opts of None \<Rightarrow> True | Some will \<Rightarrow> named_message_ok will)
      \<and> optional_paired (co_userName opts) \<and> optional_paired (co_password opts))"

definition encodable :: "wire_message \<Rightarrow> bool" where
  "encodable m =
     (wm_type m < 16
      \<and> (wm_type m = mt CONNECT \<longrightarrow> connect_ok m)
      \<and> (wm_type m = mt PUBLISH \<longrightarrow>
           (case payloadMessage m of None \<Rightarrow> False | Some msg \<Rightarrow> named_message_ok msg))
      \<and> (wm_type m = mt SUBSCRIBE \<longrightarrow> length (requestedQos m) = length (topics m))
      \<and> (wm_type m \<in> {mt SUBSCRIBE, mt UNSUBSCRIBE} \<longrightarrow> list_all paired (topics m)))"

section \<open>The encoder fills its buffer\<close>

lemma length_optional_string:
  "optional_paired s \<Longrightarrow> length (optional_string s) = optional_string_length s"
  by (auto simp: optional_paired_def optional_string_def optional_string_length_def split: option.splits)

lemma write_optional_string_cur:
  "optional_paired s \<Longrightarrow> length (optional_string s) \<le> k \<Longrightarrow>
   write_optional_string s (cur d k) = Inr (cur (d @ optional_string s) (k - length (optional_string s)))"
  by (auto simp: optional_paired_def optional_string_def write_optional_string_def writeString_cur
      split: option.splits)

lemma write_subscriptions_cur:
  "list_all paired ts \<Longrightarrow> length qs = length ts \<Longrightarrow> length (subscription_list ts qs) \<le> k \<Longrightarrow>
   write_subscriptions ts qs (cur d k)
     = Inr (cur (d @ subscription_list ts qs) (k - length (subscription_list ts qs)))"
proof (induction ts arbitrary: qs d k)
  case Nil
  then show ?case by (simp add: subscription_list_def)
next
  case (Cons t ts)
  then obtain q qs' where qs: "qs = q # qs'" by (cases qs) auto
  have len: "length (subscription_list (t # ts) qs)
      = UTF8Length t + 3 + length (subscription_list ts qs')"
    using Cons.prems by (simp add: subscription_list_def qs)
  have "write_subscriptions (t # ts) qs (cur d k)
      = write_subscriptions ts qs' (cur (d @ mqtt_string t @ [word_of_int q]) (k - (UTF8Length t + 3)))"
    using Cons.prems len by (simp add: qs writeString_cur put_byte_cur diff_diff_left eval_nat_numeral)
  also have "\<dots> = Inr (cur ((d @ mqtt_string t @ [word_of_int q]) @ subscription_list ts qs')
      (k - (UTF8Length t + 3) - length (subscription_list ts qs')))"
    using Cons.prems len qs by (intro Cons.IH) auto
  finally show ?case
    using len by (simp add: subscription_list_def qs diff_diff_left eval_nat_numeral)
qed

lemma write_topics_cur:
  "list_all paired ts \<Longrightarrow> length (concat (map mqtt_string ts)) \<le> k \<Longrightarrow>
   write_topics ts (cur d k)
     = Inr (cur (d @ concat (map mqtt_string ts)) (k - length (concat (map mqtt_string ts))))"
proof (induction ts arbitrary: d k)
  case Nil
  then show ?case by simp
next
  case (Cons t ts)
  then have "write_topics (t # ts) (cur d k)
      = write_topics ts (cur (d @ mqtt_string t) (k - (UTF8Length t + 2)))"
    by (simp add: writeString_cur)
  also have "\<dots> = Inr (cur ((d @ mqtt_string t) @ concat (map mqtt_string ts))
      (k - (UTF8Length t + 2) - length (concat (map mqtt_string ts))))"
    using Cons.prems by (intro Cons.IH) auto
  finally show ?case using Cons.prems by (simp add: diff_diff_left)
qed

lemma length_topics: "list_all paired ts \<Longrightarrow> length (concat (map mqtt_string ts)) = topics_length ts"
  by (induction ts) (simp_all add: topics_length_def)

lemma length_subscriptions:
  "list_all paired ts \<Longrightarrow> length qs = length ts \<Longrightarrow>
   length (subscription_list ts qs) = topics_length ts + length qs"
proof (induction ts arbitrary: qs)
  case Nil
  then show ?case by (simp add: subscription_list_def topics_length_def)
next
  case (Cons t ts)
  then obtain q qs' where "qs = q # qs'" by (cases qs) auto
  with Cons show ?case by (simp add: subscription_list_def topics_length_def)
qed

lemma will_bytes_ok: "payload_ok (payload will) \<Longrightarrow> will_bytes will = Inr (will_image will)"
  using payloadBytes_ok [of will]
  by (auto simp: will_bytes_def will_image_def payload_image_def payloadBytes_def payload_ok_def
      bind_res_def split: payload.splits sum.splits)

lemma length_will_spec:
  "named_message_ok will \<Longrightarrow>
   length (will_spec (Some will)) = UTF8Length (the (destinationName will)) + 2 + length (will_image will) + 2"
  by (auto simp: will_spec_def named_message_ok_def split: option.splits)

lemma named_messageE:
  assumes "named_message_ok msg"
  obtains t where "destinationName msg = Some t" "paired t" "payload_ok (payload msg)" "message_ok msg"
  using assms by (auto simp: named_message_ok_def split: option.splits)

lemma plan_connect_ok:
  assumes "connect_ok m"
  shows "\<exists>p'. plan_connect m p = Inr p' \<and> ep_first p' = ep_first p
    \<and> ep_remLength p' + length (id_bytes m) = ep_remLength p + length (connect_body m)
    \<and> (\<forall>will. co_willMessage (wm_options m) = Some will \<longrightarrow> ep_willMessagePayloadBytes p' = will_image will)"
proof (cases "co_willMessage (wm_options m)")
  case None
  with assms show ?thesis
    by (auto simp: connect_ok_def plan_connect_def connect_body_def Let_def will_spec_def proto_spec_def
        length_optional_string)
next
  case (Some will)
  with assms have will: "named_message_ok will" by (simp add: connect_ok_def Let_def)
  then obtain t where t: "destinationName will = Some t" "paired t" "payload_ok (payload will)"
    by (rule named_messageE)
  from assms Some t will_bytes_ok [OF t(3)] length_will_spec [OF will] show ?thesis
    by (auto simp: connect_ok_def plan_connect_def connect_body_def Let_def proto_spec_def
        length_optional_string)
qed

lemma publish_first_bits:
  assumes "message_ok msg"
  shows "(let first = push_bit 4 (int (mt PUBLISH) AND 0x0F);
          first = (if duplicate msg then first OR 0x08 else first);
          first = first OR push_bit 1 (qos msg)
      in if retained msg then first OR 0x01 else first) = 48 + publish_flags msg"
  using assms by (auto simp: message_ok_def publish_flags_def)

lemma plan_publish_ok:
  assumes "payloadMessage m = Some msg" "named_message_ok msg" "ep_first p = push_bit 4 (int (mt PUBLISH) AND 0x0F)"
  shows "\<exists>p'. plan_publish m p = Inr p' \<and> ep_first p' = 48 + publish_flags msg
    \<and> ep_remLength p' + length (id_bytes m) = ep_remLength p + length (publish_body m msg)
    \<and> ep_destinationNameLength p' = UTF8Length (the (destinationName msg))
    \<and> ep_payloadBytes p' = payload_image (payload msg)"
proof -
  from assms(2) obtain t where t: "destinationName msg = Some t" "paired t" "payload_ok (payload msg)"
    "message_ok msg" by (rule named_messageE)
  from payloadBytes_ok [OF t(3)] obtain b where "payloadBytes msg = Inr b"
    "raw_bytes b = payload_image (payload msg)" by blast
  with assms t publish_first_bits [OF t(4)] show ?thesis
    by (auto simp: plan_publish_def publish_body_def Let_def)
qed

lemma length_id_bytes: "length (id_bytes m) = (if messageIdentifier m \<noteq> None then 2 else 0)"
  by (auto simp: id_bytes_def split: option.splits)

text \<open>The plan has the first byte and the size of the specified packet.\<close>

definition plan_for :: "wire_message \<Rightarrow> encode_plan \<Rightarrow> bool" where
  "plan_for m p \<longleftrightarrow>
     ep_first p = packet_first m \<and> ep_remLength p = length (packet_body m)
     \<and> (wm_type m = mt CONNECT \<longrightarrow> (\<forall>will. co_willMessage (wm_options m) = Some will \<longrightarrow>
          ep_willMessagePayloadBytes p = will_image will))
     \<and> (wm_type m = mt PUBLISH \<longrightarrow>
          ep_destinationNameLength p = UTF8Length (the (destinationName (the (payloadMessage m))))
          \<and> ep_payloadBytes p = payload_image (payload (the (payloadMessage m))))"

lemma type_bits: "t < 16 \<Longrightarrow> push_bit 4 (int t AND 15) = 16 * int t"
  using and_mod [of "int t" 4] by (simp only: push_bit_eq_mult) simp

lemma encode_sizes_ok:
  assumes "encodable m"
  shows "\<exists>p. encode_sizes m = Inr p \<and> plan_for m p"
proof -
  let ?p = "\<lparr>ep_first = push_bit 4 (int (wm_type m) AND 0x0F),
    ep_remLength = (if messageIdentifier m \<noteq> None then 2 else 0), ep_destinationNameLength = 0,
    ep_willMessagePayloadBytes = [], ep_payloadBytes = []\<rparr>"
  have t: "wm_type m < 16" using assms by (simp add: encodable_def)
  consider "wm_type m = mt CONNECT" | "wm_type m = mt PUBLISH" | "wm_type m = mt SUBSCRIBE"
    | "wm_type m = mt UNSUBSCRIBE" | "wm_type m = mt PUBREL"
    | (other) "wm_type m \<notin> {mt CONNECT, mt PUBLISH, mt SUBSCRIBE, mt UNSUBSCRIBE, mt PUBREL}"
    by blast
  then show ?thesis
  proof cases
    case 1
    with assms have "connect_ok m" by (simp add: encodable_def)
    from plan_connect_ok [OF this, of ?p] obtain p' where "plan_connect m ?p = Inr p'"
      "ep_first p' = ep_first ?p" "ep_remLength p' + length (id_bytes m) = ep_remLength ?p + length (connect_body m)"
      "\<forall>will. co_willMessage (wm_options m) = Some will \<longrightarrow> ep_willMessagePayloadBytes p' = will_image will"
      by blast
    with 1 show ?thesis
      by (simp add: encode_sizes_def plan_for_def packet_first_def packet_body_def length_id_bytes split: if_splits)
  next
    case 2
    with assms obtain msg where msg: "payloadMessage m = Some msg" "named_message_ok msg"
      by (auto simp: encodable_def split: option.splits)
    from plan_publish_ok [OF this, of ?p] 2 obtain p' where "plan_publish m ?p = Inr p'"
      "ep_first p' = 48 + publish_flags msg"
      "ep_remLength p' + length (id_bytes m) = ep_remLength ?p + length (publish_body m msg)"
      "ep_destinationNameLength p' = UTF8Length (the (destinationName msg))"
      "ep_payloadBytes p' = payload_image (payload msg)"
      by auto
    with 2 msg show ?thesis
      by (simp add: encode_sizes_def plan_for_def packet_first_def packet_body_def length_id_bytes split: if_splits)
  next
    case 3
    with assms show ?thesis
      by (simp add: encodable_def encode_sizes_def plan_for_def packet_first_def packet_body_def length_id_bytes
          length_subscriptions)
  next
    case 4
    with assms show ?thesis
      by (simp add: encodable_def encode_sizes_def plan_for_def packet_first_def packet_body_def length_id_bytes
          length_topics)
  next
    case 5
    with assms show ?thesis
      by (simp add: encodable_def encode_sizes_def plan_for_def packet_first_def packet_body_def length_id_bytes)
  next
    case other
    with t show ?thesis
      by (simp add: encode_sizes_def plan_for_def packet_first_def packet_body_def length_id_bytes type_bits [simplified])
  qed
qed

text \<open>The writes append the specified body to what the cursor has already filled.\<close>

lemma write_id_cur:
  "length (id_bytes m) \<le> k \<Longrightarrow>
   (case messageIdentifier m of None \<Rightarrow> cur d k | Some i \<Rightarrow> writeUint16 i (cur d k))
     = cur (d @ id_bytes m) (k - length (id_bytes m))"
  by (auto simp: id_bytes_def writeUint16_cur split: option.splits)

lemma write_connect_header_cur:
  assumes "connect_ok m" "length (proto_spec (wm_options m)) + 3 \<le> k"
  shows "write_connect_header (wm_options m) (cur d k)
    = Inr (cur (d @ proto_spec (wm_options m) @ [word_of_int (connect_flags (wm_options m))]
          @ u16 (num_or_undefined (co_keepAliveInterval (wm_options m))))
        (k - (length (proto_spec (wm_options m)) + 3)))"
  using assms by (auto simp: connect_ok_def Let_def write_connect_header_def proto_spec_def cur_simps eval_nat_numeral)

lemma write_connect_payload_cur:
  assumes m: "connect_ok m"
    and w: "\<And>will. co_willMessage (wm_options m) = Some will \<Longrightarrow> wb = will_image will"
    and k: "k = UTF8Length (wm_clientId m) + 2 + length (will_spec (co_willMessage (wm_options m)))
      + length (optional_string (co_userName (wm_options m)))
      + length (optional_string (co_password (wm_options m)))"
  shows "write_connect_payload (wm_clientId m) (wm_options m) wb (cur d k)
    = Inr (cur (d @ mqtt_string (wm_clientId m) @ will_spec (co_willMessage (wm_options m))
        @ optional_string (co_userName (wm_options m)) @ optional_string (co_password (wm_options m))) 0)"
proof (cases "co_willMessage (wm_options m)")
  case None
  with m k show ?thesis
    by (simp add: connect_ok_def Let_def write_connect_payload_def writeString_cur write_optional_string_cur
        will_spec_def)
next
  case (Some will)
  with m have will: "named_message_ok will" by (simp add: connect_ok_def Let_def)
  then obtain t where t: "destinationName will = Some t" "paired t" by (rule named_messageE)
  show ?thesis
    using m k Some t w [OF Some] length_will_spec [OF will]
    by (simp add: connect_ok_def Let_def write_connect_payload_def cur_simps write_optional_string_cur
        will_spec_def)
qed

lemma write_body_cur:
  assumes "encodable m" "plan_for m p"
  shows "write_body m p (cur d (length (packet_body m))) = Inr (cur (d @ packet_body m) 0)"
proof -
  consider "wm_type m = mt CONNECT" | "wm_type m = mt PUBLISH" | "wm_type m = mt SUBSCRIBE"
    | "wm_type m = mt UNSUBSCRIBE"
    | (other) "wm_type m \<notin> {mt CONNECT, mt PUBLISH, mt SUBSCRIBE, mt UNSUBSCRIBE}"
    by blast
  then show ?thesis
  proof cases
    case 1
    with assms have m: "connect_ok m" by (simp add: encodable_def)
    then have cid: "paired (wm_clientId m)" by (simp add: connect_ok_def Let_def)
    have wb: "\<And>will. co_willMessage (wm_options m) = Some will \<Longrightarrow> ep_willMessagePayloadBytes p = will_image will"
      using 1 assms(2) by (simp add: plan_for_def)
    have len: "length (connect_body m) = length (proto_spec (wm_options m)) + 3 + length (id_bytes m)
      + (UTF8Length (wm_clientId m) + 2 + length (will_spec (co_willMessage (wm_options m)))
         + length (optional_string (co_userName (wm_options m))) + length (optional_string (co_password (wm_options m))))"
      using cid by (simp add: connect_body_def Let_def)
    show ?thesis
      using 1 cid
      by (simp add: write_body_def packet_body_def write_connect_header_cur [OF m] len write_id_cur
          write_connect_payload_cur [OF m wb] connect_body_def Let_def)
  next
    case 2
    with assms obtain msg t where msg: "payloadMessage m = Some msg" "destinationName msg = Some t" "paired t"
      by (auto simp: encodable_def named_message_ok_def split: option.splits)
    with 2 assms(2) show ?thesis
      by (simp add: write_body_def packet_body_def publish_body_def plan_for_def writeString_cur write_id_cur
          put_array_cur Let_def)
  next
    case 3
    with assms show ?thesis
      by (simp add: write_body_def packet_body_def encodable_def write_id_cur write_subscriptions_cur Let_def)
  next
    case 4
    with assms show ?thesis
      by (simp add: write_body_def packet_body_def encodable_def write_id_cur write_topics_cur Let_def)
  next
    case other
    then show ?thesis
      by (simp add: write_body_def packet_body_def write_id_cur Let_def)
  qed
qed

section \<open>Refinement\<close>

lemma encode_eq_packet:
  assumes "encodable m"
  shows "encode m = Inr (packet m)"
proof -
  from encode_sizes_ok [OF assms] obtain p where p: "encode_sizes m = Inr p" "plan_for m p" by blast
  let ?n = "length (packet_body m)" and ?f = "word_of_int (packet_first m) :: byte"
  let ?mbi = "encodeMBI (int ?n)"
  have n: "ep_remLength p = ?n" and f: "ep_first p = packet_first m"
    using p(2) by (simp_all add: plan_for_def)
  have "buf_put (replicate (?n + (length ?mbi + 1)) 0) 0 (packet_first m)
      = [?f] @ replicate (?n + length ?mbi) 0"
    by (simp add: buf_put_def)
  moreover have "buf_set ([?f] @ replicate (?n + length ?mbi) 0) ?mbi 1 = Inr (fst (cur (?f # ?mbi) ?n))"
    by (subst buf_set_at) simp_all
  ultimately show ?thesis
    using write_body_cur [OF assms p(2), of "?f # ?mbi"]
    by (simp add: encode_def p(1) n f packet_def cur_def)
qed

section \<open>Properties\<close>

text \<open>Property C16.  \<open>encode\<close> implements the packet format: for every packet whose strings have paired
  surrogates, filling the buffer in place throws nothing, writes nothing out of range, leaves no byte
  unwritten, and produces the first byte, the remaining length and the fields of the packet, in order.\<close>

theorem encode_refines_packet:
  assumes "encodable m"
  shows "encode m = Inr (packet m)"
  using assms by (rule encode_eq_packet)

theorem encode_refines_packet_witness:
  "encode ((WireMessage (mt SUBSCRIBE))\<lparr>messageIdentifier := Some (Num 1), topics := [[0x61]], requestedQos := [1]\<rparr>)
    = Inr [0x82, 6, 0, 1, 0, 1, 0x61, 1]"
proof -
  let ?m = "(WireMessage (mt SUBSCRIBE))\<lparr>messageIdentifier := Some (Num 1), topics := [[0x61]], requestedQos := [1]\<rparr>"
  have "encodable ?m" by (simp add: encodable_def WireMessage_def high_surrogate_def)
  moreover have "packet ?m = [0x82, 6, 0, 1, 0, 1, 0x61, 1]"
    by (simp add: packet_def packet_first_def packet_body_def WireMessage_def id_bytes_def subscription_list_def
        mqtt_string_def u16_def js_rem_def to_int32_def high_surrogate_def utf8_bytes_def encodeMBI_def
        encodeMBI_loop.simps)
  ultimately show ?thesis using encode_refines_packet by metis
qed

text \<open>The connect flags of a CONNECT packet say what the options hold: the bits of the clean
  session, of the will with its quality of service and retain flag, of the password and of the user
  name, the reserved bit 0 is clear, and the flags fit in a byte.\<close>

theorem connect_flags_bits:
  assumes "\<forall>will. co_willMessage opts = Some will \<longrightarrow> message_ok will"
  shows "bit (connect_flags opts) 1 = (co_cleanSession opts = Some True)
    \<and> bit (connect_flags opts) 2 = (co_willMessage opts \<noteq> None)
    \<and> drop_bit 3 (connect_flags opts) AND 3 = (case co_willMessage opts of None \<Rightarrow> 0 | Some will \<Rightarrow> qos will)
    \<and> bit (connect_flags opts) 5 = (case co_willMessage opts of None \<Rightarrow> False | Some will \<Rightarrow> retained will)
    \<and> bit (connect_flags opts) 6 = (co_password opts \<noteq> None)
    \<and> bit (connect_flags opts) 7 = (co_userName opts \<noteq> None)
    \<and> \<not> bit (connect_flags opts) 0 \<and> 0 \<le> connect_flags opts \<and> connect_flags opts < 256"
proof -
  consider (none) "co_willMessage opts = None"
    | (some) will where "co_willMessage opts = Some will" "qos will = 0 \<or> qos will = 1 \<or> qos will = 2"
    using assms by (cases "co_willMessage opts") (auto simp: message_ok_def)
  then show ?thesis
  proof cases
    case none
    then show ?thesis
      by (cases "co_cleanSession opts = Some True"; cases "co_userName opts = None"; cases "co_password opts = None")
        (simp_all add: connect_flags_def)
  next
    case some
    from some(2) show ?thesis
      by (elim disjE; cases "co_cleanSession opts = Some True"; cases "co_userName opts = None";
          cases "co_password opts = None"; cases "retained will")
        (simp_all add: connect_flags_def some(1))
  qed
qed

theorem connect_flags_bits_witness:
  "bit (connect_flags (no_options\<lparr>co_cleanSession := Some True, co_willMessage := Some
      \<lparr>payload = PString [], destinationName = Some [0x74], qos = 2, retained = True, duplicate = False\<rparr>\<rparr>)) 5"
proof -
  let ?opts = "no_options\<lparr>co_cleanSession := Some True, co_willMessage := Some
      \<lparr>payload = PString [], destinationName = Some [0x74], qos = 2, retained = True, duplicate = False\<rparr>\<rparr>"
  have "\<forall>will. co_willMessage ?opts = Some will \<longrightarrow> message_ok will" by (simp add: message_ok_def)
  from connect_flags_bits [OF this] show ?thesis by simp
qed

end
