(* ===== verification/Framing.thy ===== *)
theory Framing
  imports Wire_Correct
begin

text \<open>
  Cutting the byte stream of the connection into packets.  The first part is the loop of
  \<open>_deframeMessages\<close>; the second part specifies the packets a server sends and shows that however
  the stream is split into WebSocket messages, the client sees exactly the packets sent, in order.
\<close>

section \<open>The code\<close>

function deframe_loop ::
  "byte list \<Rightarrow> nat \<Rightarrow> wire_message list \<Rightarrow> (wire_message list \<times> nat) res" where
  "deframe_loop byteArray offset messages =
     (if offset < length byteArray then
        (case decodeMessage byteArray offset of
           Inl e \<Rightarrow> Inl e
         | Inr (Incomplete p) \<Rightarrow> Inr (messages, p)
         | Inr (Packet wireMessage p) \<Rightarrow> deframe_loop byteArray p (messages @ [wireMessage]))
      else Inr (messages, offset))"
  by pat_completeness auto
termination
  by (relation "measure (\<lambda>(byteArray, offset, messages). length byteArray - offset)")
     (auto dest: decodeMessage_progress)

declare deframe_loop.simps [simp del]

text \<open>
  \<open>deframe receiveBuffer data\<close>: the messages and the new \<open>receiveBuffer\<close>.  The old buffer is put in
  front of the data; on an exception the caller disconnects, and the buffer has been deleted.
\<close>

definition deframe :: "byte list option \<Rightarrow> byte list \<Rightarrow> (wire_message list \<times> byte list option) res" where
  "deframe receiveBuffer data =
     (let byteArray = (case receiveBuffer of None \<Rightarrow> data | Some b \<Rightarrow> b @ data)
      in bind_res (deframe_loop byteArray 0 []) (\<lambda>(messages, offset).
         Inr (messages, if offset < length byteArray then Some (drop offset byteArray) else None)))"

section \<open>Frames\<close>

definition frame :: "int \<Rightarrow> byte list \<Rightarrow> byte list" where
  "frame first body = word_of_int first # encodeMBI (int (length body)) @ body"

lemma packet_frame: "packet m = frame (packet_first m) (packet_body m)"
  by (simp add: packet_def frame_def)

lemma decodeMessage_frame:
  assumes "0 \<le> first" "first < 256" "length body < 2 ^ 28"
    and pos: "pos = length pre + 1 + length (encodeMBI (int (length body)))"
  shows "decodeMessage (pre @ frame first body @ rest) (length pre)
    = bind_res (decode_body (pre @ frame first body @ rest) (nat (first div 16)) (first mod 16) pos
          (pos + length body))
        (\<lambda>w. Inr (Packet w (length pre + length (frame first body))))"
proof -
  let ?in = "pre @ frame first body @ rest" and ?mbi = "encodeMBI (int (length body))"
  have "decodeMBI ((pre @ [word_of_int first]) @ ?mbi @ body @ rest) (length pre + 1) 0 1
      = Some (int (length body), length pre + 1 + length ?mbi)"
    using assms by (intro encodeMBI_decode) auto
  moreover have "?in ! length pre = word_of_int first" by (simp add: nth_append frame_def)
  moreover have "uint (word_of_int first :: byte) = first"
    using assms by simp
  moreover have "first AND 15 = first mod 16" using and_mod [of first 4] by simp
  ultimately show ?thesis
    by (simp add: decodeMessage_def Let_def pos frame_def drop_bit_eq_div add.assoc)
qed

text \<open>A proper prefix of the encoded length does not end the decoding loop.\<close>

lemma decodeMBI_extend:
  "decodeMBI input pos r m = Some (n, p) \<Longrightarrow> decodeMBI (input @ suf) pos r m = Some (n, p)"
proof (induction input pos r m rule: decodeMBI.induct)
  case (1 input pos r m)
  from "1.prems" show ?case
    using "1.IH" [OF _ refl refl]
    by (auto simp: decodeMBI.simps [of input pos r m] decodeMBI.simps [of "input @ suf" pos r m] Let_def
        nth_append split: if_splits)
qed

lemma decodeMessage_proper_prefix:
  assumes "length body < 2 ^ 28" and "frame first body = t @ u" "t \<noteq> []" "u \<noteq> []"
  shows "decodeMessage (pre @ t) (length pre) = Inr (Incomplete (length pre))"
proof (cases "decodeMBI (pre @ t) (length pre + 1) 0 1")
  case None
  then show ?thesis by (simp add: decodeMessage_def Let_def)
next
  case (Some r)
  then obtain n p where np: "decodeMBI (pre @ t) (length pre + 1) 0 1 = Some (n, p)" by (cases r) auto
  let ?mbi = "encodeMBI (int (length body))"
  have "decodeMBI ((pre @ [word_of_int first]) @ ?mbi @ body) (length pre + 1) 0 1
      = Some (int (length body), length pre + 1 + length ?mbi)"
    using assms(1) by (intro encodeMBI_decode) auto
  moreover have "(pre @ [word_of_int first]) @ ?mbi @ body = (pre @ t) @ u"
    using assms(2) by (simp add: frame_def)
  ultimately have "n = int (length body)" "p = length pre + 1 + length ?mbi"
    using decodeMBI_extend [OF np, of u] by auto
  moreover have "length (frame first body) = 1 + length ?mbi + length body" by (simp add: frame_def)
  moreover have "length (frame first body) = length t + length u" by (simp add: assms(2))
  moreover have "0 < length u" using assms(4) by simp
  ultimately have "n = int (length body)" "p = length pre + 1 + length ?mbi"
    "length t < 1 + length ?mbi + length body" by linarith+
  then show ?thesis
    using np by (simp add: decodeMessage_def Let_def)
qed

section \<open>The packets of a server\<close>

datatype server_packet =
    S_connack bool int
  | S_publish message int
  | S_ack MESSAGE_TYPE int
  | S_suback int "byte list"
  | S_pingresp

definition id_of :: "message \<Rightarrow> int \<Rightarrow> js_num option" where
  "id_of msg i = (if 0 < qos msg then Some (Num i) else None)"

definition as_publish :: "message \<Rightarrow> int \<Rightarrow> wire_message" where
  "as_publish msg i = (WireMessage (mt PUBLISH))\<lparr>messageIdentifier := id_of msg i, payloadMessage := Some msg\<rparr>"

text \<open>The header of an acknowledgement: PUBREL has the reserved bits 0010, the others have none.\<close>

definition ack_first :: "MESSAGE_TYPE \<Rightarrow> int" where
  "ack_first t = 16 * int (mt t) + (if t = PUBREL then 2 else 0)"

primrec server_frame :: "server_packet \<Rightarrow> byte list" where
  "server_frame (S_connack sp rc) = frame 0x20 [of_bool sp, word_of_int rc]"
| "server_frame (S_publish msg i) = packet (as_publish msg i)"
| "server_frame (S_ack t i) = frame (ack_first t) (u16 (Num i))"
| "server_frame (S_suback i codes) = frame 0x90 (u16 (Num i) @ codes)"
| "server_frame S_pingresp = frame 0xD0 []"

text \<open>What the client is to see of each packet: of a payload, its bytes.\<close>

primrec received :: "server_packet \<Rightarrow> wire_message" where
  "received (S_connack sp rc) = (WireMessage (mt CONNACK))\<lparr>sessionPresent := sp, returnCode := Some rc\<rparr>"
| "received (S_publish msg i) = as_publish (msg\<lparr>payload := PUint8 (payload_image (payload msg))\<rparr>) i"
| "received (S_ack t i) = WireMessage_id (mt t) (Some (Num i))"
| "received (S_suback i codes) =
     (WireMessage (mt SUBACK))\<lparr>messageIdentifier := Some (Num i), returnCodes := codes\<rparr>"
| "received S_pingresp = WireMessage (mt PINGRESP)"

definition id_ok :: "int \<Rightarrow> bool" where
  "id_ok i = (0 \<le> i \<and> i < 65536)"

primrec server_ok :: "server_packet \<Rightarrow> bool" where
  "server_ok (S_connack sp rc) = (0 \<le> rc \<and> rc < 256)"
| "server_ok (S_publish msg i) =
     (named_message_ok msg \<and> id_ok i \<and> UTF8Length (the (destinationName msg)) < 65536
      \<and> length (publish_body (as_publish msg i) msg) < 2 ^ 28)"
| "server_ok (S_ack t i) = (t \<in> {PUBACK, PUBREC, PUBREL, PUBCOMP, UNSUBACK} \<and> id_ok i)"
| "server_ok (S_suback i codes) = (id_ok i \<and> length codes + 2 < 2 ^ 28)"
| "server_ok S_pingresp = True"

section \<open>Decoding a server packet in context\<close>

lemma buf_get_at: "i < length ys \<Longrightarrow> p = length xs + i \<Longrightarrow> buf_get (xs @ ys @ zs) p = Some (uint (ys ! i))"
  by (simp add: buf_get_def nth_append)

lemma frame_split:
  assumes "pos = length pre + 1 + length (encodeMBI (int (length body)))"
  obtains pre' where "pre @ frame first body @ rest = pre' @ body @ rest" "length pre' = pos"
  using assms by (intro that [of "pre @ word_of_int first # encodeMBI (int (length body))"])
    (simp_all add: frame_def)

lemma subarray_at: "p = length xs \<Longrightarrow> e = p + length ys \<Longrightarrow> subarray (xs @ ys @ zs) p e = ys"
  by (simp add: subarray_def)

lemma readUint16_at: "id_ok i \<Longrightarrow> p = length xs \<Longrightarrow> readUint16 (xs @ u16 (Num i) @ zs) p = Num i"
  by (rule readUint16_u16) (simp_all add: id_ok_def)

text \<open>The body of a PUBLISH packet, standing anywhere.\<close>

lemma publish_flag_bits:
  assumes "message_ok msg"
  shows "drop_bit 1 (publish_flags msg) AND 3 = qos msg"
    and "(publish_flags msg AND 1 = 1) = retained msg"
    and "(publish_flags msg AND 8 = 8) = duplicate msg"
    and "0 \<le> publish_flags msg" "publish_flags msg < 16" "qos msg \<le> 2"
  using assms by (auto simp: message_ok_def publish_flags_def)

lemma id_bytes_publish: "id_bytes (as_publish msg i) = (if 0 < qos msg then u16 (Num i) else [])"
  by (simp add: id_bytes_def as_publish_def id_of_def)

lemma decode_publish_body:
  assumes msg: "named_message_ok msg" and t: "destinationName msg = Some t" "UTF8Length t < 65536"
    and i: "id_ok i" and e: "e = length xs + length (publish_body (as_publish msg i) msg)"
  shows "decode_publish (xs @ publish_body (as_publish msg i) msg @ zs) (length xs) e (publish_flags msg)
      (WireMessage (mt PUBLISH))
    = Inr (as_publish (msg\<lparr>payload := PUint8 (payload_image (payload msg))\<rparr>) i)"
proof -
  let ?ids = "id_bytes (as_publish msg i)" and ?pl = "payload_image (payload msg)"
  define inp where "inp = xs @ publish_body (as_publish msg i) msg @ zs"
  have p: "paired t" and ok: "message_ok msg" using msg t by (auto simp: named_message_ok_def)
  note bits = publish_flag_bits [OF ok]
  have body: "publish_body (as_publish msg i) msg = u16 (Num (int (UTF8Length t))) @ utf8 t @ ?ids @ ?pl"
    using t by (simp add: publish_body_def mqtt_string_def)
  have len: "readUint16 inp (length xs) = Num (int (UTF8Length t))"
    unfolding body inp_def
    using readUint16_u16 [of "int (UTF8Length t)" "length xs" xs "utf8 t @ ?ids @ ?pl @ zs"] t by simp
  have topic: "parseUTF8 inp (length xs + 2) (UTF8Length t) = Inr t"
    unfolding body inp_def
    using parseUTF8_utf8 [OF p _ length_utf8 [OF p, symmetric],
        of "length xs + 2" "xs @ u16 (Num (int (UTF8Length t)))" "?ids @ ?pl @ zs"]
    by simp
  have ident: "0 < qos msg \<Longrightarrow> readUint16 inp (length xs + 2 + UTF8Length t) = Num i"
    unfolding body inp_def
    using readUint16_at [OF i, of "length xs + 2 + UTF8Length t" "xs @ u16 (Num (int (UTF8Length t))) @ utf8 t" "?pl @ zs"]
      id_bytes_publish [of msg i]
    by (simp add: length_utf8 [OF p])
  have rest: "subarray inp (length xs + 2 + UTF8Length t + length ?ids) e = ?pl"
    unfolding body inp_def
    using subarray_at [of "length xs + 2 + UTF8Length t + length ?ids"
        "xs @ u16 (Num (int (UTF8Length t))) @ utf8 t @ ?ids" e ?pl zs] e
    by (simp add: length_utf8 [OF p] body)
  have ids: "length ?ids = (if 0 < qos msg then 2 else 0)"
    by (simp add: id_bytes_publish)
  have rec: "\<lparr>payload = q, destinationName = Some t, qos = qos msg, retained = retained msg,
      duplicate = duplicate msg\<rparr> = msg\<lparr>payload := q\<rparr>" for q
    using t(1) by (cases msg) simp
  have "decode_publish inp (length xs) e (publish_flags msg) (WireMessage (mt PUBLISH))
    = Inr ((WireMessage (mt PUBLISH))\<lparr>messageIdentifier := id_of msg i,
        payloadMessage := Some (msg\<lparr>payload := PUint8 ?pl\<rparr>)\<rparr>)"
    using bits rest ids ident
    by (cases "0 < qos msg") (simp_all add: decode_publish_def len topic topic [simplified] Let_def id_of_def rec)
  then show ?thesis
    by (simp add: inp_def as_publish_def id_of_def)
qed

lemma packet_as_publish: "packet (as_publish msg i) = frame (48 + publish_flags msg) (publish_body (as_publish msg i) msg)"
  by (simp add: packet_frame packet_first_def packet_body_def as_publish_def WireMessage_def)

lemma decode_server:
  assumes "server_ok sp"
  shows "decodeMessage (pre @ server_frame sp @ rest) (length pre)
    = Inr (Packet (received sp) (length pre + length (server_frame sp)))"
proof (cases sp)
  case (S_connack sp' rc)
  let ?b = "[of_bool sp', word_of_int rc] :: byte list"
  obtain pre' where split: "pre @ frame 0x20 ?b @ rest = pre' @ ?b @ rest"
      "length pre' = length pre + 1 + length (encodeMBI (int (length ?b)))"
    using frame_split [OF refl] by blast
  from S_connack assms show ?thesis
    using decodeMessage_frame [where first = "0x20" and rest = rest, OF _ _ _ split(2)]
    by (auto simp: split(1) decode_body_def buf_get_def nth_append)
next
  case (S_publish msg i)
  let ?b = "publish_body (as_publish msg i) msg"
  from S_publish assms have msg: "named_message_ok msg" "id_ok i" "length ?b < 2 ^ 28"
    "UTF8Length (the (destinationName msg)) < 65536" by simp_all
  then obtain t where t: "destinationName msg = Some t" "message_ok msg" by (auto elim: named_messageE)
  note bits = publish_flag_bits [OF t(2)]
  obtain pre' where split: "pre @ frame (48 + publish_flags msg) ?b @ rest = pre' @ ?b @ rest"
      "length pre' = length pre + 1 + length (encodeMBI (int (length ?b)))"
    using frame_split [OF refl] by blast
  have "(48 + publish_flags msg) div 16 = 3" "(48 + publish_flags msg) mod 16 = publish_flags msg"
    using bits(4,5) by presburger+
  with S_publish msg t bits show ?thesis
    using decodeMessage_frame [where first = "48 + publish_flags msg" and rest = rest, OF _ _ msg(3) split(2)]
      decode_publish_body [OF msg(1) t(1) _ msg(2) refl, of pre' rest]
    by (simp add: split packet_as_publish decode_body_def)
next
  case (S_ack t i)
  let ?b = "u16 (Num i)"
  obtain pre' where split: "pre @ frame (ack_first t) ?b @ rest = pre' @ ?b @ rest"
      "length pre' = length pre + 1 + length (encodeMBI (int (length ?b)))"
    using frame_split [OF refl] by blast
  have "ack_first t div 16 = int (mt t)" "ack_first t mod 16 = (if t = PUBREL then 2 else 0)"
    "0 \<le> ack_first t" "ack_first t < 256"
    using mt_bounds [of t] by (auto simp: ack_first_def)
  with S_ack assms show ?thesis
    using decodeMessage_frame [where first = "ack_first t" and rest = rest, OF _ _ _ split(2)] mt_bounds [of t]
      readUint16_at [of i "length pre'" pre' rest]
    by (auto simp: split decode_body_def)
next
  case (S_suback i codes)
  let ?b = "u16 (Num i) @ codes"
  obtain pre' where split: "pre @ frame 0x90 ?b @ rest = pre' @ ?b @ rest"
      "length pre' = length pre + 1 + length (encodeMBI (int (length ?b)))"
    using frame_split [OF refl] by blast
  from S_suback assms show ?thesis
    using decodeMessage_frame [where first = "0x90" and rest = rest, OF _ _ _ split(2)]
      readUint16_at [of i "length pre'" pre' "codes @ rest"]
      subarray_at [of "length pre' + 2" "pre' @ u16 (Num i)" "length pre' + length ?b" codes rest]
    by (simp add: split decode_body_def)
next
  case S_pingresp
  show ?thesis
    using decodeMessage_frame [where first = "0xD0" and body = "[]" and pre = pre and rest = rest, OF _ _ _ refl] S_pingresp
    by (simp add: decode_body_def)
qed

lemma server_frame_nonempty: "server_frame sp \<noteq> []"
  by (cases sp) (simp_all add: frame_def packet_def)

lemma server_frame_is_frame:
  assumes "server_ok sp"
  obtains first body where "server_frame sp = frame first body" "length body < 2 ^ 28"
  using assms by (cases sp) (auto simp: packet_as_publish intro: that)

lemma server_prefix:
  assumes "server_ok sp" "server_frame sp = t @ u" "t \<noteq> []" "u \<noteq> []"
  shows "decodeMessage (pre @ t) (length pre) = Inr (Incomplete (length pre))"
proof -
  from assms(1) obtain first body where "server_frame sp = frame first body" "length body < 2 ^ 28"
    by (rule server_frame_is_frame)
  with assms decodeMessage_proper_prefix show ?thesis by simp
qed

section \<open>Streams\<close>

definition stream :: "server_packet list \<Rightarrow> byte list" where
  "stream ps = concat (map server_frame ps)"

text \<open>A strict beginning of the next packet of the list, if there is one.\<close>

definition beginning :: "byte list \<Rightarrow> server_packet list \<Rightarrow> bool" where
  "beginning t ps \<longleftrightarrow>
     t = [] \<or> (\<exists>p ps' u. ps = p # ps' \<and> server_frame p = t @ u \<and> t \<noteq> [] \<and> u \<noteq> [])"

lemma deframe_loop_stream:
  assumes "list_all server_ok ps" "list_all server_ok qs" "beginning t qs"
  shows "deframe_loop (pre @ stream ps @ t) (length pre) ms
    = Inr (ms @ map received ps, length pre + length (stream ps))"
  using assms(1)
proof (induction ps arbitrary: pre ms)
  case Nil
  show ?case
  proof (cases "t = []")
    case True
    then show ?thesis by (simp add: stream_def deframe_loop.simps)
  next
    case False
    with assms(2,3) have "decodeMessage (pre @ t) (length pre) = Inr (Incomplete (length pre))"
      by (auto simp: beginning_def intro: server_prefix)
    with False show ?thesis by (simp add: stream_def deframe_loop.simps [of _ "length pre"])
  qed
next
  case (Cons p ps)
  let ?f = "server_frame p"
  have "deframe_loop (pre @ stream (p # ps) @ t) (length pre) ms
      = deframe_loop ((pre @ ?f) @ stream ps @ t) (length (pre @ ?f)) (ms @ [received p])"
    using decode_server [of p pre "stream ps @ t"] Cons.prems server_frame_nonempty [of p]
    by (simp add: stream_def deframe_loop.simps [of _ "length pre"])
  also have "\<dots> = Inr ((ms @ [received p]) @ map received ps, length (pre @ ?f) + length (stream ps))"
    using Cons.prems by (intro Cons.IH) simp
  finally show ?case by (simp add: stream_def)
qed

text \<open>Whole packets followed by the beginning of the next one.\<close>

definition pending :: "byte list \<Rightarrow> byte list option" where
  "pending t = (if t = [] then None else Some t)"

lemma deframe_stream:
  assumes "list_all server_ok ps" "list_all server_ok qs" "beginning t qs"
    and "(case buf of None \<Rightarrow> [] | Some b \<Rightarrow> b) @ data = stream ps @ t"
  shows "deframe buf data = Inr (map received ps, pending t)"
proof -
  have "(case buf of None \<Rightarrow> data | Some b \<Rightarrow> b @ data) = stream ps @ t"
    using assms(4) by (cases buf) auto
  then show ?thesis
    using deframe_loop_stream [OF assms(1-3), of "[]" "[]"]
    by (simp add: deframe_def pending_def)
qed

text \<open>Every prefix of a stream is a number of whole packets and the beginning of the next.\<close>

lemma prefix_of_stream:
  "stream ps = x @ y \<Longrightarrow> \<exists>done rest t. ps = done @ rest \<and> x = stream done @ t \<and> beginning t rest"
proof (induction ps arbitrary: x)
  case Nil
  then show ?case by (simp add: stream_def beginning_def)
next
  case (Cons p ps)
  then have "server_frame p @ stream ps = x @ y" by (simp add: stream_def)
  then consider (whole) x' where "x = server_frame p @ x'" "stream ps = x' @ y"
    | (part) u where "server_frame p = x @ u" "u \<noteq> []"
    unfolding append_eq_append_conv2 by (metis append_Nil append_Nil2)
  then show ?case
  proof cases
    case whole
    from Cons.IH [OF whole(2)] obtain dn rest t
      where "ps = dn @ rest" "x' = stream dn @ t" "beginning t rest" by blast
    with whole(1) show ?thesis
      by (intro exI [of _ "p # dn"] exI [of _ rest] exI [of _ t]) (simp add: stream_def)
  next
    case part
    then have "beginning x (p # ps)" by (auto simp: beginning_def)
    then show ?thesis
      by (intro exI [of _ "[]"] exI [of _ "p # ps"] exI [of _ x]) (simp add: stream_def)
  qed
qed

text \<open>The handler of socket messages, over a sequence of them.\<close>

fun feed :: "byte list option \<Rightarrow> byte list list \<Rightarrow> (wire_message list \<times> byte list option) res" where
  "feed buf [] = Inr ([], buf)"
| "feed buf (d # ds) =
     bind_res (deframe buf d) (\<lambda>(ms, buf'). bind_res (feed buf' ds) (\<lambda>(ms', b). Inr (ms @ ms', b)))"

lemma feed_stream:
  assumes "list_all server_ok ps" "beginning t ps" "t @ concat chunks = stream ps"
  shows "feed (pending t) chunks = Inr (map received ps, None)"
  using assms
proof (induction chunks arbitrary: ps t)
  case Nil
  have "ps = []"
  proof (cases ps)
    case (Cons p ps')
    have t: "t = server_frame p @ stream ps'" using Nil.prems(3) Cons by (simp add: stream_def)
    then have "t \<noteq> []" using server_frame_nonempty [of p] by simp
    then obtain u where "server_frame p = t @ u" "u \<noteq> []"
      using Nil.prems(2) Cons by (auto simp: beginning_def)
    with arg_cong [OF t, of length] show ?thesis by simp
  qed
  with Nil.prems show ?case by (simp add: pending_def stream_def)
next
  case (Cons d ds)
  from Cons.prems(3) have "stream ps = (t @ d) @ concat ds" by simp
  from prefix_of_stream [OF this] obtain dn rest u
    where s: "ps = dn @ rest" "t @ d = stream dn @ u" "beginning u rest" by blast
  have "deframe (pending t) d = Inr (map received dn, pending u)"
    using s Cons.prems(1) by (intro deframe_stream [of _ rest]) (auto simp: pending_def)
  moreover have "(t @ d) @ concat ds = stream dn @ stream rest"
    using Cons.prems(3) s(1) by (simp add: stream_def)
  then have "u @ concat ds = stream rest" unfolding s(2) by simp
  then have "feed (pending u) ds = Inr (map received rest, None)"
    using s Cons.prems by (intro Cons.IH) auto
  ultimately show ?case using s by simp
qed

section \<open>Properties\<close>

text \<open>Property C3.  Framing does not depend on how the stream is cut: for every list of well-formed server
  packets and every way to split their bytes into WebSocket messages, the client decodes exactly
  these packets, in order, and keeps no byte back.\<close>

theorem framing_chunk_invariant:
  assumes "list_all server_ok ps" and "concat chunks = stream ps"
  shows "feed None chunks = Inr (map received ps, None)"
  using feed_stream [of ps "[]" chunks] assms by (simp add: beginning_def pending_def)

theorem framing_chunk_invariant_witness:
  "feed None [[0x20], [0x02, 0x00], [0x00, 0x62, 0x02], [0x00], [0x07, 0xD0], [0x00]]
    = Inr ([received (S_connack False 0), received (S_ack PUBREL 7), received S_pingresp], None)"
proof -
  have "list_all server_ok [S_connack False 0, S_ack PUBREL 7, S_pingresp]" by (simp add: id_ok_def)
  moreover have "encodeMBI 2 = [2]" "encodeMBI 0 = [0]"
    by (simp_all add: encodeMBI_def encodeMBI_loop_in_range)
  then have "concat [[0x20], [0x02, 0x00], [0x00, 0x62, 0x02], [0x00], [0x07, 0xD0], [0x00]]
      = stream [S_connack False 0, S_ack PUBREL 7, S_pingresp]"
    by (simp add: stream_def frame_def ack_first_def u16_def to_int32_id js_rem_def)
  ultimately show ?thesis using framing_chunk_invariant by fastforce
qed

text \<open>Property C35.  What \<open>encode\<close> produces for a PUBLISH packet, \<open>decodeMessage\<close> reads back, wherever it
  stands in the input: same topic, quality of service, flags and identifier, the payload as bytes,
  and the position just after the packet.\<close>

theorem publish_round_trip:
  assumes "server_ok (S_publish msg i)"
  shows "\<exists>bytes. encode (as_publish msg i) = Inr bytes
    \<and> decodeMessage (pre @ bytes @ rest) (length pre)
      = Inr (Packet (as_publish (msg\<lparr>payload := PUint8 (payload_image (payload msg))\<rparr>) i)
               (length pre + length bytes))"
proof -
  have "encodable (as_publish msg i)"
    using assms by (simp add: encodable_def as_publish_def WireMessage_def)
  with decode_server [OF assms, of pre rest] show ?thesis
    by (simp add: encode_eq_packet)
qed

theorem publish_round_trip_witness:
  "\<exists>bytes. encode (as_publish \<lparr>payload = PString [0x68, 0x69], destinationName = Some [0x74], qos = 1,
          retained = False, duplicate = False\<rparr> 7) = Inr bytes
    \<and> decodeMessage ([0] @ bytes @ [1]) (length [0 :: byte])
      = Inr (Packet (as_publish (\<lparr>payload = PString [0x68, 0x69], destinationName = Some [0x74], qos = 1,
          retained = False, duplicate = False\<rparr>\<lparr>payload := PUint8 (payload_image (PString [0x68, 0x69]))\<rparr>) 7)
               (length [0 :: byte] + length bytes))"
proof -
  have "server_ok (S_publish \<lparr>payload = PString [0x68, 0x69], destinationName = Some [0x74], qos = 1,
      retained = False, duplicate = False\<rparr> 7)"
    by (simp add: named_message_ok_def message_ok_def payload_ok_def high_surrogate_def id_ok_def
        publish_body_def id_bytes_publish payload_image_def length_utf8_bytes)
  from publish_round_trip [OF this, of "[0]" "[1]"] show ?thesis
    by (simp only: message.simps)
qed

text \<open>The acknowledgements PUBACK, PUBREC, PUBREL and PUBCOMP are encoded into four bytes that
  carry the packet type and the identifier, and decode to the same acknowledgement.\<close>

theorem acknowledgement_round_trip:
  assumes "t \<in> {PUBACK, PUBREC, PUBREL, PUBCOMP}" and "id_ok i"
  shows "\<exists>bytes. encode (WireMessage_id (mt t) (Some (Num i))) = Inr bytes \<and> length bytes = 4
    \<and> decodeMessage (pre @ bytes @ rest) (length pre)
      = Inr (Packet (WireMessage_id (mt t) (Some (Num i))) (length pre + 4))"
proof -
  let ?m = "WireMessage_id (mt t) (Some (Num i))" and ?b = "u16 (Num i)"
  let ?first = "16 * int (mt t) + (if t = PUBREL then 2 else 0)"
  have "encode ?m = Inr (packet ?m)"
    using assms by (intro encode_eq_packet) (auto simp: encodable_def WireMessage_def)
  moreover have p: "packet ?m = frame ?first ?b"
    using assms by (auto simp: packet_frame packet_first_def packet_body_def WireMessage_def id_bytes_def)
  moreover have "length (frame ?first ?b) = 4"
    by (simp add: frame_def encodeMBI_def encodeMBI_loop_in_range)
  moreover have "decodeMessage (pre @ frame ?first ?b @ rest) (length pre)
      = Inr (Packet ?m (length pre + length (frame ?first ?b)))"
  proof -
    obtain pre' where split: "pre @ frame ?first ?b @ rest = pre' @ ?b @ rest"
        "length pre' = length pre + 1 + length (encodeMBI (int (length ?b)))"
      using frame_split [OF refl] by blast
    show ?thesis
      using decodeMessage_frame [where first = "?first" and rest = rest, OF _ _ _ split(2)]
        readUint16_at [OF assms(2), of "length pre'" pre' rest] assms(1)
      by (auto simp: split decode_body_def)
  qed
  ultimately show ?thesis by (simp add: p)
qed

theorem acknowledgement_round_trip_witness:
  "\<exists>bytes. encode (WireMessage_id (mt PUBREL) (Some (Num 513))) = Inr bytes \<and> length bytes = 4
    \<and> decodeMessage ([] @ bytes @ [9]) (length ([] :: byte list))
      = Inr (Packet (WireMessage_id (mt PUBREL) (Some (Num 513))) (length ([] :: byte list) + 4))"
  by (rule acknowledgement_round_trip) (simp_all add: id_ok_def)

end
