(* ===== verification/Client_Session.thy ===== *)
theory Client_Session
  imports Client_Impl Framing
begin

text \<open>
  The handlers of \<open>ClientImpl\<close>: what it does when the socket opens, delivers bytes, fails or closes,
  when a packet has been received, and when a timer fires.
\<close>

section \<open>Received application messages\<close>

definition receiveMessage :: "env \<Rightarrow> wire_message \<Rightarrow> unit client_op" where
  "receiveMessage E m = reading onMessageArrived (\<lambda>f. invoke_opt E f (CA_message (payloadMessage m)))"

definition note_received :: "wire_message \<Rightarrow> unit client_op" where
  "note_received m =
     seqn (modify (\<lambda>c. c\<lparr>receivedMessages := tput (messageIdentifier m) m (receivedMessages c)\<rparr>))
    (seqn (store (js ''Received:'') m) (ret ()))"

definition receivePublish :: "env \<Rightarrow> wire_message \<Rightarrow> unit client_op" where
  "receivePublish E m =
     andthen (lift_res (needs (payloadMessage m))) (\<lambda>msg.
     if qos msg = 0 then receiveMessage E m
     else if qos msg = 1 then
       seqn (schedule_message E (WireMessage_id (mt PUBACK) (messageIdentifier m))) (receiveMessage E m)
     else if qos msg = 2 then
       seqn (note_received m)
      (schedule_message E (WireMessage_id (mt PUBREC) (messageIdentifier m)))
     else throw (Error (js ''Invaild qos='' @ int_str 10 (qos msg))))"

section \<open>CONNACK\<close>

text \<open>Clean session: both tables and their entries in \<open>localStorage\<close> go.\<close>

definition remove_stored :: "js_string \<Rightarrow> (js_num option, wire_message) table \<Rightarrow> client \<Rightarrow> client" where
  "remove_stored prefix t c = c\<lparr>localStorage :=
     fold (\<lambda>(_, m). removeItem (storage_key prefix c (messageIdentifier m))) t (localStorage c)\<rparr>"

definition clear_session :: "client \<Rightarrow> client" where
  "clear_session c =
     (let c = (remove_stored (js ''Sent:'') (sentMessages c) c)\<lparr>sentMessages := []\<rparr>
      in (remove_stored (js ''Received:'') (receivedMessages c) c)\<lparr>receivedMessages := []\<rparr>)"

text \<open>
  The messages to send again: those awaiting an acknowledgement and those buffered while there was
  no connection, oldest first.  Taking a message off the buffer reports it to the application.
\<close>

fun drain_buffered :: "env \<Rightarrow> nat \<Rightarrow> wire_message list \<Rightarrow> wire_message list client_op" where
  "drain_buffered E 0 sequenced = throw Out_of_fuel"
| "drain_buffered E (Suc n) sequenced =
     reading buffered_msg_queue (\<lambda>q.
     if q = [] then ret sequenced
     else
       seqn (modify (\<lambda>c. c\<lparr>buffered_msg_queue := butlast q\<rparr>))
      (seqn (report_delivered E (payloadMessage (last q)))
      (drain_buffered E n (sequenced @ [last q]))))"

text \<open>
  The comparison subtracts sequence numbers; a missing one makes the difference \<open>NaN\<close>, which counts
  as equal.  The comparison is consistent when all of the numbers or none of them are there.
\<close>

definition sort_sequence :: "env \<Rightarrow> wire_message list \<Rightarrow> wire_message list" where
  "sort_sequence E ms =
     (if \<forall>m \<in> set ms. sequence m \<noteq> None then sort_key (\<lambda>m. the (sequence m)) ms
      else if \<forall>m \<in> set ms. sequence m = None then ms
      else engine_sort E ms)"

definition resend_form :: "wire_message \<Rightarrow> wire_message" where
  "resend_form m =
     (if wm_type m = mt PUBLISH \<and> pubRecReceived m
      then WireMessage_id (mt PUBREL) (messageIdentifier m) else m)"

fun schedule_all :: "env \<Rightarrow> wire_message list \<Rightarrow> unit client_op" where
  "schedule_all E [] = ret ()"
| "schedule_all E (m # ms) = seqn (schedule_message E (resend_form m)) (schedule_all E ms)"

definition resend :: "env \<Rightarrow> unit client_op" where
  "resend E =
     reading (\<lambda>c. map snd (sentMessages c)) (\<lambda>sequenced.
     andthen (drain_buffered E (loop_bound E) sequenced) (\<lambda>sequenced.
     schedule_all E (sort_sequence E sequenced)))"

definition connack_text :: "int option \<Rightarrow> js_string" where
  "connack_text rc =
     format CONNACK_RETURNCODE
       [case rc of None \<Rightarrow> js ''undefined'' | Some n \<Rightarrow> int_str 10 n,
        case rc of None \<Rightarrow> js ''undefined'' | Some n \<Rightarrow> CONNACK_RC (nat n)]"

definition handle_connack :: "env \<Rightarrow> wire_message \<Rightarrow> unit client_op" where
  "handle_connack E m =
     andthen (reading connectTimeout (\<lambda>t. lift_res (needs t))) (\<lambda>t.
     seqn (clearTimeout (Some t))
    (seqn (reading reconnectTimeout clearTimeout)
    (andthen (reading connectOptions (\<lambda>opts. lift_res (needs opts))) (\<lambda>opt.
     seqn (if truthy (co_cleanSession opt) then modify clear_session else ret ())
    (if returnCode m = Some 0 then
       seqn (modify (\<lambda>c. c\<lparr>connected := True,
               hostIndex := (case co_uris opt of None \<Rightarrow> hostIndex c | Some us \<Rightarrow> Some (length us))\<rparr>))
      (seqn (resend E)
      (seqn (andthen (reading connectOptions (\<lambda>opts. lift_res (needs opts))) (\<lambda>opt.
               invoke_opt E (co_onSuccess opt) (CA_success (co_invocationContext opt))))
      (andthen (reading reconnecting (\<lambda>r.
                  if r then seqn (modify (\<lambda>c. c\<lparr>reconnectInterval := 1, reconnecting := False\<rparr>)) (ret True)
                  else ret False)) (\<lambda>reconnected.
       seqn (reading onConnected (\<lambda>f. reading wsuri (\<lambda>u. invoke_opt E f (CA_connected reconnected u))))
       (process_queue E)))))
     else
       disconnected E (Some (error_code CONNACK_RETURNCODE, connack_text (returnCode m))))))))"

section \<open>Acknowledgements\<close>

definition forget_sent :: "js_num option \<Rightarrow> client \<Rightarrow> client" where
  "forget_sent i c = c\<lparr>sentMessages := tdel i (sentMessages c)\<rparr>"

definition remove_item :: "js_string \<Rightarrow> js_num option \<Rightarrow> client \<Rightarrow> client" where
  "remove_item prefix i c = c\<lparr>localStorage := removeItem (storage_key prefix c i) (localStorage c)\<rparr>"

definition handle_puback :: "env \<Rightarrow> js_num option \<Rightarrow> unit client_op" where
  "handle_puback E i =
     reading (\<lambda>c. tget (sentMessages c) i) (\<lambda>sent.
     case sent of
       None \<Rightarrow> ret ()
     | Some m \<Rightarrow>
         seqn (modify (\<lambda>c. remove_item (js ''Sent:'') i (forget_sent i c)))
        (reading onMessageDelivered (\<lambda>f. invoke_opt E f (CA_message (payloadMessage m)))))"

text \<open>The flag is set before the message is stored again.\<close>

definition note_pubrec :: "js_num option \<Rightarrow> wire_message \<Rightarrow> unit client_op" where
  "note_pubrec i m =
     (let m = m\<lparr>pubRecReceived := True\<rparr> in
      seqn (modify (\<lambda>c. c\<lparr>sentMessages := tput i m (sentMessages c)\<rparr>))
     (andthen (store (js ''Sent:'') m) (\<lambda>m.
      modify (\<lambda>c. c\<lparr>sentMessages := tput i m (sentMessages c)\<rparr>))))"

definition handle_pubrec :: "env \<Rightarrow> js_num option \<Rightarrow> unit client_op" where
  "handle_pubrec E i =
     reading (\<lambda>c. tget (sentMessages c) i) (\<lambda>sent.
     case sent of
       None \<Rightarrow> ret ()
     | Some m \<Rightarrow>
         seqn (note_pubrec i m) (schedule_message E (WireMessage_id (mt PUBREL) i)))"

definition handle_pubrel :: "env \<Rightarrow> js_num option \<Rightarrow> unit client_op" where
  "handle_pubrel E i =
     reading (\<lambda>c. tget (receivedMessages c) i) (\<lambda>received.
     seqn (modify (remove_item (js ''Received:'') i))
    (seqn (case received of
             None \<Rightarrow> ret ()
           | Some m \<Rightarrow> seqn (receiveMessage E m)
               (modify (\<lambda>c. c\<lparr>receivedMessages := tdel i (receivedMessages c)\<rparr>)))
    (schedule_message E (WireMessage_id (mt PUBCOMP) i))))"

definition handle_pubcomp :: "env \<Rightarrow> js_num option \<Rightarrow> unit client_op" where
  "handle_pubcomp E i =
     reading (\<lambda>c. tget (sentMessages c) i) (\<lambda>sent.
     seqn (modify (\<lambda>c. remove_item (js ''Sent:'') i (forget_sent i c)))
    (reading onMessageDelivered (\<lambda>f.
     case f of
       None \<Rightarrow> ret ()
     | Some f \<Rightarrow> andthen (lift_res (needs sent)) (\<lambda>m.
         invoke_opt E (Some f) (CA_message (payloadMessage m))))))"

definition suback_callback :: "env \<Rightarrow> wire_message \<Rightarrow> byte list \<Rightarrow> unit client_op" where
  "suback_callback E sent codes =
     (if codes \<noteq> [] \<and> hd codes = 0x80 then
        (case wm_onFailure sent of
           None \<Rightarrow> ret () | Some (f, x) \<Rightarrow> invoke_opt E (Some f) (CA_refused x codes))
      else
        (case wm_onSuccess sent of
           None \<Rightarrow> ret () | Some (f, x) \<Rightarrow> invoke_opt E (Some f) (CA_granted x codes)))"

definition handle_suback :: "env \<Rightarrow> wire_message \<Rightarrow> unit client_op" where
  "handle_suback E m =
     reading (\<lambda>c. tget (sentMessages c) (messageIdentifier m)) (\<lambda>sent.
     case sent of
       None \<Rightarrow> ret ()
     | Some s \<Rightarrow>
         seqn (clearTimeout (timeOut s))
        (seqn (suback_callback E s (returnCodes m))
        (modify (forget_sent (messageIdentifier m)))))"

definition handle_unsuback :: "env \<Rightarrow> js_num option \<Rightarrow> unit client_op" where
  "handle_unsuback E i =
     reading (\<lambda>c. tget (sentMessages c) i) (\<lambda>sent.
     case sent of
       None \<Rightarrow> ret ()
     | Some s \<Rightarrow>
         seqn (clearTimeout (timeOut s))
        (seqn (case wm_callback s of
                 None \<Rightarrow> ret () | Some (f, x) \<Rightarrow> invoke_opt E (Some f) (CA_success x))
        (modify (forget_sent i))))"

section \<open>Dispatch\<close>

definition internal_error :: "env \<Rightarrow> js_exn \<Rightarrow> unit client_op" where
  "internal_error E e =
     disconnected E (Some (error_code INTERNAL_ERROR,
       format INTERNAL_ERROR [exn_message E e, js ''No Error Stack Available'']))"

definition dispatch_message :: "env \<Rightarrow> wire_message \<Rightarrow> unit client_op" where
  "dispatch_message E m =
     (let t = wm_type m; i = messageIdentifier m in
      if t = mt CONNACK then handle_connack E m
      else if t = mt PUBLISH then receivePublish E m
      else if t = mt PUBACK then handle_puback E i
      else if t = mt PUBREC then handle_pubrec E i
      else if t = mt PUBREL then handle_pubrel E i
      else if t = mt PUBCOMP then handle_pubcomp E i
      else if t = mt SUBACK then handle_suback E m
      else if t = mt UNSUBACK then handle_unsuback E i
      else if t = mt PINGRESP then reading sendPinger (\<lambda>p. on_pinger p pinger_reset)
      else disconnected E (Some (error_code INVALID_MQTT_MESSAGE_TYPE,
             format INVALID_MQTT_MESSAGE_TYPE [nat_str 10 t])))"

definition handleMessage :: "env \<Rightarrow> wire_message \<Rightarrow> unit client_op" where
  "handleMessage E m = catching (dispatch_message E m) (internal_error E)"

fun handle_all :: "env \<Rightarrow> wire_message list \<Rightarrow> unit client_op" where
  "handle_all E [] = ret ()"
| "handle_all E (m # ms) = seqn (handleMessage E m) (handle_all E ms)"

section \<open>Events of the socket\<close>

definition on_socket_open :: "env \<Rightarrow> unit client_op" where
  "on_socket_open E =
     reading (\<lambda>c. (WireMessage (mt CONNECT))\<lparr>
       wm_options := (case connectOptions c of None \<Rightarrow> no_options | Some opt \<Rightarrow> opt),
       wm_clientId := clientId c\<rparr>) (socket_send E)"

text \<open>
  \<open>_deframeMessages\<close> returns nothing when it caught an exception; reading the \<open>length\<close> of that is the
  \<open>TypeError\<close> at the end of the first case.
\<close>

definition on_socket_message :: "env \<Rightarrow> byte list \<Rightarrow> unit client_op" where
  "on_socket_message E data =
     reading (\<lambda>c. deframe (receiveBuffer c) data) (\<lambda>r.
     case r of
       Inl e \<Rightarrow> seqn (modify (\<lambda>c. c\<lparr>receiveBuffer := None\<rparr>)) (seqn (internal_error E e) (throw Type_error))
     | Inr (messages, rest) \<Rightarrow>
         seqn (modify (\<lambda>c. c\<lparr>receiveBuffer := rest\<rparr>)) (handle_all E messages))"

definition on_socket_error :: "env \<Rightarrow> js_string \<Rightarrow> unit client_op" where
  "on_socket_error E text =
     reading reconnecting (\<lambda>r.
     if r then ret ()
     else disconnected E (Some (error_code SOCKET_ERROR, format SOCKET_ERROR [text])))"

definition on_socket_close :: "env \<Rightarrow> unit client_op" where
  "on_socket_close E =
     reading reconnecting (\<lambda>r.
     if r then ret ()
     else disconnected E (Some (error_code SOCKET_CLOSE, format SOCKET_CLOSE [])))"

section \<open>Timers\<close>

definition ping_request :: "byte list" where
  "ping_request = [0xC0, 0]"

lemma encode_pingreq: "encode (WireMessage (mt PINGREQ)) = Inr ping_request"
  unfolding ping_request_def by code_simp

definition doPing :: "env \<Rightarrow> nat \<Rightarrow> unit client_op" where
  "doPing E i =
     reading (\<lambda>c. pg_isReset (pingers c ! i)) (\<lambda>isReset.
     if \<not> isReset then
       disconnected E (Some (error_code PING_TIMEOUT, format PING_TIMEOUT []))
     else
       seqn (set_pinger i (\<lambda>p. p\<lparr>pg_isReset := False\<rparr>))
      (andthen (reading c_socket (\<lambda>s. lift_res (needs s))) (\<lambda>s.
       seqn (ws_send E s ping_request)
       (arm_pinger i))))"

definition run_timer :: "env \<Rightarrow> timer_action \<Rightarrow> unit client_op" where
  "run_timer E act =
     (case act of
        T_ping i \<Rightarrow> doPing E i
      | T_disconnected code text \<Rightarrow> disconnected E (Some (code, text))
      | T_reconnect \<Rightarrow> reconnect E
      | T_callback None _ \<Rightarrow> throw Type_error
      | T_callback (Some f) x \<Rightarrow> seqn (invoke E f x) (ret ()))"

end
