(* ===== verification/Client_Api.thy ===== *)
theory Client_Api
  imports Client_Session
begin

text \<open>
  The public \<open>Client\<close> object of \<open>paho-mqtt.js\<close>: the arguments of its constructor, with the address
  pattern, the setters of its properties, and the checks that \<open>connect\<close>, \<open>subscribe\<close>, \<open>unsubscribe\<close>,
  \<open>send\<close> and \<open>publish\<close> make before they call \<open>ClientImpl\<close>.  An argument whose type the code tests is a
  \<open>js_value\<close>; an options object is given by its properties with their types and by the record of
  its values.
\<close>

section \<open>Addresses\<close>

definition is_digit :: "code_unit \<Rightarrow> bool" where
  "is_digit c = (48 \<le> uint c \<and> uint c \<le> 57)"

text \<open>The line terminators, which a dot of the pattern does not match.\<close>

definition line_end :: "code_unit \<Rightarrow> bool" where
  "line_end c = (c = 10 \<or> c = 13 \<or> c = 0x2028 \<or> c = 0x2029)"

definition colon :: code_unit where "colon = of_char CHR '':''"
definition slash :: code_unit where "slash = of_char CHR ''/''"

definition path_part :: "js_string \<Rightarrow> bool" where
  "path_part t = (t \<noteq> [] \<and> hd t = slash \<and> (\<forall>c \<in> set t. \<not> line_end c))"

text \<open>\<open>(:(\d+))?(\/.*)$\<close>: the digits and the path.\<close>

definition match_tail :: "js_string \<Rightarrow> (js_string option \<times> js_string) option" where
  "match_tail t =
     (if t \<noteq> [] \<and> hd t = colon then
        (let ds = takeWhile is_digit (tl t); rest = dropWhile is_digit (tl t)
         in if ds \<noteq> [] \<and> path_part rest then Some (Some ds, rest) else None)
      else if path_part t then Some (None, t) else None)"

text \<open>
  \<open>(\[(.+)\])|([^\/]+?)\<close>: the longest bracketed part that leaves a matching tail, else the shortest
  unbracketed one.  The result is the host part without brackets, the digits and the path.
\<close>

definition bracketed :: "js_string \<Rightarrow> nat \<Rightarrow> bool" where
  "bracketed t j =
     (t ! j = of_char CHR '']'' \<and> (\<forall>c \<in> set (take j t). \<not> line_end c) \<and> match_tail (drop (Suc j) t) \<noteq> None)"

definition unbracketed :: "js_string \<Rightarrow> nat \<Rightarrow> bool" where
  "unbracketed t k = ((\<forall>c \<in> set (take k t). c \<noteq> slash) \<and> match_tail (drop k t) \<noteq> None)"

definition match_authority :: "js_string \<Rightarrow> (js_string \<times> js_string option \<times> js_string) option" where
  "match_authority t =
     (let b = (if t \<noteq> [] \<and> hd t = of_char CHR ''['' then find (bracketed t) (rev [2..<length t]) else None) in
      case b of
        Some j \<Rightarrow> map_option (Pair (take (j - 1) (tl t))) (match_tail (drop (Suc j) t))
      | None \<Rightarrow>
          (case find (unbracketed t) [1..<length t] of
             Some k \<Rightarrow> map_option (Pair (take k t)) (match_tail (drop k t))
           | None \<Rightarrow> None))"

definition match_uri :: "js_string \<Rightarrow> (js_string \<times> js_string option \<times> js_string) option" where
  "match_uri u =
     (if take 5 u = js ''ws://'' then match_authority (drop 5 u)
      else if take 6 u = js ''wss://'' then match_authority (drop 6 u)
      else None)"

fun parse_digits :: "int \<Rightarrow> js_string \<Rightarrow> int" where
  "parse_digits acc [] = acc"
| "parse_digits acc (d # ds) = parse_digits (10 * acc + (uint d - 48)) ds"

definition port_number :: "js_string option \<Rightarrow> js_num" where
  "port_number ds = (case ds of None \<Rightarrow> NaN | Some ds \<Rightarrow> Num (parse_digits 0 ds))"

definition has_colon :: "js_string \<Rightarrow> bool" where
  "has_colon h = (colon \<in> set h)"

text \<open>The constructor brackets an IPv6 address that is not bracketed yet; \<open>connect\<close> always does.\<close>

definition ws_uri :: "bool \<Rightarrow> js_string \<Rightarrow> js_num \<Rightarrow> js_string \<Rightarrow> js_string" where
  "ws_uri brackets h p pth =
     js ''ws://'' @ (if brackets then js ''['' @ h @ js '']'' else h) @ js '':'' @ num_str p @ pth"

definition ipv6AddSBracket :: "js_string \<Rightarrow> bool" where
  "ipv6AddSBracket h =
     (has_colon h \<and> hd h \<noteq> of_char CHR ''['' \<and> last h \<noteq> of_char CHR '']'')"

section \<open>The constructor\<close>

datatype client_args =
    Args2 js_value js_value
  | Args3 js_value js_value js_value
  | Args4 js_value js_value js_value js_value

text \<open>The code points of a client identifier.\<close>

fun clientIdLength :: "js_string \<Rightarrow> nat" where
  "clientIdLength [] = 0"
| "clientIdLength (c # cs) =
     Suc (clientIdLength (if 0xD800 \<le> uint c \<and> uint c \<le> 0xDBFF then tl cs else cs))"

definition no_object :: "js_value \<Rightarrow> bool" where
  "no_object v = (v = V_undefined \<or> v = V_object (js ''null''))"

definition check_clientId :: "js_value \<Rightarrow> js_string res" where
  "check_clientId cid =
     (case cid of
        V_string s \<Rightarrow> if clientIdLength s > 65535 then Inl (Error_of INVALID_ARGUMENT [s, js ''clientId'']) else Inr s
      | v \<Rightarrow> if no_object v then Inl Type_error
             else Inl (Error_of INVALID_ARGUMENT [to_string v, js ''clientId'']))"

definition check_port :: "js_value \<Rightarrow> js_num res" where
  "check_port p =
     (case p of
        V_number (Num n) \<Rightarrow>
          if n < 0 then Inl (Error_of INVALID_TYPE [js ''number'', js ''port'']) else Inr (Num n)
      | V_number NaN \<Rightarrow> Inr NaN
      | v \<Rightarrow> Inl (Error_of INVALID_TYPE [typeof v, js ''port'']))"

definition check_string :: "string \<Rightarrow> js_value \<Rightarrow> js_string res" where
  "check_string name v =
     (case v of V_string s \<Rightarrow> Inr s | v \<Rightarrow> Inl (Error_of INVALID_TYPE [typeof v, js name]))"

text \<open>The address, host, port, path and client identifier for \<open>new ClientImpl\<close>.\<close>

type_synonym resolved_address = "js_string \<times> js_string \<times> js_num \<times> js_string \<times> js_string"

definition host_port_path :: "js_string \<Rightarrow> js_value \<Rightarrow> js_value \<Rightarrow> js_value \<Rightarrow> resolved_address res" where
  "host_port_path h prt pt cid =
     bind_res (check_port prt) (\<lambda>p.
     bind_res (check_string ''path'' pt) (\<lambda>pth.
     bind_res (check_clientId cid) (\<lambda>cid.
     Inr (ws_uri (ipv6AddSBracket h) h p pth, h, p, pth, cid))))"

fun client_address :: "client_args \<Rightarrow> resolved_address res" where
  "client_address (Args2 hst cid) =
     bind_res (check_string ''host'' hst) (\<lambda>u.
     case match_uri u of
       None \<Rightarrow> Inl (Error_of INVALID_ARGUMENT [u, js ''host''])
     | Some (h, ds, pth) \<Rightarrow> bind_res (check_clientId cid) (\<lambda>cid. Inr (u, h, port_number ds, pth, cid)))"
| "client_address (Args3 hst prt cid) =
     bind_res (check_string ''host'' hst) (\<lambda>h. host_port_path h prt (V_string (js ''/mqtt'')) cid)"
| "client_address (Args4 hst prt pt cid) =
     bind_res (check_string ''host'' hst) (\<lambda>h. host_port_path h prt pt cid)"

definition Client :: "client_args \<Rightarrow> (js_string, stored_message) storage \<Rightarrow> client res" where
  "Client args d =
     bind_res (client_address args) (\<lambda>(u, h, p, pth, cid).
     case ClientImpl u h p pth cid d of
       (Inl e, _) \<Rightarrow> Inl e
     | (Inr _, c) \<Rightarrow> Inr c)"

section \<open>Properties\<close>

datatype client_callback = On_connected | On_connectionLost | On_messageDelivered | On_messageArrived

primrec callback_name :: "client_callback \<Rightarrow> js_string" where
  "callback_name On_connected = js ''onConnected''"
| "callback_name On_connectionLost = js ''onConnectionLost''"
| "callback_name On_messageDelivered = js ''onMessageDelivered''"
| "callback_name On_messageArrived = js ''onMessageArrived''"

primrec put_callback :: "client_callback \<Rightarrow> callback_id \<Rightarrow> client \<Rightarrow> client" where
  "put_callback On_connected f c = c\<lparr>onConnected := Some f\<rparr>"
| "put_callback On_connectionLost f c = c\<lparr>onConnectionLost := Some f\<rparr>"
| "put_callback On_messageDelivered f c = c\<lparr>onMessageDelivered := Some f\<rparr>"
| "put_callback On_messageArrived f c = c\<lparr>onMessageArrived := Some f\<rparr>"

definition set_callback :: "client_callback \<Rightarrow> js_value \<Rightarrow> unit client_op" where
  "set_callback k v =
     (case v of
        V_function f \<Rightarrow> modify (put_callback k f)
      | v \<Rightarrow> throw (Error_of INVALID_TYPE [typeof v, callback_name k]))"

definition set_disconnectedPublishing :: "bool \<Rightarrow> unit client_op" where
  "set_disconnectedPublishing b = modify (\<lambda>c. c\<lparr>disconnectedPublishing := b\<rparr>)"

definition set_disconnectedBufferSize :: "int \<Rightarrow> unit client_op" where
  "set_disconnectedBufferSize n = modify (\<lambda>c. c\<lparr>disconnectedBufferSize := n\<rparr>)"

section \<open>Connect\<close>

definition connect_keys :: typed_props where
  "connect_keys =
     [(js ''timeout'', js ''number''), (js ''userName'', js ''string''),
      (js ''password'', js ''string''), (js ''willMessage'', js ''object''),
      (js ''keepAliveInterval'', js ''number''), (js ''cleanSession'', js ''boolean''),
      (js ''useSSL'', js ''boolean''), (js ''invocationContext'', js ''object''),
      (js ''onSuccess'', js ''function''), (js ''onFailure'', js ''function''),
      (js ''hosts'', js ''object''), (js ''ports'', js ''object''),
      (js ''reconnect'', js ''boolean''), (js ''mqttVersion'', js ''number''),
      (js ''mqttVersionExplicit'', js ''boolean''), (js ''uris'', js ''object'')]"

definition element_text :: "string \<Rightarrow> nat \<Rightarrow> js_string" where
  "element_text name i = js ''connectOptions.'' @ js name @ js ''['' @ nat_str 10 i @ js '']''"

text \<open>The hosts are all addresses or all host names; the first one decides.\<close>

fun check_hosts :: "nat \<Rightarrow> bool \<Rightarrow> js_string list \<Rightarrow> bool res" where
  "check_hosts i usingURIs [] = Inr usingURIs"
| "check_hosts i usingURIs (h # hs) =
     (if match_uri h \<noteq> None then
        (if i = 0 then check_hosts (Suc i) True hs
         else if \<not> usingURIs then Inl (Error_of INVALID_ARGUMENT [h, element_text ''hosts'' i])
         else check_hosts (Suc i) usingURIs hs)
      else if usingURIs then Inl (Error_of INVALID_ARGUMENT [h, element_text ''hosts'' i])
      else check_hosts (Suc i) usingURIs hs)"

fun uris_of :: "nat \<Rightarrow> js_string \<Rightarrow> js_string list \<Rightarrow> int list \<Rightarrow> js_string list res" where
  "uris_of i pth (h # hs) (p # ps) =
     (if p < 0 then Inl (Error_of INVALID_TYPE [js ''number'', element_text ''ports'' i])
      else bind_res (uris_of (Suc i) pth hs ps) (\<lambda>us. Inr (ws_uri (has_colon h) h (Num p) pth # us)))"
| "uris_of i pth _ _ = Inr []"

text \<open>The conversion of an array to a string.\<close>

definition join_text :: "js_string list \<Rightarrow> js_string" where
  "join_text xs = (case xs of [] \<Rightarrow> [] | x # xs \<Rightarrow> x @ concat (map (\<lambda>y. js '','' @ y) xs))"

definition host_uris :: "js_string \<Rightarrow> connect_options \<Rightarrow> js_string list option res" where
  "host_uris pth opt =
     (case co_hosts opt of
        None \<Rightarrow> Inr (co_uris opt)
      | Some hosts \<Rightarrow>
          if hosts = [] then Inl (Error_of INVALID_ARGUMENT [[], js ''connectOptions.hosts''])
          else bind_res (check_hosts 0 False hosts) (\<lambda>usingURIs.
            if usingURIs then Inr (Some hosts)
            else
              (case co_ports opt of
                 None \<Rightarrow> Inl (Error_of INVALID_ARGUMENT [js ''undefined'', js ''connectOptions.ports''])
               | Some ports \<Rightarrow>
                   if length hosts \<noteq> length ports
                   then Inl (Error_of INVALID_ARGUMENT
                          [join_text (map (int_str 10) ports), js ''connectOptions.ports''])
                   else bind_res (uris_of 0 pth hosts ports) (\<lambda>us. Inr (Some us)))))"

definition check_connect :: "js_string \<Rightarrow> connect_options \<Rightarrow> connect_options res" where
  "check_connect pth opt =
     (let opt = opt\<lparr>co_keepAliveInterval :=
            Some (case co_keepAliveInterval opt of None \<Rightarrow> 60 | Some k \<Rightarrow> k)\<rparr> in
      bind_res
        (case co_mqttVersion opt of
           None \<Rightarrow> Inr (opt\<lparr>co_mqttVersionExplicit := Some False, co_mqttVersion := Some 4\<rparr>)
         | Some v \<Rightarrow>
             if v > 4 \<or> v < 3
             then Inl (Error_of INVALID_ARGUMENT [int_str 10 v, js ''connectOptions.mqttVersion''])
             else Inr (opt\<lparr>co_mqttVersionExplicit := Some True\<rparr>)) (\<lambda>opt.
      bind_res
        (case (co_password opt, co_userName opt) of
           (Some pw, None) \<Rightarrow> Inl (Error_of INVALID_ARGUMENT [pw, js ''connectOptions.password''])
         | _ \<Rightarrow> Inr ()) (\<lambda>_.
      bind_res
        (case co_willMessage opt of
           Some will \<Rightarrow>
             if destinationName will = None
             then Inl (Error_of INVALID_TYPE
                    [js ''undefined'', js ''connectOptions.willMessage.destinationName''])
             else Inr ()
         | None \<Rightarrow> Inr ()) (\<lambda>_.
      let opt = opt\<lparr>co_cleanSession :=
            Some (case co_cleanSession opt of None \<Rightarrow> True | Some b \<Rightarrow> b)\<rparr>
      in bind_res (host_uris pth opt) (\<lambda>us. Inr (opt\<lparr>co_uris := us\<rparr>))))))"

definition Client_connect :: "env \<Rightarrow> typed_props \<Rightarrow> connect_options \<Rightarrow> unit client_op" where
  "Client_connect E props opt =
     andthen (lift_res (validate props connect_keys)) (\<lambda>_.
     reading path (\<lambda>pth.
     andthen (lift_res (check_connect pth opt)) (connect E)))"

section \<open>Subscribe and unsubscribe\<close>

datatype filter_arg = F_topics "js_string list" | F_other js_value

definition check_filter :: "filter_arg \<Rightarrow> js_string list res" where
  "check_filter x =
     (case x of
        F_topics ts \<Rightarrow> Inr ts
      | F_other v \<Rightarrow> if no_object v then Inl Type_error
          else Inl (Error (js ''Invalid argument:'' @ to_string v)))"

definition unsubscribe_keys :: typed_props where
  "unsubscribe_keys =
     [(js ''invocationContext'', js ''object''), (js ''onSuccess'', js ''function''),
      (js ''onFailure'', js ''function''), (js ''timeout'', js ''number'')]"

definition subscribe_keys :: typed_props where
  "subscribe_keys = (js ''qos'', js ''number'') # unsubscribe_keys"

definition check_timeout :: "string \<Rightarrow> request_options \<Rightarrow> unit res" where
  "check_timeout name opt =
     (if (case ro_timeout opt of None \<Rightarrow> False | Some t \<Rightarrow> t \<noteq> 0) \<and> ro_onFailure opt = None
      then Inl (Error (js name @ js '' specified with no onFailure callback.'')) else Inr ())"

definition check_request_qos :: "request_options \<Rightarrow> unit res" where
  "check_request_qos opt =
     (case ro_qos opt of
        None \<Rightarrow> Inr ()
      | Some q \<Rightarrow>
          if q = 0 \<or> q = 1 \<or> q = 2 then Inr ()
          else Inl (Error_of INVALID_ARGUMENT [int_str 10 q, js ''subscribeOptions.qos'']))"

definition Client_subscribe ::
  "env \<Rightarrow> filter_arg \<Rightarrow> typed_props \<Rightarrow> request_options \<Rightarrow> unit client_op" where
  "Client_subscribe E x props opt =
     andthen (lift_res
       (bind_res (check_filter x) (\<lambda>filters.
        bind_res (validate props subscribe_keys) (\<lambda>_.
        bind_res (check_timeout ''subscribeOptions.timeout'' opt) (\<lambda>_.
        bind_res (check_request_qos opt) (\<lambda>_. Inr filters))))))
       (\<lambda>filters. subscribe E filters opt)"

definition Client_unsubscribe ::
  "env \<Rightarrow> filter_arg \<Rightarrow> typed_props \<Rightarrow> request_options \<Rightarrow> unit client_op" where
  "Client_unsubscribe E x props opt =
     andthen (lift_res
       (bind_res (check_filter x) (\<lambda>filters.
        bind_res (validate props unsubscribe_keys) (\<lambda>_.
        bind_res (check_timeout ''unsubscribeOptions.timeout'' opt) (\<lambda>_. Inr filters)))))
       (\<lambda>filters. unsubscribe E filters opt)"

section \<open>Send and publish\<close>

datatype send_args =
    Send0
  | Send_message message
  | Send_value js_value
  | Send_topic js_value payload_arg "js_value option" "js_value option"

fun message_of_args :: "send_args \<Rightarrow> message res" where
  "message_of_args Send0 = Inl (Error (js ''Invalid argument.length''))"
| "message_of_args (Send_message m) =
     (if destinationName m = None
      then Inl (Error_of INVALID_ARGUMENT [js ''undefined'', js ''Message.destinationName''])
      else Inr m)"
| "message_of_args (Send_value v) =
     (case v of
        V_string s \<Rightarrow> Inl (Error_of INVALID_ARGUMENT [js ''undefined'', js ''Message.destinationName''])
      | v \<Rightarrow> Inl (Error (js ''Invalid argument:'' @ typeof v)))"
| "message_of_args (Send_topic topic p q r) =
     bind_res (Message p) (\<lambda>m.
     bind_res (set_destinationName topic m) (\<lambda>m.
     bind_res (case q of None \<Rightarrow> Inr m | Some q \<Rightarrow> set_qos q m) (\<lambda>m.
     case r of None \<Rightarrow> Inr m | Some r \<Rightarrow> set_retained r m)))"

definition Client_send :: "env \<Rightarrow> send_args \<Rightarrow> unit client_op" where
  "Client_send E args = andthen (lift_res (message_of_args args)) (send E)"

definition Client_publish :: "env \<Rightarrow> send_args \<Rightarrow> unit client_op" where
  "Client_publish E args = andthen (lift_res (message_of_args args)) (send E)"

definition isConnected :: "bool client_op" where
  "isConnected = reading connected ret"

end
