(* ===== verification/Client_Steps.thy ===== *)
theory Client_Steps
  imports Client_Api
begin

text \<open>
  The client in its surroundings: the calls an application makes, callbacks that make such calls,
  and the events of the browser, as a step relation.  A page reload keeps nothing of the client but
  \<open>localStorage\<close>.
\<close>

section \<open>Calls of the application\<close>

datatype api_call =
    Call_connect typed_props connect_options
  | Call_subscribe filter_arg typed_props request_options
  | Call_unsubscribe filter_arg typed_props request_options
  | Call_send send_args
  | Call_publish send_args
  | Call_disconnect
  | Call_set client_callback js_value
  | Call_disconnectedPublishing bool
  | Call_disconnectedBufferSize int

primrec run_call :: "env \<Rightarrow> api_call \<Rightarrow> unit client_op" where
  "run_call E (Call_connect props opt) = Client_connect E props opt"
| "run_call E (Call_subscribe x props opt) = Client_subscribe E x props opt"
| "run_call E (Call_unsubscribe x props opt) = Client_unsubscribe E x props opt"
| "run_call E (Call_send args) = Client_send E args"
| "run_call E (Call_publish args) = Client_publish E args"
| "run_call E Call_disconnect = disconnect E"
| "run_call E (Call_set k v) = set_callback k v"
| "run_call E (Call_disconnectedPublishing b) = set_disconnectedPublishing b"
| "run_call E (Call_disconnectedBufferSize n) = set_disconnectedBufferSize n"

text \<open>The setters of \<open>Message\<close> leave no other quality of service than 0, 1 and 2.\<close>

fun args_ok :: "send_args \<Rightarrow> bool" where
  "args_ok (Send_message m) = message_ok m"
| "args_ok _ = True"

fun call_ok :: "api_call \<Rightarrow> bool" where
  "call_ok (Call_send args) = args_ok args"
| "call_ok (Call_publish args) = args_ok args"
| "call_ok _ = True"

lemma message_of_args_ok:
  "message_of_args args = Inr m \<Longrightarrow> args_ok args \<Longrightarrow> message_ok m \<and> destinationName m \<noteq> None"
proof (cases args)
  case (Send_topic topic p q r)
  assume "message_of_args args = Inr m"
  with Send_topic obtain m0 m1 m2 where
    m0: "Message p = Inr m0" and m1: "set_destinationName topic m0 = Inr m1"
    and m2: "(case q of None \<Rightarrow> Inr m1 | Some q \<Rightarrow> set_qos q m1) = Inr m2"
    and m: "(case r of None \<Rightarrow> Inr m2 | Some r \<Rightarrow> set_retained r m2) = Inr m"
    by (auto simp: bind_res_Inr_iff)
  have "message_ok m0" using m0 by (cases p) (auto simp: message_ok_def)
  then have "message_ok m1 \<and> destinationName m1 \<noteq> None"
    using m1 by (cases topic) (auto simp: message_ok_def)
  then have "message_ok m2 \<and> destinationName m2 \<noteq> None"
    using m2 by (auto simp: message_ok_def set_qos_def split: option.splits if_splits)
  then show ?thesis
    using m by (auto simp: message_ok_def elim!: set_retained.elims split: option.splits)
qed (auto split: if_splits js_value.splits)

section \<open>Callbacks\<close>

text \<open>
  What a callback does is a script: the calls it makes, each with the choice to catch what it
  throws, and the value it returns.  The depth of nested callbacks is bounded by the stack of the
  engine; beyond the bound a call throws a \<open>RangeError\<close>.
\<close>

type_synonym script = "callback_id \<Rightarrow> callback_arg \<Rightarrow> client \<Rightarrow> (bool \<times> api_call) list \<times> js_ret"

fun run_script :: "env \<Rightarrow> (bool \<times> api_call) list \<Rightarrow> unit client_op" where
  "run_script E [] = ret ()"
| "run_script E ((caught, call) # cs) =
     seqn (if \<not> call_ok call then ret ()
           else if caught then catching (run_call E call) (\<lambda>_. ret ())
           else run_call E call)
          (run_script E cs)"

fun env_at :: "env \<Rightarrow> script \<Rightarrow> nat \<Rightarrow> env" where
  "env_at E scr 0 = E\<lparr>app := \<lambda>_ _. throw Range_error\<rparr>"
| "env_at E scr (Suc depth) =
     E\<lparr>app := \<lambda>f x. reading (scr f x) (\<lambda>(cs, r). seqn (run_script (env_at E scr depth) cs) (ret r))\<rparr>"

section \<open>Events\<close>

datatype event =
    Ev_call api_call
  | Ev_open nat
  | Ev_data nat "byte list"
  | Ev_error nat js_string
  | Ev_close nat
  | Ev_timer nat
  | Ev_reload

text \<open>A socket in a given ready state; its handlers run unless they have been taken away.\<close>

definition socket_in :: "nat \<Rightarrow> nat \<Rightarrow> client \<Rightarrow> bool" where
  "socket_in st s c = (s < length (sockets c) \<and> readyState (sockets c ! s) = st)"

definition handled :: "nat \<Rightarrow> unit client_op \<Rightarrow> unit client_op" where
  "handled s m = reading (\<lambda>c. ws_handlers (sockets c ! s)) (\<lambda>h. if h then m else ret ())"

definition reload :: "client \<Rightarrow> unit res \<times> client" where
  "reload c = ClientImpl (uri c) (host c) (port c) (path c) (clientId c) (localStorage c)"

inductive step :: "env \<Rightarrow> client \<Rightarrow> event \<Rightarrow> client \<Rightarrow> bool" for E where
  call: "call_ok call \<Longrightarrow> step E c (Ev_call call) (snd (run_call E call c))"
| opened: "socket_in 0 s c \<Longrightarrow>
    step E c (Ev_open s) (snd (handled s (on_socket_open E) (set_socket s (\<lambda>w. w\<lparr>readyState := 1\<rparr>) c)))"
| data: "socket_in 1 s c \<Longrightarrow> step E c (Ev_data s bytes) (snd (handled s (on_socket_message E bytes) c))"
| error: "s < length (sockets c) \<Longrightarrow> step E c (Ev_error s t) (snd (handled s (on_socket_error E t) c))"
| closed: "s < length (sockets c) \<Longrightarrow> readyState (sockets c ! s) \<noteq> 3 \<Longrightarrow>
    step E c (Ev_close s) (snd (handled s (on_socket_close E) (set_socket s (\<lambda>w. w\<lparr>readyState := 3\<rparr>) c)))"
| timer: "tget (timers c) t = Some (d, act) \<Longrightarrow>
    step E c (Ev_timer t) (snd (run_timer E act (c\<lparr>timers := tdel t (timers c)\<rparr>)))"
| reload: "step E c Ev_reload (snd (reload c))"

inductive_cases stepE: "step E c ev c'"

inductive reachable :: "env \<Rightarrow> client \<Rightarrow> client \<Rightarrow> bool" for E c0 where
  start: "reachable E c0 c0"
| again: "reachable E c0 c \<Longrightarrow> step E c ev c' \<Longrightarrow> reachable E c0 c'"

lemma reachable_invariant:
  assumes "reachable E c0 c" and "P c0"
    and "\<And>c ev c'. P c \<Longrightarrow> step E c ev c' \<Longrightarrow> P c'"
  shows "P c"
  using assms by (induction rule: reachable.induct) auto

text \<open>A property of the scripts' environment follows by induction on the depth.\<close>

lemma env_at_keeps:
  assumes "\<And>E' call. (\<And>f x. keeps P (app E' f x)) \<Longrightarrow> call_ok call \<Longrightarrow> keeps P (run_call E' call)"
  shows "keeps P (app (env_at E scr depth) f x)"
proof (induction depth arbitrary: f x)
  case 0
  then show ?case by (simp add: keeps_def)
next
  case (Suc depth)
  have "keeps P (run_script (env_at E scr depth) cs)" for cs
  proof (induction cs)
    case Nil
    then show ?case by simp
  next
    case (Cons a cs)
    obtain caught call where a: "a = (caught, call)" by (cases a)
    have "call_ok call \<Longrightarrow> keeps P (run_call (env_at E scr depth) call)"
      using assms Suc by blast
    then show ?case using Cons a
      by (auto intro!: keeps_andthen keeps_catching)
  qed
  then have "keeps P (reading (scr f x) (\<lambda>(cs, r). seqn (run_script (env_at E scr depth) cs) (ret r)))"
    by (intro keeps_reading) (auto intro!: keeps_andthen split: prod.split)
  then show ?case by (simp del: reading_apply)
qed

section \<open>Runs\<close>

text \<open>The same steps as a function, to evaluate concrete runs.\<close>

fun do_event :: "env \<Rightarrow> event \<Rightarrow> client \<Rightarrow> client option" where
  "do_event E (Ev_call call) c = (if call_ok call then Some (snd (run_call E call c)) else None)"
| "do_event E (Ev_open s) c =
     (if socket_in 0 s c
      then Some (snd (handled s (on_socket_open E) (set_socket s (\<lambda>w. w\<lparr>readyState := 1\<rparr>) c))) else None)"
| "do_event E (Ev_data s bytes) c =
     (if socket_in 1 s c then Some (snd (handled s (on_socket_message E bytes) c)) else None)"
| "do_event E (Ev_error s t) c =
     (if s < length (sockets c) then Some (snd (handled s (on_socket_error E t) c)) else None)"
| "do_event E (Ev_close s) c =
     (if s < length (sockets c) \<and> readyState (sockets c ! s) \<noteq> 3
      then Some (snd (handled s (on_socket_close E) (set_socket s (\<lambda>w. w\<lparr>readyState := 3\<rparr>) c))) else None)"
| "do_event E (Ev_timer t) c =
     (case tget (timers c) t of
        None \<Rightarrow> None
      | Some (d, act) \<Rightarrow> Some (snd (run_timer E act (c\<lparr>timers := tdel t (timers c)\<rparr>))))"
| "do_event E Ev_reload c = Some (snd (reload c))"

lemma do_event_step: "do_event E ev c = Some c' \<longleftrightarrow> step E c ev c'"
  by (cases ev) (auto split: if_splits option.splits intro: step.intros step.intros [simplified] elim: stepE)

fun run_events :: "env \<Rightarrow> client \<Rightarrow> event list \<Rightarrow> client option" where
  "run_events E c [] = Some c"
| "run_events E c (ev # evs) = Option.bind (do_event E ev c) (\<lambda>c'. run_events E c' evs)"

lemma run_events_from: "run_events E c evs = Some c' \<Longrightarrow> reachable E c0 c \<Longrightarrow> reachable E c0 c'"
  by (induction E c evs rule: run_events.induct)
     (auto simp: do_event_step Option.bind_eq_Some_conv intro: reachable.again)

lemma run_events_reachable: "run_events E c evs = Some c' \<Longrightarrow> reachable E c c'"
  by (rule run_events_from) (auto intro: reachable.start)

text \<open>A browser in which nothing fails and an application whose callbacks do nothing.\<close>

definition quiet_env :: env where
  "quiet_env = \<lparr>app = (\<lambda>_ _. throw Range_error), socket_open_error = (\<lambda>_. None),
     socket_send_error = (\<lambda>_. None), engine_text = (\<lambda>_. []), engine_sort = (\<lambda>ms. ms), loop_bound = 50\<rparr>"

definition demo_message :: message where
  "demo_message = \<lparr>payload = PString (js ''hi''), destinationName = Some (js ''t''), qos = 1,
     retained = False, duplicate = False\<rparr>"

definition first_state :: "js_string \<Rightarrow> client" where
  "first_state cid = fresh_client (js ''ws://h:1/mqtt'') (js ''h'') (Num 1) (js ''/mqtt'') cid []"

text \<open>Connect, the socket opens, and the server accepts.\<close>

definition demo_connected :: "event list" where
  "demo_connected = [Ev_call (Call_connect [] no_options), Ev_open 0, Ev_data 0 [0x20, 2, 0, 0]]"

end
