(* ===== verification/Client_Queue.thy ===== *)
theory Client_Queue
  imports Client_Steps
begin

text \<open>
  What the queue puts on the wire.  On a connection that takes data, the packets that were queued
  leave in the order in which they were queued; after a reconnect the unacknowledged and the
  buffered messages leave in the order of their sequence numbers.
\<close>

section \<open>Traffic\<close>

text \<open>
  \<open>sent_more c bs c'\<close>: \<open>c'\<close> is \<open>c\<close> after the packets \<open>bs\<close> went out on the current socket; only the
  sockets, the pingers and the timers have changed.
\<close>

fun add_sent :: "nat option \<Rightarrow> byte list list \<Rightarrow> socket list \<Rightarrow> socket list" where
  "add_sent None bs S = S"
| "add_sent (Some s) bs S = S[s := (S ! s)\<lparr>ws_sent := ws_sent (S ! s) @ bs\<rparr>]"

definition sent_more :: "client \<Rightarrow> byte list list \<Rightarrow> client \<Rightarrow> bool" where
  "sent_more c bs c' \<longleftrightarrow>
     (\<exists>P T N. c' = c\<lparr>sockets := add_sent (c_socket c) bs (sockets c),
                   pingers := P, timers := T, next_timer := N\<rparr>)"

lemma add_sent_Nil [simp]: "add_sent s [] S = S"
  by (cases s) simp_all

lemma add_sent_append [simp]: "add_sent s bs' (add_sent s bs S) = add_sent s (bs @ bs') S"
proof (cases s)
  case (Some i)
  then show ?thesis by (cases "i < length S") (simp_all add: list_update_beyond)
qed simp

lemma length_add_sent [simp]: "length (add_sent s bs S) = length S"
  by (cases s) simp_all

lemma readyState_add_sent [simp]: "readyState (add_sent s bs S ! i) = readyState (S ! i)"
proof (cases s)
  case (Some j)
  then show ?thesis by (cases "i = j \<and> j < length S") (auto simp: nth_list_update list_update_beyond)
qed simp

lemma sent_moreI:
  "c' = c\<lparr>sockets := add_sent (c_socket c) bs (sockets c), pingers := P, timers := T, next_timer := N\<rparr> \<Longrightarrow>
   sent_more c bs c'"
  unfolding sent_more_def by blast

lemma sent_none: "sent_more c [] (c\<lparr>pingers := P, timers := T, next_timer := N\<rparr>)"
  by (rule sent_moreI) simp

lemma sent_none_rearm: "sent_more c [] (c\<lparr>timers := T, next_timer := N, pingers := P\<rparr>)"
  by (rule sent_moreI [where P = P and T = T and N = N]) (cases c, simp)

lemma sent_more_refl: "sent_more c [] c"
  by (rule sent_moreI [where P = "pingers c" and T = "timers c" and N = "next_timer c"]) simp

lemma sent_more_trans: "sent_more c bs c1 \<Longrightarrow> sent_more c1 bs' c2 \<Longrightarrow> sent_more c (bs @ bs') c2"
  unfolding sent_more_def by (elim exE) (simp, blast)

lemma sent_more_bytes:
  assumes "sent_more c bs c'" and "c_socket c = Some s" "s < length (sockets c)"
  shows "sent_bytes c' = sent_bytes c @ bs"
  using assms by (auto simp: sent_more_def sent_bytes_def)

text \<open>A connection that takes data, whose packets nobody waits to be told about.\<close>

definition open_for :: "env \<Rightarrow> client \<Rightarrow> bool" where
  "open_for E c \<longleftrightarrow>
     connected c
     \<and> (\<exists>s. c_socket c = Some s \<and> s < length (sockets c) \<and> socket_send_error E (readyState (sockets c ! s)) = None)
     \<and> sendPinger c \<noteq> None
     \<and> (notify_msg_sent c = None \<or> notify_msg_sent c = Some (N_returned R_undefined))"

lemma open_for_sent: "sent_more c bs c' \<Longrightarrow> open_for E c' = open_for E c"
  by (auto simp: sent_more_def open_for_def)

lemma set_pinger_sent: "sent_more c [] (snd (set_pinger i f c))"
  using sent_none [where c = c and T = "timers c" and N = "next_timer c"] by (simp add: set_pinger_def)

lemma pinger_reset_sent: "\<exists>c'. pinger_reset p c = (Inr (), c') \<and> sent_more c [] c'"
proof -
  have clear: "\<exists>c'. clearTimeout t c = (Inr (), c') \<and> sent_more c [] c'" for t c
    using sent_none [where c = c and P = "pingers c" and N = "next_timer c"] sent_more_refl
    by (auto simp: clearTimeout_def split: option.split)
  have arm: "\<exists>c'. arm_pinger p c = (Inr (), c') \<and> sent_more c [] c'" for c
    using sent_none_rearm [of c] by (auto simp: arm_pinger_def setTimeout_def set_pinger_def)
  obtain c1 where c1: "set_pinger p (\<lambda>q. q\<lparr>pg_isReset := True\<rparr>) c = (Inr (), c1)" "sent_more c [] c1"
    using set_pinger_sent by (auto simp: set_pinger_def)
  obtain c2 where c2: "pinger_cancel p c1 = (Inr (), c2)" "sent_more c1 [] c2"
    using clear by (auto simp: pinger_cancel_def)
  obtain c3 where c3: "arm_pinger p c2 = (Inr (), c3)" "sent_more c2 [] c3" using arm by blast
  have c12: "sent_more c [] c2" using sent_more_trans [OF c1(2) c2(2)] by simp
  have c13: "sent_more c [] c3" using sent_more_trans [OF c12 c3(2)] by simp
  show ?thesis
    using c1 c2 c3 c12 c13 by (cases "pg_interval (pingers c2 ! p) > 0") (simp_all add: pinger_reset_def)
qed

lemma socket_send_sent:
  assumes "open_for E c" and "encode m = Inr b"
  shows "\<exists>c'. socket_send E m c = (Inr (), c') \<and> sent_more c [b] c'"
proof -
  obtain s p where s: "c_socket c = Some s" "s < length (sockets c)"
      "socket_send_error E (readyState (sockets c ! s)) = None" and p: "sendPinger c = Some p"
    using assms(1) by (auto simp: open_for_def)
  let ?c1 = "set_socket s (\<lambda>w. w\<lparr>ws_sent := ws_sent w @ [b]\<rparr>) c"
  have one: "sent_more c [b] ?c1"
    by (rule sent_moreI [where P = "pingers c" and T = "timers c" and N = "next_timer c"])
       (simp add: set_socket_def s(1))
  obtain c' where reset: "pinger_reset p ?c1 = (Inr (), c')" and two: "sent_more ?c1 [] c'"
    using pinger_reset_sent by blast
  have "socket_send E m c = (Inr (), c')"
    using s p assms(2) reset by (simp add: socket_send_def ws_send_def on_pinger_def set_socket_def)
  with sent_more_trans [OF one two] show ?thesis by auto
qed

section \<open>The queue\<close>

definition image :: "wire_message \<Rightarrow> byte list" where
  "image m = (case encode m of Inr b \<Rightarrow> b | Inl e \<Rightarrow> [])"

definition sendable :: "wire_message \<Rightarrow> bool" where
  "sendable m = (case encode m of Inr b \<Rightarrow> True | Inl e \<Rightarrow> False)"

lemma encode_image: "sendable m \<Longrightarrow> encode m = Inr (image m)"
  by (simp add: sendable_def image_def split: sum.splits)

lemma run_notify_none: "open_for E c \<Longrightarrow> run_notify E c = (Inr (), c)"
  by (auto simp: run_notify_def open_for_def)

lemma sent_more_queue: "sent_more (c\<lparr>msg_queue := q\<rparr>) bs c' \<Longrightarrow> sent_more (c\<lparr>msg_queue := q'\<rparr>) bs (c'\<lparr>msg_queue := q'\<rparr>)"
  unfolding sent_more_def by (elim exE, intro exI) (cases c, simp)

lemma process_queue_loop_sent:
  assumes "open_for E c" and "length q < n" and "\<forall>m \<in> set q. sendable m" and "msg_queue c = q"
  shows "\<exists>c'. process_queue_loop E n c = (Inr (), c')
    \<and> sent_more (c\<lparr>msg_queue := []\<rparr>) (map image (rev q)) c'"
  using assms
proof (induction q arbitrary: c n rule: rev_induct)
  case Nil
  then obtain k where "n = Suc k" by (cases n) auto
  moreover have "c\<lparr>msg_queue := []\<rparr> = c" using Nil by (cases c) simp
  then have "sent_more (c\<lparr>msg_queue := []\<rparr>) [] c" by (simp only: sent_more_refl)
  ultimately show ?case using Nil by simp
next
  case (snoc m q)
  then obtain k where n: "n = Suc k" and k: "length q < k" by (cases n) auto
  let ?c1 = "c\<lparr>msg_queue := q\<rparr>"
  have open1: "open_for E ?c1" using snoc.prems(1) by (simp add: open_for_def)
  obtain c2 where send: "socket_send E m ?c1 = (Inr (), c2)" and one: "sent_more ?c1 [image m] c2"
    using socket_send_sent [OF open1 encode_image, of m] snoc.prems(3) by auto
  have open2: "open_for E c2" using open1 open_for_sent [OF one] by simp
  have q2: "msg_queue c2 = q" using one by (auto simp: sent_more_def)
  obtain c3 where loop: "process_queue_loop E k c2 = (Inr (), c3)"
    and rest: "sent_more (c2\<lparr>msg_queue := []\<rparr>) (map image (rev q)) c3"
    using snoc.IH [OF open2 k _ q2] snoc.prems(3) by auto
  have "process_queue_loop E n c = (Inr (), c3)"
    using n snoc.prems(4) send loop run_notify_none [OF open2] by simp
  moreover have "sent_more (c\<lparr>msg_queue := []\<rparr>) ([image m] @ map image (rev q)) c3"
    using sent_more_queue [OF one] rest by (intro sent_more_trans) auto
  ultimately show ?case by auto
qed

text \<open>
  Property C6.  The queue is first in, first out, and the loop that empties it ends: on an open
  connection, with a bound that exceeds the number of queued packets, \<open>_process_queue\<close> returns with
  an empty queue, having sent the encodings of the queued packets, the oldest first.
\<close>

theorem process_queue_fifo:
  assumes "open_for E c" and "length (msg_queue c) < loop_bound E" and "\<forall>m \<in> set (msg_queue c). sendable m"
  shows "\<exists>c'. process_queue E c = (Inr (), c') \<and> msg_queue c' = []
    \<and> sent_bytes c' = sent_bytes c @ map image (rev (msg_queue c))"
proof -
  obtain c' where c': "process_queue_loop E (loop_bound E) c = (Inr (), c')"
      "sent_more (c\<lparr>msg_queue := []\<rparr>) (map image (rev (msg_queue c))) c'"
    using process_queue_loop_sent [OF assms(1,2,3) refl] by blast
  obtain s where "c_socket c = Some s" "s < length (sockets c)" using assms(1) by (auto simp: open_for_def)
  then have "sent_bytes c' = sent_bytes (c\<lparr>msg_queue := []\<rparr>) @ map image (rev (msg_queue c))"
    using c'(2) by (intro sent_more_bytes) auto
  moreover have "msg_queue c' = []" using c'(2) by (auto simp: sent_more_def)
  ultimately show ?thesis using c'(1) by (auto simp: process_queue_def sent_bytes_def split: option.split)
qed

theorem process_queue_fifo_witness:
  "\<exists>c c' a b. run_events quiet_env (first_state (js ''c'')) demo_connected = Some c
    \<and> process_queue quiet_env (c\<lparr>msg_queue := [b, a]\<rparr>) = (Inr (), c')
    \<and> sent_bytes c' = sent_bytes c @ [image a, image b] \<and> image a \<noteq> image b"
proof -
  define a where "a = WireMessage_id (mt PUBACK) (Some (Num 1))"
  define b where "b = WireMessage_id (mt PUBACK) (Some (Num 2))"
  have "case run_events quiet_env (first_state (js ''c'')) demo_connected of None \<Rightarrow> False
      | Some c \<Rightarrow> connected c \<and> c_socket c = Some 0 \<and> sockets c \<noteq> [] \<and> sendPinger c \<noteq> None \<and> notify_msg_sent c = None"
    by code_simp
  then obtain c where run: "run_events quiet_env (first_state (js ''c'')) demo_connected = Some c"
    and c: "open_for quiet_env (c\<lparr>msg_queue := [b, a]\<rparr>)"
    by (auto simp: open_for_def quiet_env_def split: option.splits)
  have "encode a = Inr [0x40, 2, 0, 1]" "encode b = Inr [0x40, 2, 0, 2]"
    unfolding a_def b_def by code_simp+
  then have ab: "sendable a" "sendable b" "image a \<noteq> image b" by (simp_all add: sendable_def image_def)
  from process_queue_fifo [OF c] ab obtain c' where
    "process_queue quiet_env (c\<lparr>msg_queue := [b, a]\<rparr>) = (Inr (), c')"
    "sent_bytes c' = sent_bytes (c\<lparr>msg_queue := [b, a]\<rparr>) @ [image a, image b]"
    by (auto simp: quiet_env_def)
  moreover have "sent_bytes (c\<lparr>msg_queue := [b, a]\<rparr>) = sent_bytes c"
    by (simp add: sent_bytes_def split: option.split)
  ultimately show ?thesis using run ab by metis
qed

section \<open>Resending after a reconnect\<close>

text \<open>Callbacks that do nothing, so that what goes out is what the client sends.\<close>

definition silent :: "env \<Rightarrow> bool" where
  "silent E = (\<forall>f x. app E f x = ret R_undefined)"

lemma invoke_silent: "silent E \<Longrightarrow> invoke E f x c = (Inr R_undefined, c\<lparr>calls := calls c @ [(f, x)]\<rparr>)"
  by (simp add: invoke_def silent_def)

lemma invoke_opt_silent: "silent E \<Longrightarrow> \<exists>l. invoke_opt E f x c = (Inr (), c\<lparr>calls := l\<rparr>)"
  by (cases f) (auto simp: invoke_opt_def invoke_silent intro: exI [of _ "calls c"])

lemma schedule_message_sent:
  assumes "open_for E c" "msg_queue c = []" "sendable m" "2 \<le> loop_bound E"
  shows "\<exists>c'. schedule_message E m c = (Inr (), c') \<and> sent_more c [image m] c'"
proof -
  let ?c1 = "c\<lparr>msg_queue := [m]\<rparr>"
  have open1: "open_for E ?c1" and up: "connected c" using assms(1) by (simp_all add: open_for_def)
  obtain c' where c': "process_queue_loop E (loop_bound E) ?c1 = (Inr (), c')"
    and more: "sent_more (?c1\<lparr>msg_queue := []\<rparr>) (map image (rev [m])) c'"
    using process_queue_loop_sent [OF open1, of "[m]" "loop_bound E"] assms(3,4) by auto
  have "?c1\<lparr>msg_queue := []\<rparr> = c" using assms(2) by (cases c) simp
  then have "sent_more c [image m] c'" using more by (simp only: rev.simps append_Nil list.map)
  moreover have "schedule_message E m c = (Inr (), c')"
    using up c' assms(2) by (simp add: schedule_message_def process_queue_def)
  ultimately show ?thesis by blast
qed

lemma schedule_all_sent:
  assumes "open_for E c" "msg_queue c = []" "\<forall>m \<in> set ms. sendable (resend_form m)" "2 \<le> loop_bound E"
  shows "\<exists>c'. schedule_all E ms c = (Inr (), c') \<and> sent_more c (map (\<lambda>m. image (resend_form m)) ms) c'"
  using assms
proof (induction ms arbitrary: c)
  case Nil
  then show ?case using sent_more_refl by simp
next
  case (Cons m ms)
  obtain c1 where one: "schedule_message E (resend_form m) c = (Inr (), c1)" "sent_more c [image (resend_form m)] c1"
    using schedule_message_sent [OF Cons.prems(1,2) _ Cons.prems(4)] Cons.prems(3) by auto
  have "msg_queue c1 = []" using one(2) Cons.prems(2) by (auto simp: sent_more_def)
  then obtain c2 where two: "schedule_all E ms c1 = (Inr (), c2)" "sent_more c1 (map (\<lambda>m. image (resend_form m)) ms) c2"
    using Cons.IH [of c1] Cons.prems open_for_sent [OF one(2)] by auto
  show ?case using one(1) two(1) sent_more_trans [OF one(2) two(2)] by simp
qed

text \<open>Draining the buffer of offline messages only reports them.\<close>

definition reported :: "client \<Rightarrow> client \<Rightarrow> bool" where
  "reported c c' \<longleftrightarrow>
     (\<exists>l n. c' = c\<lparr>buffered_msg_queue := [], calls := l, notify_msg_sent := n\<rparr>
        \<and> (n = notify_msg_sent c \<or> n = Some (N_returned R_undefined)))"

lemma drain_buffered_reported:
  assumes "silent E" and "length q < n" and "buffered_msg_queue c = q"
  shows "\<exists>c'. drain_buffered E n ms c = (Inr (ms @ rev q), c') \<and> reported c c'"
  using assms(2,3)
proof (induction q arbitrary: c n ms rule: rev_induct)
  case Nil
  then obtain k where "n = Suc k" by (cases n) auto
  moreover have "reported c c" unfolding reported_def
    using Nil by (intro exI [of _ "calls c"] exI [of _ "notify_msg_sent c"]) (cases c, simp)
  ultimately show ?case using Nil by simp
next
  case (snoc m q)
  then obtain k where n: "n = Suc k" and k: "length q < k" by (cases n) auto
  let ?c1 = "c\<lparr>buffered_msg_queue := q\<rparr>"
  obtain c2 l N where rep: "report_delivered E (payloadMessage m) ?c1 = (Inr (), c2)"
    and c2: "c2 = ?c1\<lparr>calls := l, notify_msg_sent := N\<rparr>"
      "N = notify_msg_sent c \<or> N = Some (N_returned R_undefined)"
  proof (cases "onMessageDelivered c")
    case None
    then show ?thesis
      by (intro that [where N = "notify_msg_sent c" and l = "calls c"]) (simp_all add: report_delivered_def)
  next
    case (Some f)
    then show ?thesis
      by (intro that [where N = "Some (N_returned R_undefined)"
              and l = "calls c @ [(f, CA_message (payloadMessage m))]"])
         (simp_all add: report_delivered_def invoke_silent [OF assms(1)])
  qed
  have "buffered_msg_queue c2 = q" using c2(1) by simp
  then obtain c3 where three: "drain_buffered E k (ms @ [m]) c2 = (Inr ((ms @ [m]) @ rev q), c3)" "reported c2 c3"
    using snoc.IH [OF k] by blast
  have "drain_buffered E n ms c = (Inr (ms @ rev (q @ [m])), c3)"
    using n snoc.prems(2) rep three(1) by simp
  moreover have "reported c c3"
  proof -
    obtain l' n' where c3: "c3 = c2\<lparr>buffered_msg_queue := [], calls := l', notify_msg_sent := n'\<rparr>"
      and n': "n' = notify_msg_sent c2 \<or> n' = Some (N_returned R_undefined)"
      using three(2) by (auto simp: reported_def)
    have "c3 = c\<lparr>buffered_msg_queue := [], calls := l', notify_msg_sent := n'\<rparr>"
      unfolding c3 c2(1) by simp
    moreover have "n' = notify_msg_sent c \<or> n' = Some (N_returned R_undefined)"
      using n' c2 by auto
    ultimately show ?thesis unfolding reported_def by blast
  qed
  ultimately show ?case by blast
qed

lemma resend_sent:
  assumes "silent E" "open_for E c" "msg_queue c = []" "2 \<le> loop_bound E" "length (buffered_msg_queue c) < loop_bound E"
    and ms: "ms = map snd (sentMessages c) @ rev (buffered_msg_queue c)"
    and "\<forall>m \<in> set ms. sendable (resend_form m) \<and> sequence m \<noteq> None"
  shows "\<exists>c1 c'. resend E c = (Inr (), c') \<and> reported c c1
    \<and> sent_more c1 (map (\<lambda>m. image (resend_form m)) (sort_key (\<lambda>m. the (sequence m)) ms)) c'"
proof -
  obtain c1 where drain: "drain_buffered E (loop_bound E) (map snd (sentMessages c)) c = (Inr ms, c1)"
    and rep: "reported c c1"
    using drain_buffered_reported [OF assms(1,5) refl] unfolding ms by blast
  have "open_for E c1" "msg_queue c1 = []" using rep assms(2,3) by (auto simp: reported_def open_for_def)
  moreover have "sort_sequence E ms = sort_key (\<lambda>m. the (sequence m)) ms"
    using assms(7) by (simp add: sort_sequence_def)
  ultimately obtain c' where "schedule_all E (sort_sequence E ms) c1 = (Inr (), c')"
      "sent_more c1 (map (\<lambda>m. image (resend_form m)) (sort_key (\<lambda>m. the (sequence m)) ms)) c'"
    using schedule_all_sent [of E c1 "sort_sequence E ms"] assms(4,7) by auto
  with drain rep show ?thesis by (auto simp: resend_def)
qed

text \<open>
  Property C12.  Order of resending: when the server accepts a connection that resumes a session, the
  client sends the unacknowledged and the buffered messages in the order of their sequence numbers,
  a PUBREL packet in place of a message whose PUBREC has arrived; then it is connected, nothing is
  queued, and the unacknowledged messages are still awaited.
\<close>

theorem connack_resends_in_order:
  assumes env: "silent E" "2 \<le> loop_bound E"
    and m: "wm_type m = mt CONNACK" "returnCode m = Some 0"
    and c: "connectTimeout c = Some t" "connectOptions c = Some opt" "\<not> truthy (co_cleanSession opt)"
      "msg_queue c = []" "open_for E (c\<lparr>connected := True\<rparr>)" "length (buffered_msg_queue c) < loop_bound E"
    and ms: "ms = map snd (sentMessages c) @ rev (buffered_msg_queue c)"
    and ok: "\<forall>m \<in> set ms. sendable (resend_form m) \<and> sequence m \<noteq> None"
  shows "\<exists>c'. handleMessage E m c = (Inr (), c') \<and> connected c' \<and> \<not> reconnecting c'
    \<and> msg_queue c' = [] \<and> buffered_msg_queue c' = [] \<and> sentMessages c' = sentMessages c
    \<and> sent_bytes c' = sent_bytes c
        @ map (\<lambda>m. image (resend_form m)) (sort_key (\<lambda>m. the (sequence m)) ms)"
proof -
  let ?bs = "map (\<lambda>m. image (resend_form m)) (sort_key (\<lambda>m. the (sequence m)) ms)"
  define T where "T = timers (snd (clearTimeout (reconnectTimeout c) (c\<lparr>timers := tdel t (timers c)\<rparr>)))"
  define H where "H = (case co_uris opt of None \<Rightarrow> hostIndex c | Some us \<Rightarrow> Some (length us))"
  define c2 where "c2 = c\<lparr>timers := T, connected := True, hostIndex := H\<rparr>"
  have clear: "clearTimeout (reconnectTimeout c) (c\<lparr>timers := tdel t (timers c)\<rparr>) = (Inr (), c\<lparr>timers := T\<rparr>)"
    by (simp add: T_def clearTimeout_def split: option.split)
  have open2: "open_for E c2" using c(5) by (simp add: open_for_def c2_def)
  have f2: "sentMessages c2 = sentMessages c" "buffered_msg_queue c2 = buffered_msg_queue c" "msg_queue c2 = []"
    "connectOptions c2 = Some opt" using c by (simp_all add: c2_def)
  obtain c3 c4 where resend: "resend E c2 = (Inr (), c4)" and rep: "reported c2 c3" and more: "sent_more c3 ?bs c4"
    using resend_sent [OF env(1) open2, of ms] f2 env(2) c(6) ms ok by auto
  have f4: "connectOptions c4 = Some opt" "msg_queue c4 = []" "buffered_msg_queue c4 = []"
    "sentMessages c4 = sentMessages c" "connected c4"
    using rep more f2 by (auto simp: reported_def sent_more_def c2_def)
  obtain s where s: "c_socket c = Some s" "s < length (sockets c)" using c(5) by (auto simp: open_for_def)
  have "sent_bytes c4 = sent_bytes c3 @ ?bs"
    using more rep s by (intro sent_more_bytes) (auto simp: reported_def c2_def)
  moreover have "sent_bytes c3 = sent_bytes c"
    using rep by (auto simp: reported_def c2_def sent_bytes_def split: option.split)
  ultimately have b4: "sent_bytes c4 = sent_bytes c @ ?bs" by simp
  obtain l5 where onSuccess: "invoke_opt E (co_onSuccess opt) (CA_success (co_invocationContext opt)) c4
      = (Inr (), c4\<lparr>calls := l5\<rparr>)"
    using invoke_opt_silent [OF env(1)] by blast
  define c6 where "c6 = (if reconnecting c4 then c4\<lparr>calls := l5, reconnectInterval := 1, reconnecting := False\<rparr>
      else c4\<lparr>calls := l5\<rparr>)"
  obtain l7 where onConnected: "invoke_opt E (onConnected c6) (CA_connected (reconnecting c4) (wsuri c6)) c6
      = (Inr (), c6\<lparr>calls := l7\<rparr>)"
    using invoke_opt_silent [OF env(1)] by blast
  define c7 where "c7 = c6\<lparr>calls := l7\<rparr>"
  have c7: "msg_queue c7 = []" "buffered_msg_queue c7 = []" "sentMessages c7 = sentMessages c" "connected c7"
    "\<not> reconnecting c7" "sent_bytes c7 = sent_bytes c @ ?bs"
    using f4 b4 by (simp_all add: c7_def c6_def sent_bytes_def split: option.splits)
  obtain k where "loop_bound E = Suc k" using env(2) by (cases "loop_bound E") auto
  then have last: "process_queue E c7 = (Inr (), c7)" using c7(1) by (simp add: process_queue_def)
  have tail: "andthen (reading reconnecting (\<lambda>r.
        if r then seqn (modify (\<lambda>c. c\<lparr>reconnectInterval := 1, reconnecting := False\<rparr>)) (ret True) else ret False))
      (\<lambda>reconnected. seqn (reading onConnected (\<lambda>f. reading wsuri (\<lambda>u. invoke_opt E f (CA_connected reconnected u))))
         (process_queue E)) (c4\<lparr>calls := l5\<rparr>) = (Inr (), c7)"
    using onConnected last by (cases "reconnecting c4") (simp_all add: c6_def c7_def)
  have index: "(case co_uris opt of None \<Rightarrow> hostIndex (c\<lparr>timers := T\<rparr>) | Some us \<Rightarrow> Some (length us)) = H"
    by (simp add: H_def split: option.split)
  have "dispatch_message E m c = handle_connack E m c" using m(1) by (simp add: dispatch_message_def)
  also have "\<dots> = (Inr (), c7)"
    using c(1-3) clear m(2) resend f4(1) onSuccess tail
    by (simp add: handle_connack_def c2_def index clearTimeout_def [of "Some t"])
  finally have "handleMessage E m c = (Inr (), c7)" by (simp add: handleMessage_def catching_def)
  with c7 show ?thesis by blast
qed

definition demo_sent :: "(js_num option, wire_message) table" where
  "demo_sent =
     [(Some (Num 1), (WireMessage (mt PUBLISH))\<lparr>messageIdentifier := Some (Num 1),
         payloadMessage := Some demo_message, sequence := Some 2\<rparr>),
      (Some (Num 2), (WireMessage (mt PUBLISH))\<lparr>messageIdentifier := Some (Num 2),
         payloadMessage := Some demo_message, sequence := Some 1, pubRecReceived := True\<rparr>)]"

definition demo_silent :: env where
  "demo_silent = quiet_env\<lparr>app := \<lambda>_ _. ret R_undefined\<rparr>"

text \<open>The first message of the session was sent second, and the other one waits for its PUBCOMP.\<close>

theorem connack_resends_in_order_witness:
  "\<exists>c c'. run_events demo_silent (first_state (js ''c''))
        [Ev_call (Call_connect [] (no_options\<lparr>co_cleanSession := Some False\<rparr>)), Ev_open 0] = Some c
    \<and> handleMessage demo_silent ((WireMessage (mt CONNACK))\<lparr>returnCode := Some 0\<rparr>) (c\<lparr>sentMessages := demo_sent\<rparr>)
        = (Inr (), c')
    \<and> connected c'
    \<and> sent_bytes c' = sent_bytes c @ [image (WireMessage_id (mt PUBREL) (Some (Num 2))), image (snd (hd demo_sent))]"
proof -
  let ?evs = "[Ev_call (Call_connect [] (no_options\<lparr>co_cleanSession := Some False\<rparr>)), Ev_open 0]"
  have "case run_events demo_silent (first_state (js ''c'')) ?evs of None \<Rightarrow> False
      | Some c \<Rightarrow> (case connectTimeout c of None \<Rightarrow> False | Some t \<Rightarrow> True)
          \<and> (case connectOptions c of None \<Rightarrow> False | Some opt \<Rightarrow> co_cleanSession opt = Some False)
          \<and> msg_queue c = [] \<and> c_socket c = Some 0 \<and> sockets c \<noteq> [] \<and> sendPinger c \<noteq> None
          \<and> notify_msg_sent c = None \<and> buffered_msg_queue c = []"
    by code_simp
  then obtain c t opt where run: "run_events demo_silent (first_state (js ''c'')) ?evs = Some c"
    and c: "connectTimeout c = Some t" "connectOptions c = Some opt" "co_cleanSession opt = Some False"
      "msg_queue c = []" "c_socket c = Some 0" "sockets c \<noteq> []" "sendPinger c \<noteq> None"
      "notify_msg_sent c = None" "buffered_msg_queue c = []"
    by (auto split: option.splits)
  let ?c = "c\<lparr>sentMessages := demo_sent\<rparr>"
  have sendable: "\<forall>m \<in> set (map snd demo_sent). sendable (resend_form m) \<and> sequence m \<noteq> None"
    by code_simp
  have order: "map resend_form (sort_key (\<lambda>m. the (sequence m)) (map snd demo_sent))
      = [WireMessage_id (mt PUBREL) (Some (Num 2)), snd (hd demo_sent)]"
    by (simp add: demo_sent_def resend_form_def WireMessage_def)
  obtain c' where c': "handleMessage demo_silent ((WireMessage (mt CONNACK))\<lparr>returnCode := Some 0\<rparr>) ?c = (Inr (), c')"
    "connected c'" "sent_bytes c' = sent_bytes ?c
        @ map (\<lambda>m. image (resend_form m)) (sort_key (\<lambda>m. the (sequence m)) (map snd demo_sent))"
    using connack_resends_in_order [of demo_silent "(WireMessage (mt CONNACK))\<lparr>returnCode := Some 0\<rparr>" ?c t opt
        "map snd demo_sent"] c sendable
    by (auto simp: demo_silent_def quiet_env_def silent_def truthy_def open_for_def WireMessage_def)
  have "map (\<lambda>m. image (resend_form m)) (sort_key (\<lambda>m. the (sequence m)) (map snd demo_sent))
      = map image (map resend_form (sort_key (\<lambda>m. the (sequence m)) (map snd demo_sent)))"
    by simp
  also have "\<dots> = [image (WireMessage_id (mt PUBREL) (Some (Num 2))), image (snd (hd demo_sent))]"
    unfolding order by simp
  finally have "sent_bytes c' = sent_bytes ?c @ \<dots>" using c'(3) by (simp only:)
  moreover have "sent_bytes ?c = sent_bytes c" by (simp add: sent_bytes_def split: option.split)
  ultimately show ?thesis using run c'(1,2) by auto
qed

end
