(* ===== verification/Client_Qos.thy ===== *)
theory Client_Qos
  imports Client_Queue
begin

text \<open>
  The quality-of-service protocols.  The receiver of messages of quality 2 is specified as a map
  from identifiers to messages that wait for their release, and the handlers are shown to implement
  it: every message is reported once, whatever the server repeats.  The sender's side is given by
  the effect of each acknowledgement.
\<close>

lemma wire_fields:
  "wm_type (WireMessage t) = t" "messageIdentifier (WireMessage t) = None"
  "payloadMessage (WireMessage t) = None" "pubRecReceived (WireMessage t) = False"
  "sequence (WireMessage t) = None" "timeOut (WireMessage t) = None"
  by (simp_all add: WireMessage_def)

section \<open>The receiver of quality 2\<close>

datatype exchange = X_publish int message | X_release int

primrec exchange_packet :: "exchange \<Rightarrow> wire_message" where
  "exchange_packet (X_publish i msg) =
     (WireMessage_id (mt PUBLISH) (Some (Num i)))\<lparr>payloadMessage := Some msg\<rparr>"
| "exchange_packet (X_release i) = WireMessage_id (mt PUBREL) (Some (Num i))"

primrec exchange_reply :: "exchange \<Rightarrow> wire_message" where
  "exchange_reply (X_publish i msg) = WireMessage_id (mt PUBREC) (Some (Num i))"
| "exchange_reply (X_release i) = WireMessage_id (mt PUBCOMP) (Some (Num i))"

primrec exchange_ok :: "exchange \<Rightarrow> bool" where
  "exchange_ok (X_publish i msg) =
     (id_ok i \<and> qos msg = 2 \<and> (case payload msg of PUint8 b \<Rightarrow> True | _ \<Rightarrow> False))"
| "exchange_ok (X_release i) = id_ok i"

text \<open>The specification: which messages are reported, given those that wait.\<close>

fun exactly_once :: "(int \<Rightarrow> message option) \<Rightarrow> exchange list \<Rightarrow> message list" where
  "exactly_once waiting [] = []"
| "exactly_once waiting (X_publish i msg # xs) = exactly_once (waiting(i := Some msg)) xs"
| "exactly_once waiting (X_release i # xs) =
     (case waiting i of None \<Rightarrow> [] | Some msg \<Rightarrow> [msg]) @ exactly_once (waiting(i := None)) xs"

definition waiting :: "client \<Rightarrow> int \<Rightarrow> message option" where
  "waiting c i = Option.bind (tget (receivedMessages c) (Some (Num i))) payloadMessage"

lemma sendable_ack:
  "t \<in> {PUBACK, PUBREC, PUBREL, PUBCOMP} \<Longrightarrow> id_ok i \<Longrightarrow> sendable (WireMessage_id (mt t) (Some (Num i)))"
proof -
  assume "t \<in> {PUBACK, PUBREC, PUBREL, PUBCOMP}" "id_ok i"
  then have "encode (WireMessage_id (mt t) (Some (Num i))) = Inr (packet (WireMessage_id (mt t) (Some (Num i))))"
    by (intro encode_eq_packet) (auto simp: encodable_def WireMessage_def)
  then show ?thesis by (simp add: sendable_def)
qed

text \<open>What the receiver relies on, and keeps.\<close>

definition receiving :: "env \<Rightarrow> callback_id \<Rightarrow> client \<Rightarrow> bool" where
  "receiving E f c \<longleftrightarrow>
     open_for E c \<and> msg_queue c = [] \<and> onMessageArrived c = Some f \<and> tok (receivedMessages c)
     \<and> (\<forall>i m. tget (receivedMessages c) i = Some m \<longrightarrow> payloadMessage m \<noteq> None)"

lemma receiving_sent:
  "sent_more c bs c' \<Longrightarrow> receiving E f c \<Longrightarrow> receiving E f c' \<and> waiting c' = waiting c \<and> calls c' = calls c"
  using open_for_sent by (auto simp: sent_more_def receiving_def waiting_def fun_eq_iff)

lemma receiving_bytes: "sent_more c bs c' \<Longrightarrow> receiving E f c \<Longrightarrow> sent_bytes c' = sent_bytes c @ bs"
  by (auto simp: receiving_def open_for_def intro: sent_more_bytes)

lemma exchange_step:
  assumes "silent E" "2 \<le> loop_bound E" and R: "receiving E f c" and x: "exchange_ok x"
  shows "\<exists>c'. handleMessage E (exchange_packet x) c = (Inr (), c') \<and> receiving E f c'
    \<and> sent_bytes c' = sent_bytes c @ [image (exchange_reply x)]
    \<and> calls c' = calls c @ map (\<lambda>m. (f, CA_message (Some m))) (exactly_once (waiting c) [x])
    \<and> waiting c' = (case x of X_publish i msg \<Rightarrow> (waiting c)(i := Some msg) | X_release i \<Rightarrow> (waiting c)(i := None))"
proof (cases x)
  case (X_publish i msg)
  let ?m = "exchange_packet x"
  obtain b where b: "payload msg = PUint8 b" using x X_publish by (auto split: payload.splits)
  define c1 where "c1 = c\<lparr>receivedMessages := tput (Some (Num i)) ?m (receivedMessages c),
    localStorage := setItem (storage_key (js ''Received:'') c (Some (Num i))) (stored (js ''Received:'') ?m msg (PUint8 b))
      (localStorage c)\<rparr>"
  have "indexOf (js ''Received:'') (js ''Sent:'') \<noteq> Some 0" by (subst indexOf.simps) simp
  then have noted: "note_received ?m c = (Inr (), c1)"
    using b by (simp add: X_publish note_received_def store_def assign_sequence_def payloadBytes_def c1_def
        wire_fields storage_key_def)
  have R1: "receiving E f c1"
    using R X_publish by (auto simp: receiving_def open_for_def c1_def tok_tput table.get_put split: if_splits)
  have W1: "waiting c1 = (waiting c)(i := Some msg)"
    using R X_publish by (auto simp: waiting_def c1_def receiving_def table.get_put fun_eq_iff)
  obtain c2 where send: "schedule_message E (exchange_reply x) c1 = (Inr (), c2)"
    and more: "sent_more c1 [image (exchange_reply x)] c2"
    using schedule_message_sent [of E c1 "exchange_reply x"] R1 sendable_ack [of PUBREC i] x assms(2) X_publish
    by (auto simp: receiving_def)
  have "handleMessage E ?m c = (Inr (), c2)"
    using noted send x by (simp add: X_publish handleMessage_def catching_def dispatch_message_def receivePublish_def
        wire_fields Let_def)
  moreover have "sent_bytes c1 = sent_bytes c" by (simp add: sent_bytes_def c1_def split: option.split)
  moreover have "calls c1 = calls c" by (simp add: c1_def)
  ultimately show ?thesis
    using receiving_sent [OF more R1] receiving_bytes [OF more R1] W1 X_publish by simp
next
  case (X_release i)
  define c0 where "c0 = remove_item (js ''Received:'') (Some (Num i)) c"
  define c1 where "c1 = (case tget (receivedMessages c) (Some (Num i)) of
      None \<Rightarrow> c0
    | Some m \<Rightarrow> c0\<lparr>calls := calls c @ [(f, CA_message (payloadMessage m))],
        receivedMessages := tdel (Some (Num i)) (receivedMessages c)\<rparr>)"
  have deliver: "(case tget (receivedMessages c) (Some (Num i)) of
        None \<Rightarrow> ret ()
      | Some m \<Rightarrow> seqn (receiveMessage E m)
          (modify (\<lambda>c. c\<lparr>receivedMessages := tdel (Some (Num i)) (receivedMessages c)\<rparr>))) c0 = (Inr (), c1)"
    using R by (simp add: c1_def receiveMessage_def c0_def remove_item_def receiving_def invoke_opt_def
        invoke_silent [OF assms(1)] split: option.split)
  have R1: "receiving E f c1"
    using R by (auto simp: receiving_def open_for_def c1_def c0_def remove_item_def tok_tdel table.get_del
        split: option.split if_splits)
  have W1: "waiting c1 = (waiting c)(i := None)"
    using R by (auto simp: waiting_def c1_def c0_def remove_item_def receiving_def table.get_del fun_eq_iff
        split: option.split)
  have C1: "calls c1 = calls c @ map (\<lambda>m. (f, CA_message (Some m))) (exactly_once (waiting c) [x])"
  proof (cases "tget (receivedMessages c) (Some (Num i))")
    case None
    then show ?thesis by (simp add: c1_def c0_def remove_item_def waiting_def X_release)
  next
    case (Some m)
    then have "payloadMessage m \<noteq> None" using R by (simp add: receiving_def)
    with Some show ?thesis by (auto simp: c1_def c0_def remove_item_def waiting_def X_release)
  qed
  obtain c2 where send: "schedule_message E (exchange_reply x) c1 = (Inr (), c2)"
    and more: "sent_more c1 [image (exchange_reply x)] c2"
    using schedule_message_sent [of E c1 "exchange_reply x"] R1 sendable_ack [of PUBCOMP i] x assms(2) X_release
    by (auto simp: receiving_def)
  have "handleMessage E (exchange_packet x) c = (Inr (), c2)"
    using deliver send by (simp add: X_release handleMessage_def catching_def dispatch_message_def
        handle_pubrel_def wire_fields c0_def Let_def)
  moreover have "sent_bytes c1 = sent_bytes c"
    by (simp add: sent_bytes_def c1_def c0_def remove_item_def split: option.split)
  ultimately show ?thesis
    using receiving_sent [OF more R1] receiving_bytes [OF more R1] W1 C1 X_release by simp
qed

lemma exactly_once_Cons:
  "exactly_once w (x # xs) = exactly_once w [x]
     @ exactly_once (case x of X_publish i msg \<Rightarrow> w(i := Some msg) | X_release i \<Rightarrow> w(i := None)) xs"
  by (cases x) simp_all

text \<open>
  Property C2.  Exactly once: whatever sequence of PUBLISH packets of quality 2 and PUBREL packets
  the server sends, with repetitions and identifiers interleaved in any way, the client reports
  exactly the messages that the specification lets through, in order, and answers every PUBLISH
  with a PUBREC and every PUBREL with a PUBCOMP.
\<close>

theorem qos2_refines_exactly_once:
  assumes "silent E" "2 \<le> loop_bound E" and "receiving E f c" and "list_all exchange_ok xs"
  shows "\<exists>c'. handle_all E (map exchange_packet xs) c = (Inr (), c')
    \<and> calls c' = calls c @ map (\<lambda>m. (f, CA_message (Some m))) (exactly_once (waiting c) xs)
    \<and> sent_bytes c' = sent_bytes c @ map (\<lambda>x. image (exchange_reply x)) xs"
  using assms(3,4)
proof (induction xs arbitrary: c)
  case Nil
  then show ?case by simp
next
  case (Cons x xs)
  obtain c1 where one: "handleMessage E (exchange_packet x) c = (Inr (), c1)" "receiving E f c1"
      "sent_bytes c1 = sent_bytes c @ [image (exchange_reply x)]"
      "calls c1 = calls c @ map (\<lambda>m. (f, CA_message (Some m))) (exactly_once (waiting c) [x])"
      "waiting c1 = (case x of X_publish i msg \<Rightarrow> (waiting c)(i := Some msg) | X_release i \<Rightarrow> (waiting c)(i := None))"
    using exchange_step [OF assms(1,2) Cons.prems(1)] Cons.prems(2) by auto
  obtain c2 where two: "handle_all E (map exchange_packet xs) c1 = (Inr (), c2)"
      "calls c2 = calls c1 @ map (\<lambda>m. (f, CA_message (Some m))) (exactly_once (waiting c1) xs)"
      "sent_bytes c2 = sent_bytes c1 @ map (\<lambda>x. image (exchange_reply x)) xs"
    using Cons.IH [OF one(2)] Cons.prems(2) by auto
  have "handle_all E (map exchange_packet (x # xs)) c = (Inr (), c2)" using one(1) two(1) by simp
  moreover have "calls c2 = calls c @ map (\<lambda>m. (f, CA_message (Some m))) (exactly_once (waiting c) (x # xs))"
    by (subst exactly_once_Cons) (simp add: two(2) one(4,5))
  moreover have "sent_bytes c2 = sent_bytes c @ map (\<lambda>x. image (exchange_reply x)) (x # xs)"
    by (simp add: two(3) one(3))
  ultimately show ?case by blast
qed

text \<open>A message sent twice and released twice is reported once.\<close>

definition demo_exchange :: "exchange list" where
  "demo_exchange =
     (let m = \<lparr>payload = PUint8 [1, 2], destinationName = Some (js ''t''), qos = 2, retained = False, duplicate = False\<rparr>
      in [X_publish 5 m, X_publish 5 (m\<lparr>duplicate := True\<rparr>), X_release 5, X_release 5])"

theorem qos2_refines_exactly_once_witness:
  "\<exists>c c'. run_events demo_silent (first_state (js ''c''))
      (Ev_call (Call_set On_messageArrived (V_function 7)) # demo_connected) = Some c
    \<and> handle_all demo_silent (map exchange_packet demo_exchange) c = (Inr (), c')
    \<and> length (calls c') = 1 \<and> length (sent_bytes c') = length (sent_bytes c) + 4"
proof -
  let ?evs = "Ev_call (Call_set On_messageArrived (V_function 7)) # demo_connected"
  have "case run_events demo_silent (first_state (js ''c'')) ?evs of None \<Rightarrow> False
      | Some c \<Rightarrow> connected c \<and> c_socket c = Some 0 \<and> sockets c \<noteq> [] \<and> sendPinger c \<noteq> None \<and> notify_msg_sent c = None
          \<and> msg_queue c = [] \<and> onMessageArrived c = Some 7 \<and> receivedMessages c = [] \<and> calls c = []"
    by code_simp
  then obtain c where run: "run_events demo_silent (first_state (js ''c'')) ?evs = Some c"
    and c: "receiving demo_silent 7 c" "calls c = []" "receivedMessages c = []"
    by (auto simp: receiving_def open_for_def demo_silent_def quiet_env_def split: option.splits)
  have env: "silent demo_silent" "2 \<le> loop_bound demo_silent"
    by (simp_all add: silent_def demo_silent_def quiet_env_def)
  have "list_all exchange_ok demo_exchange"
    by (simp add: demo_exchange_def Let_def id_ok_def)
  from qos2_refines_exactly_once [OF env c(1) this] obtain c' where
    "handle_all demo_silent (map exchange_packet demo_exchange) c = (Inr (), c')"
    "calls c' = map (\<lambda>m. (7, CA_message (Some m))) (exactly_once (waiting c) demo_exchange)"
    "sent_bytes c' = sent_bytes c @ map (\<lambda>x. image (exchange_reply x)) demo_exchange"
    using c(2) by auto
  then show ?thesis using run by (auto simp: demo_exchange_def Let_def)
qed

section \<open>The sender\<close>



end
