(* ===== verification/Client_Frame.thy ===== *)
theory Client_Frame
  imports Client_Steps
begin

text \<open>
  Invariants of the client, once for all.  The session state (the two message tables, their copies
  in \<open>localStorage\<close>, the next identifier) is changed by few operations; everything else touches
  only the connection.  The locale \<open>session_invariant\<close> asks for a state predicate that depends on
  the session state alone and that the callbacks keep, and shows that every operation of the
  connection keeps it.  The locale \<open>delivery_invariant\<close> adds the laws for the operations that do
  change the session state, and shows that every step of the client keeps the predicate.
\<close>

section \<open>The session state\<close>

definition session_view where
  "session_view c =
     ((uri c, host c, port c, path c, clientId c, localKey c), sentMessages c, receivedMessages c,
      localStorage c, message_identifier c, maxMessageIdentifier c)"

text \<open>
  The changes that leave the session state alone.  Of the connection state only the reconnect
  interval is constrained: it stays, is reset to one, or is doubled while it is below 128.
\<close>

definition interval_step :: "int \<Rightarrow> int \<Rightarrow> bool" where
  "interval_step a b \<longleftrightarrow> b = a \<or> b = 1 \<or> (a < 128 \<and> b = a * 2)"

definition transient_change :: "client \<Rightarrow> client \<Rightarrow> bool" where
  "transient_change c c' \<longleftrightarrow>
     session_view c' = session_view c \<and> interval_step (reconnectInterval c) (reconnectInterval c')"

lemmas transient_simps = transient_change_def session_view_def interval_step_def

lemma after_andthen: "P (snd (m s)) \<Longrightarrow> (\<And>x. keeps P (f x)) \<Longrightarrow> P (snd (andthen m f s))"
  by (auto simp: andthen_apply keeps_def split: prod.split sum.split)

locale session_invariant =
  fixes E :: env and P :: "client \<Rightarrow> bool"
  assumes app_keeps: "keeps P (app E f x)"
    and transient: "P c \<Longrightarrow> transient_change c c' \<Longrightarrow> P c'"
begin

lemma keeps_transient: "(\<And>c. transient_change c (snd (m c))) \<Longrightarrow> keeps P m"
  by (rule keepsI) (rule transient)

lemma modify_transient: "(\<And>c. transient_change c (f c)) \<Longrightarrow> keeps P (modify f)"
  by (rule keeps_transient) simp

lemma keeps_invoke: "keeps P (invoke E f x)"
  unfolding invoke_def
  by (intro keeps_intros modify_transient app_keeps) (simp add: transient_simps)

lemma keeps_invoke_opt: "keeps P (invoke_opt E f x)"
  unfolding invoke_opt_def by (intro keeps_intros keeps_invoke)

lemma keeps_setTimeout: "keeps P (setTimeout d act)"
  by (rule keeps_transient) (simp add: setTimeout_def transient_simps)

lemma keeps_clearTimeout: "keeps P (clearTimeout t)"
  unfolding clearTimeout_def
  by (intro keeps_intros modify_transient) (simp add: transient_simps)

lemma keeps_Timeout: "keeps P (Timeout d act)"
  unfolding Timeout_def by (rule keeps_setTimeout)

lemma keeps_new_pinger: "keeps P (new_pinger k)"
  by (rule keeps_transient) (simp add: new_pinger_def transient_simps)

lemma keeps_set_pinger: "keeps P (set_pinger i f)"
  unfolding set_pinger_def by (rule modify_transient) (simp add: transient_simps)

lemma keeps_arm_pinger: "keeps P (arm_pinger i)"
  unfolding arm_pinger_def by (intro keeps_intros keeps_setTimeout keeps_set_pinger)

lemma keeps_pinger_cancel: "keeps P (pinger_cancel i)"
  unfolding pinger_cancel_def by (intro keeps_intros keeps_clearTimeout)

lemma keeps_pinger_reset: "keeps P (pinger_reset i)"
  unfolding pinger_reset_def
  by (intro keeps_intros keeps_set_pinger keeps_pinger_cancel keeps_arm_pinger)

lemma keeps_on_pinger: "(\<And>i. keeps P (f i)) \<Longrightarrow> keeps P (on_pinger p f)"
  unfolding on_pinger_def by (intro keeps_intros)

lemma keeps_ws_send: "keeps P (ws_send E s bytes)"
  by (rule keeps_transient)
     (auto simp: ws_send_def transient_simps set_socket_def split: option.split)

lemma keeps_new_socket: "keeps P (new_socket E url protocols)"
  by (rule keeps_transient) (auto simp: new_socket_def transient_simps split: option.split)

lemma keeps_cancel_connect_timeout: "keeps P cancel_connect_timeout"
  unfolding cancel_connect_timeout_def
  by (intro keeps_intros keeps_clearTimeout modify_transient) (simp add: transient_simps)

lemmas keeps_basics =
  keeps_intros keeps_invoke keeps_invoke_opt keeps_setTimeout keeps_clearTimeout keeps_Timeout
  keeps_new_pinger keeps_set_pinger keeps_arm_pinger keeps_pinger_cancel keeps_pinger_reset
  keeps_on_pinger keeps_ws_send keeps_new_socket keeps_cancel_connect_timeout modify_transient

lemma keeps_doConnect: "keeps P (doConnect E u)"
  unfolding doConnect_def by (intro keeps_basics) (simp_all add: transient_simps set_socket_def)

lemma keeps_connect_first: "keeps P (connect_first E)"
  unfolding connect_first_def
  by (intro keeps_basics keeps_doConnect) (simp add: transient_simps)

lemma keeps_stop_reconnecting: "keeps P stop_reconnecting"
  unfolding stop_reconnecting_def by (intro keeps_basics) (simp add: transient_simps)

lemma keeps_connect: "keeps P (connect E opt)"
  unfolding connect_def
  by (intro keeps_basics keeps_connect_first keeps_stop_reconnecting) (simp add: transient_simps)

lemma keeps_reconnect: "keeps P (reconnect E)"
  unfolding reconnect_def by (intro keeps_basics keeps_connect_first) (simp_all add: transient_simps)

lemma keeps_teardown: "keeps P teardown"
  unfolding teardown_def
  by (intro keeps_basics) (simp add: transient_simps drop_socket_def set_socket_def split: option.split)

lemma keeps_connection_over: "keeps P (connection_over E code text)"
  unfolding connection_over_def
  by (intro keeps_basics keeps_connect_first keeps_reconnect) (simp_all add: transient_simps)

lemma keeps_disconnected: "keeps P (disconnected E err)"
  unfolding disconnected_def
  by (intro keeps_basics keeps_teardown keeps_doConnect; (simp add: transient_simps)?)
     (auto intro: keeps_connection_over split: option.split)

lemma keeps_socket_send: "keeps P (socket_send E m)"
  unfolding socket_send_def by (intro keeps_basics)

lemma keeps_run_notify: "keeps P (run_notify E)"
proof -
  have "keeps P (modify (\<lambda>c. c\<lparr>notify_msg_sent := None\<rparr>))"
    by (rule modify_transient) (simp add: transient_simps)
  then show ?thesis
    unfolding run_notify_def
    by (intro keeps_reading)
       (auto intro!: keeps_andthen keeps_invoke keeps_disconnected split: option.split notify.split js_ret.split)
qed

lemma keeps_process_queue_loop: "keeps P (process_queue_loop E n)"
  by (induction n) (simp, unfold process_queue_loop.simps, intro keeps_basics keeps_socket_send keeps_run_notify,
      simp_all add: transient_simps)

lemma keeps_schedule_message: "keeps P (schedule_message E m)"
  unfolding schedule_message_def process_queue_def
  by (intro keeps_basics keeps_process_queue_loop) (simp add: transient_simps)

lemma keeps_report_delivered: "keeps P (report_delivered E msg)"
  unfolding report_delivered_def by (intro keeps_basics) (simp add: transient_simps)

lemma keeps_request_timeout: "keeps P (request_timeout opt err)"
  unfolding request_timeout_def by (intro keeps_basics)

lemma keeps_disconnect: "keeps P (disconnect E)"
  unfolding disconnect_def
  by (intro keeps_basics keeps_stop_reconnecting keeps_schedule_message) (simp add: transient_simps)

lemma keeps_receiveMessage: "keeps P (receiveMessage E m)"
  unfolding receiveMessage_def by (intro keeps_basics)

lemma keeps_drain_buffered: "keeps P (drain_buffered E n ms)"
  by (induction n arbitrary: ms)
     (simp, unfold drain_buffered.simps, intro keeps_basics keeps_report_delivered, simp_all add: transient_simps)

lemma keeps_schedule_all: "keeps P (schedule_all E ms)"
  by (induction ms) (auto intro: keeps_andthen keeps_schedule_message)

lemma keeps_resend: "keeps P (resend E)"
  unfolding resend_def by (intro keeps_basics keeps_drain_buffered keeps_schedule_all)

lemma keeps_internal_error: "keeps P (internal_error E e)"
  unfolding internal_error_def by (rule keeps_disconnected)

lemma keeps_on_socket_open: "keeps P (on_socket_open E)"
  unfolding on_socket_open_def by (intro keeps_basics keeps_socket_send)

lemma keeps_on_socket_error: "keeps P (on_socket_error E t)"
  unfolding on_socket_error_def by (intro keeps_basics keeps_disconnected)

lemma keeps_on_socket_close: "keeps P (on_socket_close E)"
  unfolding on_socket_close_def by (intro keeps_basics keeps_disconnected)

lemma keeps_doPing: "keeps P (doPing E i)"
  unfolding doPing_def by (intro keeps_basics keeps_disconnected)

lemma keeps_run_timer: "keeps P (run_timer E act)"
  unfolding run_timer_def
  by (auto intro!: keeps_doPing keeps_disconnected keeps_reconnect keeps_andthen keeps_invoke
      split: timer_action.split option.split)

lemma keeps_set_callback: "keeps P (set_callback k v)"
proof -
  have "keeps P (modify (put_callback k f))" for f
    by (rule modify_transient) (cases k; simp add: transient_simps)
  then show ?thesis unfolding set_callback_def by (auto split: js_value.split)
qed

lemma keeps_buffer_message: "keeps P (modify (buffer_message m))"
  by (rule modify_transient) (simp add: transient_simps buffer_message_def Let_def)

end

section \<open>Packets the client sends and receives\<close>

text \<open>An application message that can be sent: what \<open>Client.send\<close> lets through.\<close>

definition publishable :: "wire_message \<Rightarrow> bool" where
  "publishable m =
     (wm_type m = mt PUBLISH \<longrightarrow>
        (\<exists>msg. payloadMessage m = Some msg \<and> message_ok msg \<and> destinationName msg \<noteq> None))"

definition request :: "wire_message \<Rightarrow> bool" where
  "request m = (publishable m \<and> messageIdentifier m = None \<and> sequence m = None)"

lemma decode_publish_publishable:
  assumes "decode_publish input pos endPos info w0 = Inr w" and "wm_type w0 = mt PUBLISH"
  shows "publishable w"
proof -
  have finish: "publishable (w0\<lparr>messageIdentifier := i, payloadMessage := Some \<lparr>payload = p,
      destinationName = Some t, qos = drop_bit 1 info AND 3, retained = r, duplicate = d\<rparr>\<rparr>)"
    if "\<not> 2 < drop_bit 1 info AND 3" for i p t r d
  proof -
    have "0 \<le> drop_bit 1 info AND 3" using and_mod [of "drop_bit 1 info" 2] by simp
    with that have "drop_bit 1 info AND 3 = 0 \<or> drop_bit 1 info AND 3 = 1 \<or> drop_bit 1 info AND 3 = 2"
      by linarith
    then show ?thesis by (simp add: publishable_def message_ok_def)
  qed
  show ?thesis
    using assms(1) unfolding decode_publish_def Let_def
    by (auto simp: bind_res_Inr_iff split: js_num.splits if_splits intro!: finish [simplified])
qed

lemma decode_body_publishable: "decode_body input t info pos endPos = Inr w \<Longrightarrow> publishable w"
  unfolding decode_body_def Let_def
  by (auto simp: WireMessage_def publishable_def split: if_splits
      dest!: decode_publish_publishable)

lemma decodeMessage_publishable: "decodeMessage input pos = Inr (Packet w p) \<Longrightarrow> publishable w"
  by (auto simp: decodeMessage_def Let_def bind_res_Inr_iff dest: decode_body_publishable
      split: option.splits prod.splits if_splits)

lemma deframe_loop_publishable:
  "deframe_loop b p ms = Inr (ms', p') \<Longrightarrow> \<forall>m \<in> set ms. publishable m \<Longrightarrow> \<forall>m \<in> set ms'. publishable m"
proof (induction b p ms rule: deframe_loop.induct)
  case (1 b p ms)
  show ?case
  proof (cases "p < length b \<and> (\<exists>w q. decodeMessage b p = Inr (Packet w q))")
    case True
    then obtain w q where w: "p < length b" "decodeMessage b p = Inr (Packet w q)" by blast
    then have "\<forall>m \<in> set (ms @ [w]). publishable m"
      using "1.prems"(2) decodeMessage_publishable by auto
    moreover have "deframe_loop b q (ms @ [w]) = Inr (ms', p')"
      using "1.prems"(1) w by (simp add: deframe_loop.simps [of b p ms])
    ultimately show ?thesis using "1.IH" [OF w(1) w(2) refl] by blast
  next
    case False
    then show ?thesis
      using "1.prems" by (auto simp: deframe_loop.simps [of b p ms] split: if_splits sum.splits decoded.splits)
  qed
qed

lemma deframe_publishable: "deframe r data = Inr (ms, r') \<Longrightarrow> m \<in> set ms \<Longrightarrow> publishable m"
  by (auto simp: deframe_def Let_def bind_res_Inr_iff dest: deframe_loop_publishable)

section \<open>Operations that change the session state\<close>

locale delivery_invariant = session_invariant +
  assumes requires_ack_keeps: "request m \<Longrightarrow> keeps P (requires_ack m)"
    and clear_session_keeps: "keeps P (modify clear_session)"
    and acknowledged: "keeps P (modify (\<lambda>c. remove_item (js ''Sent:'') i (forget_sent i c)))"
    and answered: "keeps P (modify (forget_sent i))"
    and pubrec_noted: "P c \<Longrightarrow> tget (sentMessages c) i = Some m \<Longrightarrow> P (snd (note_pubrec i m c))"
    and received_noted: "publishable m \<Longrightarrow> keeps P (note_received m)"
    and release_item: "keeps P (modify (remove_item (js ''Received:'') i))"
    and release_entry: "keeps P (modify (\<lambda>c. c\<lparr>receivedMessages := tdel i (receivedMessages c)\<rparr>))"
    and reloaded: "P c \<Longrightarrow> P (snd (reload c))"
begin

lemma keeps_subscribe: "keeps P (subscribe E fs opt)"
  unfolding subscribe_def Let_def
  by (intro keeps_basics keeps_request_timeout requires_ack_keeps keeps_schedule_message)
     (simp add: request_def publishable_def WireMessage_def)

lemma keeps_unsubscribe: "keeps P (unsubscribe E fs opt)"
  unfolding unsubscribe_def Let_def
  by (intro keeps_basics keeps_request_timeout requires_ack_keeps keeps_schedule_message)
     (simp add: request_def publishable_def WireMessage_def)

lemma keeps_send:
  assumes "message_ok msg" "destinationName msg \<noteq> None"
  shows "keeps P (send E msg)"
proof -
  have "keeps P (requires_ack ((WireMessage (mt PUBLISH))\<lparr>payloadMessage := Some msg\<rparr>))"
    using assms by (intro requires_ack_keeps) (simp add: request_def publishable_def WireMessage_def)
  then show ?thesis
    unfolding send_def Let_def
    by (intro keeps_reading keeps_if)
       (auto intro!: keeps_andthen keeps_schedule_message keeps_report_delivered keeps_buffer_message)
qed

lemma keeps_Client_send: "args_ok args \<Longrightarrow> keeps P (Client_send E args)"
proof -
  assume ok: "args_ok args"
  show ?thesis
    unfolding Client_send_def
    using message_of_args_ok [OF _ ok] keeps_send
    by (cases "message_of_args args") (auto simp: keeps_def andthen_apply split: prod.split)
qed

lemma keeps_run_call: "call_ok call \<Longrightarrow> keeps P (run_call E call)"
proof (cases call)
  case (Call_connect props opt)
  have "keeps P (Client_connect E props opt)"
    unfolding Client_connect_def by (intro keeps_basics keeps_connect)
  with Call_connect show ?thesis by simp
next
  case (Call_subscribe x props opt)
  have "keeps P (Client_subscribe E x props opt)"
    unfolding Client_subscribe_def by (intro keeps_basics keeps_subscribe)
  with Call_subscribe show ?thesis by simp
next
  case (Call_unsubscribe x props opt)
  have "keeps P (Client_unsubscribe E x props opt)"
    unfolding Client_unsubscribe_def by (intro keeps_basics keeps_unsubscribe)
  with Call_unsubscribe show ?thesis by simp
next
  case (Call_disconnectedPublishing b)
  have "keeps P (set_disconnectedPublishing b)"
    unfolding set_disconnectedPublishing_def by (rule modify_transient) (simp add: transient_simps)
  with Call_disconnectedPublishing show ?thesis by simp
next
  case (Call_disconnectedBufferSize n)
  have "keeps P (set_disconnectedBufferSize n)"
    unfolding set_disconnectedBufferSize_def by (rule modify_transient) (simp add: transient_simps)
  with Call_disconnectedBufferSize show ?thesis by simp
qed (auto simp: Client_publish_def intro: keeps_disconnect keeps_set_callback
      keeps_Client_send [unfolded Client_send_def] keeps_Client_send)

lemma keeps_handle_connack: "keeps P (handle_connack E m)"
  unfolding handle_connack_def
  by (intro keeps_basics keeps_resend clear_session_keeps keeps_disconnected; simp add: transient_simps process_queue_def
      keeps_process_queue_loop)

lemma keeps_receivePublish: "publishable m \<Longrightarrow> keeps P (receivePublish E m)"
  unfolding receivePublish_def
  by (intro keeps_basics keeps_receiveMessage keeps_schedule_message received_noted)

lemma keeps_handle_pubrec: "keeps P (handle_pubrec E i)"
proof (rule keepsI)
  fix c assume P: "P c"
  show "P (snd (handle_pubrec E i c))"
  proof (cases "tget (sentMessages c) i")
    case None
    then show ?thesis using P by (simp add: handle_pubrec_def)
  next
    case (Some m)
    have "P (snd (note_pubrec i m c))" using P Some by (rule pubrec_noted)
    then show ?thesis
      using after_andthen [OF _ keeps_schedule_message] Some by (simp add: handle_pubrec_def)
  qed
qed

lemma keeps_acknowledgements:
  "keeps P (handle_puback E i)" "keeps P (handle_pubcomp E i)" "keeps P (handle_pubrel E i)"
  "keeps P (handle_suback E m)" "keeps P (handle_unsuback E i)"
proof -
  show "keeps P (handle_puback E i)" "keeps P (handle_pubcomp E i)"
    unfolding handle_puback_def handle_pubcomp_def
    by (intro keeps_intros keeps_invoke_opt acknowledged)+
  show "keeps P (handle_pubrel E i)"
    unfolding handle_pubrel_def
    by (intro keeps_intros keeps_receiveMessage keeps_schedule_message release_item release_entry)
  have "keeps P (suback_callback E s codes)" for s codes
    unfolding suback_callback_def by (auto intro: keeps_invoke_opt split: option.split)
  then show "keeps P (handle_suback E m)"
    unfolding handle_suback_def by (intro keeps_intros keeps_clearTimeout answered)
  show "keeps P (handle_unsuback E i)"
    unfolding handle_unsuback_def
    by (intro keeps_reading)
       (auto intro!: keeps_andthen keeps_clearTimeout answered keeps_invoke_opt split: option.split)
qed

lemma keeps_handleMessage: "publishable m \<Longrightarrow> keeps P (handleMessage E m)"
  unfolding handleMessage_def dispatch_message_def Let_def
  by (intro keeps_catching keeps_if keeps_handle_connack keeps_receivePublish keeps_acknowledgements
      keeps_handle_pubrec keeps_reading keeps_on_pinger keeps_pinger_reset keeps_disconnected
      keeps_internal_error)

lemma keeps_handle_all: "\<forall>m \<in> set ms. publishable m \<Longrightarrow> keeps P (handle_all E ms)"
  by (induction ms) (auto intro: keeps_andthen keeps_handleMessage)

lemma keeps_on_socket_message: "keeps P (on_socket_message E data)"
proof -
  have "keeps P (modify (\<lambda>c. c\<lparr>receiveBuffer := b\<rparr>))" for b
    by (rule modify_transient) (simp add: transient_simps)
  then have "keeps P (case r of
       Inl e \<Rightarrow> seqn (modify (\<lambda>c. c\<lparr>receiveBuffer := None\<rparr>)) (seqn (internal_error E e) (throw Type_error))
     | Inr (messages, rest) \<Rightarrow>
         seqn (modify (\<lambda>c. c\<lparr>receiveBuffer := rest\<rparr>)) (handle_all E messages))"
    if "\<And>ms r'. r = Inr (ms, r') \<Longrightarrow> \<forall>m \<in> set ms. publishable m" for r
    using that by (auto intro!: keeps_andthen keeps_internal_error keeps_handle_all split: sum.split)
  then show ?thesis
    unfolding on_socket_message_def keeps_def reading_apply
    using deframe_publishable by blast
qed

lemma keeps_handled: "keeps P m \<Longrightarrow> keeps P (handled s m)"
  unfolding handled_def by (intro keeps_intros)

lemma step_keeps: "P c \<Longrightarrow> step E c ev c' \<Longrightarrow> P c'"
proof (erule step.cases, goal_cases)
  case (2 s d)
  have "P (set_socket s (\<lambda>w. w\<lparr>readyState := 1\<rparr>) c)"
    using 2(1) by (rule transient) (simp add: transient_simps set_socket_def)
  then show ?case using 2 keepsD [OF keeps_handled [OF keeps_on_socket_open]] by simp
next
  case (5 s d)
  have "P (set_socket s (\<lambda>w. w\<lparr>readyState := 3\<rparr>) c)"
    using 5(1) by (rule transient) (simp add: transient_simps set_socket_def)
  then show ?case using 5 keepsD [OF keeps_handled [OF keeps_on_socket_close]] by simp
next
  case (6 d t delay act)
  have "P (c\<lparr>timers := tdel t (timers c)\<rparr>)"
    using 6(1) by (rule transient) (simp add: transient_simps)
  then show ?case using 6 keepsD [OF keeps_run_timer] by simp
qed (simp_all add: keepsD [OF keeps_run_call] keepsD [OF keeps_handled [OF keeps_on_socket_message]]
      keepsD [OF keeps_handled [OF keeps_on_socket_error]] reloaded)

theorem reachable_keeps: "reachable E c0 c \<Longrightarrow> P c0 \<Longrightarrow> P c"
  using reachable_invariant step_keeps by blast

end

end
