(* ===== verification/Client_Connect.thy ===== *)
theory Client_Connect
  imports Client_Qos Client_Frame
begin

text \<open>
  The life cycle of a connection: the addresses that are tried, the fall-back to MQTT 3.1, the loss
  of a connection, and what the operations do without one.
\<close>

section \<open>Opening a socket\<close>

text \<open>\<open>c'\<close> is \<open>c\<close> with a new socket to the address \<open>u\<close>, whose handlers are installed.\<close>

definition new_connection :: "client \<Rightarrow> js_string \<Rightarrow> js_string list \<Rightarrow> client \<Rightarrow> bool" where
  "new_connection c u protocols c' \<longleftrightarrow>
     sockets c' = sockets c @ [\<lparr>ws_url = u, ws_protocols = protocols, readyState = 0, ws_handlers = True, ws_sent = []\<rparr>]
     \<and> c_socket c' = Some (length (sockets c)) \<and> wsuri c' = u \<and> \<not> connected c'
     \<and> sendPinger c' \<noteq> None \<and> receivePinger c' \<noteq> None \<and> connectTimeout c' \<noteq> None
     \<and> connectOptions c' = connectOptions c \<and> hostIndex c' = hostIndex c \<and> reconnecting c' = reconnecting c
     \<and> calls c' = calls c \<and> session_view c' = session_view c
     \<and> msg_queue c' = msg_queue c \<and> buffered_msg_queue c' = buffered_msg_queue c
     \<and> reconnectInterval c' = reconnectInterval c"

definition protocols_of :: "connect_options \<Rightarrow> js_string list" where
  "protocols_of opt =
     [if (case co_mqttVersion opt of None \<Rightarrow> False | Some v \<Rightarrow> v < 4) then js ''mqttv3.1'' else js ''mqtt'']"

lemma cancel_connect_timeout_effect:
  obtains T where "cancel_connect_timeout c = (Inr (), c\<lparr>timers := T, connectTimeout := None\<rparr>)"
proof (cases "connectTimeout c")
  case None
  then have "c = c\<lparr>timers := timers c, connectTimeout := None\<rparr>" by (cases c) simp
  with None show ?thesis using that [of "timers c"] by (simp add: cancel_connect_timeout_def)
next
  case (Some t)
  then show ?thesis
    using that [of "tdel t (timers c)"] by (simp add: cancel_connect_timeout_def clearTimeout_def)
qed

lemma doConnect_new:
  assumes "connectOptions c = Some opt" "\<not> truthy (co_useSSL opt)" "socket_open_error E u = None"
  shows "\<exists>c'. doConnect E (Some u) c = (Inr (), c') \<and> new_connection c u (protocols_of opt) c'"
proof -
  define w where "w = \<lparr>ws_url = u, ws_protocols = protocols_of opt, readyState = 0, ws_handlers = True, ws_sent = []\<rparr>"
  define pg where "pg = \<lparr>pg_interval = (case co_keepAliveInterval opt of None \<Rightarrow> 0 | Some k \<Rightarrow> k * 1000),
      pg_isReset = False, pg_timeout = None\<rparr>"
  define c1 where "c1 = c\<lparr>wsuri := u, connected := False, sockets := sockets c @ [w], c_socket := Some (length (sockets c)),
     sendPinger := Some (length (pingers c)), pingers := pingers c @ [pg, pg], receivePinger := Some (Suc (length (pingers c)))\<rparr>"
  let ?act = "T_disconnected (error_code CONNECT_TIMEOUT) (format CONNECT_TIMEOUT [])"
  have start: "doConnect E (Some u) c =
      seqn cancel_connect_timeout
        (andthen (Timeout (co_timeout opt) ?act) (\<lambda>t. modify (\<lambda>c. c\<lparr>connectTimeout := Some t\<rparr>))) c1"
    using assms
    by (cases c) (simp add: doConnect_def protocols_of_def [symmetric] new_socket_def set_socket_def new_pinger_def c1_def w_def pg_def)
  obtain T where cancel: "cancel_connect_timeout c1 = (Inr (), c1\<lparr>timers := T, connectTimeout := None\<rparr>)"
    by (rule cancel_connect_timeout_effect)
  obtain T' N where timeout: "Timeout (co_timeout opt) ?act (c1\<lparr>timers := T, connectTimeout := None\<rparr>)
      = (Inr N, c1\<lparr>connectTimeout := None, timers := T', next_timer := Suc N\<rparr>)"
    by (simp add: Timeout_def setTimeout_def)
  have "doConnect E (Some u) c = (Inr (), c1\<lparr>timers := T', next_timer := Suc N, connectTimeout := Some N\<rparr>)"
    using start cancel timeout by simp
  moreover have "new_connection c u (protocols_of opt) (c1\<lparr>timers := T', next_timer := Suc N, connectTimeout := Some N\<rparr>)"
    by (simp add: new_connection_def c1_def w_def session_view_def)
  ultimately show ?thesis by blast
qed

section \<open>Closing down\<close>

definition torn_down :: "client \<Rightarrow> client \<Rightarrow> bool" where
  "torn_down c c' \<longleftrightarrow>
     msg_queue c' = [] \<and> buffered_msg_queue c' = [] \<and> notify_msg_sent c' = None \<and> c_socket c' = None
     \<and> connectTimeout c' = None
     \<and> (\<forall>s. c_socket c = Some s \<and> s < length (sockets c) \<longrightarrow> \<not> ws_handlers (sockets c' ! s))
     \<and> map ws_url (sockets c') = map ws_url (sockets c) \<and> length (sockets c') = length (sockets c)
     \<and> map ws_protocols (sockets c') = map ws_protocols (sockets c)
     \<and> connected c' = connected c \<and> connectOptions c' = connectOptions c \<and> hostIndex c' = hostIndex c
     \<and> reconnecting c' = reconnecting c \<and> calls c' = calls c \<and> session_view c' = session_view c
     \<and> onConnectionLost c' = onConnectionLost c \<and> wsuri c' = wsuri c \<and> uri c' = uri c
     \<and> sendPinger c' = sendPinger c \<and> receivePinger c' = receivePinger c
     \<and> reconnectInterval c' = reconnectInterval c"

lemma map_url_update:
  "map ws_url (ss[s := (ss ! s)\<lparr>ws_handlers := h, readyState := r\<rparr>]) = map ws_url ss"
  "map ws_protocols (ss[s := (ss ! s)\<lparr>ws_handlers := h, readyState := r\<rparr>]) = map ws_protocols ss"
  using list_update_id [of "map ws_url ss" s] list_update_id [of "map ws_protocols ss" s]
  by (cases "s < length ss"; simp add: map_update list_update_beyond)+

lemma teardown_torn_down:
  assumes "sendPinger c \<noteq> None" "receivePinger c \<noteq> None"
  shows "\<exists>c'. teardown c = (Inr (), c') \<and> torn_down c c'"
proof -
  have cancel: "\<exists>T. pinger_cancel p c = (Inr (), c\<lparr>timers := T\<rparr>)" for p c
    by (auto simp: pinger_cancel_def clearTimeout_def split: option.split intro: exI [of _ "timers c"])
  obtain p1 p2 where p: "sendPinger c = Some p1" "receivePinger c = Some p2" using assms by auto
  obtain T1 where one: "pinger_cancel p1 c = (Inr (), c\<lparr>timers := T1\<rparr>)" using cancel by blast
  obtain T2 where two: "pinger_cancel p2 (c\<lparr>timers := T1\<rparr>) = (Inr (), c\<lparr>timers := T2\<rparr>)"
    using cancel [of p2 "c\<lparr>timers := T1\<rparr>"] by auto
  obtain T3 where three: "cancel_connect_timeout (c\<lparr>timers := T2\<rparr>) = (Inr (), c\<lparr>timers := T3, connectTimeout := None\<rparr>)"
    by (rule cancel_connect_timeout_effect [of "c\<lparr>timers := T2\<rparr>"]) simp
  show ?thesis
    using p one two three
    by (auto simp: teardown_def on_pinger_def torn_down_def drop_socket_def set_socket_def session_view_def
        map_url_update split: option.split)
qed

lemma disconnected_teardown:
  assumes "\<not> (err \<noteq> None \<and> reconnecting c)" "sendPinger c \<noteq> None" "receivePinger c \<noteq> None"
    "connectOptions c = Some opt"
  shows "\<exists>c1. torn_down c c1 \<and> next_host c1 = next_host c \<and> disconnected E err c =
      (case next_host c of
         Some i \<Rightarrow> doConnect E (uri_at (case co_uris opt of None \<Rightarrow> [] | Some uris \<Rightarrow> uris) i) (c1\<lparr>hostIndex := Some i\<rparr>)
       | None \<Rightarrow> (case err of
            None \<Rightarrow> connection_over E (error_code OK) (format OK [])
          | Some (code, text) \<Rightarrow> connection_over E code text) c1)"
proof -
  obtain c1 where c1: "teardown c = (Inr (), c1)" "torn_down c c1"
    using teardown_torn_down [OF assms(2,3)] by blast
  then have same: "connectOptions c1 = connectOptions c" "hostIndex c1 = hostIndex c"
    by (simp_all add: torn_down_def)
  then have f: "connectOptions c1 = Some opt" "next_host c1 = next_host c"
    using assms(4) by (simp_all only: next_host_def)
  show ?thesis
    using c1 f assms(1) by (intro exI [of _ c1]) (auto simp: disconnected_def split: option.split)
qed

section \<open>Trying the addresses\<close>

text \<open>The client is trying the address with index \<open>k\<close>.\<close>

definition trying :: "connect_options \<Rightarrow> nat \<Rightarrow> client \<Rightarrow> bool" where
  "trying opt k c \<longleftrightarrow>
     \<not> reconnecting c \<and> \<not> connected c \<and> connectOptions c = Some opt \<and> (co_uris opt \<noteq> None \<longrightarrow> hostIndex c = Some k)
     \<and> sendPinger c \<noteq> None \<and> receivePinger c \<noteq> None"

lemma trying_connected:
  "new_connection c u ps c' \<Longrightarrow> \<not> reconnecting c \<Longrightarrow> connectOptions c = Some opt \<Longrightarrow>
   (co_uris opt \<noteq> None \<longrightarrow> hostIndex c = Some k) \<Longrightarrow> trying opt k c'"
  by (simp add: new_connection_def trying_def)

text \<open>The current socket closes \<open>n\<close> times, each time the one that is then current.\<close>

fun failures :: "env \<Rightarrow> nat \<Rightarrow> unit client_op" where
  "failures E 0 = ret ()"
| "failures E (Suc n) = seqn (on_socket_close E) (failures E n)"

definition failure_calls :: "connect_options \<Rightarrow> (callback_id \<times> callback_arg) list" where
  "failure_calls opt =
     (case co_onFailure opt of
        None \<Rightarrow> []
      | Some f \<Rightarrow> [(f, CA_failure (co_invocationContext opt) (error_code SOCKET_CLOSE) (format SOCKET_CLOSE []))])"

lemma close_next_host:
  assumes "trying opt k c" "co_uris opt = Some us" "Suc k < length us" "\<not> truthy (co_useSSL opt)"
    "socket_open_error E (us ! Suc k) = None"
  shows "\<exists>c'. on_socket_close E c = (Inr (), c') \<and> trying opt (Suc k) c' \<and> calls c' = calls c
    \<and> map ws_url (sockets c') = map ws_url (sockets c) @ [us ! Suc k]
    \<and> map ws_protocols (sockets c') = map ws_protocols (sockets c) @ [protocols_of opt]"
proof -
  have next_h: "next_host c = Some (Suc k)" and c: "\<not> reconnecting c" "connectOptions c = Some opt"
    using assms(1-3) by (simp_all add: next_host_def trying_def)
  obtain c1 where c1: "torn_down c c1"
    and dis: "disconnected E (Some (error_code SOCKET_CLOSE, format SOCKET_CLOSE [])) c
      = doConnect E (uri_at us (Suc k)) (c1\<lparr>hostIndex := Some (Suc k)\<rparr>)"
    using disconnected_teardown [of "Some (error_code SOCKET_CLOSE, format SOCKET_CLOSE [])" c opt E]
      assms(1,2) next_h by (auto simp: trying_def)
  let ?c2 = "c1\<lparr>hostIndex := Some (Suc k)\<rparr>"
  have c2: "connectOptions ?c2 = Some opt" "\<not> reconnecting ?c2" using c1 c by (simp_all add: torn_down_def)
  obtain c3 where do: "doConnect E (Some (us ! Suc k)) ?c2 = (Inr (), c3)"
    and new: "new_connection ?c2 (us ! Suc k) (protocols_of opt) c3"
    using doConnect_new [OF c2(1) assms(4,5)] by blast
  have "on_socket_close E c = (Inr (), c3)"
    using c(1) dis do assms(3) by (simp add: on_socket_close_def uri_at_def)
  moreover have "trying opt (Suc k) c3" using trying_connected [OF new c2(2,1)] by simp
  moreover have "calls c3 = calls c" "map ws_url (sockets c3) = map ws_url (sockets c) @ [us ! Suc k]"
    "map ws_protocols (sockets c3) = map ws_protocols (sockets c) @ [protocols_of opt]"
    using new c1 by (simp_all add: new_connection_def torn_down_def)
  ultimately show ?thesis by blast
qed

lemma close_last:
  assumes "trying opt k c" "next_host c = None" "\<not> (co_mqttVersion opt = Some 4 \<and> co_mqttVersionExplicit opt = Some False)"
    "silent E"
  shows "\<exists>c'. on_socket_close E c = (Inr (), c') \<and> c_socket c' = None \<and> \<not> connected c'
    \<and> calls c' = calls c @ failure_calls opt \<and> map ws_url (sockets c') = map ws_url (sockets c)
    \<and> map ws_protocols (sockets c') = map ws_protocols (sockets c)"
proof -
  have c: "\<not> reconnecting c" "connectOptions c = Some opt" using assms(1) by (simp_all add: trying_def)
  obtain c1 where c1: "torn_down c c1"
    and dis: "disconnected E (Some (error_code SOCKET_CLOSE, format SOCKET_CLOSE [])) c
      = connection_over E (error_code SOCKET_CLOSE) (format SOCKET_CLOSE []) c1"
    using disconnected_teardown [of "Some (error_code SOCKET_CLOSE, format SOCKET_CLOSE [])" c opt E] assms(1,2)
    by (auto simp: trying_def)
  have f: "\<not> connected c1" "connectOptions c1 = Some opt" "calls c1 = calls c" "c_socket c1 = None"
    "map ws_url (sockets c1) = map ws_url (sockets c)" "map ws_protocols (sockets c1) = map ws_protocols (sockets c)"
    using c1 c assms(1) by (simp_all add: torn_down_def trying_def)
  have "invoke_opt E (co_onFailure opt)
        (CA_failure (co_invocationContext opt) (error_code SOCKET_CLOSE) (format SOCKET_CLOSE [])) c1
      = (Inr (), c1\<lparr>calls := calls c @ failure_calls opt\<rparr>)"
  proof (cases "co_onFailure opt")
    case None
    have "c1\<lparr>calls := calls c\<rparr> = c1" using f(3) by (cases c1) simp
    with None show ?thesis by (simp add: invoke_opt_def failure_calls_def)
  next
    case (Some h)
    then show ?thesis by (simp add: invoke_opt_def failure_calls_def invoke_silent [OF assms(4)] f(3))
  qed
  then have over: "connection_over E (error_code SOCKET_CLOSE) (format SOCKET_CLOSE []) c1
      = (Inr (), c1\<lparr>calls := calls c @ failure_calls opt\<rparr>)"
    using f(1,2) assms(3) by (auto simp: connection_over_def)
  then have "on_socket_close E c = (Inr (), c1\<lparr>calls := calls c @ failure_calls opt\<rparr>)"
    using c(1) dis by (simp add: on_socket_close_def)
  then show ?thesis using f by auto
qed

lemma failures_add: "failures E (m + n) = seqn (failures E m) (failures E n)"
  by (induction m) (simp_all add: fun_eq_iff andthen_apply split: prod.split sum.split)

lemma failures_to_last:
  assumes "trying opt k c" "co_uris opt = Some us" "k < length us" "\<not> truthy (co_useSSL opt)"
    "\<forall>u \<in> set us. socket_open_error E u = None"
  shows "\<exists>c'. failures E (length us - Suc k) c = (Inr (), c') \<and> trying opt (length us - 1) c' \<and> calls c' = calls c
    \<and> map ws_url (sockets c') = map ws_url (sockets c) @ drop (Suc k) us
    \<and> map ws_protocols (sockets c') = map ws_protocols (sockets c) @ replicate (length us - Suc k) (protocols_of opt)"
  using assms
proof (induction "length us - Suc k" arbitrary: k c)
  case 0
  then have "k = length us - 1" by simp
  with 0 show ?case by simp
next
  case (Suc d)
  then have k: "Suc k < length us" and n: "length us - Suc k = Suc (length us - Suc (Suc k))" by auto
  obtain c1 where c1: "on_socket_close E c = (Inr (), c1)" "trying opt (Suc k) c1" "calls c1 = calls c"
      "map ws_url (sockets c1) = map ws_url (sockets c) @ [us ! Suc k]"
      "map ws_protocols (sockets c1) = map ws_protocols (sockets c) @ [protocols_of opt]"
    using close_next_host [OF Suc.prems(1,2) k Suc.prems(4), of E] Suc.prems(5) k by auto
  have "d = length us - Suc (Suc k)" using Suc.hyps(2) by simp
  from Suc.hyps(1) [OF this c1(2) Suc.prems(2) k Suc.prems(4,5)] obtain c2 where
    "failures E (length us - Suc (Suc k)) c1 = (Inr (), c2)" "trying opt (length us - 1) c2" "calls c2 = calls c"
    "map ws_url (sockets c2) = map ws_url (sockets c1) @ drop (Suc (Suc k)) us"
    "map ws_protocols (sockets c2) = map ws_protocols (sockets c1) @ replicate (length us - Suc (Suc k)) (protocols_of opt)"
    unfolding c1(3) by blast
  then show ?case unfolding n using c1(1,4,5) k by (simp add: Cons_nth_drop_Suc)
qed

text \<open>The version is open: MQTT 3.1.1 is tried first, then MQTT 3.1.\<close>

definition tries_both :: "connect_options \<Rightarrow> bool" where
  "tries_both opt \<longleftrightarrow> co_mqttVersion opt = Some 4 \<and> co_mqttVersionExplicit opt = Some False"

lemma close_falls_back:
  assumes "trying opt k c" "next_host c = None" "tries_both opt" "\<not> truthy (co_useSSL opt)" "co_uris opt \<noteq> Some []"
    and u: "u = (case co_uris opt of None \<Rightarrow> uri c | Some us \<Rightarrow> hd us)" "socket_open_error E u = None"
  shows "\<exists>c'. on_socket_close E c = (Inr (), c') \<and> trying (opt\<lparr>co_mqttVersion := Some 3\<rparr>) 0 c' \<and> calls c' = calls c
    \<and> map ws_url (sockets c') = map ws_url (sockets c) @ [u]
    \<and> map ws_protocols (sockets c') = map ws_protocols (sockets c) @ [[js ''mqttv3.1'']]"
proof -
  let ?opt = "opt\<lparr>co_mqttVersion := Some 3\<rparr>"
  have c: "\<not> reconnecting c" "connectOptions c = Some opt" "\<not> connected c" using assms(1) by (simp_all add: trying_def)
  obtain c1 where c1: "torn_down c c1"
    and dis: "disconnected E (Some (error_code SOCKET_CLOSE, format SOCKET_CLOSE [])) c
      = connection_over E (error_code SOCKET_CLOSE) (format SOCKET_CLOSE []) c1"
    using disconnected_teardown [of "Some (error_code SOCKET_CLOSE, format SOCKET_CLOSE [])" c opt E] assms(1,2)
    by (auto simp: trying_def)
  define h where "h = (case co_uris opt of None \<Rightarrow> hostIndex c1 | Some _ \<Rightarrow> Some 0)"
  let ?c2 = "c1\<lparr>connectOptions := Some ?opt, hostIndex := h\<rparr>"
  have f: "connected c1 = connected c" "connectOptions c1 = Some opt" "uri c1 = uri c" "reconnecting c1 = reconnecting c"
    using c1 c(2) by (simp_all add: torn_down_def)
  have opt: "connectOptions ?c2 = Some ?opt" "\<not> truthy (co_useSSL ?opt)" using assms(4) by simp_all
  obtain c3 where c3: "doConnect E (Some u) ?c2 = (Inr (), c3)" "new_connection ?c2 u (protocols_of ?opt) c3"
    using doConnect_new [OF opt u(2)] by blast
  have "connect_first E (c1\<lparr>connectOptions := Some ?opt\<rparr>) = doConnect E (Some u) ?c2"
  proof (cases "co_uris opt")
    case None
    have "?c2 = c1\<lparr>connectOptions := Some ?opt\<rparr>" using None by (cases c1) (simp add: h_def)
    then show ?thesis using None f u by (simp add: connect_first_def)
  next
    case (Some us)
    then show ?thesis using assms(5) f u by (simp add: connect_first_def h_def uri_at_def hd_conv_nth)
  qed
  then have "on_socket_close E c = (Inr (), c3)"
    using c f dis c3(1) assms(3) by (simp add: on_socket_close_def connection_over_def tries_both_def)
  moreover have "trying ?opt 0 c3"
    using trying_connected [OF c3(2), of ?opt 0] f c(1) by (auto simp: h_def split: option.splits)
  ultimately show ?thesis
    using c3(2) c1 by (simp add: new_connection_def torn_down_def protocols_of_def)
qed

text \<open>
  The attempts of a connection to the addresses \<open>us\<close>: each address with the version asked for, or all
  with MQTT 3.1.1 and then all again with MQTT 3.1 when the application left the version open.
\<close>

definition attempts :: "connect_options \<Rightarrow> js_string list \<Rightarrow> (js_string \<times> js_string list) list" where
  "attempts opt us =
     map (\<lambda>u. (u, protocols_of opt)) us @ (if tries_both opt then map (\<lambda>u. (u, [js ''mqttv3.1''])) us else [])"

lemma all_fail:
  assumes t: "trying opt 0 c" "co_uris opt = Some us" "us \<noteq> []" and "\<not> truthy (co_useSSL opt)"
    and "\<forall>u \<in> set us. socket_open_error E u = None" "silent E" "\<not> tries_both opt"
  shows "\<exists>c'. failures E (length us) c = (Inr (), c') \<and> c_socket c' = None \<and> \<not> connected c'
    \<and> calls c' = calls c @ failure_calls opt
    \<and> map ws_url (sockets c') = map ws_url (sockets c) @ tl us
    \<and> map ws_protocols (sockets c') = map ws_protocols (sockets c) @ replicate (length us - 1) (protocols_of opt)"
proof -
  obtain c1 where c1: "failures E (length us - 1) c = (Inr (), c1)" "trying opt (length us - 1) c1" "calls c1 = calls c"
      "map ws_url (sockets c1) = map ws_url (sockets c) @ tl us"
      "map ws_protocols (sockets c1) = map ws_protocols (sockets c) @ replicate (length us - 1) (protocols_of opt)"
    using failures_to_last [OF t(1,2) _ assms(4,5)] t(3) by (auto simp: drop_Suc)
  have none: "next_host c1 = None" using c1(2) t(2) by (auto simp: next_host_def trying_def Let_def)
  obtain c2 where c2: "on_socket_close E c1 = (Inr (), c2)" "c_socket c2 = None" "\<not> connected c2"
      "calls c2 = calls c1 @ failure_calls opt" "map ws_url (sockets c2) = map ws_url (sockets c1)"
      "map ws_protocols (sockets c2) = map ws_protocols (sockets c1)"
    using close_last [OF c1(2) none _ assms(6)] assms(7) by (auto simp: tries_both_def)
  have "length us = (length us - 1) + 1" using t(3) by (cases us) simp_all
  then have "failures E (length us) c = seqn (failures E (length us - 1)) (failures E 1) c"
    using failures_add [of E "length us - 1" 1] by simp
  then show ?thesis using c1 c2 by (simp add: One_nat_def)
qed

text \<open>
  Property C5.  Failover: \<open>connect\<close> with a list of addresses tries them in order.  When the socket of
  every attempt closes before the server accepts, each address has been tried once, or, when the
  application left the MQTT version open, once with MQTT 3.1.1 and after the whole list once more with
  MQTT 3.1; then the client has no socket, and \<open>onFailure\<close> has been called exactly once, after the last
  attempt.  Browsers that refuse an address or options with \<open>useSSL\<close> are not covered, and the callbacks
  do not call the client.
\<close>

theorem addresses_tried_in_order:
  assumes "\<not> connected c" "c_socket c = None" "\<not> reconnecting c"
    and "co_uris opt = Some us" "us \<noteq> []" "\<not> truthy (co_useSSL opt)"
    and "\<forall>u \<in> set us. socket_open_error E u = None" "silent E"
  shows "\<exists>c'. seqn (connect E opt) (failures E (length (attempts opt us))) c = (Inr (), c')
    \<and> map ws_url (sockets c') = map ws_url (sockets c) @ map fst (attempts opt us)
    \<and> map ws_protocols (sockets c') = map ws_protocols (sockets c) @ map snd (attempts opt us)
    \<and> c_socket c' = None \<and> \<not> connected c' \<and> calls c' = calls c @ failure_calls opt"
proof -
  let ?c1 = "c\<lparr>connectOptions := Some opt, reconnectInterval := 1, reconnecting := False, hostIndex := Some 0\<rparr>"
  let ?opt = "opt\<lparr>co_mqttVersion := Some 3\<rparr>"
  have u: "us ! 0 \<in> set us" using assms(5) by simp
  obtain c2 where c2: "doConnect E (Some (us ! 0)) ?c1 = (Inr (), c2)" "new_connection ?c1 (us ! 0) (protocols_of opt) c2"
    using doConnect_new [of ?c1 opt E "us ! 0"] assms(6,7) u by auto
  have con: "connect E opt c = (Inr (), c2)"
    using assms(1-5) c2(1) by (simp add: connect_def stop_reconnecting_def connect_first_def uri_at_def)
  have try2: "trying opt 0 c2" using trying_connected [OF c2(2), of opt 0] by simp
  have s2: "map ws_url (sockets c2) = map ws_url (sockets c) @ [hd us]" "calls c2 = calls c"
      "map ws_protocols (sockets c2) = map ws_protocols (sockets c) @ [protocols_of opt]"
    using c2(2) assms(5) by (simp_all add: new_connection_def hd_conv_nth)
  have us: "us = hd us # tl us" using assms(5) by simp
  have rep: "map (\<lambda>_. p) us = p # replicate (length us - 1) p" for p :: "js_string list"
    using assms(5) by (cases us) (simp_all add: map_replicate_const)
  show ?thesis
  proof (cases "tries_both opt")
    case False
    obtain c3 where "failures E (length us) c2 = (Inr (), c3)" "c_socket c3 = None" "\<not> connected c3"
        "calls c3 = calls c2 @ failure_calls opt" "map ws_url (sockets c3) = map ws_url (sockets c2) @ tl us"
        "map ws_protocols (sockets c3) = map ws_protocols (sockets c2) @ replicate (length us - 1) (protocols_of opt)"
      using all_fail [OF try2 assms(4-8) False] by blast
    then show ?thesis
      using con s2 us False rep [of "protocols_of opt"] by (simp add: attempts_def o_def)
  next
    case True
    obtain c3 where c3: "failures E (length us - 1) c2 = (Inr (), c3)" "trying opt (length us - 1) c3" "calls c3 = calls c2"
        "map ws_url (sockets c3) = map ws_url (sockets c2) @ tl us"
        "map ws_protocols (sockets c3) = map ws_protocols (sockets c2) @ replicate (length us - 1) (protocols_of opt)"
      using failures_to_last [OF try2 assms(4) _ assms(6,7)] assms(5) by (auto simp: drop_Suc)
    have none: "next_host c3 = None" using c3(2) assms(4) by (auto simp: next_host_def trying_def Let_def)
    have hd: "hd us = (case co_uris opt of None \<Rightarrow> uri c3 | Some us \<Rightarrow> hd us)" "socket_open_error E (hd us) = None"
      using assms(4,5,7) by simp_all
    obtain c4 where c4: "on_socket_close E c3 = (Inr (), c4)" "trying ?opt 0 c4" "calls c4 = calls c3"
        "map ws_url (sockets c4) = map ws_url (sockets c3) @ [hd us]"
        "map ws_protocols (sockets c4) = map ws_protocols (sockets c3) @ [[js ''mqttv3.1'']]"
      using close_falls_back [OF c3(2) none True assms(6) _ hd] assms(4,5) by auto
    obtain c5 where c5: "failures E (length us) c4 = (Inr (), c5)" "c_socket c5 = None" "\<not> connected c5"
        "calls c5 = calls c4 @ failure_calls ?opt" "map ws_url (sockets c5) = map ws_url (sockets c4) @ tl us"
        "map ws_protocols (sockets c5) = map ws_protocols (sockets c4) @ replicate (length us - 1) (protocols_of ?opt)"
      using all_fail [OF c4(2) _ assms(5) _ assms(7,8)] assms(4,6) by (auto simp: tries_both_def)
    have "length (attempts opt us) = (length us - 1) + (1 + length us)"
      using True assms(5) by (cases us) (simp_all add: attempts_def)
    then have "failures E (length (attempts opt us)) c2 = (Inr (), c5)"
      using c3(1) c4(1) c5(1) by (simp only: failures_add) (simp add: One_nat_def)
    moreover have "failure_calls ?opt = failure_calls opt" "protocols_of ?opt = [js ''mqttv3.1'']"
      by (simp_all add: failure_calls_def protocols_of_def split: option.split)
    ultimately show ?thesis
      using con s2 us True c3 c4 c5 rep [of "protocols_of opt"] rep [of "[js ''mqttv3.1'']"]
      by (simp add: attempts_def o_def del: js_simps)
  qed
qed

text \<open>Two addresses, both dead, with the version left open.\<close>

theorem addresses_tried_in_order_witness:
  "\<exists>c'. seqn (connect demo_silent (no_options\<lparr>co_uris := Some [js ''ws://a/'', js ''ws://b/''], co_mqttVersion := Some 4,
          co_mqttVersionExplicit := Some False, co_onFailure := Some 3\<rparr>))
        (failures demo_silent 4) (first_state (js ''c'')) = (Inr (), c')
    \<and> map ws_url (sockets c') = [js ''ws://a/'', js ''ws://b/'', js ''ws://a/'', js ''ws://b/'']
    \<and> map ws_protocols (sockets c') = [[js ''mqtt''], [js ''mqtt''], [js ''mqttv3.1''], [js ''mqttv3.1'']]
    \<and> length (calls c') = 1"
  using addresses_tried_in_order [of "first_state (js ''c'')"
      "no_options\<lparr>co_uris := Some [js ''ws://a/'', js ''ws://b/''], co_mqttVersion := Some 4,
          co_mqttVersionExplicit := Some False, co_onFailure := Some 3\<rparr>"
      "[js ''ws://a/'', js ''ws://b/'']" demo_silent]
  by (auto simp: first_state_def fresh_client_def no_options_def truthy_def demo_silent_def quiet_env_def
      silent_def failure_calls_def attempts_def tries_both_def protocols_of_def eval_nat_numeral)

section \<open>Falling back to MQTT 3.1\<close>

text \<open>
  Property C15.  Version fall-back: a connection whose MQTT version the application left open is tried
  with MQTT 3.1.1 first and, when that socket closes, with MQTT 3.1 at the same address; only when
  this one closes too is \<open>onFailure\<close> called, once.
\<close>

theorem falls_back_to_mqtt_3_1:
  assumes "\<not> connected c" "c_socket c = None" "\<not> reconnecting c"
    and "co_uris opt = None" "co_mqttVersion opt = Some 4" "co_mqttVersionExplicit opt = Some False"
    and "\<not> truthy (co_useSSL opt)" "socket_open_error E (uri c) = None" "silent E"
  shows "\<exists>c'. seqn (connect E opt) (failures E 2) c = (Inr (), c')
    \<and> map ws_url (sockets c') = map ws_url (sockets c) @ [uri c, uri c]
    \<and> map ws_protocols (sockets c') = map ws_protocols (sockets c) @ [[js ''mqtt''], [js ''mqttv3.1'']]
    \<and> c_socket c' = None \<and> \<not> connected c' \<and> calls c' = calls c @ failure_calls opt"
proof -
  let ?c1 = "c\<lparr>connectOptions := Some opt, reconnectInterval := 1, reconnecting := False\<rparr>"
  obtain c2 where c2: "doConnect E (Some (uri c)) ?c1 = (Inr (), c2)" "new_connection ?c1 (uri c) (protocols_of opt) c2"
    using doConnect_new [of ?c1 opt E "uri c"] assms(7,8) by auto
  have con: "connect E opt c = (Inr (), c2)"
    using assms(1-4) c2(1) by (simp add: connect_def stop_reconnecting_def connect_first_def)
  have f2: "uri c2 = uri c" "calls c2 = calls c" using c2(2) by (simp_all add: new_connection_def session_view_def)
  have try2: "trying opt 0 c2" using trying_connected [OF c2(2), of opt 0] assms(4) by simp
  have open2: "socket_open_error E (uri c2) = None" using f2(1) assms(8) by simp
  have none2: "next_host c2 = None" using try2 assms(4) by (simp add: next_host_def trying_def)
  obtain c3 where c3: "on_socket_close E c2 = (Inr (), c3)" "trying (opt\<lparr>co_mqttVersion := Some 3\<rparr>) 0 c3" "calls c3 = calls c2"
      "map ws_url (sockets c3) = map ws_url (sockets c2) @ [uri c2]"
      "map ws_protocols (sockets c3) = map ws_protocols (sockets c2) @ [[js ''mqttv3.1'']]"
    using close_falls_back [OF try2 none2 _ assms(7) _ _ open2] assms(4-6) by (auto simp: tries_both_def)
  have none: "next_host c3 = None" using c3(2) assms(4) by (simp add: next_host_def trying_def)
  obtain c4 where c4: "on_socket_close E c3 = (Inr (), c4)" "c_socket c4 = None" "\<not> connected c4"
      "calls c4 = calls c3 @ failure_calls (opt\<lparr>co_mqttVersion := Some 3\<rparr>)" "map ws_url (sockets c4) = map ws_url (sockets c3)"
      "map ws_protocols (sockets c4) = map ws_protocols (sockets c3)"
    using close_last [OF c3(2) none _ assms(9)] by auto
  have "seqn (connect E opt) (failures E 2) c = (Inr (), c4)"
    using con c3(1) c4(1) by (simp add: numeral_2_eq_2)
  moreover have "map ws_url (sockets c2) = map ws_url (sockets c) @ [uri c]"
    "map ws_protocols (sockets c2) = map ws_protocols (sockets c) @ [[js ''mqtt'']]"
    using c2(2) assms(5) by (simp_all add: new_connection_def protocols_of_def)
  ultimately show ?thesis
    using c3 c4 f2 by (simp add: failure_calls_def split: option.split)
qed

theorem falls_back_to_mqtt_3_1_witness:
  "\<exists>c'. seqn (connect demo_silent (no_options\<lparr>co_mqttVersion := Some 4, co_mqttVersionExplicit := Some False, co_onFailure := Some 3\<rparr>))
        (failures demo_silent 2) (first_state (js ''c'')) = (Inr (), c')
    \<and> map ws_protocols (sockets c') = [[js ''mqtt''], [js ''mqttv3.1'']] \<and> length (calls c') = 1"
  using falls_back_to_mqtt_3_1 [of "first_state (js ''c'')"
      "no_options\<lparr>co_mqttVersion := Some 4, co_mqttVersionExplicit := Some False, co_onFailure := Some 3\<rparr>" demo_silent]
  by (auto simp: first_state_def fresh_client_def no_options_def truthy_def demo_silent_def quiet_env_def
      silent_def failure_calls_def)

section \<open>Losing the connection\<close>

definition lost_calls :: "client \<Rightarrow> connect_options \<Rightarrow> nat \<Rightarrow> js_string \<Rightarrow> (callback_id \<times> callback_arg) list" where
  "lost_calls c opt code text =
     (case onConnectionLost c of
        None \<Rightarrow> []
      | Some f \<Rightarrow> [(f, CA_lost code text (co_reconnect opt) (wsuri c))])"

lemma connection_over_up:
  assumes "torn_down c c1" "connected c" "connectOptions c = Some opt" "silent E"
  shows "connection_over E code text c1 =
    (if code = error_code OK then ret ()
     else if truthy (co_reconnect opt) then seqn (modify (\<lambda>c. c\<lparr>reconnectInterval := 1\<rparr>)) (reconnect E)
     else ret ()) (c1\<lparr>connected := False, calls := calls c @ lost_calls c opt code text\<rparr>)"
proof -
  have f: "connected c1" "connectOptions c1 = Some opt" "onConnectionLost c1 = onConnectionLost c" "wsuri c1 = wsuri c"
      "calls c1 = calls c"
    using assms(1-3) by (simp_all add: torn_down_def)
  have call: "invoke_opt E (onConnectionLost c) (CA_lost code text (co_reconnect opt) (wsuri c)) (c1\<lparr>connected := False\<rparr>)
      = (Inr (), c1\<lparr>connected := False, calls := calls c @ lost_calls c opt code text\<rparr>)"
  proof (cases "onConnectionLost c")
    case None
    have "c1\<lparr>connected := False, calls := calls c\<rparr> = c1\<lparr>connected := False\<rparr>" using f(5) by (cases c1) simp
    with None show ?thesis by (simp add: invoke_opt_def lost_calls_def)
  next
    case (Some h)
    then show ?thesis by (simp add: invoke_opt_def lost_calls_def invoke_silent [OF assms(4)] f(5))
  qed
  show ?thesis using f call by (simp add: connection_over_def)
qed

text \<open>
  Property C14.  Automatic reconnect: when a connection with the option \<open>reconnect\<close> is lost, and there
  is no further address, the client tells the application once, opens a socket to the first address
  again with a delay of two seconds for the next attempt, and keeps everything that is still to be
  acknowledged; only the packets that were queued or buffered are dropped.
\<close>

theorem lost_connection_reconnects:
  assumes "connected c" "\<not> reconnecting c" "connectOptions c = Some opt" "truthy (co_reconnect opt)"
    and "sendPinger c \<noteq> None" "receivePinger c \<noteq> None" "next_host c = None" "code \<noteq> error_code OK"
    and "\<not> truthy (co_useSSL opt)" "silent E"
    and u: "u = (case co_uris opt of None \<Rightarrow> uri c | Some us \<Rightarrow> hd us)" "co_uris opt \<noteq> Some []" "socket_open_error E u = None"
  shows "\<exists>c'. disconnected E (Some (code, text)) c = (Inr (), c')
    \<and> reconnecting c' \<and> \<not> connected c' \<and> reconnectInterval c' = 2
    \<and> map ws_url (sockets c') = map ws_url (sockets c) @ [u] \<and> c_socket c' = Some (length (sockets c))
    \<and> calls c' = calls c @ lost_calls c opt code text
    \<and> session_view c' = session_view c \<and> msg_queue c' = [] \<and> buffered_msg_queue c' = []"
proof -
  obtain c1 where c1: "torn_down c c1"
    and dis: "disconnected E (Some (code, text)) c = connection_over E code text c1"
    using disconnected_teardown [of "Some (code, text)" c opt E] assms(2,3,5,6,7) by auto
  obtain p1 p2 where p: "sendPinger c1 = Some p1" "receivePinger c1 = Some p2" using c1 assms(5,6) by (auto simp: torn_down_def)
  let ?c2 = "c1\<lparr>connected := False, calls := calls c @ lost_calls c opt code text, reconnectInterval := 1, reconnecting := True\<rparr>"
  have cancel: "\<exists>T. pinger_cancel p c = (Inr (), c\<lparr>timers := T\<rparr>)" for p c
    by (auto simp: pinger_cancel_def clearTimeout_def split: option.split intro: exI [of _ "timers c"])
  obtain T1 where T1: "pinger_cancel p1 ?c2 = (Inr (), ?c2\<lparr>timers := T1\<rparr>)" using cancel by blast
  obtain T2 where T2: "pinger_cancel p2 (?c2\<lparr>timers := T1\<rparr>) = (Inr (), ?c2\<lparr>timers := T2\<rparr>)"
    using cancel [of p2 "?c2\<lparr>timers := T1\<rparr>"] by auto
  define h where "h = (case co_uris opt of None \<Rightarrow> hostIndex c1 | Some us \<Rightarrow> Some 0)"
  define c3 where "c3 = ?c2\<lparr>timers := T2, reconnectInterval := 2, hostIndex := h\<rparr>"
  have c3: "connectOptions c3 = Some opt" using c1 assms(3) by (simp add: c3_def torn_down_def)
  obtain c4 where c4: "doConnect E (Some u) c3 = (Inr (), c4)" "new_connection c3 u (protocols_of opt) c4"
    using doConnect_new [OF c3 assms(9) u(3)] by blast
  have first: "connect_first E (?c2\<lparr>timers := T2, reconnectInterval := 2\<rparr>) = doConnect E (Some u) c3"
  proof (cases "co_uris opt")
    case None
    have "c3 = ?c2\<lparr>timers := T2, reconnectInterval := 2\<rparr>" using None by (simp add: c3_def h_def)
    then show ?thesis using None c1 assms(3) u(1) by (simp add: connect_first_def torn_down_def)
  next
    case (Some us)
    then have "uri_at us 0 = Some u" using u(1,2) by (simp add: uri_at_def hd_conv_nth)
    then show ?thesis using Some c1 assms(3) by (simp add: connect_first_def torn_down_def c3_def h_def)
  qed
  have "disconnected E (Some (code, text)) c = (Inr (), c4)"
    using dis connection_over_up [OF c1 assms(1,3,10)] assms(4,8) p T1 T2 first c4(1)
    by (simp add: reconnect_def on_pinger_def)
  then show ?thesis
    using c4(2) c1 by (auto simp: new_connection_def c3_def torn_down_def session_view_def)
qed

theorem lost_connection_reconnects_witness:
  "\<exists>c'. disconnected demo_silent (Some (8, js ''gone'')) ((first_state (js ''c''))\<lparr>connected := True,
        sendPinger := Some 0, receivePinger := Some 1, onConnectionLost := Some 7,
        connectOptions := Some (no_options\<lparr>co_reconnect := Some True\<rparr>)\<rparr>) = (Inr (), c')
    \<and> reconnecting c' \<and> reconnectInterval c' = 2 \<and> length (calls c') = 1"
proof -
  let ?c = "(first_state (js ''c''))\<lparr>connected := True,
        sendPinger := Some 0, receivePinger := Some 1, onConnectionLost := Some 7,
        connectOptions := Some (no_options\<lparr>co_reconnect := Some True\<rparr>)\<rparr>"
  show ?thesis
    using lost_connection_reconnects [of ?c "no_options\<lparr>co_reconnect := Some True\<rparr>" 8 demo_silent "uri ?c" "js ''gone''"]
    by (auto simp: first_state_def fresh_client_def no_options_def truthy_def demo_silent_def quiet_env_def
        silent_def lost_calls_def next_host_def error_code_def)
qed

end
