(* ===== verification/Client_Durable.thy ===== *)
theory Client_Durable
  imports Client_Frame
begin

text \<open>
  Nothing that awaits an acknowledgement is lost by a reload: a PUBLISH packet in \<open>_sentMessages\<close>
  that has got its sequence number has a copy in \<open>localStorage\<close> that says the same, in every state
  the client can reach, whatever the server, the network and the callbacks do; and the constructor
  reads the copies back.
\<close>

section \<open>Storage keys\<close>

lemma uint_digits: "\<forall>d \<in> set [0..<10]. uint (digit d) = 48 + int d"
  by code_simp

lemma uint_digit: "d < 10 \<Longrightarrow> uint (digit d) = 48 + int d"
  using uint_digits by auto

lemma parse_digits_append: "parse_digits acc (xs @ ys) = parse_digits (parse_digits acc xs) ys"
  by (induction xs arbitrary: acc) auto

lemma parse_digits_nat_str: "parse_digits 0 (nat_str 10 n) = int n"
proof (induction n rule: less_induct)
  case (less n)
  show ?case
  proof (cases "n < 10")
    case True
    then show ?thesis by (simp add: nat_str.simps [of 10 n] uint_digit)
  next
    case False
    then have "parse_digits 0 (nat_str 10 (n div 10)) = int (n div 10)" by (intro less) simp
    moreover have "10 * int (n div 10) + int (n mod 10) = int n" by presburger
    ultimately show ?thesis
      using False by (simp add: nat_str.simps [of 10 n] parse_digits_append uint_digit)
  qed
qed

lemma nat_str_inject: "nat_str 10 a = nat_str 10 b \<Longrightarrow> a = b"
  by (metis parse_digits_nat_str of_nat_eq_iff)

lemma hd_nat_str: "\<exists>d < 10. nat_str 10 n \<noteq> [] \<and> hd (nat_str 10 n) = digit d"
proof (induction n rule: less_induct)
  case (less n)
  show ?case
  proof (cases "n < 10")
    case True
    then show ?thesis by (auto simp: nat_str.simps [of 10 n])
  next
    case False
    then obtain d where "d < 10" "nat_str 10 (n div 10) \<noteq> []" "hd (nat_str 10 (n div 10)) = digit d"
      using less [of "n div 10"] by auto
    then show ?thesis using False by (auto simp: nat_str.simps [of 10 n])
  qed
qed

lemma nat_str_Cons: "nat_str 10 n = c # cs \<Longrightarrow> 48 \<le> uint c \<and> uint c < 58"
  using hd_nat_str [of n] by (auto simp: uint_digit)

lemma int_str_inject: "int_str 10 a = int_str 10 b \<Longrightarrow> a = b"
proof -
  assume eq: "int_str 10 a = int_str 10 b"
  have minus: "nat_str 10 n \<noteq> of_char CHR ''-'' # s" for n s
    using nat_str_Cons [of n "of_char CHR ''-''" s] by auto
  show "a = b"
    using eq minus minus [symmetric] nat_str_inject [of "nat a" "nat b"] nat_str_inject [of "nat (- a)" "nat (- b)"]
    by (auto simp: int_str_def split: if_splits)
qed

lemma id_text_inject: "id_text (Some (Num n)) = id_text i \<Longrightarrow> i = Some (Num n)"
proof -
  assume eq: "id_text (Some (Num n)) = id_text i"
  have word: "int_str 10 n \<noteq> c # s" if "58 \<le> uint c" for c s
    using that nat_str_Cons [of _ c s] by (auto simp: int_str_def)
  have "int_str 10 n \<noteq> js ''null''" "int_str 10 n \<noteq> js ''NaN''" by (simp_all add: word)
  note distinct = this
  show ?thesis
  proof (cases i)
    case None
    then show ?thesis using eq distinct by (simp add: id_text_def del: js_simps)
  next
    case (Some x)
    then show ?thesis
      using eq distinct int_str_inject by (cases x) (auto simp: id_text_def simp del: js_simps)
  qed
qed

definition sent_key :: "js_string \<Rightarrow> js_num option \<Rightarrow> js_string" where
  "sent_key lk i = js ''Sent:'' @ lk @ id_text i"

definition received_key :: "js_string \<Rightarrow> js_num option \<Rightarrow> js_string" where
  "received_key lk i = js ''Received:'' @ lk @ id_text i"

lemma storage_key_sent: "storage_key (js ''Sent:'') c i = sent_key (localKey c) i"
  by (simp add: storage_key_def sent_key_def)

lemma storage_key_received: "storage_key (js ''Received:'') c i = received_key (localKey c) i"
  by (simp add: storage_key_def received_key_def)

lemma key_kinds: "sent_key lk i \<noteq> received_key lk' j"
  by (simp add: sent_key_def received_key_def)

lemma sent_key_inject: "sent_key lk (Some (Num n)) = sent_key lk i \<longleftrightarrow> i = Some (Num n)"
  by (auto simp: sent_key_def dest: id_text_inject)

definition own_key :: "js_string \<Rightarrow> js_string \<Rightarrow> bool" where
  "own_key lk key =
     (indexOf key (js ''Sent:'' @ lk) = Some 0 \<or> indexOf key (js ''Received:'' @ lk) = Some 0)"

lemma indexOf_0: "indexOf s pat = Some 0 \<longleftrightarrow> take (length pat) s = pat"
  by (subst indexOf.simps) (auto split: list.split)

lemma indexOf_prefix: "indexOf (pat @ s) pat = Some 0"
  by (simp add: indexOf_0)

section \<open>The invariant\<close>

text \<open>A stored copy says the same as the packet; whether it is a resend is not part of it.\<close>

definition records :: "stored_message \<Rightarrow> wire_message \<Rightarrow> bool" where
  "records sm m \<longleftrightarrow>
     (\<exists>msg p. payloadMessage m = Some msg \<and> payloadBytes msg = Inr p
        \<and> sm_messageIdentifier sm = messageIdentifier m
        \<and> sm_payloadHex sm = hex_text (counted_bytes p)
        \<and> sm_qos sm = qos msg \<and> sm_destinationName sm = destinationName msg
        \<and> sm_retained sm = retained msg \<and> sm_sequence sm = sequence m
        \<and> sm_pubRecReceived sm = pubRecReceived m)"

text \<open>An entry that \<open>restore\<close> can read.\<close>

definition sound_entry :: "js_string \<Rightarrow> js_string \<Rightarrow> stored_message \<Rightarrow> bool" where
  "sound_entry lk key sm \<longleftrightarrow>
     sm_type sm = mt PUBLISH \<and> (sm_qos sm = 0 \<or> sm_qos sm = 1 \<or> sm_qos sm = 2)
     \<and> sm_destinationName sm \<noteq> None \<and> (\<exists>bs. sm_payloadHex sm = hex_text bs)
     \<and> ((\<exists>n. key = sent_key lk (Some (Num n)) \<and> sm_messageIdentifier sm = Some (Num n))
        \<or> (\<exists>i. key = received_key lk i \<and> sm_messageIdentifier sm = json_id i))"

definition sound_storage :: "js_string \<Rightarrow> (js_string, stored_message) storage \<Rightarrow> bool" where
  "sound_storage lk d \<longleftrightarrow>
     storage_ok d \<and> (\<forall>key sm. getItem d key = Some sm \<and> own_key lk key \<longrightarrow> sound_entry lk key sm)"

definition sound_sent ::
  "js_string \<Rightarrow> (js_string, stored_message) storage \<Rightarrow> js_num option \<Rightarrow> wire_message \<Rightarrow> bool" where
  "sound_sent lk d i m \<longleftrightarrow>
     messageIdentifier m = i \<and> (\<exists>n. i = Some (Num n)) \<and> publishable m
     \<and> (wm_type m = mt PUBLISH \<and> sequence m \<noteq> None \<longrightarrow>
          (\<exists>sm. getItem d (sent_key lk i) = Some sm \<and> records sm m))"

lemma sound_sent_flag:
  "\<not> (wm_type m = mt PUBLISH \<and> sequence m \<noteq> None) \<Longrightarrow>
     sound_sent lk d i (m\<lparr>pubRecReceived := b\<rparr>) = sound_sent lk d i m"
  by (auto simp: sound_sent_def publishable_def)

definition durable :: "js_string \<Rightarrow> client \<Rightarrow> bool" where
  "durable lk c \<longleftrightarrow>
     localKey c = lk \<and> local_key (host c) (port c) (path c) (clientId c) = lk
     \<and> tok (sentMessages c) \<and> tok (receivedMessages c) \<and> sound_storage lk (localStorage c)
     \<and> (\<forall>i m. tget (sentMessages c) i = Some m \<longrightarrow> sound_sent lk (localStorage c) i m)"

lemma durable_transient: "durable lk c \<Longrightarrow> transient_change c c' \<Longrightarrow> durable lk c'"
  by (simp add: durable_def transient_change_def session_view_def)

section \<open>The operations keep it\<close>

lemma durable_put_sent:
  assumes "durable lk c" and "sound_sent lk (localStorage c) i m"
  shows "durable lk (c\<lparr>sentMessages := tput i m (sentMessages c)\<rparr>)"
  using assms by (auto simp: durable_def tok_tput table.get_put split: if_splits)

lemma durable_forget: "durable lk c \<Longrightarrow> durable lk (forget_sent i c)"
  by (auto simp: durable_def forget_sent_def tok_tdel table.get_del split: if_splits)

lemma sound_storage_put:
  assumes "sound_storage lk d" and "sound_entry lk key sm"
  shows "sound_storage lk (setItem key sm d)"
  using assms by (auto simp: sound_storage_def storage.ok_put storage.get_put split: if_splits)

lemma sound_storage_remove: "sound_storage lk d \<Longrightarrow> sound_storage lk (removeItem key d)"
  by (auto simp: sound_storage_def storage.ok_del storage.get_del split: if_splits)

lemma stored_sound:
  assumes "publishable m" "wm_type m = mt PUBLISH" "payloadMessage m = Some msg" "payloadBytes msg = Inr p"
    and "key = sent_key lk (messageIdentifier m) \<and> (\<exists>n. messageIdentifier m = Some (Num n))
      \<or> key = received_key lk (messageIdentifier m)"
  shows "sound_entry lk key (stored prefix m msg p)"
  using assms by (auto simp: sound_entry_def stored_def publishable_def message_ok_def json_id_def)

lemma store_sent:
  assumes D: "durable lk c" and m: "sound_sent lk (localStorage c) i m" "tget (sentMessages c) i = Some m"
  shows "(\<exists>e. store (js ''Sent:'') m c = (Inl e, c)) \<or>
    (\<exists>m' c'. store (js ''Sent:'') m c = (Inr m', c') \<and> durable lk c' \<and> sequence m' \<noteq> None
      \<and> sound_sent lk (localStorage c') i m' \<and> sentMessages c' = sentMessages c)"
proof (cases "wm_type m = mt PUBLISH")
  case False
  then show ?thesis by (simp add: store_def)
next
  case True
  with m obtain msg n where msg: "payloadMessage m = Some msg" and n: "i = Some (Num n)" "messageIdentifier m = i"
    by (auto simp: sound_sent_def publishable_def)
  show ?thesis
  proof (cases "payloadBytes msg")
    case (Inl e)
    then show ?thesis using True msg by (simp add: store_def)
  next
    case (Inr p)
    define m' where "m' = fst (case assign_sequence (js ''Sent:'') m c of (Inr m, t) \<Rightarrow> (m, t) | (Inl e, t) \<Rightarrow> (m, t))"
    define k where "k = (if sequence m = None then Suc (c_sequence c) else c_sequence c)"
    have m': "m' = m\<lparr>sequence := (if sequence m = None then Some (Suc (c_sequence c)) else sequence m)\<rparr>"
      and assign: "assign_sequence (js ''Sent:'') m c = (Inr m', c\<lparr>c_sequence := k\<rparr>)"
      by (auto simp: m'_def k_def assign_sequence_def indexOf_0)
    let ?d = "setItem (sent_key lk i) (stored (js ''Sent:'') m' msg p) (localStorage c)"
    let ?c' = "c\<lparr>c_sequence := k, localStorage := ?d\<rparr>"
    have id': "messageIdentifier m' = i" "wm_type m' = mt PUBLISH" "payloadMessage m' = Some msg" "publishable m'"
      using m n True msg by (auto simp: m' sound_sent_def publishable_def)
    have lk: "localKey c = lk" "storage_ok (localStorage c)"
      using D by (auto simp: durable_def sound_storage_def)
    have st: "store (js ''Sent:'') m c = (Inr m', ?c')"
      using True msg Inr assign lk id' by (simp add: store_def storage_key_def sent_key_def)
    have rec: "records (stored (js ''Sent:'') m' msg p) m'"
      using id' n Inr by (simp add: records_def stored_def json_id_def indexOf_0)
    have entry: "sound_entry lk (sent_key lk i) (stored (js ''Sent:'') m' msg p)"
      using id' n Inr by (intro stored_sound) auto
    have this': "sound_sent lk ?d i m'"
      using id' n rec lk by (simp add: sound_sent_def storage.get_put)
    have "sound_sent lk ?d j x" if x: "tget (sentMessages c) j = Some x" for j x
    proof (cases "j = i")
      case True
      then have "x = m" using x m by simp
      moreover have "sequence m \<noteq> None \<Longrightarrow> m' = m" by (simp add: m')
      ultimately show ?thesis using True this' m(1) n by (auto simp: sound_sent_def)
    next
      case False
      have old: "sound_sent lk (localStorage c) j x" using D x by (simp add: durable_def)
      then obtain n' where "j = Some (Num n')" by (auto simp: sound_sent_def)
      then show ?thesis using old False lk sent_key_inject [of lk n' i]
        by (auto simp: sound_sent_def storage.get_put)
    qed
    then have "durable lk ?c'"
      using D entry by (auto simp: durable_def intro: sound_storage_put)
    moreover have "sequence m' \<noteq> None" by (simp add: m')
    ultimately show ?thesis using st this' by auto
  qed
qed

lemma durable_fields:
  "durable lk (c\<lparr>message_identifier := x\<rparr>) = durable lk c"
  "durable lk (c\<lparr>receivedMessages := r\<rparr>) = (durable lk (c\<lparr>receivedMessages := []\<rparr>) \<and> tok r)"
  by (auto simp: durable_def)

lemma durable_requires_ack:
  assumes "request m" and D: "durable lk c"
  shows "durable lk (snd (requires_ack m c))"
proof -
  let ?i = "next_free (sentMessages c) (message_identifier c)"
  define m1 where "m1 = m\<lparr>messageIdentifier := Some (Num ?i)\<rparr>"
  define c1 where "c1 = note_sent m1 (c\<lparr>message_identifier := ?i\<rparr>)"
  have type: "wm_type m = wm_type m1" by (simp add: m1_def)
  have sound1: "sound_sent lk (localStorage c) (Some (Num ?i)) m1"
    using assms(1) by (simp add: m1_def sound_sent_def request_def publishable_def)
  have D1: "durable lk c1"
    using durable_put_sent [OF D sound1] by (simp add: c1_def note_sent_def m1_def durable_def)
  have look: "tget (sentMessages c1) (Some (Num ?i)) = Some m1"
    using D by (simp add: c1_def note_sent_def m1_def table.get_put durable_def)
  have wrap: "durable lk (snd (seqn (modify (\<lambda>c. if message_identifier c = maxMessageIdentifier c
      then c\<lparr>message_identifier := 1\<rparr> else c)) (ret x) t))" if "durable lk t" for x :: wire_message and t
    using that by (simp add: durable_fields)
  have sound1': "sound_sent lk (localStorage c1) (Some (Num ?i)) m1"
    using sound1 by (simp add: c1_def note_sent_def)
  show ?thesis
  proof (cases "int (length (tkeys (sentMessages c))) > maxMessageIdentifier c")
    case True
    then show ?thesis using D by (simp add: requires_ack_def Let_def)
  next
    case False
    note unfold = requires_ack_def [of m] m1_def [symmetric] c1_def [symmetric] Let_def type
    show ?thesis
    proof (cases "wm_type m1 = mt PUBLISH")
      case no: False
      then show ?thesis using False wrap [OF D1, of m1] by (auto simp: unfold split: if_splits)
    next
      case yes: True
      from store_sent [OF D1 sound1' look] show ?thesis
      proof (elim disjE exE conjE)
        fix e assume "store (js ''Sent:'') m1 c1 = (Inl e, c1)"
        then show ?thesis using False yes D1 by (simp add: unfold del: js_simps)
      next
        fix m' c' assume *: "store (js ''Sent:'') m1 c1 = (Inr m', c')" "durable lk c'"
          "sound_sent lk (localStorage c') (Some (Num ?i)) m'"
        then have "durable lk (note_sent m' c')"
          using durable_put_sent [OF *(2,3)] by (simp add: note_sent_def sound_sent_def)
        then show ?thesis using False yes * wrap [of "note_sent m' c'" m'] by (simp add: unfold del: js_simps)
      qed
    qed
  qed
qed

text \<open>A packet that has a copy is stored again with its flag; one that has none may fail to be stored.\<close>

lemma durable_note_pubrec_copied:
  assumes D: "durable lk c" and look: "tget (sentMessages c) i = Some m"
    and m: "wm_type m = mt PUBLISH" "sequence m \<noteq> None"
  shows "durable lk (snd (note_pubrec i m c))"
proof -
  let ?m = "m\<lparr>pubRecReceived := True\<rparr>"
  have old: "sound_sent lk (localStorage c) i m" using D look by (simp add: durable_def)
  then obtain n msg p where n: "i = Some (Num n)" "messageIdentifier m = i" "publishable m"
    and msg: "payloadMessage m = Some msg" "payloadBytes msg = Inr p"
    using m by (auto simp: sound_sent_def records_def)
  have lk: "localKey c = lk" "storage_ok (localStorage c)" and tok: "tok (sentMessages c)"
    using D by (auto simp: durable_def sound_storage_def)
  let ?sm = "stored (js ''Sent:'') ?m msg p" and ?t = "tput i ?m (sentMessages c)"
  let ?d = "setItem (sent_key lk i) ?sm (localStorage c)"
  have assign: "assign_sequence (js ''Sent:'') ?m x = (Inr ?m, x)" for x
    using m by (auto simp: assign_sequence_def)
  have run: "snd (note_pubrec i m c) = c\<lparr>sentMessages := tput i ?m ?t, localStorage := ?d\<rparr>"
    using m msg n lk assign by (simp add: note_pubrec_def Let_def store_def storage_key_sent del: js_simps)
  have "publishable ?m" using n(3) by (simp add: publishable_def)
  then have entry: "sound_entry lk (sent_key lk i) ?sm"
    using m msg n by (intro stored_sound) auto
  have "records ?sm ?m"
    using n msg by (simp add: records_def stored_def json_id_def indexOf_0)
  then have new: "sound_sent lk ?d i ?m"
    using n lk \<open>publishable ?m\<close> by (simp add: sound_sent_def storage.get_put)
  have "sound_sent lk ?d j x" if x: "tget (tput i ?m ?t) j = Some x" for j x
  proof (cases "j = i")
    case True
    then show ?thesis using x new tok by (simp add: table.get_put tok_tput)
  next
    case False
    then have "tget (sentMessages c) j = Some x" using x tok by (simp add: table.get_put tok_tput)
    then have "sound_sent lk (localStorage c) j x" using D by (simp add: durable_def)
    moreover from this obtain n' where "j = Some (Num n')" by (auto simp: sound_sent_def)
    ultimately show ?thesis
      using False lk sent_key_inject [of lk n' i] by (auto simp: sound_sent_def storage.get_put)
  qed
  then show ?thesis
    using D entry by (auto simp: run durable_def tok_tput intro: sound_storage_put)
qed

lemma durable_note_pubrec:
  assumes D: "durable lk c" and look: "tget (sentMessages c) i = Some m"
  shows "durable lk (snd (note_pubrec i m c))"
proof (cases "wm_type m = mt PUBLISH \<and> sequence m \<noteq> None")
  case True
  then show ?thesis using durable_note_pubrec_copied [OF D look] by blast
next
  case False
  define m1 where "m1 = m\<lparr>pubRecReceived := True\<rparr>"
  define c1 where "c1 = c\<lparr>sentMessages := tput i m1 (sentMessages c)\<rparr>"
  have sound1: "sound_sent lk (localStorage c) i m1"
    using D look False by (simp add: durable_def m1_def sound_sent_flag)
  have D1: "durable lk c1" unfolding c1_def using D sound1 by (rule durable_put_sent)
  have look1: "tget (sentMessages c1) i = Some m1"
    using D by (simp add: c1_def table.get_put durable_def)
  have sound1': "sound_sent lk (localStorage c1) i m1" using sound1 by (simp add: c1_def)
  from store_sent [OF D1 sound1' look1] show ?thesis
  proof (elim disjE exE conjE)
    fix e assume "store (js ''Sent:'') m1 c1 = (Inl e, c1)"
    then show ?thesis using D1 by (simp add: note_pubrec_def Let_def m1_def [symmetric] c1_def [symmetric] del: js_simps)
  next
    fix m' c' assume *: "store (js ''Sent:'') m1 c1 = (Inr m', c')" "durable lk c'"
      "sound_sent lk (localStorage c') i m'"
    then show ?thesis using durable_put_sent [OF *(2,3)]
      by (simp add: note_pubrec_def Let_def m1_def [symmetric] c1_def [symmetric] del: js_simps)
  qed
qed

text \<open>Changes of the storage that leave the copies of the packets in the table alone.\<close>

lemma durable_storage:
  assumes "durable lk c" and "sound_storage lk d"
    and "\<And>i m. tget (sentMessages c) i = Some m \<Longrightarrow> getItem d (sent_key lk i) = getItem (localStorage c) (sent_key lk i)"
  shows "durable lk (c\<lparr>localStorage := d\<rparr>)"
  using assms by (simp add: durable_def sound_sent_def)

lemma durable_note_received:
  assumes "publishable m" and D: "durable lk c"
  shows "durable lk (snd (note_received m c))"
proof -
  define c1 where "c1 = c\<lparr>receivedMessages := tput (messageIdentifier m) m (receivedMessages c)\<rparr>"
  have D1: "durable lk c1" using D by (simp add: c1_def durable_def tok_tput)
  have *: "note_received m c = seqn (store (js ''Received:'') m) (ret ()) c1"
    by (simp add: note_received_def c1_def)
  have "durable lk (snd (store (js ''Received:'') m c1))"
  proof (cases "wm_type m = mt PUBLISH \<and> (\<exists>msg p. payloadMessage m = Some msg \<and> payloadBytes msg = Inr p)")
    case False
    then show ?thesis
      using D1 assms(1) by (cases "payloadMessage m"; cases "payloadBytes (the (payloadMessage m))")
        (auto simp: store_def andthen_apply publishable_def)
  next
    case True
    then obtain msg p where t: "wm_type m = mt PUBLISH" and msg: "payloadMessage m = Some msg" "payloadBytes msg = Inr p"
      by blast
    have assign: "assign_sequence (js ''Received:'') m c = (Inr m, c)" for c
      by (simp add: assign_sequence_def indexOf_0)
    have lk: "localKey c1 = lk" "storage_ok (localStorage c1)" using D1 by (auto simp: durable_def sound_storage_def)
    have "store (js ''Received:'') m c1 = (Inr m, c1\<lparr>localStorage :=
        setItem (received_key lk (messageIdentifier m)) (stored (js ''Received:'') m msg p) (localStorage c1)\<rparr>)"
      using t msg lk assign by (simp add: store_def storage_key_received del: js_simps)
    moreover have "sound_entry lk (received_key lk (messageIdentifier m)) (stored (js ''Received:'') m msg p)"
      using assms(1) t msg by (intro stored_sound) auto
    moreover have "durable lk (c1\<lparr>localStorage :=
        setItem (received_key lk (messageIdentifier m)) sm (localStorage c1)\<rparr>)"
      if "sound_entry lk (received_key lk (messageIdentifier m)) sm" for sm
    proof (rule durable_storage [OF D1])
      show "sound_storage lk (setItem (received_key lk (messageIdentifier m)) sm (localStorage c1))"
        using D1 that by (intro sound_storage_put) (simp_all add: durable_def)
    qed (simp add: storage.get_put lk key_kinds)
    ultimately show ?thesis by (simp del: js_simps)
  qed
  then show ?thesis unfolding * by (rule after_andthen) simp
qed

lemma durable_acknowledged: "durable lk c \<Longrightarrow> durable lk (remove_item (js ''Sent:'') i (forget_sent i c))"
proof -
  assume D: "durable lk c"
  then have F: "durable lk (forget_sent i c)" by (rule durable_forget)
  have lk: "localKey (forget_sent i c) = lk" "storage_ok (localStorage (forget_sent i c))"
    using F by (auto simp: durable_def sound_storage_def)
  have other: "sent_key lk j \<noteq> sent_key lk i" if "tget (sentMessages (forget_sent i c)) j = Some m" for j m
  proof -
    have "j \<noteq> i" using that D by (auto simp: forget_sent_def table.get_del durable_def)
    moreover have "\<exists>n. j = Some (Num n)" using that F by (auto simp: durable_def sound_sent_def)
    ultimately show ?thesis using sent_key_inject by metis
  qed
  show ?thesis
    unfolding remove_item_def storage_key_sent lk
    using F lk other by (intro durable_storage) (auto simp: durable_def storage.get_del intro: sound_storage_remove)
qed

lemma durable_release_item: "durable lk c \<Longrightarrow> durable lk (remove_item (js ''Received:'') i c)"
proof -
  assume D: "durable lk c"
  then have lk: "localKey c = lk" "storage_ok (localStorage c)" by (auto simp: durable_def sound_storage_def)
  show ?thesis
    unfolding remove_item_def storage_key_received lk
    using D lk key_kinds by (intro durable_storage) (auto simp: durable_def storage.get_del intro: sound_storage_remove)
qed

lemma durable_release_entry: "durable lk c \<Longrightarrow> durable lk (c\<lparr>receivedMessages := tdel i (receivedMessages c)\<rparr>)"
  by (auto simp: durable_def tok_tdel)

lemma sound_storage_fold:
  "sound_storage lk d \<Longrightarrow> sound_storage lk (fold (\<lambda>(_, m). removeItem (k m)) t d)"
  by (induction t arbitrary: d) (auto intro: sound_storage_remove)

lemma durable_clear_session: "durable lk c \<Longrightarrow> durable lk (clear_session c)"
  by (simp add: clear_session_def remove_stored_def durable_def Let_def sound_storage_fold)

section \<open>Reading the copies back\<close>

definition restored :: "stored_message \<Rightarrow> bool \<Rightarrow> wire_message" where
  "restored sm dup = (restored_wire sm)\<lparr>payloadMessage :=
     Some \<lparr>payload = PUint8 (parse_hex (sm_payloadHex sm)), destinationName = sm_destinationName sm,
       qos = sm_qos sm, retained = sm_retained sm, duplicate = dup\<rparr>\<rparr>"

lemma restored_message_sound:
  "sound_entry lk key sm \<Longrightarrow> restored_message sm =
     Inr \<lparr>payload = PUint8 (parse_hex (sm_payloadHex sm)), destinationName = sm_destinationName sm,
       qos = sm_qos sm, retained = sm_retained sm, duplicate = sm_duplicate sm\<rparr>"
  by (auto simp: restored_message_def sound_entry_def set_qos_def set_duplicate_def Let_def)

lemma restored_sound:
  assumes "sound_entry lk key sm" "key = sent_key lk (Some (Num n))" "getItem d key = Some sm"
  shows "sound_sent lk d (Some (Num n)) (restored sm dup) \<and> sm_messageIdentifier sm = Some (Num n)"
proof -
  have i: "sm_messageIdentifier sm = Some (Num n)"
    using assms(1,2) by (auto simp: sound_entry_def sent_key_inject key_kinds)
  obtain bs where hex: "sm_payloadHex sm = hex_text bs" using assms(1) by (auto simp: sound_entry_def)
  have "publishable (restored sm dup)"
    using assms(1) by (auto simp: publishable_def restored_def message_ok_def sound_entry_def)
  moreover have "records sm (restored sm dup)"
    by (auto simp: records_def restored_def restored_wire_def payloadBytes_def counted_bytes_def hex parse_hex_text)
  ultimately show ?thesis
    using assms(2,3) i by (auto simp: sound_sent_def restored_def restored_wire_def)
qed

lemma received_key_own: "indexOf (received_key lk i) (js ''Sent:'' @ lk') \<noteq> Some 0"
  by (simp add: received_key_def indexOf_0)

lemma key_own:
  "indexOf (sent_key lk i) (js ''Sent:'' @ lk) = Some 0"
  "indexOf (received_key lk i) (js ''Received:'' @ lk) = Some 0"
  using indexOf_prefix [of "js ''Sent:'' @ lk" "id_text i"] indexOf_prefix [of "js ''Received:'' @ lk" "id_text i"]
  by (simp_all add: sent_key_def received_key_def)

lemma restore_sent:
  assumes D: "durable lk c" and sm: "getItem (localStorage c) (sent_key lk (Some (Num n))) = Some sm"
  shows "restore (sent_key lk (Some (Num n))) c =
      (Inr (), c\<lparr>sentMessages := tput (Some (Num n)) (restored sm True) (sentMessages c)\<rparr>)"
    and "durable lk (c\<lparr>sentMessages := tput (Some (Num n)) (restored sm True) (sentMessages c)\<rparr>)"
proof -
  have sound: "sound_entry lk (sent_key lk (Some (Num n))) sm"
    using D sm key_own by (auto simp: durable_def sound_storage_def own_key_def)
  have type: "sm_type sm = mt PUBLISH" and i: "sm_messageIdentifier sm = Some (Num n)"
    using sound by (auto simp: sound_entry_def sent_key_inject key_kinds)
  have "localKey c = lk" using D by (simp add: durable_def)
  then show "restore (sent_key lk (Some (Num n))) c =
      (Inr (), c\<lparr>sentMessages := tput (Some (Num n)) (restored sm True) (sentMessages c)\<rparr>)"
    using sm type i restored_message_sound [OF sound] key_own
    by (simp add: restore_def restored_def set_duplicate_def del: js_simps)
  show "durable lk (c\<lparr>sentMessages := tput (Some (Num n)) (restored sm True) (sentMessages c)\<rparr>)"
    using D restored_sound [OF sound refl sm] by (intro durable_put_sent) auto
qed

lemma restore_received:
  assumes D: "durable lk c" and sm: "getItem (localStorage c) (received_key lk i) = Some sm"
  shows "\<exists>r. restore (received_key lk i) c = (Inr (), c\<lparr>receivedMessages := r\<rparr>)
      \<and> durable lk (c\<lparr>receivedMessages := r\<rparr>)"
proof -
  have sound: "sound_entry lk (received_key lk i) sm"
    using D sm key_own by (auto simp: durable_def sound_storage_def own_key_def)
  have type: "sm_type sm = mt PUBLISH" using sound by (auto simp: sound_entry_def)
  have "localKey c = lk" using D by (simp add: durable_def)
  then have "restore (received_key lk i) c = (Inr (), c\<lparr>receivedMessages :=
      tput (sm_messageIdentifier sm) (restored sm (sm_duplicate sm)) (receivedMessages c)\<rparr>)"
    using sm type restored_message_sound [OF sound] key_own received_key_own
    by (simp add: restore_def restored_def del: js_simps)
  then show ?thesis using D by (auto simp: durable_def tok_tput)
qed

text \<open>
  Restoring the keys of the storage in turn ends with exactly the stored messages in the table.
\<close>

lemma restore_keys_durable:
  assumes "durable lk c" and "set keys \<subseteq> set (storage_keys (localStorage c))"
  shows "\<exists>c'. restore_keys keys c = (Inr (), c') \<and> durable lk c' \<and> localStorage c' = localStorage c
    \<and> (\<forall>n. tget (sentMessages c') (Some (Num n)) =
          (if sent_key lk (Some (Num n)) \<in> set keys
           then map_option (\<lambda>sm. restored sm True) (getItem (localStorage c) (sent_key lk (Some (Num n))))
           else tget (sentMessages c) (Some (Num n))))"
  using assms
proof (induction keys arbitrary: c)
  case Nil
  then show ?case by simp
next
  case (Cons key keys)
  note D = Cons.prems(1)
  have lk: "localKey c = lk" and ok: "storage_ok (localStorage c)" and tok: "tok (sentMessages c)"
    using D by (auto simp: durable_def sound_storage_def)
  obtain sm where sm: "getItem (localStorage c) key = Some sm"
    using Cons.prems(2) storage.keys_get [OF ok] by auto
  let ?step = "\<lambda>c'. restore_keys (key # keys) c = restore_keys keys c'"
  have skip: "?step c" if "\<not> own_key lk key"
    using that by (simp add: lk own_key_def)
  have run: "?step c'" if "own_key lk key" "restore key c = (Inr (), c')" for c'
    using that by (simp add: lk own_key_def)
  show ?case
  proof (cases "own_key lk key")
    case False
    have "sent_key lk (Some (Num n)) \<noteq> key" for n using False key_own by (auto simp: own_key_def)
    then show ?thesis using Cons.IH [OF D] Cons.prems(2) skip [OF False] by auto
  next
    case True
    then have "sound_entry lk key sm" using D sm by (auto simp: durable_def sound_storage_def)
    then consider (sent) n where "key = sent_key lk (Some (Num n))" | (received) i where "key = received_key lk i"
      by (auto simp: sound_entry_def)
    then show ?thesis
    proof cases
      case sent
      let ?c' = "c\<lparr>sentMessages := tput (Some (Num n)) (restored sm True) (sentMessages c)\<rparr>"
      have "restore key c = (Inr (), ?c')" and D': "durable lk ?c'"
        using restore_sent [OF D] sm sent by auto
      with True have "?step ?c'" by (intro run)
      then show ?thesis
        using Cons.IH [OF D'] Cons.prems(2) sent sm tok
        by (auto simp: table.get_put sent_key_inject split: if_splits)
    next
      case received
      obtain r where "restore key c = (Inr (), c\<lparr>receivedMessages := r\<rparr>)" and D': "durable lk (c\<lparr>receivedMessages := r\<rparr>)"
        using restore_received [OF D] sm received by auto
      with True have "?step (c\<lparr>receivedMessages := r\<rparr>)" by (intro run)
      then show ?thesis using Cons.IH [OF D'] Cons.prems(2) received by (auto simp: key_kinds)
    qed
  qed
qed

lemma durable_fresh:
  assumes "sound_storage lk d" "local_key hst prt pth cid = lk"
  shows "durable lk (fresh_client ur hst prt pth cid d)"
  using assms by (simp add: durable_def fresh_client_def)

lemma reload_durable:
  assumes D: "durable lk c"
  shows "\<exists>c'. reload c = (Inr (), c') \<and> durable lk c' \<and> localStorage c' = localStorage c
    \<and> (\<forall>n. tget (sentMessages c') (Some (Num n)) =
         map_option (\<lambda>sm. restored sm True) (getItem (localStorage c) (sent_key lk (Some (Num n)))))"
proof -
  let ?f = "fresh_client (uri c) (host c) (port c) (path c) (clientId c) (localStorage c)"
  have F: "durable lk ?f" using D by (intro durable_fresh) (auto simp: durable_def)
  have ls: "localStorage ?f = localStorage c" "sentMessages ?f = []" by (simp_all add: fresh_client_def)
  have ok: "storage_ok (localStorage c)" using D by (simp add: durable_def sound_storage_def)
  show ?thesis
    using restore_keys_durable [OF F, of "storage_keys (localStorage c)"] storage.keys_get [OF ok]
    by (auto simp: reload_def ClientImpl_def ls)
qed

section \<open>Every reachable state\<close>

lemma durable_laws:
  assumes "\<And>f x. keeps (durable lk) (app E f x)"
  shows "delivery_invariant E (durable lk)"
proof unfold_locales
  show "keeps (durable lk) (app E f x)" for f x by (rule assms)
  show "durable lk c \<Longrightarrow> transient_change c c' \<Longrightarrow> durable lk c'" for c c'
    by (rule durable_transient)
  show "request m \<Longrightarrow> keeps (durable lk) (requires_ack m)" for m
    using durable_requires_ack by (rule keepsI)
  show "keeps (durable lk) (modify clear_session)"
    by (intro keeps_modify durable_clear_session)
  show "keeps (durable lk) (modify (\<lambda>c. remove_item (js ''Sent:'') i (forget_sent i c)))" for i
    by (intro keeps_modify durable_acknowledged)
  show "keeps (durable lk) (modify (forget_sent i))" for i
    by (intro keeps_modify durable_forget)
  show "durable lk c \<Longrightarrow> tget (sentMessages c) i = Some m \<Longrightarrow> durable lk (snd (note_pubrec i m c))" for c i m
    by (rule durable_note_pubrec)
  show "publishable m \<Longrightarrow> keeps (durable lk) (note_received m)" for m
    using durable_note_received by (rule keepsI)
  show "keeps (durable lk) (modify (remove_item (js ''Received:'') i))" for i
    by (intro keeps_modify durable_release_item)
  show "keeps (durable lk) (modify (\<lambda>c. c\<lparr>receivedMessages := tdel i (receivedMessages c)\<rparr>))" for i
    by (intro keeps_modify durable_release_entry)
  show "durable lk c \<Longrightarrow> durable lk (snd (reload c))" for c
    using reload_durable [of lk c] by auto
qed

interpretation durable: delivery_invariant "env_at E scr depth" "durable lk" for E scr depth lk
  by (rule durable_laws) (rule env_at_keeps, rule delivery_invariant.keeps_run_call, erule durable_laws)

text \<open>The client that the constructor makes when the storage holds nothing under its keys.\<close>

definition first_client :: "js_string \<Rightarrow> js_string \<Rightarrow> js_num \<Rightarrow> js_string \<Rightarrow> js_string \<Rightarrow> client" where
  "first_client ur hst prt pth cid = snd (ClientImpl ur hst prt pth cid [])"

lemma first_client_durable: "durable (local_key hst prt pth cid) (first_client ur hst prt pth cid)"
proof -
  have "durable (local_key hst prt pth cid) (fresh_client ur hst prt pth cid [])"
    by (rule durable_fresh) (simp_all add: sound_storage_def getItem_def)
  then show ?thesis by (simp add: first_client_def ClientImpl_def storage_keys_def)
qed

lemma reachable_durable:
  "reachable (env_at E scr depth) (first_client ur hst prt pth cid) c \<Longrightarrow> durable (local_key hst prt pth cid) c"
  using durable.reachable_keeps first_client_durable by blast

text \<open>
  Property C1.  Crash safety: in every reachable state, an unacknowledged PUBLISH packet that has
  its sequence number survives a reload of the page.  The constructor does not fail, and the packet
  is in \<open>_sentMessages\<close> again under its identifier, with its topic, quality, retain flag, sequence
  number and the flag that its PUBREC has arrived, marked as a duplicate.  Its payload is that of the
  packet, text as its UTF-8 bytes, except that an \<open>ArrayBuffer\<close> (\<open>PBuffer\<close>) comes back empty.
\<close>

theorem reload_keeps_unacknowledged:
  assumes "reachable (env_at E scr depth) (first_client ur hst prt pth cid) c"
    and "tget (sentMessages c) i = Some m" "wm_type m = mt PUBLISH" "sequence m \<noteq> None"
  shows "\<exists>c' m' msg msg' p. reload c = (Inr (), c') \<and> tget (sentMessages c') i = Some m'
    \<and> payloadMessage m = Some msg \<and> payloadMessage m' = Some msg'
    \<and> messageIdentifier m' = i \<and> wm_type m' = mt PUBLISH \<and> sequence m' = sequence m
    \<and> pubRecReceived m' = pubRecReceived m
    \<and> payloadBytes msg = Inr p \<and> payloadBytes msg' = Inr (PUint8 (case p of PUint8 bytes \<Rightarrow> bytes | _ \<Rightarrow> []))
    \<and> destinationName msg' = destinationName msg \<and> qos msg' = qos msg
    \<and> retained msg' = retained msg \<and> duplicate msg'"
proof -
  let ?lk = "local_key hst prt pth cid"
  have D: "durable ?lk c" using assms(1) by (rule reachable_durable)
  then have "sound_sent ?lk (localStorage c) i m" using assms(2) by (simp add: durable_def)
  then obtain n sm where i: "i = Some (Num n)"
    and sm: "getItem (localStorage c) (sent_key ?lk i) = Some sm" "records sm m"
    using assms(3,4) by (auto simp: sound_sent_def)
  obtain c' where c': "reload c = (Inr (), c')" "tget (sentMessages c') i = Some (restored sm True)"
    using reload_durable [OF D] sm(1) i by auto
  have "sound_entry ?lk (sent_key ?lk i) sm"
    using D sm(1) key_own by (auto simp: durable_def sound_storage_def own_key_def)
  then have "wm_type (restored sm True) = mt PUBLISH"
    by (simp add: sound_entry_def restored_def restored_wire_def WireMessage_def)
  moreover obtain msg p where "payloadMessage m = Some msg" "payloadBytes msg = Inr p"
    "sm_messageIdentifier sm = messageIdentifier m" "sm_payloadHex sm = hex_text (counted_bytes p)"
    "sm_qos sm = qos msg" "sm_destinationName sm = destinationName msg" "sm_retained sm = retained msg"
    "sm_sequence sm = sequence m" "sm_pubRecReceived sm = pubRecReceived m"
    using sm(2) by (auto simp: records_def)
  moreover have "messageIdentifier m = i" using D assms(2) by (auto simp: durable_def sound_sent_def)
  ultimately show ?thesis
    using c' by (auto simp: restored_def restored_wire_def payloadBytes_def parse_hex_text counted_bytes_def)
qed

text \<open>One message of quality 1, sent on an open connection, in a browser whose sockets do not fail.\<close>

theorem reload_keeps_unacknowledged_witness:
  "\<exists>c c' m m'. run_events quiet_env (first_client (js ''ws://h:1/mqtt'') (js ''h'') (Num 1) (js ''/mqtt'') (js ''c''))
      (demo_connected @ [Ev_call (Call_send (Send_message demo_message))]) = Some c
    \<and> tget (sentMessages c) (Some (Num 1)) = Some m
    \<and> reload c = (Inr (), c') \<and> tget (sentMessages c') (Some (Num 1)) = Some m' \<and> sequence m' = sequence m"
proof -
  let ?c0 = "first_client (js ''ws://h:1/mqtt'') (js ''h'') (Num 1) (js ''/mqtt'') (js ''c'')"
  let ?evs = "demo_connected @ [Ev_call (Call_send (Send_message demo_message))]"
  have "case run_events quiet_env ?c0 ?evs of None \<Rightarrow> False | Some c \<Rightarrow>
      (case tget (sentMessages c) (Some (Num 1)) of None \<Rightarrow> False
       | Some m \<Rightarrow> wm_type m = mt PUBLISH \<and> sequence m \<noteq> None)"
    by code_simp
  then obtain c m where run: "run_events quiet_env ?c0 ?evs = Some c"
    and m: "tget (sentMessages c) (Some (Num 1)) = Some m" "wm_type m = mt PUBLISH" "sequence m \<noteq> None"
    by (auto split: option.splits)
  have "reachable (env_at quiet_env (\<lambda>_ _ _. ([], R_undefined)) 0) ?c0 c"
    using run_events_reachable [OF run] by (simp add: quiet_env_def)
  from reload_keeps_unacknowledged [OF this m] show ?thesis using run m by blast
qed

end
