(* ===== verification/Client_Backoff.thy ===== *)
theory Client_Backoff
  imports Client_Durable
begin

text \<open>
  The delay between the attempts of an automatic reconnect: a power of two, at most 128 seconds, in
  every reachable state, and the delay of the timer that a failed attempt sets.
\<close>

definition backoff :: "client \<Rightarrow> bool" where
  "backoff c \<longleftrightarrow> (\<exists>k \<le> 7. reconnectInterval c = 2 ^ k)"

lemma interval_step_backoff:
  assumes "k \<le> 7" and "interval_step (2 ^ k) b"
  shows "\<exists>j \<le> 7. b = 2 ^ j"
proof -
  consider "b = 2 ^ k" | "b = 1" | "(2 :: int) ^ k < 2 ^ 7" "b = 2 ^ Suc k"
    using assms(2) by (auto simp: interval_step_def)
  then show ?thesis
  proof cases
    case 1
    then show ?thesis using assms(1) by blast
  next
    case 2
    then show ?thesis by (intro exI [of _ 0]) simp
  next
    case 3
    then have "k < 7" by (simp only: power_strict_increasing_iff)
    then show ?thesis using 3 by (intro exI [of _ "Suc k"]) simp
  qed
qed

lemma backoff_transient: "backoff c \<Longrightarrow> transient_change c c' \<Longrightarrow> backoff c'"
  using interval_step_backoff unfolding backoff_def transient_change_def by metis

text \<open>The operations on the session state do not touch the interval.\<close>

lemma backoff_interval: "reconnectInterval c' = reconnectInterval c \<Longrightarrow> backoff c' = backoff c"
  by (simp add: backoff_def)

lemma store_interval: "keeps (\<lambda>c. reconnectInterval c = k) (store prefix m)"
  unfolding store_def
  by (intro keeps_intros keepsI keeps_modify) (auto simp: assign_sequence_def keeps_def)

lemma requires_ack_interval: "reconnectInterval (snd (requires_ack m c)) = reconnectInterval c"
proof -
  have steps: "keeps (\<lambda>c. reconnectInterval c = k)
      (andthen (modify (\<lambda>c. note_sent m1 (c\<lparr>message_identifier := i\<rparr>))) (\<lambda>_.
       andthen (if wm_type m1 = mt PUBLISH
                then andthen (store (js ''Sent:'') m1) (\<lambda>m. seqn (modify (note_sent m)) (ret m))
                else ret m1) (\<lambda>m.
       seqn (modify (\<lambda>c. if message_identifier c = maxMessageIdentifier c
                         then c\<lparr>message_identifier := 1\<rparr> else c))
            (ret m))))" for k m1 i
    by (intro keeps_andthen keeps_if store_interval keeps_ret keeps_modify) (simp_all add: note_sent_def)
  show ?thesis
  proof (cases "int (length (tkeys (sentMessages c))) > maxMessageIdentifier c")
    case True
    then show ?thesis by (simp add: requires_ack_def Let_def)
  next
    case False
    show ?thesis
      unfolding requires_ack_def Let_def if_not_P [OF False] by (rule keepsD [OF steps, OF refl])
  qed
qed

lemma backoff_laws:
  assumes "\<And>f x. keeps backoff (app E f x)"
  shows "delivery_invariant E backoff"
proof unfold_locales
  show "keeps backoff (app E f x)" for f x by (rule assms)
  show "backoff c \<Longrightarrow> transient_change c c' \<Longrightarrow> backoff c'" for c c' by (rule backoff_transient)
  show "keeps backoff (requires_ack m)" for m
    by (rule keepsI) (metis backoff_interval requires_ack_interval)
  have store: "keeps backoff (store prefix m)" for prefix m
    using keepsD [OF store_interval, OF refl] backoff_interval by (intro keepsI) metis
  have simple: "keeps backoff (modify f)" if "\<And>c. reconnectInterval (f c) = reconnectInterval c" for f
    using that by (intro keeps_modify) (simp add: backoff_def)
  show "keeps backoff (modify clear_session)"
    by (rule simple) (simp add: clear_session_def remove_stored_def Let_def)
  show "keeps backoff (modify (\<lambda>c. remove_item (js ''Sent:'') i (forget_sent i c)))"
    "keeps backoff (modify (forget_sent i))" "keeps backoff (modify (remove_item (js ''Received:'') i))"
    "keeps backoff (modify (\<lambda>c. c\<lparr>receivedMessages := tdel i (receivedMessages c)\<rparr>))" for i
    by (rule simple, simp add: remove_item_def forget_sent_def)+
  have "keeps backoff (note_pubrec i m)" for i m
    unfolding note_pubrec_def Let_def by (intro keeps_andthen simple store) simp_all
  then show "backoff c \<Longrightarrow> backoff (snd (note_pubrec i m c))" for c i m by (rule keepsD)
  show "keeps backoff (note_received m)" for m
    unfolding note_received_def by (intro keeps_andthen simple store keeps_ret) simp
  have "keeps (\<lambda>c. reconnectInterval c = 1) (restore_keys keys)" for keys
  proof (induction keys)
    case (Cons key keys)
    have "keeps (\<lambda>c. reconnectInterval c = 1) (restore key)" for key
      unfolding restore_def by (intro keeps_intros keeps_modify) auto
    then show ?case using Cons by (auto intro!: keeps_andthen keeps_reading)
  qed simp
  then have "reconnectInterval (snd (reload c)) = 1" for c
    unfolding reload_def ClientImpl_def by (rule keepsD) (simp add: fresh_client_def)
  then show "backoff (snd (reload c))" for c
    unfolding backoff_def by (intro exI [of _ 0]) simp
qed

interpretation backoff: delivery_invariant "env_at E scr depth" backoff for E scr depth
  by (rule backoff_laws) (rule env_at_keeps, rule delivery_invariant.keeps_run_call, erule backoff_laws)

section \<open>The next attempt\<close>

lemma doConnect_interval: "keeps (\<lambda>c. reconnectInterval c = k) (doConnect E u)"
  unfolding doConnect_def cancel_connect_timeout_def clearTimeout_def Timeout_def
  by (intro keeps_intros keepsI)
    (auto simp: new_socket_def set_socket_def new_pinger_def setTimeout_def split: option.splits)

lemma connect_first_interval: "keeps (\<lambda>c. reconnectInterval c = k) (connect_first E)"
  unfolding connect_first_def by (intro keeps_intros keeps_modify doConnect_interval) simp

lemma reconnect_interval:
  assumes "\<not> connected c" "sendPinger c \<noteq> None" "receivePinger c \<noteq> None"
  shows "reconnectInterval (snd (reconnect E c)) =
    (if reconnectInterval c < 128 then reconnectInterval c * 2 else reconnectInterval c)"
proof -
  have cancel: "\<exists>T. pinger_cancel p c = (Inr (), c\<lparr>timers := T\<rparr>)" for p c
    by (auto simp: pinger_cancel_def clearTimeout_def split: option.split intro: exI [of _ "timers c"])
  obtain p1 p2 where p: "sendPinger c = Some p1" "receivePinger c = Some p2" using assms(2,3) by auto
  obtain T1 where one: "pinger_cancel p1 (c\<lparr>reconnecting := True\<rparr>) = (Inr (), c\<lparr>reconnecting := True, timers := T1\<rparr>)"
    using cancel [of p1 "c\<lparr>reconnecting := True\<rparr>"] by auto
  obtain T2 where two: "pinger_cancel p2 (c\<lparr>reconnecting := True, timers := T1\<rparr>) = (Inr (), c\<lparr>reconnecting := True, timers := T2\<rparr>)"
    using cancel [of p2 "c\<lparr>reconnecting := True, timers := T1\<rparr>"] by auto
  have "reconnect E c = connect_first E (c\<lparr>reconnecting := True, timers := T2, reconnectInterval :=
      if reconnectInterval c < 128 then reconnectInterval c * 2 else reconnectInterval c\<rparr>)"
    using assms(1) p one two by (simp add: reconnect_def on_pinger_def)
  then show ?thesis
    using keepsD [OF connect_first_interval, OF refl] by simp
qed

text \<open>
  Property C7.  Bounded back-off: in every reachable state the reconnect interval is a power of two
  of at most 128 seconds, and a failed attempt of an automatic reconnect does nothing but set one
  timer with this delay, after which \<open>_reconnect\<close> runs.  When this timer runs and the client is still
  not connected, the interval is doubled, or stays at 128: so the delay after the next failure is twice
  this one, or 128 seconds.  (The pingers are there from the first connection on.)
\<close>

theorem reconnect_backoff:
  assumes "reachable (env_at E scr depth) (first_client ur hst prt pth cid) c" and "reconnecting c"
  shows "\<exists>k c'. k \<le> 7 \<and> reconnectInterval c = 2 ^ k
    \<and> c' = c\<lparr>timers := tput (next_timer c) (2 ^ k * 1000, T_reconnect) (timers c),
             next_timer := Suc (next_timer c), reconnectTimeout := Some (next_timer c)\<rparr>
    \<and> disconnected E' (Some err) c = (Inr (), c')
    \<and> (\<not> connected c \<and> sendPinger c \<noteq> None \<and> receivePinger c \<noteq> None \<longrightarrow>
         reconnectInterval (snd (run_timer E'' T_reconnect c')) = min (2 * 2 ^ k) 128)"
proof -
  have "backoff (first_client ur hst prt pth cid)"
    by (simp add: first_client_def ClientImpl_def storage_keys_def fresh_client_def backoff_def) (rule exI [of _ 0], simp)
  then have "backoff c" using backoff.reachable_keeps assms(1) by blast
  then obtain k where k: "k \<le> 7" "reconnectInterval c = 2 ^ k" by (auto simp: backoff_def)
  define c' where "c' = c\<lparr>timers := tput (next_timer c) (2 ^ k * 1000, T_reconnect) (timers c),
                   next_timer := Suc (next_timer c), reconnectTimeout := Some (next_timer c)\<rparr>"
  have "(2 :: int) ^ k \<noteq> 0" by simp
  then have dis: "disconnected E' (Some err) c = (Inr (), c')"
    using assms(2) k(2) by (simp only: disconnected_def reading_apply Timeout_def setTimeout_def andthen_apply
        option.simps if_True if_False prod.case sum.case modify_def simp_thms c'_def)
  have "reconnectInterval (snd (run_timer E'' T_reconnect c')) = min (2 * 2 ^ k) 128"
    if "\<not> connected c" "sendPinger c \<noteq> None" "receivePinger c \<noteq> None"
  proof -
    have "(2 :: int) ^ k < 128 \<longleftrightarrow> k < 7"
      using power_strict_increasing_iff [of "2 :: int" k 7] by simp
    moreover have "(2 :: int) * 2 ^ k \<le> 128" if "k < 7"
      using power_increasing [of "Suc k" 7 "2 :: int"] that by simp
    moreover have "k = 7" if "\<not> k < 7" using k(1) that by simp
    ultimately show ?thesis
      using reconnect_interval [of c' E''] that k(2) by (auto simp: run_timer_def c'_def)
  qed
  with k dis show ?thesis unfolding c'_def by blast
qed

text \<open>The connection is lost, the automatic attempt begins, and times out.\<close>

definition demo_reconnecting :: "event list" where
  "demo_reconnecting = [Ev_call (Call_connect [] (no_options\<lparr>co_reconnect := Some True\<rparr>)), Ev_open 0,
     Ev_data 0 [0x20, 2, 0, 0], Ev_close 0]"

theorem reconnect_backoff_witness:
  "\<exists>c c'. run_events quiet_env (first_client (js ''ws://h:1/mqtt'') (js ''h'') (Num 1) (js ''/mqtt'') (js ''c''))
      demo_reconnecting = Some c \<and> reconnectInterval c = 2
    \<and> disconnected quiet_env (Some (8, [])) c = (Inr (), c') \<and> reconnectInterval (snd (run_timer quiet_env T_reconnect c')) = 4"
proof -
  let ?c0 = "first_client (js ''ws://h:1/mqtt'') (js ''h'') (Num 1) (js ''/mqtt'') (js ''c'')"
  have "case run_events quiet_env ?c0 demo_reconnecting of None \<Rightarrow> False
      | Some c \<Rightarrow> reconnecting c \<and> reconnectInterval c = 2 \<and> \<not> connected c \<and> sendPinger c \<noteq> None \<and> receivePinger c \<noteq> None"
    by code_simp
  then obtain c where run: "run_events quiet_env ?c0 demo_reconnecting = Some c"
    and c: "reconnecting c" "reconnectInterval c = 2" "\<not> connected c" "sendPinger c \<noteq> None" "receivePinger c \<noteq> None"
    by (auto split: option.splits)
  have "reachable (env_at quiet_env (\<lambda>_ _ _. ([], R_undefined)) 0) ?c0 c"
    using run_events_reachable [OF run] by (simp add: quiet_env_def)
  from reconnect_backoff [OF this c(1), of quiet_env "(8, [])" quiet_env] c
  obtain k c' where "2 ^ k = (2 :: int)" "disconnected quiet_env (Some (8, [])) c = (Inr (), c')"
    "reconnectInterval (snd (run_timer quiet_env T_reconnect c')) = min (2 * 2 ^ k) 128"
    by auto
  then have "reconnectInterval (snd (run_timer quiet_env T_reconnect c')) = 4" by simp
  with run c(2) \<open>disconnected quiet_env (Some (8, [])) c = (Inr (), c')\<close> show ?thesis by blast
qed

end
