(* ===== verification/Client_Trace.thy ===== *)
theory Client_Trace
  imports Client_Api
begin

text \<open>
  The read-only properties of the public \<open>Client\<close> object, and the trace of \<open>ClientImpl\<close>: a trace
  function of the application, and a buffer of the last hundred entries.

  The operations of the client call \<open>_trace\<close> with values that only the trace looks at, so the trace is
  a component of its own.  The values are of a type that is a parameter, as are the text that
  \<open>JSON.stringify\<close> gives for one of them, or what it throws, and what the trace function throws.
\<close>

section \<open>Read-only properties\<close>

text \<open>The variables of the constructor; \<open>connect\<close> assigns \<open>uri\<close> while it builds the addresses.\<close>

record client_variables =
  v_host :: js_string
  v_port :: js_num
  v_path :: js_string
  v_uri :: js_string

datatype own_property = Own_host | Own_port | Own_path | Own_uri | Own_clientId

definition initial_variables :: "client_args \<Rightarrow> client_variables res" where
  "initial_variables args =
     bind_res (client_address args) (\<lambda>(u, h, p, pth, cid).
     Inr \<lparr>v_host = h, v_port = p, v_path = pth, v_uri = u\<rparr>)"

primrec get_own :: "own_property \<Rightarrow> client_variables \<Rightarrow> client \<Rightarrow> js_value" where
  "get_own Own_host v c = V_string (v_host v)"
| "get_own Own_port v c = V_number (v_port v)"
| "get_own Own_path v c = V_string (v_path v)"
| "get_own Own_uri v c = V_string (v_uri v)"
| "get_own Own_clientId v c = V_string (clientId c)"

definition set_own :: "own_property \<Rightarrow> js_value \<Rightarrow> unit client_op" where
  "set_own k x = throw (Error_of UNSUPPORTED_OPERATION [])"

fun note_uris :: "js_string \<Rightarrow> js_string list \<Rightarrow> int list \<Rightarrow> js_string \<Rightarrow> js_string" where
  "note_uris pth (h # hs) (p # ps) u =
     (if p < 0 then u else note_uris pth hs ps (ws_uri (has_colon h) h (Num p) pth))"
| "note_uris pth _ _ u = u"

text \<open>
  The loop is reached when everything before it has passed, the checks of the options without their
  \<open>hosts\<close>, and the hosts are names with as many ports.
\<close>

definition connect_variables :: "typed_props \<Rightarrow> connect_options \<Rightarrow> client_variables \<Rightarrow> client_variables" where
  "connect_variables props opt v =
     (case (validate props connect_keys, check_connect (v_path v) (opt\<lparr>co_hosts := None\<rparr>), co_hosts opt, co_ports opt) of
        (Inr _, Inr _, Some hosts, Some ports) \<Rightarrow>
          if hosts \<noteq> [] \<and> check_hosts 0 False hosts = Inr False \<and> length hosts = length ports
          then v\<lparr>v_uri := note_uris (v_path v) hosts ports (v_uri v)\<rparr> else v
      | _ \<Rightarrow> v)"

section \<open>The trace\<close>

text \<open>An entry of the buffer: a value as it is, or the indented text of one.\<close>

datatype 'v trace_entry = Raw "'v option" | Text js_string

record 'v tracer =
  traceFunction :: "callback_id option"
  traceBuffer :: "'v trace_entry list option"
  traced :: "(callback_id \<times> js_string) list"

text \<open>The field \<open>traced\<close> is a record of the calls of trace functions, oldest first.\<close>

record 'v trace_env =
  stringify :: "'v \<Rightarrow> js_string option res"
  trace_app :: "callback_id \<Rightarrow> js_string \<Rightarrow> unit res"
  literal :: "js_string \<Rightarrow> 'v"

type_synonym ('v, 'a) trace_op = "('v tracer, 'a) op"

definition MAX_TRACE_ENTRIES :: nat where "MAX_TRACE_ENTRIES = 100"

definition new_tracer :: "'v tracer" where
  "new_tracer = \<lparr>traceFunction = None, traceBuffer = None, traced = []\<rparr>"

text \<open>\<open>args.join("")\<close>: \<open>undefined\<close>, as an argument or as the result of \<open>stringify\<close>, is empty.\<close>

fun record_text :: "'v trace_env \<Rightarrow> 'v option list \<Rightarrow> js_string res" where
  "record_text E [] = Inr []"
| "record_text E (None # args) = record_text E args"
| "record_text E (Some x # args) =
     bind_res (stringify E x) (\<lambda>t.
     bind_res (record_text E args) (\<lambda>ts. Inr (case t of None \<Rightarrow> ts | Some t \<Rightarrow> t @ ts)))"

definition call_traceFunction :: "'v trace_env \<Rightarrow> 'v option list \<Rightarrow> ('v, unit) trace_op" where
  "call_traceFunction E args =
     reading traceFunction (\<lambda>f.
     case f of
       None \<Rightarrow> ret ()
     | Some f \<Rightarrow>
         andthen (lift_res (record_text E args)) (\<lambda>r.
         seqn (modify (\<lambda>t. t\<lparr>traced := traced t @ [(f, r)]\<rparr>)) (lift_res (trace_app E f r))))"

definition shift_buffer :: "'v tracer \<Rightarrow> 'v tracer" where
  "shift_buffer t =
     t\<lparr>traceBuffer := map_option (\<lambda>b. if length b = MAX_TRACE_ENTRIES then tl b else b) (traceBuffer t)\<rparr>"

definition push_entry :: "'v trace_entry \<Rightarrow> 'v tracer \<Rightarrow> 'v tracer" where
  "push_entry e t = t\<lparr>traceBuffer := map_option (\<lambda>b. b @ [e]) (traceBuffer t)\<rparr>"

definition trace_text :: "js_string option \<Rightarrow> js_string" where
  "trace_text t = js ''  '' @ (case t of None \<Rightarrow> js ''undefined'' | Some t \<Rightarrow> t)"

definition entry_of :: "'v trace_env \<Rightarrow> bool \<Rightarrow> 'v option \<Rightarrow> 'v trace_entry res" where
  "entry_of E first a =
     (if first then Inr (Raw a)
      else case a of
        None \<Rightarrow> Inr (Raw None)
      | Some x \<Rightarrow> bind_res (stringify E x) (\<lambda>t. Inr (Text (trace_text t))))"

fun buffer_args :: "'v trace_env \<Rightarrow> bool \<Rightarrow> 'v option list \<Rightarrow> ('v, unit) trace_op" where
  "buffer_args E first [] = ret ()"
| "buffer_args E first (a # args) =
     seqn (modify shift_buffer)
    (andthen (lift_res (entry_of E first a)) (\<lambda>e.
     seqn (modify (push_entry e)) (buffer_args E False args)))"

definition trace :: "'v trace_env \<Rightarrow> 'v option list \<Rightarrow> ('v, unit) trace_op" where
  "trace E args =
     seqn (call_traceFunction E args)
    (reading traceBuffer (\<lambda>b. if b = None then ret () else buffer_args E True args))"

definition traceMask :: "(js_string \<times> 'v) list \<Rightarrow> js_string \<Rightarrow> 'v \<Rightarrow> (js_string \<times> 'v) list" where
  "traceMask props masked stars = map (\<lambda>(k, x). (k, if k = masked then stars else x)) props"

definition startTrace :: "'v trace_env \<Rightarrow> 'v \<Rightarrow> 'v \<Rightarrow> ('v, unit) trace_op" where
  "startTrace E date version =
     seqn (modify (\<lambda>t. if traceBuffer t = None then t\<lparr>traceBuffer := Some []\<rparr> else t))
          (trace E [Some (literal E (js ''Client.startTrace'')), Some date, Some version])"

definition stopTrace :: "('v, unit) trace_op" where
  "stopTrace = modify (\<lambda>t. t\<lparr>traceBuffer := None\<rparr>)"

text \<open>
  The number of messages in flight is read from \<open>length\<close>, which an object that is no array does not
  have.  The keys and the messages of the two tables are given as values.
\<close>

fun trace_table :: "'v trace_env \<Rightarrow> js_string \<Rightarrow> ('v \<times> 'v) list \<Rightarrow> ('v, unit) trace_op" where
  "trace_table E name [] = ret ()"
| "trace_table E name ((k, m) # ms) =
     seqn (trace E [Some (literal E name), Some k, Some m]) (trace_table E name ms)"

definition getTraceLog ::
  "'v trace_env \<Rightarrow> 'v \<Rightarrow> ('v \<times> 'v) list \<Rightarrow> ('v \<times> 'v) list \<Rightarrow> ('v, 'v trace_entry list option) trace_op" where
  "getTraceLog E date sent arrived =
     reading traceBuffer (\<lambda>b.
     if b = None then ret None
     else
       seqn (trace E [Some (literal E (js ''Client.getTraceLog'')), Some date])
      (seqn (trace E [Some (literal E (js ''Client.getTraceLog in flight messages'')), None])
      (seqn (trace_table E (js ''_sentMessages '') sent)
      (seqn (trace_table E (js ''_receivedMessages '') arrived)
      (reading traceBuffer ret)))))"

definition set_trace :: "js_value \<Rightarrow> ('v, unit) trace_op" where
  "set_trace x =
     (case x of
        V_function f \<Rightarrow> modify (\<lambda>t. t\<lparr>traceFunction := Some f\<rparr>)
      | x \<Rightarrow> throw (Error_of INVALID_TYPE [typeof x, js ''onTrace'']))"

end
