(* ===== verification/Client_Trace_Correct.thy ===== *)
theory Client_Trace_Correct
  imports Client_Trace
begin

text \<open>
  What the trace promises: the buffer holds the last hundred entries of everything that was traced
  since tracing was started, and never more than a hundred.
\<close>

section \<open>The bound\<close>

definition buffer_ok :: "'v tracer \<Rightarrow> bool" where
  "buffer_ok t = (case traceBuffer t of None \<Rightarrow> True | Some b \<Rightarrow> length b \<le> MAX_TRACE_ENTRIES)"

datatype 'v trace_event =
    Tr_trace "'v option list"
  | Tr_start 'v 'v
  | Tr_stop
  | Tr_log 'v "('v \<times> 'v) list" "('v \<times> 'v) list"
  | Tr_set js_value

primrec do_trace :: "'v trace_env \<Rightarrow> 'v trace_event \<Rightarrow> 'v tracer \<Rightarrow> 'v tracer" where
  "do_trace E (Tr_trace args) t = snd (trace E args t)"
| "do_trace E (Tr_start date version) t = snd (startTrace E date version t)"
| "do_trace E Tr_stop t = snd (stopTrace t)"
| "do_trace E (Tr_log date sent arrived) t = snd (getTraceLog E date sent arrived t)"
| "do_trace E (Tr_set x) t = snd (set_trace x t)"

lemma keeps_calls [simp]: "keeps buffer_ok (call_traceFunction E args)"
  by (auto simp: keeps_def call_traceFunction_def buffer_ok_def andthen_apply split: option.split sum.split)

lemma keeps_entry: "buffer_ok t \<Longrightarrow> buffer_ok (push_entry e (shift_buffer t))"
  by (auto simp: buffer_ok_def push_entry_def shift_buffer_def MAX_TRACE_ENTRIES_def split: option.split)

lemma keeps_shift: "buffer_ok t \<Longrightarrow> buffer_ok (shift_buffer t)"
  by (auto simp: buffer_ok_def shift_buffer_def split: option.split)

lemma keeps_buffer_args: "buffer_ok t \<Longrightarrow> buffer_ok (snd (buffer_args E first args t))"
  by (induction E first args arbitrary: t rule: buffer_args.induct)
     (auto simp: andthen_apply keeps_entry keeps_shift split: sum.split)

lemma keeps_trace [simp]: "keeps buffer_ok (trace E args)"
  unfolding trace_def
  by (intro keeps_andthen keeps_calls keeps_reading) (auto simp: keeps_def keeps_buffer_args)

lemma keeps_table [simp]: "keeps buffer_ok (trace_table E name ms)"
  by (induction E name ms rule: trace_table.induct) (auto intro: keeps_andthen)

lemma do_trace_ok: "buffer_ok t \<Longrightarrow> buffer_ok (do_trace E ev t)"
proof (cases ev)
  case (Tr_trace args)
  then show "buffer_ok t \<Longrightarrow> buffer_ok (do_trace E ev t)" by (simp add: keepsD)
next
  case (Tr_start date version)
  have "keeps buffer_ok (startTrace E date version)"
    unfolding startTrace_def by (intro keeps_andthen keeps_modify keeps_trace) (auto simp: buffer_ok_def)
  then show "buffer_ok t \<Longrightarrow> buffer_ok (do_trace E ev t)" using Tr_start by (auto dest: keepsD)
next
  case (Tr_log date sent arrived)
  have "keeps buffer_ok (getTraceLog E date sent arrived)"
    unfolding getTraceLog_def by (intro keeps_reading keeps_if keeps_andthen) auto
  then show "buffer_ok t \<Longrightarrow> buffer_ok (do_trace E ev t)" using Tr_log by (auto dest: keepsD)
qed (auto simp: stopTrace_def set_trace_def buffer_ok_def split: js_value.split)

text \<open>Whatever is traced, and whatever the trace function or \<open>stringify\<close> throws.\<close>

lemma trace_buffer_bounded: "buffer_ok (fold (do_trace E) evs new_tracer)"
proof -
  have "buffer_ok t \<Longrightarrow> buffer_ok (fold (do_trace E) evs t)" for t
    by (induction evs arbitrary: t) (auto simp: do_trace_ok)
  then show ?thesis by (simp add: buffer_ok_def new_tracer_def)
qed

section \<open>The history\<close>

text \<open>
  Without exceptions, the buffer is the end of an unbounded log.  \<open>history\<close> is the log since tracing
  was started, \<open>None\<close> when it is off.
\<close>

definition calm :: "'v trace_env \<Rightarrow> bool" where
  "calm E = ((\<forall>x. \<exists>t. stringify E x = Inr t) \<and> (\<forall>f r. trace_app E f r = Inr ()))"

lemma calm_stringify: "calm E \<Longrightarrow> \<exists>t. stringify E x = Inr t"
  by (simp add: calm_def)

definition json_text :: "'v trace_env \<Rightarrow> 'v \<Rightarrow> js_string" where
  "json_text E x = (case stringify E x of Inl _ \<Rightarrow> [] | Inr t \<Rightarrow> trace_text t)"

fun arg_entries :: "'v trace_env \<Rightarrow> bool \<Rightarrow> 'v option list \<Rightarrow> 'v trace_entry list" where
  "arg_entries E first [] = []"
| "arg_entries E first (a # args) =
     (if first \<or> a = None then Raw a else Text (json_text E (the a))) # arg_entries E False args"

abbreviation "entries E args \<equiv> arg_entries E True args"

definition table_entries :: "'v trace_env \<Rightarrow> js_string \<Rightarrow> ('v \<times> 'v) list \<Rightarrow> 'v trace_entry list" where
  "table_entries E name ms = concat (map (\<lambda>(k, m). entries E [Some (literal E name), Some k, Some m]) ms)"

definition log_entries :: "'v trace_env \<Rightarrow> 'v \<Rightarrow> ('v \<times> 'v) list \<Rightarrow> ('v \<times> 'v) list \<Rightarrow> 'v trace_entry list" where
  "log_entries E date sent arrived =
     entries E [Some (literal E (js ''Client.getTraceLog'')), Some date]
     @ entries E [Some (literal E (js ''Client.getTraceLog in flight messages'')), None]
     @ table_entries E (js ''_sentMessages '') sent @ table_entries E (js ''_receivedMessages '') arrived"

primrec history :: "'v trace_env \<Rightarrow> 'v trace_event \<Rightarrow> 'v trace_entry list option \<Rightarrow> 'v trace_entry list option" where
  "history E (Tr_trace args) h = map_option (\<lambda>h. h @ entries E args) h"
| "history E (Tr_start date version) h =
     Some ((case h of None \<Rightarrow> [] | Some h \<Rightarrow> h)
       @ entries E [Some (literal E (js ''Client.startTrace'')), Some date, Some version])"
| "history E Tr_stop h = None"
| "history E (Tr_log date sent arrived) h = map_option (\<lambda>h. h @ log_entries E date sent arrived) h"
| "history E (Tr_set x) h = h"

definition last_entries :: "'a list \<Rightarrow> 'a list" where
  "last_entries xs = drop (length xs - MAX_TRACE_ENTRIES) xs"

lemma last_entries_snoc:
  "last_entries (xs @ [x]) =
     (if length (last_entries xs) = MAX_TRACE_ENTRIES then tl (last_entries xs) else last_entries xs) @ [x]"
proof (cases "MAX_TRACE_ENTRIES \<le> length xs")
  case True
  then have "Suc (length xs) - MAX_TRACE_ENTRIES = Suc (length xs - MAX_TRACE_ENTRIES)" by simp
  then show ?thesis using True by (simp add: last_entries_def drop_Suc tl_drop MAX_TRACE_ENTRIES_def)
qed (simp add: last_entries_def)

lemma last_entries_short: "length xs \<le> MAX_TRACE_ENTRIES \<Longrightarrow> last_entries xs = xs"
  by (simp add: last_entries_def)

definition follows :: "'v tracer \<Rightarrow> 'v trace_entry list option \<Rightarrow> bool" where
  "follows t h = (traceBuffer t = map_option last_entries h)"

lemma follows_entry:
  "follows t (Some h) \<Longrightarrow> follows (push_entry e (shift_buffer t)) (Some (h @ [e]))"
  by (auto simp: follows_def push_entry_def shift_buffer_def last_entries_snoc)

lemma follows_buffer_args:
  "calm E \<Longrightarrow> follows t (Some h) \<Longrightarrow>
   fst (buffer_args E first args t) = Inr () \<and> follows (snd (buffer_args E first args t)) (Some (h @ arg_entries E first args))"
proof (induction E first args arbitrary: t h rule: buffer_args.induct)
  case (2 E first a args)
  define e where "e = (if first \<or> a = None then Raw a else Text (json_text E (the a)))"
  have "entry_of E first a = Inr e"
  proof (cases a)
    case (Some x)
    obtain t where "stringify E x = Inr t" using calm_stringify [OF 2(2)] by blast
    then show ?thesis using Some by (simp add: entry_of_def e_def json_text_def)
  qed (simp add: entry_of_def e_def)
  moreover have f: "follows (push_entry e (shift_buffer t)) (Some (h @ [e]))" by (rule follows_entry) (rule 2(3))
  ultimately show ?case
    using 2(1) [OF 2(2) f]
    by (simp add: andthen_apply e_def)
qed simp

lemma record_text_calm: "calm E \<Longrightarrow> \<exists>r. record_text E args = Inr r"
proof (induction E args rule: record_text.induct)
  case (3 E x args)
  moreover obtain t where "stringify E x = Inr t" using calm_stringify [OF 3(2)] by blast
  ultimately show ?case by auto
qed simp_all

lemma calls_calm:
  assumes "calm E" shows "\<exists>r. call_traceFunction E args t = (Inr (), t\<lparr>traced := r\<rparr>)"
proof (cases "traceFunction t")
  case None
  then show ?thesis by (intro exI [of _ "traced t"]) (simp add: call_traceFunction_def)
next
  case (Some f)
  obtain r where "record_text E args = Inr r" using record_text_calm [OF assms] by blast
  moreover have "trace_app E f r = Inr ()" using assms by (simp add: calm_def)
  ultimately show ?thesis using Some by (auto simp: call_traceFunction_def andthen_apply)
qed

lemma follows_trace:
  assumes "calm E" and "follows t h"
  shows "fst (trace E args t) = Inr () \<and> follows (snd (trace E args t)) (map_option (\<lambda>h. h @ entries E args) h)"
proof -
  obtain r where r: "call_traceFunction E args t = (Inr (), t\<lparr>traced := r\<rparr>)" using calls_calm [OF assms(1)] by blast
  have "follows (t\<lparr>traced := r\<rparr>) h" using assms(2) by (simp add: follows_def)
  then show ?thesis using follows_buffer_args [OF assms(1)] r
    by (cases h) (auto simp: trace_def follows_def)
qed

text \<open>A statement that appends \<open>xs\<close> to the log.\<close>

definition appends :: "('v, unit) trace_op \<Rightarrow> 'v trace_entry list \<Rightarrow> bool" where
  "appends m xs =
     (\<forall>t h. follows t h \<longrightarrow> fst (m t) = Inr () \<and> follows (snd (m t)) (map_option (\<lambda>h. h @ xs) h))"

lemma appends_trace: "calm E \<Longrightarrow> appends (trace E args) (entries E args)"
  by (simp add: appends_def follows_trace)

lemma appends_ret: "appends (ret ()) []"
  by (simp add: appends_def option.map_ident)

lemma appends_seqn: "appends m xs \<Longrightarrow> appends n ys \<Longrightarrow> appends (seqn m n) (xs @ ys)"
  unfolding appends_def andthen_def
  by (fastforce simp: option.map_comp comp_def split: prod.split sum.split)

lemma appends_table: "calm E \<Longrightarrow> appends (trace_table E name ms) (table_entries E name ms)"
proof (induction E name ms rule: trace_table.induct)
  case (1 E name)
  then show ?case by (simp add: table_entries_def appends_ret del: op_apply)
next
  case (2 E name k m ms)
  have "table_entries E name ((k, m) # ms)
      = entries E [Some (literal E name), Some k, Some m] @ table_entries E name ms"
    by (simp add: table_entries_def)
  then show ?case unfolding trace_table.simps
    using appends_seqn [OF appends_trace [OF 2(2)] 2(1) [OF 2(2)]] by (simp only:)
qed

lemma andthen_assoc: "andthen (andthen m f) g = andthen m (\<lambda>x. andthen (f x) g)"
  by (auto simp: andthen_def fun_eq_iff split: prod.split sum.split)

lemma follows_log:
  assumes "calm E" and "follows t (Some h)"
  shows "fst (getTraceLog E date sent arrived t) = Inr (Some (last_entries (h @ log_entries E date sent arrived)))"
    and "follows (snd (getTraceLog E date sent arrived t)) (Some (h @ log_entries E date sent arrived))"
proof -
  define m where "m =
    seqn (trace E [Some (literal E (js ''Client.getTraceLog'')), Some date])
   (seqn (trace E [Some (literal E (js ''Client.getTraceLog in flight messages'')), None])
   (seqn (trace_table E (js ''_sentMessages '') sent) (trace_table E (js ''_receivedMessages '') arrived)))"
  have "appends m (log_entries E date sent arrived)"
    unfolding m_def log_entries_def by (intro appends_seqn appends_trace appends_table assms(1))
  then have m: "fst (m t) = Inr ()" "follows (snd (m t)) (Some (h @ log_entries E date sent arrived))"
    using assms(2) unfolding appends_def by fastforce+
  have "traceBuffer t \<noteq> None" using assms(2) by (simp add: follows_def)
  then have "getTraceLog E date sent arrived t = seqn m (reading traceBuffer ret) t"
    by (simp only: getTraceLog_def m_def andthen_assoc reading_apply if_False)
  then have "getTraceLog E date sent arrived t = (Inr (traceBuffer (snd (m t))), snd (m t))"
    using m(1) by (cases "m t") (simp add: andthen_def)
  then show "fst (getTraceLog E date sent arrived t) = Inr (Some (last_entries (h @ log_entries E date sent arrived)))"
    and "follows (snd (getTraceLog E date sent arrived t)) (Some (h @ log_entries E date sent arrived))"
    using m(2) by (simp_all add: follows_def)
qed

lemma follows_step:
  assumes "calm E" and "follows t h"
  shows "follows (do_trace E ev t) (history E ev h)"
proof (cases ev)
  case (Tr_trace args)
  then show ?thesis using follows_trace [OF assms] by simp
next
  case (Tr_start date version)
  define t1 where "t1 = (if traceBuffer t = None then t\<lparr>traceBuffer := Some []\<rparr> else t)"
  have "follows t1 (Some (case h of None \<Rightarrow> [] | Some h \<Rightarrow> h))"
    using assms(2) by (auto simp: t1_def follows_def last_entries_def split: option.split)
  note follows_trace [OF assms(1) this, of "[Some (literal E (js ''Client.startTrace'')), Some date, Some version]"]
  then show ?thesis using Tr_start by (simp add: startTrace_def t1_def del: arg_entries.simps js_simps)
next
  case Tr_stop
  then show ?thesis by (simp add: stopTrace_def follows_def)
next
  case (Tr_log date sent arrived)
  then show ?thesis
  proof (cases h)
    case None
    then show ?thesis using Tr_log assms(2) by (simp add: getTraceLog_def follows_def)
  next
    case (Some log)
    then show ?thesis using Tr_log follows_log(2) [OF assms(1)] assms(2) by simp
  qed
next
  case (Tr_set x)
  then show ?thesis using assms(2) by (auto simp: set_trace_def follows_def split: js_value.split)
qed

lemma follows_run: "calm E \<Longrightarrow> follows t h \<Longrightarrow> follows (fold (do_trace E) evs t) (fold (history E) evs h)"
  by (induction evs arbitrary: t h) (auto simp: follows_step)

text \<open>
  Property C37.  After any sequence of traced operations, starts and stops of the trace and requests
  for the log, none of which throws, \<open>getTraceLog\<close> returns the last hundred entries of everything that
  was traced since the trace was started, the entries of this request included.
\<close>

theorem trace_log_is_recent:
  assumes "calm E" and "fold (history E) evs None = Some log"
  shows "fst (getTraceLog E date sent arrived (fold (do_trace E) evs new_tracer)) =
     Inr (Some (last_entries (log @ log_entries E date sent arrived)))"
proof -
  have "follows new_tracer None" by (simp add: follows_def new_tracer_def)
  then have "follows (fold (do_trace E) evs new_tracer) (Some log)"
    using follows_run [OF assms(1)] assms(2) by metis
  then show ?thesis by (rule follows_log(1) [OF assms(1)])
qed

definition demo_trace_env :: "js_string trace_env" where
  "demo_trace_env = \<lparr>stringify = (\<lambda>s. Inr (Some s)), trace_app = (\<lambda>_ _. Inr ()), literal = (\<lambda>s. s)\<rparr>"

theorem trace_log_is_recent_witness:
  "fst (getTraceLog demo_trace_env (js ''now'') [] []
      (fold (do_trace demo_trace_env) [Tr_start (js ''then'') (js ''1.1.0''), Tr_trace [Some (js ''Client.send''), None]]
         new_tracer)) =
     Inr (Some (map Raw [Some (js ''Client.startTrace'')] @ map Text [js ''  then'', js ''  1.1.0'']
       @ map Raw [Some (js ''Client.send''), None] @ [Raw (Some (js ''Client.getTraceLog'')), Text (js ''  now''),
          Raw (Some (js ''Client.getTraceLog in flight messages'')), Raw None]))"
proof -
  have env: "calm demo_trace_env" by (simp add: calm_def demo_trace_env_def)
  have log: "fold (history demo_trace_env)
      [Tr_start (js ''then'') (js ''1.1.0''), Tr_trace [Some (js ''Client.send''), None]] None =
     Some (map Raw [Some (js ''Client.startTrace'')] @ map Text [js ''  then'', js ''  1.1.0'']
       @ map Raw [Some (js ''Client.send''), None])"
    by (simp add: demo_trace_env_def json_text_def trace_text_def)
  show ?thesis
    unfolding trace_log_is_recent [OF env log]
    by (simp add: demo_trace_env_def json_text_def trace_text_def log_entries_def table_entries_def
         last_entries_short MAX_TRACE_ENTRIES_def)
qed

section \<open>The property uri\<close>

text \<open>After \<open>connect\<close> with host names, \<open>uri\<close> is the address of the last host, whichever is used.\<close>

lemma note_uris_last:
  "length hs = length ps \<Longrightarrow> \<forall>p \<in> set ps. 0 \<le> p \<Longrightarrow> hs \<noteq> [] \<Longrightarrow>
   note_uris pth hs ps u = ws_uri (has_colon (last hs)) (last hs) (Num (last ps)) pth"
proof (induction hs arbitrary: ps u)
  case (Cons h hs)
  then show ?case by (cases ps; cases hs) auto
qed simp

end
