(* ===== verification/Js_Float.thy ===== *)
theory Js_Float
  imports Complex_Main
begin

text \<open>
  JavaScript numbers for the computations with coordinates: exact real numbers with the infinities
  and \<open>NaN\<close>, and the rules of the language for them.  Rounding, the overflow of a sum or product of finite
  numbers, and the sign of zero are not modelled;
  a quotient by zero has the sign of its dividend.
\<close>

datatype js_float = NaF | Infinite bool | Fin real

instantiation js_float :: "{plus, minus, times, inverse, uminus}"
begin

fun uminus_js_float :: "js_float \<Rightarrow> js_float" where
  "- NaF = NaF"
| "- Infinite neg = Infinite (\<not> neg)"
| "- Fin a = Fin (- a)"

fun plus_js_float :: "js_float \<Rightarrow> js_float \<Rightarrow> js_float" where
  "Fin a + Fin b = Fin (a + b)"
| "NaF + y = NaF"
| "x + NaF = NaF"
| "Infinite s + Infinite t = (if s = t then Infinite s else NaF)"
| "Infinite s + Fin b = Infinite s"
| "Fin a + Infinite t = Infinite t"

definition minus_js_float :: "js_float \<Rightarrow> js_float \<Rightarrow> js_float" where
  "(x :: js_float) - y = x + - y"

fun times_js_float :: "js_float \<Rightarrow> js_float \<Rightarrow> js_float" where
  "Fin a * Fin b = Fin (a * b)"
| "NaF * y = NaF"
| "x * NaF = NaF"
| "Infinite s * Infinite t = Infinite (s \<noteq> t)"
| "Infinite s * Fin b = (if b = 0 then NaF else Infinite (s \<noteq> (b < 0)))"
| "Fin a * Infinite t = (if a = 0 then NaF else Infinite (t \<noteq> (a < 0)))"

fun divide_js_float :: "js_float \<Rightarrow> js_float \<Rightarrow> js_float" where
  "divide (Fin a) (Fin b) =
     (if b \<noteq> 0 then Fin (a / b) else if a = 0 then NaF else Infinite (a < 0))"
| "divide NaF y = NaF"
| "divide x NaF = NaF"
| "divide (Infinite s) (Infinite t) = NaF"
| "divide (Infinite s) (Fin b) = Infinite (s \<noteq> (b < 0))"
| "divide (Fin a) (Infinite t) = Fin 0"

definition inverse_js_float :: "js_float \<Rightarrow> js_float" where
  "inverse_js_float x = divide (Fin 1) x"

instance ..

end

text \<open>\<open>Math.sqrt\<close>, \<open>Math.abs\<close> and the comparison with \<open><\<close>, which \<open>NaN\<close> never satisfies.\<close>

fun Math_sqrt :: "js_float \<Rightarrow> js_float" where
  "Math_sqrt NaF = NaF"
| "Math_sqrt (Infinite neg) = (if neg then NaF else Infinite False)"
| "Math_sqrt (Fin a) = (if a < 0 then NaF else Fin (sqrt a))"

fun Math_abs :: "js_float \<Rightarrow> js_float" where
  "Math_abs NaF = NaF"
| "Math_abs (Infinite neg) = Infinite False"
| "Math_abs (Fin a) = Fin \<bar>a\<bar>"

fun less_than :: "js_float \<Rightarrow> js_float \<Rightarrow> bool" where
  "less_than (Fin a) (Fin b) = (a < b)"
| "less_than NaF y = False"
| "less_than x NaF = False"
| "less_than (Infinite s) (Infinite t) = (s \<and> \<not> t)"
| "less_than (Infinite s) (Fin b) = s"
| "less_than (Fin a) (Infinite t) = (\<not> t)"

lemma minus_js_float_simps [simp]:
  "Fin a - Fin b = Fin (a - b)" "NaF - y = NaF" "x - NaF = NaF"
  by (cases x, simp_all add: minus_js_float_def)+

lemma NaF_right [simp]: "x + NaF = NaF" "x * NaF = NaF" "x / NaF = NaF" "\<not> less_than x NaF"
  by (cases x; simp)+

end
