(* ===== verification/Trilateration.thy ===== *)
theory Trilateration
  imports Js_Float
begin

text \<open>
  \<open>multilateration.js\<close>: the closed form for the two points at given distances from three anchors,
  and the choice between them by the distance from a fourth one.  Coordinates are exact real numbers with
  NaN and infinities, where the program has doubles: the properties are about the formulas, not about
  their rounding.  Anchors on one line are such a case: here the frame has no second axis, in the program
  a rounding residue may stand in for it.
\<close>

section \<open>Vectors\<close>

text \<open>An element that an array does not have is \<open>undefined\<close>, which counts as \<open>NaN\<close>.\<close>

definition coord :: "js_float list \<Rightarrow> nat \<Rightarrow> js_float" where
  "coord xs i = (if i < length xs then xs ! i else NaF)"

type_synonym vec = "js_float \<times> js_float \<times> js_float"

definition vec_of :: "js_float list \<Rightarrow> vec" where
  "vec_of xs = (coord xs 0, coord xs 1, coord xs 2)"

fun vec_diff :: "vec \<Rightarrow> vec \<Rightarrow> vec" where
  "vec_diff (x, y, z) (x', y', z') = (x - x', y - y', z - z')"

fun vec_dot :: "vec \<Rightarrow> vec \<Rightarrow> js_float" where
  "vec_dot (x, y, z) (x', y', z') = x * x' + y * y' + z * z'"

fun vec_over :: "vec \<Rightarrow> js_float \<Rightarrow> vec" where
  "vec_over (x, y, z) k = (x / k, y / k, z / k)"

fun vec_scale :: "js_float \<Rightarrow> vec \<Rightarrow> vec" where
  "vec_scale k (x, y, z) = (k * x, k * y, k * z)"

fun vec_cross :: "vec \<Rightarrow> vec \<Rightarrow> vec" where
  "vec_cross (x, y, z) (x', y', z') = (y * z' - z * y', z * x' - x * z', x * y' - y * x')"

section \<open>Trilateration\<close>

text \<open>The unit vectors of the frame of the anchors, and the coordinates of the anchors in it.\<close>

definition standard_frame :: "vec \<Rightarrow> vec \<Rightarrow> js_float \<times> js_float \<times> js_float \<times> vec \<times> vec \<times> vec" where
  "standard_frame a1t a2t =
     (let U = Math_sqrt (vec_dot a1t a1t);
          ex = vec_over a1t U;
          Vx = vec_dot a2t ex;
          temp = vec_diff a2t (vec_scale Vx ex);
          Vy = Math_sqrt (vec_dot temp temp);
          ey = vec_over temp Vy;
          ez = vec_cross ex ey
      in (U, Vx, Vy, ex, ey, ez))"

text \<open>The solution in this frame; a negative square of the height is taken for zero.\<close>

definition standard_solution ::
  "js_float \<Rightarrow> js_float \<Rightarrow> js_float \<Rightarrow> js_float \<Rightarrow> js_float \<Rightarrow> js_float \<Rightarrow> js_float \<times> js_float \<times> js_float" where
  "standard_solution r0 r1 r2 U Vx Vy =
     (let x = (r0 * r0 - r1 * r1 + U * U) / (Fin 2 * U);
          y = (r0 * r0 - r2 * r2 + Vx * Vx + Vy * Vy - Fin 2 * Vx * x) / (Fin 2 * Vy);
          z = r0 * r0 - x * x - y * y;
          z = (if less_than z (Fin 0) then Fin 0 else z)
      in (x, y, Math_sqrt z))"

fun original_point ::
  "vec \<Rightarrow> js_float \<Rightarrow> js_float \<Rightarrow> js_float \<Rightarrow> vec \<Rightarrow> vec \<Rightarrow> vec \<Rightarrow> js_float list" where
  "original_point (ax, ay, az) x y z (exx, exy, exz) (eyx, eyy, eyz) (ezx, ezy, ezz) =
     [ax + x * exx + y * eyx + z * ezx,
      ay + x * exy + y * eyy + z * ezy,
      az + x * exz + y * eyz + z * ezz]"

text \<open>\<open>None\<close> is the \<open>TypeError\<close> of a missing range.\<close>

definition trilaterate :: "js_float list list \<Rightarrow> (js_float list \<times> js_float list) option" where
  "trilaterate ranges =
     (if length ranges < 3 then None
      else
        let a0 = vec_of (ranges ! 0);
            a1 = vec_of (ranges ! 1);
            a2 = vec_of (ranges ! 2);
            (U, Vx, Vy, ex, ey, ez) = standard_frame (vec_diff a1 a0) (vec_diff a2 a0);
            (x, y, z0) = standard_solution (coord (ranges ! 0) 3) (coord (ranges ! 1) 3) (coord (ranges ! 2) 3) U Vx Vy;
            z1 = - z0
        in Some (original_point a0 x y z0 ex ey ez, original_point a0 x y z1 ex ey ez))"

definition square_distance :: "js_float list \<Rightarrow> js_float list \<Rightarrow> js_float" where
  "square_distance location sphere =
     (let d = vec_diff (vec_of location) (vec_of sphere) in vec_dot d d)"

definition nearest_finder :: "js_float list \<Rightarrow> js_float list \<Rightarrow> js_float list \<Rightarrow> js_float list" where
  "nearest_finder sphere locationA locationB =
     (let distA = square_distance locationA sphere;
          distB = square_distance locationB sphere;
          range = coord sphere 3 * coord sphere 3
      in if less_than (Math_abs (distA - range)) (Math_abs (distB - range)) then locationA else locationB)"

text \<open>
  One record of the data set, and the whole of it: the points written to the file, and whether the
  script came to its end; a missing record stops it.
\<close>

definition locate :: "js_float list list \<Rightarrow> js_float list option" where
  "locate data =
     (if length data < 4 then None
      else case trilaterate (take 3 data) of
        None \<Rightarrow> None
      | Some (PA, PB) \<Rightarrow> Some (nearest_finder (data ! 3) PA PB))"

fun locate_all :: "js_float list list list \<Rightarrow> js_float list list \<times> bool" where
  "locate_all [] = ([], True)"
| "locate_all (data # rest) =
     (case locate data of
        None \<Rightarrow> ([], False)
      | Some P \<Rightarrow> (P # fst (locate_all rest), snd (locate_all rest)))"

section \<open>The frame of three anchors\<close>

type_synonym point = "real \<times> real \<times> real"

fun dot :: "point \<Rightarrow> point \<Rightarrow> real" where
  "dot (a, b, c) (a', b', c') = a * a' + b * b' + c * c'"

fun cross :: "point \<Rightarrow> point \<Rightarrow> point" where
  "cross (a, b, c) (a', b', c') = (b * c' - c * b', c * a' - a * c', a * b' - b * a')"

fun comb :: "real \<Rightarrow> point \<Rightarrow> real \<Rightarrow> point \<Rightarrow> real \<Rightarrow> point \<Rightarrow> point" where
  "comb x (a, b, c) y (a', b', c') z (a'', b'', c'') =
     (x * a + y * a' + z * a'', x * b + y * b' + z * b'', x * c + y * c' + z * c'')"

fun sub :: "point \<Rightarrow> point \<Rightarrow> point" where
  "sub (a, b, c) (a', b', c') = (a - a', b - b', c - c')"

fun scl :: "real \<Rightarrow> point \<Rightarrow> point" where
  "scl k (a, b, c) = (k * a, k * b, k * c)"

definition orthonormal :: "point \<Rightarrow> point \<Rightarrow> bool" where
  "orthonormal e f \<longleftrightarrow> dot e e = 1 \<and> dot f f = 1 \<and> dot e f = 0"

lemma cross_orthonormal:
  assumes "orthonormal e f"
  shows "dot (cross e f) (cross e f) = 1" "dot e (cross e f) = 0" "dot f (cross e f) = 0"
proof -
  obtain e1 e2 e3 f1 f2 f3 where [simp]: "e = (e1, e2, e3)" "f = (f1, f2, f3)" by (cases e, cases f) auto
  have "dot (cross e f) (cross e f) = dot e e * dot f f - (dot e f)\<^sup>2"
    by (simp add: power2_eq_square algebra_simps)
  then show "dot (cross e f) (cross e f) = 1" using assms by (simp only: orthonormal_def) simp
  show "dot e (cross e f) = 0" "dot f (cross e f) = 0" by (simp_all add: algebra_simps)
qed

lemma dot_comb:
  "dot (comb x e y f z g) (comb x e y f z g)
     = x\<^sup>2 * dot e e + y\<^sup>2 * dot f f + z\<^sup>2 * dot g g + 2 * x * y * dot e f + 2 * x * z * dot e g + 2 * y * z * dot f g"
  by (cases e; cases f; cases g) (simp add: power2_eq_square algebra_simps)

lemma norm_comb:
  "orthonormal e f \<Longrightarrow> dot (comb x e y f z (cross e f)) (comb x e y f z (cross e f)) = x\<^sup>2 + y\<^sup>2 + z\<^sup>2"
  unfolding dot_comb by (simp add: cross_orthonormal) (simp add: orthonormal_def)

text \<open>Every vector is the combination of its projections.\<close>

lemma comb_projections:
  assumes "orthonormal e f"
  shows "v = comb (dot v e) e (dot v f) f (dot v (cross e f)) (cross e f)"
proof -
  obtain e1 e2 e3 f1 f2 f3 v1 v2 v3 where [simp]: "e = (e1, e2, e3)" "f = (f1, f2, f3)" "v = (v1, v2, v3)"
    by (cases e, cases f, cases v) auto
  have *: "e1 * e1 + e2 * e2 + e3 * e3 = 1" "f1 * f1 + f2 * f2 + f3 * f3 = 1" "e1 * f1 + e2 * f2 + e3 * f3 = 0"
    using assms by (simp_all add: orthonormal_def)
  show ?thesis using * by simp (intro conjI; algebra)
qed

text \<open>The frame that the code computes from finite coordinates, in exact numbers.\<close>

fun fin_vec :: "point \<Rightarrow> vec" where
  "fin_vec (a, b, c) = (Fin a, Fin b, Fin c)"

definition frame_e :: "point \<Rightarrow> point" where "frame_e p = scl (1 / sqrt (dot p p)) p"
definition frame_x :: "point \<Rightarrow> point \<Rightarrow> real" where "frame_x p q = dot q (frame_e p)"
definition frame_rest :: "point \<Rightarrow> point \<Rightarrow> point" where
  "frame_rest p q = sub q (scl (frame_x p q) (frame_e p))"
definition frame_y :: "point \<Rightarrow> point \<Rightarrow> real" where "frame_y p q = sqrt (dot (frame_rest p q) (frame_rest p q))"
definition frame_f :: "point \<Rightarrow> point \<Rightarrow> point" where "frame_f p q = scl (1 / frame_y p q) (frame_rest p q)"

lemma fin_vec_simps [simp]:
  "vec_diff (fin_vec p) (fin_vec q) = fin_vec (sub p q)" "vec_dot (fin_vec p) (fin_vec q) = Fin (dot p q)"
  "vec_scale (Fin k) (fin_vec p) = fin_vec (scl k p)" "vec_cross (fin_vec p) (fin_vec q) = fin_vec (cross p q)"
  "k \<noteq> 0 \<Longrightarrow> vec_over (fin_vec p) (Fin k) = fin_vec (scl (1 / k) p)"
  by (cases p; cases q; simp)+

lemma dot_nonneg [simp]: "0 \<le> dot p p" "(dot p p < 0) = False" by (cases p; simp add: not_less)+

lemma dot_zero: "dot p p = 0 \<Longrightarrow> p = (0, 0, 0)"
  by (cases p) (simp add: add_nonneg_eq_0_iff)

lemma dot_scl: "dot (scl k p) q = k * dot p q" "dot p (scl k q) = k * dot p q"
  by (cases p; cases q; simp add: algebra_simps)+

lemma dot_sub: "dot p (sub q r) = dot p q - dot p r" "dot (sub q r) p = dot q p - dot r p"
  by (cases p; cases q; cases r; simp add: algebra_simps)+

lemma dot_commute: "dot p q = dot q p" by (cases p; cases q) simp

lemma scl_scl: "scl a (scl b p) = scl (a * b) p" "scl 1 p = p" "scl 0 p = (0, 0, 0)" by (cases p; simp)+

lemma standard_frame_finite:
  "dot p p \<noteq> 0 \<Longrightarrow> frame_y p q \<noteq> 0 \<Longrightarrow>
   standard_frame (fin_vec p) (fin_vec q)
     = (Fin (sqrt (dot p p)), Fin (frame_x p q), Fin (frame_y p q), fin_vec (frame_e p), fin_vec (frame_f p q),
        fin_vec (cross (frame_e p) (frame_f p q)))"
  by (simp add: standard_frame_def Let_def not_less flip: frame_e_def frame_x_def frame_rest_def frame_y_def frame_f_def)

lemma frame_orthonormal:
  assumes "dot p p \<noteq> 0" "frame_y p q \<noteq> 0"
  shows "orthonormal (frame_e p) (frame_f p q)"
proof -
  have e: "dot (frame_e p) (frame_e p) = 1"
    using assms(1) by (simp add: frame_e_def dot_scl flip: real_sqrt_mult)
  have "dot (frame_e p) (frame_rest p q) = 0"
    using e by (simp add: frame_rest_def dot_sub dot_scl frame_x_def dot_commute)
  moreover have rest: "dot (frame_rest p q) (frame_rest p q) \<noteq> 0" using assms(2) by (auto simp: frame_y_def)
  then have "dot (frame_f p q) (frame_f p q) = 1"
    by (simp add: frame_f_def dot_scl frame_y_def flip: real_sqrt_mult)
  ultimately show ?thesis using e rest by (simp add: orthonormal_def frame_f_def dot_scl)
qed

text \<open>The anchors in the frame.\<close>

lemma anchors_in_frame:
  assumes "dot p p \<noteq> 0" "frame_y p q \<noteq> 0"
  shows "p = comb (sqrt (dot p p)) (frame_e p) 0 (frame_f p q) 0 g"
    and "q = comb (frame_x p q) (frame_e p) (frame_y p q) (frame_f p q) 0 g"
proof -
  have "scl (sqrt (dot p p)) (frame_e p) = p" using assms(1) by (simp add: frame_e_def scl_scl)
  then show "p = comb (sqrt (dot p p)) (frame_e p) 0 (frame_f p q) 0 g"
    by (cases "frame_e p"; cases "frame_f p q"; cases g) simp
  have "scl (frame_y p q) (frame_f p q) = frame_rest p q" using assms(2) by (simp add: frame_f_def scl_scl)
  then show "q = comb (frame_x p q) (frame_e p) (frame_y p q) (frame_f p q) 0 g"
    unfolding frame_rest_def by (cases "frame_e p"; cases "frame_f p q"; cases g; cases q) auto
qed

text \<open>The anchors are in general position when they are not on one line.\<close>

lemma not_collinear:
  assumes "cross p q \<noteq> (0, 0, 0)"
  shows "dot p p \<noteq> 0" "frame_y p q \<noteq> 0"
proof -
  show p: "dot p p \<noteq> 0"
  proof
    assume "dot p p = 0"
    then have "p = (0, 0, 0)" by (rule dot_zero)
    then show False using assms by (cases q) simp
  qed
  show "frame_y p q \<noteq> 0"
  proof
    assume "frame_y p q = 0"
    then have "dot (frame_rest p q) (frame_rest p q) = 0" by (simp add: frame_y_def)
    then have "frame_rest p q = (0, 0, 0)" by (rule dot_zero)
    then have "q = scl (frame_x p q / sqrt (dot p p)) p"
      by (cases p; cases q) (simp add: frame_rest_def frame_e_def)
    then obtain k where "q = scl k p" by blast
    then show False using assms by (cases p) simp
  qed
qed

section \<open>The solutions\<close>

definition power_of :: "point \<Rightarrow> point \<Rightarrow> real \<Rightarrow> real" where
  "power_of P A r = dot (sub P A) (sub P A) - r\<^sup>2"

abbreviation on_sphere :: "point \<Rightarrow> point \<Rightarrow> real \<Rightarrow> bool" where
  "on_sphere P A r \<equiv> power_of P A r = 0"

fun anchor_of :: "point \<Rightarrow> real \<Rightarrow> js_float list" where
  "anchor_of (a, b, c) r = [Fin a, Fin b, Fin c, Fin r]"

fun location_of :: "point \<Rightarrow> js_float list" where
  "location_of (a, b, c) = [Fin a, Fin b, Fin c]"

fun shift :: "point \<Rightarrow> point \<Rightarrow> point" where
  "shift (a, b, c) (a', b', c') = (a + a', b + b', c + c')"

lemma vec_of_simps [simp]:
  "vec_of (anchor_of A r) = fin_vec A" "vec_of (location_of A) = fin_vec A" "coord (anchor_of A r) 3 = Fin r"
  by (cases A; simp add: vec_of_def coord_def)+

lemma original_point_finite:
  "original_point (fin_vec A) (Fin x) (Fin y) (Fin z) (fin_vec e) (fin_vec f) (fin_vec g)
     = location_of (shift A (comb x e y f z g))"
  by (cases A; cases e; cases f; cases g) simp

definition sol_x :: "real \<Rightarrow> real \<Rightarrow> real \<Rightarrow> real" where
  "sol_x r0 r1 U = (r0\<^sup>2 - r1\<^sup>2 + U\<^sup>2) / (2 * U)"

definition sol_y :: "real \<Rightarrow> real \<Rightarrow> real \<Rightarrow> real \<Rightarrow> real \<Rightarrow> real" where
  "sol_y r0 r2 Vx Vy x = (r0\<^sup>2 - r2\<^sup>2 + Vx\<^sup>2 + Vy\<^sup>2 - 2 * Vx * x) / (2 * Vy)"

lemma standard_solution_finite:
  assumes "U \<noteq> 0" "Vy \<noteq> 0" "x = sol_x r0 r1 U" "y = sol_y r0 r2 Vx Vy x"
  shows "standard_solution (Fin r0) (Fin r1) (Fin r2) (Fin U) (Fin Vx) (Fin Vy)
     = (Fin x, Fin y, Fin (sqrt (max 0 (r0\<^sup>2 - x\<^sup>2 - y\<^sup>2))))"
proof -
  have X: "(Fin r0 * Fin r0 - Fin r1 * Fin r1 + Fin U * Fin U) / (Fin 2 * Fin U) = Fin x"
    using assms(1) by (simp add: assms(3) sol_x_def power2_eq_square)
  have Y: "(Fin r0 * Fin r0 - Fin r2 * Fin r2 + Fin Vx * Fin Vx + Fin Vy * Fin Vy - Fin 2 * Fin Vx * Fin x) / (Fin 2 * Fin Vy) = Fin y"
    using assms(2) by (simp add: assms(4) sol_y_def power2_eq_square)
  define h where "h = r0\<^sup>2 - x\<^sup>2 - y\<^sup>2"
  have Z: "Fin r0 * Fin r0 - Fin x * Fin x - Fin y * Fin y = Fin h" by (simp add: power2_eq_square h_def)
  have "Math_sqrt (if less_than (Fin h) (Fin 0) then Fin 0 else Fin h) = Fin (sqrt (max 0 h))"
    by (simp add: max_def)
  then show ?thesis unfolding standard_solution_def Let_def X Y Z by (simp add: h_def)
qed

lemma power_in_frame:
  assumes "orthonormal e f" "sub A A0 = comb u e v f 0 (cross e f)"
  shows "power_of (shift A0 (comb x e y f z (cross e f))) A r = (x - u)\<^sup>2 + (y - v)\<^sup>2 + z\<^sup>2 - r\<^sup>2"
proof -
  have "sub (shift A0 (comb x e y f z g)) A = sub (comb x e y f z g) (sub A A0)" for g
    by (cases A; cases A0; cases e; cases f; cases g) simp
  moreover have "sub (comb x e y f z g) (comb u e v f 0 g) = comb (x - u) e (y - v) f z g" for g
    by (cases e; cases f; cases g) (simp add: algebra_simps)
  ultimately show ?thesis by (simp add: power_of_def assms(2) norm_comb [OF assms(1)])
qed

lemma equal_powers_x:
  "U \<noteq> 0 \<Longrightarrow> (x\<^sup>2 + w - r0\<^sup>2 = (x - U)\<^sup>2 + w - r1\<^sup>2) = (x = sol_x r0 r1 U)" for U :: real
  by (simp add: sol_x_def field_simps power2_eq_square)

lemma equal_powers_y:
  "Vy \<noteq> 0 \<Longrightarrow> (x\<^sup>2 + y\<^sup>2 + w - r0\<^sup>2 = (x - Vx)\<^sup>2 + (y - Vy)\<^sup>2 + w - r2\<^sup>2) = (y = sol_y r0 r2 Vx Vy x)" for Vy :: real
  by (simp add: sol_y_def field_simps power2_eq_square)

text \<open>
  What the code returns for three anchors that are not on one line: the two points of the line of
  equal powers at the height of the intersection, or at height zero when there is none.
\<close>

definition equal_powers :: "point \<Rightarrow> point \<Rightarrow> real \<Rightarrow> point \<Rightarrow> real \<Rightarrow> point \<Rightarrow> real \<Rightarrow> bool" where
  "equal_powers P A0 r0 A1 r1 A2 r2 \<longleftrightarrow> power_of P A0 r0 = power_of P A1 r1 \<and> power_of P A0 r0 = power_of P A2 r2"

lemma trilaterate_line:
  assumes "cross (sub A1 A0) (sub A2 A0) \<noteq> (0, 0, 0)"
  obtains L h where
    "trilaterate [anchor_of A0 r0, anchor_of A1 r1, anchor_of A2 r2]
       = Some (location_of (L (sqrt (max 0 h))), location_of (L (- sqrt (max 0 h))))"
    "\<And>z. power_of (L z) A0 r0 = z\<^sup>2 - h"
    "\<And>P. equal_powers P A0 r0 A1 r1 A2 r2 \<longleftrightarrow> (\<exists>z. P = L z)"
proof -
  define p q where "p = sub A1 A0" "q = sub A2 A0"
  note nz = not_collinear [OF assms, folded p_q_def]
  define U Vx Vy e f g where "U = sqrt (dot p p)" "Vx = frame_x p q" "Vy = frame_y p q" "e = frame_e p" "f = frame_f p q" "g = cross e f"
  note d = U_Vx_Vy_e_f_g_def
  have on: "orthonormal e f" unfolding d by (rule frame_orthonormal [OF nz])
  have UV: "U \<noteq> 0" "Vy \<noteq> 0" using nz by (simp_all add: d)
  have A1: "sub A1 A0 = comb U e 0 f 0 g" and A2: "sub A2 A0 = comb Vx e Vy f 0 g"
    using anchors_in_frame [OF nz] unfolding d p_q_def [symmetric] by blast+
  have A0: "sub A0 A0 = comb 0 e 0 f 0 g" by (cases A0; cases e; cases f; cases g) simp
  define x y where "x = sol_x r0 r1 U" "y = sol_y r0 r2 Vx Vy x"
  define h where "h = r0\<^sup>2 - x\<^sup>2 - y\<^sup>2"
  let ?L = "\<lambda>z. shift A0 (comb x e y f z g)"
  have frame: "standard_frame (fin_vec p) (fin_vec q) = (Fin U, Fin Vx, Fin Vy, fin_vec e, fin_vec f, fin_vec g)"
    using standard_frame_finite [OF nz] by (simp add: d)
  have three: "length [anchor_of A0 r0, anchor_of A1 r1, anchor_of A2 r2] = 3" by simp
  have "trilaterate [anchor_of A0 r0, anchor_of A1 r1, anchor_of A2 r2]
      = Some (location_of (?L (sqrt (max 0 h))), location_of (?L (- sqrt (max 0 h))))"
    unfolding trilaterate_def Let_def three
    by (simp add: frame flip: p_q_def)
      (simp add: standard_solution_finite [OF UV x_y_def] original_point_finite flip: h_def)
  moreover have "power_of (?L z) A0 r0 = z\<^sup>2 - h" for z
    using power_in_frame [OF on A0 [unfolded d(6)], folded d(6)] by (simp add: h_def)
  moreover have "equal_powers P A0 r0 A1 r1 A2 r2 \<longleftrightarrow> (\<exists>z. P = ?L z)" for P
  proof -
    obtain X Y Z where "sub P A0 = comb X e Y f Z g" using comb_projections [OF on] by (metis d(6))
    then have P: "P = shift A0 (comb X e Y f Z g)" by (cases P; cases A0; cases "comb X e Y f Z g") auto
    have pw: "power_of P A0 r0 = X\<^sup>2 + Y\<^sup>2 + Z\<^sup>2 - r0\<^sup>2" "power_of P A1 r1 = (X - U)\<^sup>2 + Y\<^sup>2 + Z\<^sup>2 - r1\<^sup>2"
      "power_of P A2 r2 = (X - Vx)\<^sup>2 + (Y - Vy)\<^sup>2 + Z\<^sup>2 - r2\<^sup>2"
      unfolding P using power_in_frame [OF on A0 [unfolded d(6)], folded d(6)] power_in_frame [OF on A1 [unfolded d(6)], folded d(6)]
        power_in_frame [OF on A2 [unfolded d(6)], folded d(6)] by simp_all
    have "equal_powers P A0 r0 A1 r1 A2 r2 \<longleftrightarrow> X = x \<and> Y = y"
      unfolding equal_powers_def pw add.assoc equal_powers_x [OF UV(1)] x_y_def
      using equal_powers_y [OF UV(2), of X Y "Z\<^sup>2" r0 Vx r2] by (auto simp: add.assoc)
    moreover have "(\<exists>z. P = ?L z) \<longleftrightarrow> X = x \<and> Y = y"
    proof
      assume "\<exists>z. P = ?L z"
      then obtain z where z: "P = ?L z" ..
      have "comb X e Y f Z g = comb x e y f z g"
        using P z by (cases "comb X e Y f Z g"; cases "comb x e y f z g"; cases A0) auto
      moreover have "dot (comb a e b f k g) e = a" "dot (comb a e b f k g) f = b" for a b k
      proof -
        have "dot (comb a e b f k g) e = a * dot e e + b * dot e f + k * dot e g"
          "dot (comb a e b f k g) f = a * dot e f + b * dot f f + k * dot f g"
          by (cases e; cases f; cases g; simp add: algebra_simps)+
        then show "dot (comb a e b f k g) e = a" "dot (comb a e b f k g) f = b"
          using on cross_orthonormal [OF on] by (simp_all add: orthonormal_def d(6))
      qed
      ultimately show "X = x \<and> Y = y" by metis
    qed (auto simp: P)
    ultimately show ?thesis by simp
  qed
  ultimately show ?thesis by (rule that)
qed

text \<open>
  Property C17.  Correctness of the closed form: for three anchors that are not on one line, with any
  finite ranges, \<open>trilaterate\<close> returns two finite points, and if the three spheres meet at all then
  their intersection consists of exactly these two points.
\<close>

theorem trilaterate_solutions:
  assumes "cross (sub A1 A0) (sub A2 A0) \<noteq> (0, 0, 0)"
  shows "\<exists>PA PB. trilaterate [anchor_of A0 r0, anchor_of A1 r1, anchor_of A2 r2] = Some (location_of PA, location_of PB)
    \<and> ((\<exists>P. on_sphere P A0 r0 \<and> on_sphere P A1 r1 \<and> on_sphere P A2 r2)
        \<longrightarrow> {P. on_sphere P A0 r0 \<and> on_sphere P A1 r1 \<and> on_sphere P A2 r2} = {PA, PB})"
proof -
  obtain L h where L: "trilaterate [anchor_of A0 r0, anchor_of A1 r1, anchor_of A2 r2]
       = Some (location_of (L (sqrt (max 0 h))), location_of (L (- sqrt (max 0 h))))"
    "\<And>z. power_of (L z) A0 r0 = z\<^sup>2 - h" "\<And>P. equal_powers P A0 r0 A1 r1 A2 r2 \<longleftrightarrow> (\<exists>z. P = L z)"
    by (rule trilaterate_line [OF assms, of r0 r1 r2]) (rule that)
  have meet: "on_sphere P A0 r0 \<and> on_sphere P A1 r1 \<and> on_sphere P A2 r2 \<longleftrightarrow> (\<exists>z. P = L z \<and> z\<^sup>2 = h)" for P
  proof -
    have "on_sphere P A0 r0 \<and> on_sphere P A1 r1 \<and> on_sphere P A2 r2 \<longleftrightarrow>
        equal_powers P A0 r0 A1 r1 A2 r2 \<and> on_sphere P A0 r0" by (auto simp: equal_powers_def)
    then show ?thesis using L(2,3) by auto
  qed
  have "z\<^sup>2 = h \<longleftrightarrow> z = sqrt (max 0 h) \<or> z = - sqrt (max 0 h)" if "0 \<le> h" for z
    using that power2_eq_iff [of z "sqrt h"] by (simp add: max_absorb2)
  then have "{P. on_sphere P A0 r0 \<and> on_sphere P A1 r1 \<and> on_sphere P A2 r2} = {L (sqrt (max 0 h)), L (- sqrt (max 0 h))}"
    if "0 \<le> h" using that unfolding meet by auto
  moreover have "0 \<le> h" if "on_sphere P A0 r0 \<and> on_sphere P A1 r1 \<and> on_sphere P A2 r2" for P
    using that unfolding meet by auto
  ultimately show ?thesis using L(1) by blast
qed

theorem trilaterate_solutions_witness:
  "\<exists>PA PB. trilaterate [anchor_of (0, 0, 0) 3, anchor_of (4, 0, 0) 3, anchor_of (0, 4, 0) 3] = Some (location_of PA, location_of PB)
    \<and> {P. on_sphere P (0, 0, 0) 3 \<and> on_sphere P (4, 0, 0) 3 \<and> on_sphere P (0, 4, 0) 3} = {PA, PB}"
proof -
  have "\<exists>P. on_sphere P (0, 0, 0) 3 \<and> on_sphere P (4, 0, 0) 3 \<and> on_sphere P (0, 4, 0) 3"
    by (rule exI [of _ "(2, 2, 1)"]) (simp add: power_of_def)
  moreover have "cross (sub (4, 0, 0) (0, 0, 0)) (sub (0, 4, 0) (0, 0, 0)) \<noteq> (0, 0, 0)" by simp
  ultimately show ?thesis using trilaterate_solutions by blast
qed

text \<open>
  Property C30.  Inconsistent ranges: when the three spheres have no common point, the two results
  are one point, which has the same power with respect to the three spheres, the least possible for
  such a point.
\<close>

theorem trilaterate_compromise:
  assumes "cross (sub A1 A0) (sub A2 A0) \<noteq> (0, 0, 0)"
    and "\<not> (\<exists>P. on_sphere P A0 r0 \<and> on_sphere P A1 r1 \<and> on_sphere P A2 r2)"
  shows "\<exists>P. trilaterate [anchor_of A0 r0, anchor_of A1 r1, anchor_of A2 r2] = Some (location_of P, location_of P)
    \<and> equal_powers P A0 r0 A1 r1 A2 r2
    \<and> (\<forall>Q. equal_powers Q A0 r0 A1 r1 A2 r2 \<longrightarrow> power_of P A0 r0 \<le> power_of Q A0 r0)"
proof -
  obtain L h where L: "trilaterate [anchor_of A0 r0, anchor_of A1 r1, anchor_of A2 r2]
       = Some (location_of (L (sqrt (max 0 h))), location_of (L (- sqrt (max 0 h))))"
    "\<And>z. power_of (L z) A0 r0 = z\<^sup>2 - h" "\<And>P. equal_powers P A0 r0 A1 r1 A2 r2 \<longleftrightarrow> (\<exists>z. P = L z)"
    by (rule trilaterate_line [OF assms(1), of r0 r1 r2]) (rule that)
  have "h < 0"
  proof (rule ccontr)
    assume "\<not> h < 0"
    then have "on_sphere (L (sqrt h)) A0 r0" "equal_powers (L (sqrt h)) A0 r0 A1 r1 A2 r2"
      using L(2,3) by auto
    then show False using assms(2) unfolding equal_powers_def by metis
  qed
  then have "sqrt (max 0 h) = 0" by (simp add: max_def)
  then show ?thesis using L by (intro exI [of _ "L 0"]) auto
qed

theorem trilaterate_compromise_witness:
  "\<exists>P. trilaterate [anchor_of (0, 0, 0) 1, anchor_of (4, 0, 0) 1, anchor_of (0, 4, 0) 1] = Some (location_of P, location_of P)
    \<and> equal_powers P (0, 0, 0) 1 (4, 0, 0) 1 (0, 4, 0) 1"
proof -
  have "\<not> (\<exists>P. on_sphere P (0, 0, 0) 1 \<and> on_sphere P (4, 0, 0) 1 \<and> on_sphere P (0, 4, 0) 1)"
  proof
    assume "\<exists>P. on_sphere P (0, 0, 0) 1 \<and> on_sphere P (4, 0, 0) 1 \<and> on_sphere P (0, 4, 0) 1"
    then obtain x y z :: real where "x * x + y * y + z * z = 1" "(x - 4) * (x - 4) + y * y + z * z = 1"
      by (auto simp: power_of_def)
    then have "x = 2" by algebra
    moreover have "x * x \<le> 1"
      using \<open>x * x + y * y + z * z = 1\<close> zero_le_square [of y] zero_le_square [of z] by linarith
    ultimately show False by simp
  qed
  moreover have "cross (sub (4, 0, 0) (0, 0, 0)) (sub (0, 4, 0) (0, 0, 0)) \<noteq> (0, 0, 0)" by simp
  ultimately show ?thesis using trilaterate_compromise by blast
qed

text \<open>A fourth anchor that is not in the plane of the other three decides between the points.\<close>

lemma four_spheres_one_point:
  assumes "on_sphere P A0 r0" "on_sphere P A1 r1" "on_sphere P A2 r2" "on_sphere P A3 r3"
    and "on_sphere Q A0 r0" "on_sphere Q A1 r1" "on_sphere Q A2 r2" "on_sphere Q A3 r3"
    and "dot (cross (sub A1 A0) (sub A2 A0)) (sub A3 A0) \<noteq> 0"
  shows "P = Q"
proof -
  let ?d = "sub P Q"
  have "2 * dot ?d (sub A A0) = power_of P A0 r0 - power_of P A r - (power_of Q A0 r0 - power_of Q A r)" for A r
    by (cases P; cases Q; cases A; cases A0) (simp add: power_of_def algebra_simps)
  then have z: "dot ?d (sub A1 A0) = 0" "dot ?d (sub A2 A0) = 0" "dot ?d (sub A3 A0) = 0"
    using assms by (smt (verit))+
  obtain p1 p2 p3 q1 q2 q3 s1 s2 s3 d1 d2 d3 where
    v: "sub A1 A0 = (p1, p2, p3)" "sub A2 A0 = (q1, q2, q3)" "sub A3 A0 = (s1, s2, s3)" "?d = (d1, d2, d3)"
    by (metis surj_pair)
  define D where "D = dot (cross (sub A1 A0) (sub A2 A0)) (sub A3 A0)"
  have "d1 * D = 0" "d2 * D = 0" "d3 * D = 0"
    using z unfolding D_def v dot.simps cross.simps by algebra+
  then have "?d = (0, 0, 0)" using assms(9) v by (simp add: D_def)
  then show ?thesis by (cases P; cases Q) simp
qed

lemma square_distance_power:
  "square_distance (location_of P) (anchor_of A r) - coord (anchor_of A r) 3 * coord (anchor_of A r) 3 = Fin (power_of P A r)"
  by (simp add: square_distance_def power_of_def power2_eq_square)

lemma nearest_finder_finite:
  "nearest_finder (anchor_of A r) (location_of P) (location_of Q)
     = (if \<bar>power_of P A r\<bar> < \<bar>power_of Q A r\<bar> then location_of P else location_of Q)"
  unfolding nearest_finder_def Let_def square_distance_power by simp

text \<open>
  Property C8.  Locating a tag: when four anchors that are not in one plane report their exact
  distances from a point, the script finds this point.
\<close>

theorem exact_ranges_locate:
  assumes general: "dot (cross (sub A1 A0) (sub A2 A0)) (sub A3 A0) \<noteq> 0"
    and P: "on_sphere P A0 r0" "on_sphere P A1 r1" "on_sphere P A2 r2" "on_sphere P A3 r3"
  shows "locate [anchor_of A0 r0, anchor_of A1 r1, anchor_of A2 r2, anchor_of A3 r3] = Some (location_of P)"
proof -
  have "cross (sub A1 A0) (sub A2 A0) \<noteq> (0, 0, 0)"
    using general by (cases "sub A3 A0") auto
  then obtain L h where L: "trilaterate [anchor_of A0 r0, anchor_of A1 r1, anchor_of A2 r2]
       = Some (location_of (L (sqrt (max 0 h))), location_of (L (- sqrt (max 0 h))))"
    "\<And>z. power_of (L z) A0 r0 = z\<^sup>2 - h" "\<And>P. equal_powers P A0 r0 A1 r1 A2 r2 \<longleftrightarrow> (\<exists>z. P = L z)"
    by (rule trilaterate_line [of A1 A0 A2 r0 r1 r2]) (rule that)
  define z where "z = sqrt (max 0 h)"
  obtain z' where z': "P = L z'" using L(3) P(1-3) by (metis equal_powers_def)
  then have h: "z'\<^sup>2 = h" using L(2) P(1) by simp
  then have "z = \<bar>z'\<bar>" by (auto simp: z_def max_def)
  then have here: "P = L z \<or> P = L (- z)" using z' by (auto simp: abs_if)
  have three: "on_sphere (L w) A0 r0 \<and> on_sphere (L w) A1 r1 \<and> on_sphere (L w) A2 r2" if "w\<^sup>2 = h" for w
    using L(2,3) that by (metis equal_powers_def diff_self)
  have unique: "L w = P" if "w\<^sup>2 = h" "on_sphere (L w) A3 r3" for w
    using three [OF that(1)] that(2) P general by (blast intro: four_spheres_one_point)
  have sq: "z\<^sup>2 = h" "(- z)\<^sup>2 = h" using h \<open>z = \<bar>z'\<bar>\<close> by auto
  have "nearest_finder (anchor_of A3 r3) (location_of (L z)) (location_of (L (- z))) = location_of P"
    unfolding nearest_finder_finite using here unique [OF sq(1)] unique [OF sq(2)] P(4) by auto
  then show ?thesis by (simp add: locate_def L(1) flip: z_def)
qed

theorem exact_ranges_locate_witness:
  "locate [anchor_of (0, 0, 0) 3, anchor_of (4, 0, 0) 3, anchor_of (0, 4, 0) 3, anchor_of (2, 2, 3) 2]
     = Some [Fin 2, Fin 2, Fin 1]"
  using exact_ranges_locate [of "(4, 0, 0)" "(0, 0, 0)" "(0, 4, 0)" "(2, 2, 3)" "(2, 2, 1)" 3 3 3 2]
  by (simp add: power_of_def)

lemma original_point_NaF:
  "original_point A x y z e (NaF, NaF, NaF) g = [NaF, NaF, NaF]"
  by (cases A; cases e; cases g) simp

lemma collinear_frame:
  assumes "cross p q = (0, 0, 0)"
  obtains U Vx Vy e g where "standard_frame (fin_vec p) (fin_vec q) = (U, Vx, Vy, e, (NaF, NaF, NaF), g)"
proof (cases "dot p p = 0")
  case True
  then have "p = (0, 0, 0)" by (rule dot_zero)
  then show ?thesis using that by (cases q) (simp add: standard_frame_def)
next
  case False
  have "frame_y p q = 0"
  proof (rule ccontr)
    assume y: "frame_y p q \<noteq> 0"
    define e f where "e = frame_e p" "f = frame_f p q"
    have on: "orthonormal e f" unfolding e_f_def by (rule frame_orthonormal [OF False y])
    have "p = comb (sqrt (dot p p)) e 0 f 0 (0, 0, 0)" "q = comb (frame_x p q) e (frame_y p q) f 0 (0, 0, 0)"
      using anchors_in_frame [OF False y] unfolding e_f_def by blast+
    then have "cross p q = cross (comb (sqrt (dot p p)) e 0 f 0 (0, 0, 0)) (comb (frame_x p q) e (frame_y p q) f 0 (0, 0, 0))" by simp
    also have "\<dots> = scl (sqrt (dot p p) * frame_y p q) (cross e f)"
      by (cases e; cases f) (simp add: algebra_simps)
    finally have "scl (sqrt (dot p p) * frame_y p q) (cross e f) = (0, 0, 0)" using assms by simp
    then have "cross e f = (0, 0, 0)" using False y by (cases "cross e f") auto
    then show False using cross_orthonormal(1) [OF on] by simp
  qed
  then have "frame_rest p q = (0, 0, 0)" by (intro dot_zero) (simp add: frame_y_def)
  then show ?thesis
    using that False
    by (simp add: standard_frame_def Let_def not_less flip: frame_e_def frame_x_def frame_rest_def)
qed

text \<open>
  Property C40.  Coinciding anchors: when the second or the third anchor stands where the first one does,
  every coordinate of the result is \<open>NaN\<close>; the script has no guard.  The difference of equal coordinates
  is exactly zero, so this does not rest on exact numbers.
\<close>

theorem coinciding_anchors_give_NaN:
  "locate [anchor_of A r0, anchor_of A r1, anchor_of B r2, s] = Some [NaF, NaF, NaF] \<and>
   locate [anchor_of A r0, anchor_of B r1, anchor_of A r2, s] = Some [NaF, NaF, NaF]"
proof -
  have "locate [anchor_of A r0, anchor_of A1 r1, anchor_of A2 r2, s] = Some [NaF, NaF, NaF]"
    if same: "A1 = A \<or> A2 = A" for A1 A2
  proof -
    have "cross (sub A1 A) (sub A2 A) = (0, 0, 0)"
      using same by (cases A; cases A1; cases A2) auto
    then obtain U Vx Vy e g where "standard_frame (fin_vec (sub A1 A)) (fin_vec (sub A2 A)) = (U, Vx, Vy, e, (NaF, NaF, NaF), g)"
      by (rule collinear_frame)
    then have "trilaterate [anchor_of A r0, anchor_of A1 r1, anchor_of A2 r2] = Some ([NaF, NaF, NaF], [NaF, NaF, NaF])"
      by (simp add: trilaterate_def original_point_NaF split: prod.split)
    then show ?thesis by (simp add: locate_def nearest_finder_def)
  qed
  then show ?thesis by blast
qed

end
