(* ===== verification/Js_Text.thy ===== *)
theory Js_Text
  imports Js_Prelude Js_Float
begin

text \<open>
  Methods of \<open>String\<close> that the scripts use, and the conversions of texts to numbers.  No definition of
  this theory models a line of the repository.
\<close>

section \<open>String methods\<close>

text \<open>\<open>split\<close> with a separator of one code unit, \<open>join\<close>, \<open>trim\<close>, and \<open>replace\<close> of every occurrence of a code unit.\<close>

fun js_split :: "code_unit \<Rightarrow> js_string \<Rightarrow> js_string list" where
  "js_split sep [] = [[]]"
| "js_split sep (c # cs) =
     (if c = sep then [] # js_split sep cs
      else (c # hd (js_split sep cs)) # tl (js_split sep cs))"

fun js_join :: "js_string \<Rightarrow> js_string list \<Rightarrow> js_string" where
  "js_join sep [] = []"
| "js_join sep [p] = p"
| "js_join sep (p # ps) = p @ sep @ js_join sep ps"

definition white_space :: "code_unit \<Rightarrow> bool" where
  "white_space c = (c \<in> {0x9, 0xA, 0xB, 0xC, 0xD, 0x20, 0xA0, 0x1680, 0x2028, 0x2029, 0x202F, 0x205F, 0x3000, 0xFEFF}
     \<or> 0x2000 \<le> c \<and> c \<le> 0x200A)"

definition js_trim :: "js_string \<Rightarrow> js_string" where
  "js_trim s = rev (dropWhile white_space (rev (dropWhile white_space s)))"

definition replace_all :: "code_unit \<Rightarrow> js_string \<Rightarrow> js_string \<Rightarrow> js_string" where
  "replace_all c t s = concat (map (\<lambda>x. if x = c then t else [x]) s)"

text \<open>
  \<open>toLowerCase\<close> as far as the scripts can tell: the letters of ASCII and the two other characters
  whose lower case contains one.
\<close>

definition lower_char :: "code_unit \<Rightarrow> js_string" where
  "lower_char c =
     (if 65 \<le> c \<and> c \<le> 90 then [c + 32]
      else if c = 0x212A then [107]
      else if c = 0x130 then [105, 0x307]
      else [c])"

definition toLowerCase :: "js_string \<Rightarrow> js_string" where
  "toLowerCase s = concat (map lower_char s)"

abbreviation minus_sign :: code_unit where "minus_sign \<equiv> 45"
abbreviation blank :: code_unit where "blank \<equiv> 32"
abbreviation dquote :: code_unit where "dquote \<equiv> 34"
abbreviation semicolon :: code_unit where "semicolon \<equiv> 59"
abbreviation colon_sign :: code_unit where "colon_sign \<equiv> 58"

lemma js_split_not_Nil [simp]: "js_split sep s \<noteq> []"
  by (induction s) auto

lemma js_split_id [simp]: "sep \<notin> set s \<Longrightarrow> js_split sep s = [s]"
  by (induction s) auto

lemma js_split_append: "sep \<notin> set s \<Longrightarrow> js_split sep (s @ sep # t) = s # js_split sep t"
  by (induction s) auto

lemma js_split_join: "ps \<noteq> [] \<Longrightarrow> \<forall>p \<in> set ps. sep \<notin> set p \<Longrightarrow> js_split sep (js_join [sep] ps) = ps"
  by (induction "[sep]" ps rule: js_join.induct) (auto simp: js_split_append)

lemma js_join_Cons: "js_join sep (p # ps) = (if ps = [] then p else p @ sep @ js_join sep ps)"
  by (cases ps) auto

lemma js_join_split: "js_join [sep] (js_split sep s) = s"
proof (induction s)
  case (Cons c s)
  obtain p ps where s: "js_split sep s = p # ps" by (cases "js_split sep s") auto
  then show ?case using Cons by (auto simp: js_join_Cons)
qed simp

lemma js_trim_id: "s = [] \<or> \<not> white_space (hd s) \<and> \<not> white_space (last s) \<Longrightarrow> js_trim s = s"
  by (cases s) (auto simp: js_trim_def hd_rev [symmetric] dropWhile_eq_self_iff)

section \<open>Numbers in texts\<close>

definition digit_char :: "code_unit \<Rightarrow> bool" where
  "digit_char c = (48 \<le> c \<and> c \<le> 57)"

fun digits_value :: "int \<Rightarrow> js_string \<Rightarrow> int" where
  "digits_value acc [] = acc"
| "digits_value acc (c # cs) = digits_value (10 * acc + (uint c - 48)) cs"

text \<open>An exponent that is not complete is not part of the number.\<close>

definition exponent_value :: "js_string \<Rightarrow> int" where
  "exponent_value s =
     (if s \<noteq> [] \<and> (hd s = 101 \<or> hd s = 69) then
        (let neg = (tl s \<noteq> [] \<and> hd (tl s) = 45);
             ds = takeWhile digit_char (if tl s \<noteq> [] \<and> (hd (tl s) = 45 \<or> hd (tl s) = 43) then tl (tl s) else tl s)
         in if neg then - digits_value 0 ds else digits_value 0 ds)
      else 0)"

definition scaled :: "real \<Rightarrow> int \<Rightarrow> real" where
  "scaled v e = (if e < 0 then v / 10 ^ nat (- e) else v * 10 ^ nat e)"

text \<open>From this number on a decimal is read as infinity: it is halfway between the last double and \<open>2 ^ 1024\<close>.\<close>

definition overflow_limit :: real where
  "overflow_limit = 2 ^ 1024 - 2 ^ 970"

definition parse_unsigned :: "js_string \<Rightarrow> js_float" where
  "parse_unsigned u =
     (if take 8 u = js ''Infinity'' then Infinite False
      else
        (let ip = takeWhile digit_char u; r = drop (length ip) u;
             point = (r \<noteq> [] \<and> hd r = 46);
             fp = (if point then takeWhile digit_char (tl r) else []);
             r' = (if point then drop (length fp) (tl r) else r);
             v = scaled (of_int (digits_value 0 (ip @ fp))) (exponent_value r' - int (length fp))
         in if ip = [] \<and> fp = [] then NaF else if overflow_limit \<le> v then Infinite False else Fin v))"

definition parseFloat :: "js_string \<Rightarrow> js_float" where
  "parseFloat s =
     (let t = dropWhile white_space s in
      if t \<noteq> [] \<and> hd t = minus_sign then - parse_unsigned (tl t)
      else if t \<noteq> [] \<and> hd t = 43 then parse_unsigned (tl t)
      else parse_unsigned t)"

text \<open>
  The conversion of a text to a number, which \<open>isNaN\<close> uses: the whole text has to be a number, and a
  blank text is zero.
\<close>

definition whole_number :: "js_string \<Rightarrow> bool" where
  "whole_number u =
     (u = js ''Infinity'' \<or>
      (let ip = takeWhile digit_char u; r = drop (length ip) u;
           point = (r \<noteq> [] \<and> hd r = 46);
           fp = (if point then takeWhile digit_char (tl r) else []);
           r' = (if point then drop (length fp) (tl r) else r);
           e = (if r' \<noteq> [] \<and> (hd r' = 101 \<or> hd r' = 69) then tl r' else []);
           ds = (if e \<noteq> [] \<and> (hd e = 45 \<or> hd e = 43) then tl e else e)
       in (ip \<noteq> [] \<or> fp \<noteq> []) \<and> (r' = [] \<or> ds \<noteq> [] \<and> (\<forall>c \<in> set ds. digit_char c))))"

definition radix_digits :: "nat \<Rightarrow> js_string \<Rightarrow> bool" where
  "radix_digits base ds =
     (ds \<noteq> [] \<and> (\<forall>c \<in> set ds. digit_char c \<and> unat c - 48 < base
        \<or> base = 16 \<and> (65 \<le> c \<and> c \<le> 70 \<or> 97 \<le> c \<and> c \<le> 102)))"

definition is_number_text :: "js_string \<Rightarrow> bool" where
  "is_number_text s =
     (let t = js_trim s; p = take 2 t in
      t = []
      \<or> (p = js ''0x'' \<or> p = js ''0X'') \<and> radix_digits 16 (drop 2 t)
      \<or> (p = js ''0o'' \<or> p = js ''0O'') \<and> radix_digits 8 (drop 2 t)
      \<or> (p = js ''0b'' \<or> p = js ''0B'') \<and> radix_digits 2 (drop 2 t)
      \<or> whole_number (if hd t = minus_sign \<or> hd t = 43 then tl t else t))"

end
