(* ===== verification/Fa_Text.thy ===== *)
theory Fa_Text
  imports Js_Object Js_Text
begin

text \<open>
  The string routines of \<open>fontawesome.js\<close>: escaping of HTML text, attribute and style lists and their
  parser, the code points of icon names, class names, and the HTML text of an abstract node.  An
  object with string properties is a \<open>storage\<close> in the order of insertion; the property names the
  script uses are not array indices.
\<close>

section \<open>HTML text\<close>

definition htmlEscape :: "js_string \<Rightarrow> js_string" where
  "htmlEscape str =
     replace_all 62 (js ''&gt;'') (replace_all 60 (js ''&lt;'') (replace_all 39 (js ''&#39;'')
       (replace_all 34 (js ''&quot;'') (replace_all 38 (js ''&amp;'') str))))"

type_synonym attributes = "(js_string, js_string) storage"

definition own_prop :: "attributes \<Rightarrow> js_string \<Rightarrow> js_string" where
  "own_prop d k = (case getItem d k of None \<Rightarrow> js ''undefined'' | Some v \<Rightarrow> v)"

definition joinAttributes :: "attributes \<Rightarrow> js_string" where
  "joinAttributes attrs =
     js_trim (foldl (\<lambda>acc name. acc @ name @ [61, dquote] @ htmlEscape (own_prop attrs name) @ [dquote, blank])
       [] (storage_keys attrs))"

definition joinStyles :: "attributes \<Rightarrow> js_string" where
  "joinStyles styles =
     foldl (\<lambda>acc name. acc @ name @ js '': '' @ own_prop styles name @ [semicolon]) [] (storage_keys styles)"

definition styleParser :: "js_string option \<Rightarrow> attributes" where
  "styleParser style =
     (if style = None \<or> style = Some [] then []
      else fold (\<lambda>s acc.
              let parts = js_split colon_sign s; p = hd parts; v = tl parts in
              if p \<noteq> [] \<and> v \<noteq> [] then setItem p (js_trim (js_join [colon_sign] v)) acc else acc)
            (js_split semicolon (the style)) [])"

text \<open>
  The abstract nodes: text, or an element whose attributes and children may be missing.
\<close>

datatype abstract_node =
    A_text js_string
  | A_tag (a_tag: js_string) (a_attributes: "attributes option") (a_children: "abstract_node list option")

fun toHtml :: "abstract_node \<Rightarrow> js_string" where
  "toHtml (A_text s) = htmlEscape s"
| "toHtml (A_tag tag attrs children) =
     [60] @ tag @ [blank] @ joinAttributes (case attrs of None \<Rightarrow> [] | Some a \<Rightarrow> a) @ [62]
     @ concat (case children of None \<Rightarrow> [] | Some cs \<Rightarrow> map toHtml cs) @ [60, 47] @ tag @ [62]"

section \<open>Code points\<close>

definition toHex :: "js_string \<Rightarrow> js_string" where
  "toHex s = concat (map (\<lambda>c. let t = js ''000'' @ nat_str 16 (nat (uint c)) in drop (length t - 4) t) s)"

text \<open>Reading past the end gives \<open>NaN\<close>, \<open>None\<close> here.\<close>

definition codePointAt :: "js_string \<Rightarrow> nat \<Rightarrow> int option" where
  "codePointAt s i =
     (if i < length s then
        (let first = uint (s ! i) in
         if 0xD800 \<le> first \<and> first \<le> 0xDBFF \<and> length s > i + 1 then
           (let second = uint (s ! (i + 1)) in
            if 0xDC00 \<le> second \<and> second \<le> 0xDFFF
            then Some ((first - 0xD800) * 0x400 + second - 0xDC00 + 0x10000) else Some first)
         else Some first)
      else None)"

definition isPrivateUnicode :: "js_string \<Rightarrow> bool" where
  "isPrivateUnicode iconName =
     (if length iconName \<noteq> 1 then False
      else (case codePointAt iconName 0 of None \<Rightarrow> False | Some cp \<Rightarrow> 57344 \<le> cp \<and> cp \<le> 63743))"

section \<open>Class names\<close>

definition oneToTen :: "nat list" where "oneToTen = [1, 2, 3, 4, 5, 6, 7, 8, 9, 10]"
definition oneToTwenty :: "nat list" where "oneToTwenty = oneToTen @ [11, 12, 13, 14, 15, 16, 17, 18, 19, 20]"

definition RESERVED_CLASSES :: "js_string list" where
  "RESERVED_CLASSES =
     map js [''xs'', ''sm'', ''lg'', ''fw'', ''ul'', ''li'', ''border'', ''pull-left'', ''pull-right'', ''spin'',
       ''pulse'', ''rotate-90'', ''rotate-180'', ''rotate-270'', ''flip-horizontal'', ''flip-vertical'',
       ''flip-both'', ''stack'', ''stack-1x'', ''stack-2x'', ''inverse'', ''layers'', ''layers-text'',
       ''layers-counter'', ''group'', ''swap-opacity'', ''primary'', ''secondary'']
     @ map (\<lambda>n. nat_str 10 n @ js ''x'') oneToTen
     @ map (\<lambda>n. js ''w-'' @ nat_str 10 n) oneToTwenty"

definition isReserved :: "js_string \<Rightarrow> bool" where
  "isReserved name = (name \<in> set RESERVED_CLASSES)"

definition getIconName :: "js_string \<Rightarrow> js_string \<Rightarrow> js_string option" where
  "getIconName familyPrefix cls =
     (let parts = js_split minus_sign cls; prefix = hd parts; iconName = js_join [minus_sign] (tl parts) in
      if prefix = familyPrefix \<and> iconName \<noteq> [] \<and> \<not> isReserved iconName then Some iconName else None)"

text \<open>The elements of the page, as far as the script reads them.\<close>

record dom_node =
  n_attributes :: attributes
  classList :: "js_string list option"
  innerText :: "js_string option"

definition getAttribute :: "dom_node \<Rightarrow> js_string \<Rightarrow> js_string option" where
  "getAttribute node name = getItem (n_attributes node) name"

definition toArray :: "'a list option \<Rightarrow> 'a list" where
  "toArray obj = (case obj of None \<Rightarrow> [] | Some xs \<Rightarrow> xs)"

definition classArray :: "dom_node \<Rightarrow> js_string list" where
  "classArray node =
     (if classList node \<noteq> None then toArray (classList node)
      else filter (\<lambda>i. i \<noteq> [])
        (js_split blank (case getAttribute node (js ''class'') of None \<Rightarrow> [] | Some s \<Rightarrow> s)))"

definition idPool :: js_string where
  "idPool = js ''0123456789abcdefghijklmnopqrstuvwxyzABCDEFGHIJKLMNOPQRSTUVWXYZ''"

text \<open>The numbers \<open>Math.random() * 62 | 0\<close> are the argument.\<close>

definition nextUniqueId :: "nat list \<Rightarrow> js_string" where
  "nextUniqueId picks = map (\<lambda>k. idPool ! k) (take 12 picks)"

section \<open>Escaping\<close>

text \<open>The inverse of escaping: the entities that \<open>htmlEscape\<close> writes are read back.\<close>

fun unescape :: "js_string \<Rightarrow> js_string" where
  "unescape [] = []"
| "unescape (c # cs) =
     (if c \<noteq> 38 then c # unescape cs
      else if take 4 cs = js ''amp;'' then 38 # unescape (drop 4 cs)
      else if take 5 cs = js ''quot;'' then 34 # unescape (drop 5 cs)
      else if take 4 cs = js ''#39;'' then 39 # unescape (drop 4 cs)
      else if take 3 cs = js ''lt;'' then 60 # unescape (drop 3 cs)
      else if take 3 cs = js ''gt;'' then 62 # unescape (drop 3 cs)
      else 38 # unescape cs)"

definition escape_char :: "code_unit \<Rightarrow> js_string" where
  "escape_char c =
     (if c = 38 then js ''&amp;'' else if c = 34 then js ''&quot;'' else if c = 39 then js ''&#39;''
      else if c = 60 then js ''&lt;'' else if c = 62 then js ''&gt;'' else [c])"

lemma replace_all_simps [simp]:
  "replace_all c t [] = []"
  "replace_all c t (x # s) = (if x = c then t else [x]) @ replace_all c t s"
  "replace_all c t (s @ s') = replace_all c t s @ replace_all c t s'"
  by (simp_all add: replace_all_def)

text \<open>The five passes are one pass: no pass touches what an earlier one wrote.\<close>

lemma htmlEscape_single_pass: "htmlEscape s = concat (map escape_char s)"
proof -
  have one: "htmlEscape [c] = escape_char c" for c by (simp add: htmlEscape_def escape_char_def)
  have "htmlEscape (c # s) = htmlEscape [c] @ htmlEscape s" for c s by (simp add: htmlEscape_def)
  then have "htmlEscape (c # s) = escape_char c @ htmlEscape s" for c s by (simp only: one)
  then show ?thesis by (induction s) (simp_all add: htmlEscape_def [of "[]"])
qed

lemma unescape_char: "unescape (escape_char c @ t) = c # unescape t"
  by (simp add: escape_char_def)

lemma unescape_htmlEscape: "unescape (htmlEscape s @ t) = s @ unescape t"
  by (induction s) (simp_all add: htmlEscape_single_pass unescape_char)

lemma escaped_chars: "set (htmlEscape s) \<inter> {34, 39, 60, 62} = {}"
proof -
  have "set (escape_char c) \<inter> {34, 39, 60, 62} = {}" for c by (simp add: escape_char_def)
  then show ?thesis by (auto simp: htmlEscape_single_pass)
qed

text \<open>
  Escaping is safe and loses nothing: the escaped text has no quote and no angle
  bracket, so it ends neither an attribute value nor a text node, and it decodes to the text.
\<close>

theorem htmlEscape_round_trip:
  "unescape (htmlEscape s) = s \<and> set (htmlEscape s) \<inter> {34, 39, 60, 62} = {}"
  using unescape_htmlEscape [of s "[]"] escaped_chars [of s] by simp

section \<open>Style lists\<close>

definition style_ok :: "attributes \<Rightarrow> bool" where
  "style_ok styles \<longleftrightarrow> storage_ok styles \<and>
     (\<forall>(p, v) \<in> set styles. p \<noteq> [] \<and> set p \<inter> {colon_sign, semicolon} = {} \<and> semicolon \<notin> set v
        \<and> (v \<noteq> [] \<longrightarrow> \<not> white_space (hd v) \<and> \<not> white_space (last v)))"

lemma own_prop_in: "storage_ok d \<Longrightarrow> (k, v) \<in> set d \<Longrightarrow> own_prop d k = v"
  by (simp add: own_prop_def getItem_def storage_ok_def)

lemma foldl_concat: "foldl (\<lambda>acc x. acc @ f x) acc xs = acc @ concat (map f xs)"
  by (induction xs arbitrary: acc) auto

lemma concat_keys:
  "storage_ok d \<Longrightarrow> concat (map (\<lambda>k. f k (own_prop d k)) (storage_keys d)) = concat (map (\<lambda>(k, v). f k v) d)"
  by (auto simp: storage_keys_def own_prop_in intro!: arg_cong [of _ _ concat] map_cong)

lemma joinStyles_concat:
  "storage_ok d \<Longrightarrow> joinStyles d = concat (map (\<lambda>(p, v). p @ js '': '' @ v @ [semicolon]) d)"
  unfolding joinStyles_def foldl_concat using concat_keys [of d "\<lambda>p v. p @ js '': '' @ v @ [semicolon]"] by simp

lemma split_styles:
  "(\<forall>(p, v) \<in> set d. semicolon \<notin> set p \<and> semicolon \<notin> set v) \<Longrightarrow>
   js_split semicolon (concat (map (\<lambda>(p, v). p @ js '': '' @ v @ [semicolon]) d)) = map (\<lambda>(p, v). p @ js '': '' @ v) d @ [[]]"
proof (induction d)
  case (Cons x d)
  obtain p v where x: "x = (p, v)" by (cases x)
  have "semicolon \<notin> set (p @ js '': '' @ v)" using Cons.prems x by auto
  from js_split_append [OF this] Cons show ?case by (simp add: x)
qed simp

lemma white_blank [simp]: "white_space blank"
  by (simp add: white_space_def)

lemma style_entry:
  assumes "p \<noteq> []" "colon_sign \<notin> set p" "v \<noteq> [] \<longrightarrow> \<not> white_space (hd v) \<and> \<not> white_space (last v)"
  shows "hd (js_split colon_sign (p @ js '': '' @ v)) = p"
    and "tl (js_split colon_sign (p @ js '': '' @ v)) \<noteq> []"
    and "js_trim (js_join [colon_sign] (tl (js_split colon_sign (p @ js '': '' @ v)))) = v"
proof -
  have s: "js_split colon_sign (p @ js '': '' @ v) = p # js_split colon_sign (blank # v)"
    using js_split_append [OF assms(2), of "blank # v"] by simp
  have "js_trim (blank # v) = js_trim v" by (simp add: js_trim_def)
  then show "js_trim (js_join [colon_sign] (tl (js_split colon_sign (p @ js '': '' @ v)))) = v"
    unfolding s using assms(3) js_trim_id [of v] by (simp only: list.sel js_join_split) blast
qed (simp_all add: js_split_append [OF assms(2), of "blank # v"])

text \<open>
  Styles survive being written and parsed: property names without colon and semicolon,
  and values without semicolon and without surrounding white space, in their order.
\<close>

theorem style_round_trip:
  assumes "style_ok styles"
  shows "styleParser (Some (joinStyles styles)) = styles"
proof (cases "styles = []")
  case True
  then show ?thesis by (simp add: styleParser_def joinStyles_def storage_keys_def)
next
  case False
  let ?step = "\<lambda>s acc. let parts = js_split colon_sign s; p = hd parts; v = tl parts in
      if p \<noteq> [] \<and> v \<noteq> [] then setItem p (js_trim (js_join [colon_sign] v)) acc else acc"
  have "fold ?step (map (\<lambda>(p, v). p @ js '': '' @ v) d) acc = acc @ d" if "style_ok (acc @ d)" for d acc
    using that
  proof (induction d arbitrary: acc)
    case (Cons x d)
    obtain p v where x: "x = (p, v)" by (cases x)
    have ok: "p \<noteq> []" "colon_sign \<notin> set p" "v \<noteq> [] \<longrightarrow> \<not> white_space (hd v) \<and> \<not> white_space (last v)"
      and new: "p \<notin> fst ` set acc" and IH: "style_ok ((acc @ [(p, v)]) @ d)"
      using Cons.prems by (auto simp: style_ok_def storage_ok_def x)
    have "setItem p v acc = acc @ [(p, v)]" using new by (induction acc) (auto simp: setItem_def)
    then show ?case using Cons.IH [OF IH] style_entry [OF ok] ok(1)
      by (simp add: x Let_def del: js_simps)
  qed simp
  from this [of "[]" styles]
  have "fold ?step (js_split semicolon (joinStyles styles)) [] = styles"
    using assms unfolding joinStyles_concat [OF assms [unfolded style_ok_def, THEN conjunct1]]
    by (subst split_styles) (auto simp: style_ok_def)
  moreover have "joinStyles styles \<noteq> []"
    using False assms by (cases styles) (auto simp: joinStyles_concat style_ok_def)
  ultimately show ?thesis by (simp add: styleParser_def)
qed

theorem style_round_trip_witness:
  "styleParser (Some (joinStyles [(js ''color'', js ''red''), (js ''background'', js ''url(a:b)'')]))
     = [(js ''color'', js ''red''), (js ''background'', js ''url(a:b)'')]"
  by (rule style_round_trip) (simp add: style_ok_def storage_ok_def white_space_def)

end
