(* ===== verification/Fa_Registry.thy ===== *)
theory Fa_Registry
  imports Fa_Text
begin

text \<open>
  The configuration of \<open>fontawesome.js\<close> and its registry of icons: the packs of each style, the
  tables that find an icon by code point, ligature and old name, the \<open>Library\<close> object, and the icon
  that a list of class names stands for.  Properties that objects inherit from their prototype are
  not modelled.
\<close>

section \<open>Configuration\<close>

datatype config_value = Cfg_bool bool | Cfg_text js_string

type_synonym config = "(js_string, config_value) storage"

definition cfg_truthy :: "config \<Rightarrow> string \<Rightarrow> bool" where
  "cfg_truthy C name =
     (case getItem C (js name) of
        None \<Rightarrow> False | Some (Cfg_bool b) \<Rightarrow> b | Some (Cfg_text t) \<Rightarrow> t \<noteq> [])"

definition cfg_text :: "config \<Rightarrow> string \<Rightarrow> js_string" where
  "cfg_text C name =
     (case getItem C (js name) of
        None \<Rightarrow> js ''undefined''
      | Some (Cfg_bool b) \<Rightarrow> (if b then js ''true'' else js ''false'')
      | Some (Cfg_text t) \<Rightarrow> t)"

definition coerce :: "js_string \<Rightarrow> config_value" where
  "coerce val =
     (if val = [] then Cfg_bool True
      else if val = js ''false'' then Cfg_bool False
      else if val = js ''true'' then Cfg_bool True
      else Cfg_text val)"

definition config_attrs :: "(js_string \<times> js_string) list" where
  "config_attrs = map (map_prod js js)
     [(''data-family-prefix'', ''familyPrefix''), (''data-replacement-class'', ''replacementClass''),
      (''data-auto-replace-svg'', ''autoReplaceSvg''), (''data-auto-add-css'', ''autoAddCss''),
      (''data-auto-a11y'', ''autoA11y''), (''data-search-pseudo-elements'', ''searchPseudoElements''),
      (''data-observe-mutations'', ''observeMutations''), (''data-mutate-approach'', ''mutateApproach''),
      (''data-keep-original-source'', ''keepOriginalSource''),
      (''data-measure-performance'', ''measurePerformance''), (''data-show-missing-icons'', ''showMissingIcons'')]"

text \<open>The attributes of the first \<open>script\<close> element that has them override the object of the page.\<close>

definition initial_config :: "(js_string \<Rightarrow> js_string option) \<Rightarrow> config \<Rightarrow> config" where
  "initial_config getAttrConfig initial =
     fold (\<lambda>(attr, key) c. case getAttrConfig attr of None \<Rightarrow> c | Some val \<Rightarrow> setItem key (coerce val) c)
       config_attrs initial"

definition default_config :: config where
  "default_config = map (map_prod js id)
     [(''familyPrefix'', Cfg_text (js ''fa'')), (''replacementClass'', Cfg_text (js ''svg-inline--fa'')),
      (''autoReplaceSvg'', Cfg_bool True), (''autoAddCss'', Cfg_bool True), (''autoA11y'', Cfg_bool True),
      (''searchPseudoElements'', Cfg_bool False), (''observeMutations'', Cfg_bool True),
      (''mutateApproach'', Cfg_text (js ''async'')), (''keepOriginalSource'', Cfg_bool True),
      (''measurePerformance'', Cfg_bool False), (''showMissingIcons'', Cfg_bool True)]"

definition objectSpread :: "('k, 'v) storage \<Rightarrow> ('k, 'v) storage \<Rightarrow> ('k, 'v) storage" where
  "objectSpread target source = fold (\<lambda>(k, v). setItem k v) source target"

definition make_config :: "config \<Rightarrow> config" where
  "make_config initial =
     (let c = objectSpread default_config initial in
      if \<not> cfg_truthy c ''autoReplaceSvg'' then setItem (js ''observeMutations'') (Cfg_bool False) c else c)"

section \<open>Icons\<close>

datatype vector_data = One_path js_string | Two_paths "js_string option" "js_string option"

record icon_def =
  ic_width :: js_float
  ic_height :: js_float
  ic_ligatures :: "js_string list"
  ic_unicode :: js_string
  ic_data :: vector_data

type_synonym icons = "(js_string, icon_def) storage"

text \<open>An entry of a pack is the array of an icon, or an object that names it.\<close>

datatype pack_entry = Plain icon_def | Expanded js_string icon_def

text \<open>Old name, prefix and new name.\<close>

type_synonym shim = "js_string \<times> js_string option \<times> js_string option"

record registry =
  r_styles :: "(js_string, icons) storage"
  r_shims :: "shim list"
  byUnicode_table :: "(js_string, (js_string, js_string) storage) storage"
  byLigature_table :: "(js_string, (js_string, js_string) storage) storage"
  byOldName_table :: "(js_string, js_string option \<times> js_string option) storage"
  r_hooks :: bool
  r_definitions :: "(js_string, icons) storage"

text \<open>\<open>reduce\<close> over the properties of an object.\<close>

definition reduce :: "('k, 'v) storage \<Rightarrow> ('a \<Rightarrow> 'v \<Rightarrow> 'k \<Rightarrow> 'a) \<Rightarrow> 'a \<Rightarrow> 'a" where
  "reduce subject f initialValue = fold (\<lambda>(key, v) result. f result v key) subject initialValue"

definition lookup_tables ::
  "(js_string, icons) storage \<Rightarrow> ((js_string, js_string) storage \<Rightarrow> icon_def \<Rightarrow> js_string \<Rightarrow> (js_string, js_string) storage)
    \<Rightarrow> (js_string, (js_string, js_string) storage) storage" where
  "lookup_tables styles reducer = reduce styles (\<lambda>t style prefix. setItem prefix (reduce style reducer []) t) []"

definition note_unicode :: "(js_string, js_string) storage \<Rightarrow> icon_def \<Rightarrow> js_string \<Rightarrow> (js_string, js_string) storage" where
  "note_unicode acc icon iconName = (if ic_unicode icon \<noteq> [] then setItem (ic_unicode icon) iconName acc else acc)"

definition note_ligatures :: "(js_string, js_string) storage \<Rightarrow> icon_def \<Rightarrow> js_string \<Rightarrow> (js_string, js_string) storage" where
  "note_ligatures acc icon iconName =
     fold (\<lambda>ligature. setItem ligature iconName) (ic_ligatures icon) (setItem iconName iconName acc)"

definition old_names :: "bool \<Rightarrow> shim list \<Rightarrow> (js_string, js_string option \<times> js_string option) storage" where
  "old_names hasRegular shims =
     fold (\<lambda>(oldName, prefix, iconName).
         let prefix = (if prefix = Some (js ''far'') \<and> \<not> hasRegular then Some (js ''fas'') else prefix)
         in setItem oldName (prefix, iconName)) shims []"

definition build :: "registry \<Rightarrow> registry" where
  "build R = R\<lparr>byUnicode_table := lookup_tables (r_styles R) note_unicode,
               byLigature_table := lookup_tables (r_styles R) note_ligatures,
               byOldName_table := old_names (getItem (r_styles R) (js ''far'') \<noteq> None) (r_shims R)\<rparr>"

definition byUnicode :: "registry \<Rightarrow> js_string \<Rightarrow> js_string \<Rightarrow> js_string option" where
  "byUnicode R prefix unicode =
     (case getItem (byUnicode_table R) prefix of None \<Rightarrow> None | Some t \<Rightarrow> getItem t unicode)"

definition byLigature :: "registry \<Rightarrow> js_string \<Rightarrow> js_string \<Rightarrow> js_string option" where
  "byLigature R prefix ligature =
     (case getItem (byLigature_table R) prefix of None \<Rightarrow> None | Some t \<Rightarrow> getItem t ligature)"

definition byOldName :: "registry \<Rightarrow> js_string \<Rightarrow> js_string option \<times> js_string option" where
  "byOldName R name = (case getItem (byOldName_table R) name of None \<Rightarrow> (None, None) | Some s \<Rightarrow> s)"

section \<open>Defining icons\<close>

definition normalize_entry :: "js_string \<times> pack_entry \<Rightarrow> icons \<Rightarrow> icons" where
  "normalize_entry e =
     (case e of (iconName, Plain icon) \<Rightarrow> setItem iconName icon | (_, Expanded name icon) \<Rightarrow> setItem name icon)"

definition normalize_icons :: "(js_string, pack_entry) storage \<Rightarrow> icons" where
  "normalize_icons icons = fold normalize_entry icons []"

definition style_of :: "registry \<Rightarrow> js_string \<Rightarrow> icons" where
  "style_of R prefix = (case getItem (r_styles R) prefix of None \<Rightarrow> [] | Some s \<Rightarrow> s)"

definition put_style :: "js_string \<Rightarrow> icons \<Rightarrow> registry \<Rightarrow> registry" where
  "put_style prefix icons R =
     R\<lparr>r_styles := setItem prefix (objectSpread (style_of R prefix) icons) (r_styles R)\<rparr>"

text \<open>The hooks are installed when the script starts; a pack that is added later rebuilds the tables.\<close>

definition addPack :: "js_string \<Rightarrow> icons \<Rightarrow> registry \<Rightarrow> registry" where
  "addPack prefix icons R = build (put_style prefix icons R)"

definition addShims :: "shim list \<Rightarrow> registry \<Rightarrow> registry" where
  "addShims shims R = build (R\<lparr>r_shims := r_shims R @ shims\<rparr>)"

definition define_pack :: "js_string \<Rightarrow> (js_string, pack_entry) storage \<Rightarrow> bool \<Rightarrow> registry \<Rightarrow> registry" where
  "define_pack prefix icons skipHooks R =
     (let normalized = normalize_icons icons in
      if r_hooks R \<and> \<not> skipHooks then addPack prefix normalized R else put_style prefix normalized R)"

text \<open>The prefix \<open>fa\<close> of version 4 is an alias of \<open>fas\<close>; the call for it drops the parameters.\<close>

definition defineIcons :: "js_string \<Rightarrow> (js_string, pack_entry) storage \<Rightarrow> bool \<Rightarrow> registry \<Rightarrow> registry" where
  "defineIcons prefix icons skipHooks R =
     (let R = define_pack prefix icons skipHooks R in
      if prefix = js ''fas'' then define_pack (js ''fa'') icons False R else R)"

text \<open>\<open>library.add\<close> takes single icons and packs of them: the icons by prefix and name.\<close>

definition pull_definition ::
  "js_string \<times> js_string \<times> icon_def \<Rightarrow> (js_string, icons) storage \<Rightarrow> (js_string, icons) storage" where
  "pull_definition def additions =
     (case def of (prefix, iconName, icon) \<Rightarrow>
        setItem prefix (setItem iconName icon (case getItem additions prefix of None \<Rightarrow> [] | Some s \<Rightarrow> s)) additions)"

definition add_definitions :: "js_string \<times> icons \<Rightarrow> registry \<Rightarrow> registry" where
  "add_definitions a R =
     (case a of (key, icons) \<Rightarrow>
        let old = (case getItem (r_definitions R) key of None \<Rightarrow> [] | Some s \<Rightarrow> s);
            R = R\<lparr>r_definitions := setItem key (objectSpread old icons) (r_definitions R)\<rparr>
        in build (defineIcons key (map (\<lambda>(name, icon). (name, Plain icon)) icons) False R))"

definition library_add :: "(js_string \<times> js_string \<times> icon_def) list list \<Rightarrow> registry \<Rightarrow> registry" where
  "library_add definitions R =
     fold add_definitions (fold (\<lambda>d. fold pull_definition d) definitions []) R"

definition library_reset :: "registry \<Rightarrow> registry" where
  "library_reset R = R\<lparr>r_definitions := []\<rparr>"

section \<open>Looking icons up\<close>

definition iconFromMapping ::
  "(js_string, icons) storage \<Rightarrow> js_string \<Rightarrow> js_string \<Rightarrow> (js_string \<times> js_string \<times> icon_def) option" where
  "iconFromMapping mapping prefix iconName =
     (case getItem mapping prefix of
        None \<Rightarrow> None
      | Some s \<Rightarrow> map_option (\<lambda>icon. (prefix, iconName, icon)) (getItem s iconName))"

definition findIconDefinition ::
  "registry \<Rightarrow> js_string option \<Rightarrow> js_string \<Rightarrow> (js_string \<times> js_string \<times> icon_def) option" where
  "findIconDefinition R prefix iconName =
     (let prefix = (case prefix of None \<Rightarrow> js ''fa'' | Some p \<Rightarrow> p) in
      if iconName = [] then None
      else case iconFromMapping (r_definitions R) prefix iconName of
          Some d \<Rightarrow> Some d
        | None \<Rightarrow> iconFromMapping (r_styles R) prefix iconName)"

record canonical_icon =
  c_prefix :: "js_string option"
  c_iconName :: "js_string option"
  c_rest :: "js_string list"

definition emptyCanonicalIcon :: canonical_icon where
  "emptyCanonicalIcon = \<lparr>c_prefix = None, c_iconName = None, c_rest = []\<rparr>"

definition style_prefixes :: "js_string list" where
  "style_prefixes = map js [''fas'', ''far'', ''fal'', ''fad'', ''fab'', ''fak'', ''fa'']"

definition or_else :: "js_string option \<Rightarrow> js_string option \<Rightarrow> js_string option" where
  "or_else a b = (case a of None \<Rightarrow> b | Some s \<Rightarrow> if s = [] then b else a)"

definition is_style :: "config \<Rightarrow> registry \<Rightarrow> js_string \<Rightarrow> bool" where
  "is_style C R cls =
     (getItem (r_styles R) cls \<noteq> None \<or> cfg_truthy C ''autoFetchSvg'' \<and> cls \<in> set style_prefixes)"

definition canonical_step :: "config \<Rightarrow> registry \<Rightarrow> js_string \<Rightarrow> canonical_icon \<Rightarrow> canonical_icon" where
  "canonical_step C R cls acc =
     (let iconName = getIconName (cfg_text C ''familyPrefix'') cls in
      if is_style C R cls then acc\<lparr>c_prefix := Some cls\<rparr>
      else if iconName \<noteq> None then
        (let shim = (if c_prefix acc = Some (js ''fa'') then byOldName R (the iconName) else (None, None))
         in acc\<lparr>c_iconName := or_else (snd shim) iconName, c_prefix := or_else (fst shim) (c_prefix acc)\<rparr>)
      else if cls \<noteq> cfg_text C ''replacementClass'' \<and> take 5 cls \<noteq> js ''fa-w-''
        then acc\<lparr>c_rest := c_rest acc @ [cls]\<rparr>
      else acc)"

definition getCanonicalIcon :: "config \<Rightarrow> registry \<Rightarrow> js_string list \<Rightarrow> canonical_icon" where
  "getCanonicalIcon C R values = fold (canonical_step C R) values emptyCanonicalIcon"

definition some_text :: "js_string option \<Rightarrow> bool" where
  "some_text a = (a \<noteq> None \<and> a \<noteq> Some [])"

text \<open>The icon of an element: what was stored in it wins over its classes, its text over both.\<close>

definition classParser :: "config \<Rightarrow> registry \<Rightarrow> dom_node \<Rightarrow> canonical_icon" where
  "classParser C R node =
     (let existingPrefix = getAttribute node (js ''data-prefix'');
          existingIconName = getAttribute node (js ''data-icon'');
          txt = (case innerText node of None \<Rightarrow> [] | Some t \<Rightarrow> js_trim t);
          val = getCanonicalIcon C R (classArray node);
          val = (if some_text existingPrefix \<and> some_text existingIconName
                 then val\<lparr>c_prefix := existingPrefix, c_iconName := existingIconName\<rparr> else val)
      in if some_text (c_prefix val) \<and> length txt > 1
           then val\<lparr>c_iconName := byLigature R (the (c_prefix val)) (the (innerText node))\<rparr>
         else if some_text (c_prefix val) \<and> length txt = 1
           then val\<lparr>c_iconName := byUnicode R (the (c_prefix val)) (toHex (the (innerText node)))\<rparr>
         else val)"

definition maskParser :: "config \<Rightarrow> registry \<Rightarrow> dom_node \<Rightarrow> canonical_icon" where
  "maskParser C R node =
     (case getAttribute node (js ''data-fa-mask'') of
        None \<Rightarrow> emptyCanonicalIcon
      | Some m \<Rightarrow> if m = [] then emptyCanonicalIcon
          else getCanonicalIcon C R (map js_trim (js_split blank m)))"

section \<open>The tables\<close>

lemma getItem_setItem [simp]: "getItem (setItem k v d) j = (if j = k then Some v else getItem d j)"
  by (simp add: getItem_def setItem_def update_conv')

lemma getItem_Nil [simp]: "getItem [] k = None"
  by (simp add: getItem_def)

lemma getItem_Cons: "getItem ((j, v) # d) k = (if k = j then Some v else getItem d k)"
  by (simp add: getItem_def)

lemma getItem_in: "storage_ok d \<Longrightarrow> (k, v) \<in> set d \<longleftrightarrow> getItem d k = Some v"
  by (simp add: getItem_def storage_ok_def)

lemmas [simp] = storage.ok_put

lemma fold_keeps: "P a \<Longrightarrow> (\<And>x a. x \<in> set xs \<Longrightarrow> P a \<Longrightarrow> P (f x a)) \<Longrightarrow> P (fold f xs a)"
  by (induction xs arbitrary: a) auto

lemma objectSpread_ok [simp]: "storage_ok a \<Longrightarrow> storage_ok (objectSpread a b)"
  unfolding objectSpread_def by (rule fold_keeps) auto

lemma getItem_objectSpread:
  "storage_ok b \<Longrightarrow> getItem (objectSpread a b) k = (case getItem b k of None \<Rightarrow> getItem a k | Some v \<Rightarrow> Some v)"
proof (induction b arbitrary: a)
  case (Cons x b)
  obtain j v where x: "x = (j, v)" by (cases x)
  have "storage_ok b" "getItem b j = None"
    using Cons.prems by (auto simp: storage_ok_def x getItem_def map_of_eq_None_iff)
  then show ?case using Cons.IH [of "setItem j v a"]
    by (auto simp: objectSpread_def x getItem_Cons split: option.split)
qed (simp add: objectSpread_def)

lemma normalize_ok [simp]: "storage_ok (normalize_icons icons)"
  unfolding normalize_icons_def
  by (rule fold_keeps) (auto simp: normalize_entry_def split: prod.split pack_entry.split)

lemma getItem_lookup_tables:
  assumes "storage_ok styles"
  shows "getItem (lookup_tables styles f) p = map_option (\<lambda>s. reduce s f []) (getItem styles p)"
proof -
  have "getItem (fold (\<lambda>(key, v) result. setItem key (reduce v f []) result) styles t) p
      = (case getItem styles p of None \<Rightarrow> getItem t p | Some s \<Rightarrow> Some (reduce s f []))" for t
    using assms
  proof (induction styles arbitrary: t)
    case (Cons x d)
    obtain j v where x: "x = (j, v)" by (cases x)
    have "storage_ok d" "getItem d j = None"
      using Cons.prems by (auto simp: storage_ok_def x getItem_def map_of_eq_None_iff)
    then show ?case using Cons.IH [of "setItem j (reduce v f []) t"]
      by (auto simp: x getItem_Cons split: option.split)
  qed simp
  from this [of "[]"] show ?thesis by (simp add: lookup_tables_def reduce_def split: option.split)
qed

lemma unicode_sound:
  "getItem (reduce s note_unicode []) u = Some n \<Longrightarrow> \<exists>icon. (n, icon) \<in> set s \<and> ic_unicode icon = u \<and> u \<noteq> []"
proof -
  have "getItem (fold (\<lambda>(key, v) result. note_unicode result v key) s t) u = Some n \<Longrightarrow>
      getItem t u = Some n \<or> (\<exists>icon. (n, icon) \<in> set s \<and> ic_unicode icon = u \<and> u \<noteq> [])" for t
    by (induction s arbitrary: t) (fastforce simp: note_unicode_def split: if_splits)+
  then show "getItem (reduce s note_unicode []) u = Some n \<Longrightarrow> ?thesis" unfolding reduce_def by fastforce
qed

lemma unicode_complete:
  assumes "(n, icon) \<in> set s" "ic_unicode icon \<noteq> []"
  shows "getItem (reduce s note_unicode []) (ic_unicode icon) \<noteq> None"
proof -
  have grow: "getItem t u \<noteq> None \<Longrightarrow> getItem (fold (\<lambda>(key, v) result. note_unicode result v key) s t) u \<noteq> None" for t u s
    by (induction s arbitrary: t) (auto simp: note_unicode_def)
  have "getItem (fold (\<lambda>(key, v) result. note_unicode result v key) s t) (ic_unicode icon) \<noteq> None" for t
    using assms
  proof (induction s arbitrary: t)
    case (Cons x s)
    show ?case
    proof (cases "x = (n, icon)")
      case True
      have "getItem (note_unicode t icon n) (ic_unicode icon) \<noteq> None" using assms(2) by (simp add: note_unicode_def)
      from grow [OF this] show ?thesis by (simp add: True)
    next
      case False
      then show ?thesis using Cons by (cases x) auto
    qed
  qed simp
  then show ?thesis by (simp add: reduce_def)
qed

text \<open>The operations on the registry after the script has started, in any order.\<close>

datatype registry_op =
    Op_define js_string "(js_string, pack_entry) storage"
  | Op_addPack js_string icons
  | Op_addShims "shim list"
  | Op_add "(js_string \<times> js_string \<times> icon_def) list list"
  | Op_reset

fun registry_step :: "registry_op \<Rightarrow> registry \<Rightarrow> registry" where
  "registry_step (Op_define prefix icons) R = defineIcons prefix icons False R"
| "registry_step (Op_addPack prefix icons) R = addPack prefix icons R"
| "registry_step (Op_addShims shims) R = addShims shims R"
| "registry_step (Op_add definitions) R = library_add definitions R"
| "registry_step Op_reset R = library_reset R"

definition registry_ok :: "registry \<Rightarrow> bool" where
  "registry_ok R \<longleftrightarrow> r_hooks R \<and> storage_ok (r_styles R) \<and> (\<forall>(p, s) \<in> set (r_styles R). storage_ok s) \<and> build R = R"

lemma build_build [simp]: "build (build R) = build R"
  by (simp add: build_def)

lemma style_of_ok: "registry_ok R \<Longrightarrow> storage_ok (style_of R p)"
  by (auto simp: registry_ok_def style_of_def split: option.split dest: getItem_in [THEN iffD2])

lemma set_setItem: "set (setItem k v d) \<subseteq> insert (k, v) (set d)"
  by (induction d) (auto simp: setItem_def)

lemma addPack_ok:
  assumes "registry_ok R"
  shows "registry_ok (addPack prefix icons R)"
proof -
  have "storage_ok (objectSpread (style_of R prefix) icons)" using style_of_ok [OF assms] by simp
  then show ?thesis
    using assms set_setItem [of prefix "objectSpread (style_of R prefix) icons" "r_styles R"]
    by (auto simp: registry_ok_def addPack_def put_style_def) (auto simp: build_def)
qed

lemma defineIcons_ok: "registry_ok R \<Longrightarrow> registry_ok (defineIcons prefix icons False R)"
proof -
  assume R: "registry_ok R"
  have "r_hooks R" if "registry_ok R" for R using that by (simp add: registry_ok_def)
  then show ?thesis
    using R addPack_ok [OF R] addPack_ok [OF addPack_ok [OF R]]
    by (simp add: defineIcons_def define_pack_def Let_def del: js_simps)
qed

lemma definitions_ok: "registry_ok R \<Longrightarrow> registry_ok (R\<lparr>r_definitions := x\<rparr>)"
  unfolding registry_ok_def by (cases R) (simp add: build_def)

lemma registry_step_ok:
  assumes "registry_ok R"
  shows "registry_ok (registry_step a R)"
proof (cases a)
  case (Op_define prefix icons)
  then show ?thesis using assms by (simp add: defineIcons_ok)
next
  case (Op_addPack prefix icons)
  then show ?thesis using assms by (simp add: addPack_ok)
next
  case (Op_addShims shims)
  then show ?thesis using assms by (simp add: registry_ok_def addShims_def) (simp add: build_def)
next
  case (Op_add defs)
  have "registry_ok (add_definitions d R)" if "registry_ok R" for d R
  proof -
    have "registry_ok (defineIcons p i False (R\<lparr>r_definitions := x\<rparr>))" for p i x
      using that by (intro defineIcons_ok definitions_ok)
    then show ?thesis unfolding registry_ok_def add_definitions_def by (cases d) (simp add: Let_def)
  qed
  then show ?thesis unfolding Op_add registry_step.simps library_add_def using assms by (intro fold_keeps [where P = registry_ok])
next
  case Op_reset
  then show ?thesis using assms by (simp add: library_reset_def definitions_ok)
qed

lemma registry_run_ok: "registry_ok R \<Longrightarrow> registry_ok (fold registry_step ops R)"
  by (induction ops arbitrary: R) (auto simp: registry_step_ok)

lemma byUnicode_reduce:
  assumes "registry_ok R"
  shows "byUnicode R p u = getItem (reduce (style_of R p) note_unicode []) u"
proof -
  have "byUnicode_table (build R) = lookup_tables (r_styles R) note_unicode" by (simp add: build_def)
  then have "byUnicode_table R = lookup_tables (r_styles R) note_unicode" using assms by (simp add: registry_ok_def)
  then show ?thesis using assms
    by (simp add: byUnicode_def getItem_lookup_tables registry_ok_def style_of_def reduce_def split: option.split)
qed

text \<open>
  Property C28.  The tables are current: after any sequence of operations on the registry, the icon
  found for a code point has this code point in the style asked for, and every icon of a style that
  has a code point can be found by it.
\<close>

theorem lookups_are_current:
  assumes "registry_ok R0" and "R = fold registry_step ops R0"
  shows "(\<forall>p u n. byUnicode R p u = Some n \<longrightarrow> (\<exists>icon. getItem (style_of R p) n = Some icon \<and> ic_unicode icon = u))
    \<and> (\<forall>p n icon. getItem (style_of R p) n = Some icon \<and> ic_unicode icon \<noteq> [] \<longrightarrow> byUnicode R p (ic_unicode icon) \<noteq> None)"
proof -
  have ok: "registry_ok R" using assms registry_run_ok by blast
  show ?thesis
    using unicode_sound unicode_complete getItem_in [OF style_of_ok [OF ok]] unfolding byUnicode_reduce [OF ok] by meson
qed

definition empty_registry :: registry where
  "empty_registry = \<lparr>r_styles = [], r_shims = [], byUnicode_table = [], byLigature_table = [], byOldName_table = [],
     r_hooks = True, r_definitions = []\<rparr>"

definition demo_icon :: "js_string \<Rightarrow> icon_def" where
  "demo_icon u = \<lparr>ic_width = Fin 512, ic_height = Fin 512, ic_ligatures = [], ic_unicode = u, ic_data = One_path (js ''M0'')\<rparr>"

lemma empty_registry_ok: "registry_ok empty_registry"
  by (simp add: registry_ok_def empty_registry_def build_def lookup_tables_def reduce_def old_names_def)

theorem lookups_are_current_witness:
  "byUnicode (fold registry_step [Op_add [[(js ''fab'', js ''x'', demo_icon (js ''f1''))]]] empty_registry) (js ''fab'') (js ''f1'') \<noteq> None"
proof -
  let ?R = "fold registry_step [Op_add [[(js ''fab'', js ''x'', demo_icon (js ''f1''))]]] empty_registry"
  have "getItem (style_of ?R (js ''fab'')) (js ''x'') = Some (demo_icon (js ''f1''))"
    by (simp add: library_add_def pull_definition_def add_definitions_def defineIcons_def define_pack_def Let_def
        addPack_def put_style_def build_def style_of_def normalize_icons_def normalize_entry_def objectSpread_def
        empty_registry_def setItem_def getItem_Cons)
  moreover have "ic_unicode (demo_icon (js ''f1'')) = js ''f1''" by (simp add: demo_icon_def)
  moreover have "js ''f1'' \<noteq> []" by simp
  ultimately show ?thesis using lookups_are_current [OF empty_registry_ok refl] by metis
qed

section \<open>The library\<close>

definition entry :: "(js_string, icons) storage \<Rightarrow> js_string \<Rightarrow> js_string \<Rightarrow> icon_def option" where
  "entry m p n = (case getItem m p of None \<Rightarrow> None | Some s \<Rightarrow> getItem s n)"

definition over :: "'a option \<Rightarrow> 'a option \<Rightarrow> 'a option" where
  "over a b = (case a of None \<Rightarrow> b | Some x \<Rightarrow> Some x)"

lemma over_simps [simp]: "over None b = b" "over (Some x) b = Some x"
  by (simp_all add: over_def)

lemma entry_Nil [simp]: "entry [] p n = None"
  by (simp add: entry_def)

lemma entry_pull:
  "entry (pull_definition (q, m, i) a) p n = (if p = q \<and> n = m then Some i else entry a p n)"
  by (auto simp: entry_def pull_definition_def split: option.split)

lemma entry_pull_all:
  "distinct (map (\<lambda>(p, n, i). (p, n)) ds) \<Longrightarrow>
   entry (fold pull_definition ds a) p n = (case map_of (map (\<lambda>(p, n, i). ((p, n), i)) ds) (p, n) of None \<Rightarrow> entry a p n | Some i \<Rightarrow> Some i)"
proof (induction ds arbitrary: a)
  case (Cons d ds)
  obtain q m i where d: "d = (q, m, i)" by (cases d) auto
  have "(q, m) \<notin> fst ` set (map (\<lambda>(p, n, i). ((p, n), i)) ds)" using Cons.prems by (force simp: d)
  then have none: "map_of (map (\<lambda>(p, n, i). ((p, n), i)) ds) (q, m) = None" by (simp only: map_of_eq_None_iff not_False_eq_True)
  have "distinct (map (\<lambda>(p, n, i). (p, n)) ds)" using Cons.prems by simp
  from Cons.IH [OF this, of "pull_definition d a"] show ?case
    using none by (auto simp: d entry_pull split: option.split)
qed simp

lemma pull_ok:
  "storage_ok (fold pull_definition ds []) \<and> (\<forall>(p, s) \<in> set (fold pull_definition ds []). storage_ok s)"
proof (rule fold_keeps)
  fix d :: "js_string \<times> js_string \<times> icon_def" and a :: "(js_string, icons) storage"
  assume a: "storage_ok a \<and> (\<forall>(p, s) \<in> set a. storage_ok s)"
  obtain q m i where d: "d = (q, m, i)" by (cases d) auto
  have s: "storage_ok (setItem m i (case getItem a q of None \<Rightarrow> [] | Some s \<Rightarrow> s))"
  proof (cases "getItem a q")
    case (Some t)
    then have "(q, t) \<in> set a" using a getItem_in [of a q t] by blast
    then show ?thesis using a Some by auto
  qed simp
  then show "storage_ok (pull_definition d a) \<and> (\<forall>(p, s) \<in> set (pull_definition d a). storage_ok s)"
    using a set_setItem [of q "setItem m i (case getItem a q of None \<Rightarrow> [] | Some s \<Rightarrow> s)" a]
    by (auto simp: d pull_definition_def)
qed simp

lemma entry_spread:
  "storage_ok icons \<Longrightarrow>
   entry (setItem q (objectSpread (case getItem m q of None \<Rightarrow> [] | Some s \<Rightarrow> s) icons) m) p n
     = (if p = q then over (getItem icons n) (entry m p n) else entry m p n)"
  by (auto simp: entry_def getItem_objectSpread over_def split: option.split)

lemma normalize_plain:
  assumes "storage_ok icons"
  shows "getItem (normalize_icons (map (\<lambda>(name, icon). (name, Plain icon)) icons)) n = getItem icons n"
proof -
  have "fold normalize_entry (map (\<lambda>(name, icon). (name, Plain icon)) d) a = objectSpread a d" for d a
    by (induction d arbitrary: a) (auto simp: normalize_entry_def objectSpread_def)
  then show ?thesis using getItem_objectSpread [OF assms, of "[]" n]
    by (simp add: normalize_icons_def split: option.splits)
qed

lemma style_entry_define:
  assumes "storage_ok icons"
  shows "entry (r_styles (define_pack q (map (\<lambda>(name, icon). (name, Plain icon)) icons) h R)) p n
    = (if p = q then over (getItem icons n) (entry (r_styles R) p n) else entry (r_styles R) p n)"
  using entry_spread [OF normalize_ok, of q "r_styles R"] normalize_plain [OF assms]
  by (simp add: define_pack_def addPack_def put_style_def style_of_def build_def Let_def)

lemma add_definitions_entries:
  assumes "storage_ok icons"
  shows "entry (r_definitions (add_definitions (q, icons) R)) p n
      = (if p = q then over (getItem icons n) (entry (r_definitions R) p n) else entry (r_definitions R) p n)"
    and "entry (r_styles (add_definitions (q, icons) R)) p n
      = (if p = q \<or> p = js ''fa'' \<and> q = js ''fas'' then over (getItem icons n) (entry (r_styles R) p n) else entry (r_styles R) p n)"
proof -
  have d: "r_definitions (define_pack k i h R) = r_definitions R" for k i h R
    by (simp add: define_pack_def addPack_def put_style_def build_def Let_def)
  show "entry (r_definitions (add_definitions (q, icons) R)) p n
      = (if p = q then over (getItem icons n) (entry (r_definitions R) p n) else entry (r_definitions R) p n)"
    by (simp add: add_definitions_def defineIcons_def Let_def build_def d entry_spread [OF assms] del: js_simps)
  have fa: "js ''fa'' \<noteq> js ''fas''" by simp
  have "r_styles (build R) = r_styles R" for R by (simp add: build_def)
  then show "entry (r_styles (add_definitions (q, icons) R)) p n
      = (if p = q \<or> p = js ''fa'' \<and> q = js ''fas'' then over (getItem icons n) (entry (r_styles R) p n) else entry (r_styles R) p n)"
    using fa style_entry_define [OF assms]
    by (auto simp: add_definitions_def defineIcons_def Let_def simp del: js_simps)
qed

lemma add_all_entries:
  assumes "storage_ok adds" "\<forall>(p, s) \<in> set adds. storage_ok s" "js ''fa'' \<notin> fst ` set adds"
  shows "entry (r_definitions (fold add_definitions adds R)) p n = over (entry adds p n) (entry (r_definitions R) p n)
    \<and> entry (r_styles (fold add_definitions adds R)) p n
      = over (entry adds (if p = js ''fa'' then js ''fas'' else p) n) (entry (r_styles R) p n)"
  using assms
proof (induction adds arbitrary: R)
  case (Cons a adds)
  obtain q icons where a: "a = (q, icons)" by (cases a)
  have q: "getItem adds q = None" and ok: "storage_ok adds" "storage_ok icons" "\<forall>(p, s) \<in> set adds. storage_ok s"
    and fa: "js ''fa'' \<notin> fst ` set adds" "js ''fa'' \<noteq> q"
    using Cons.prems by (auto simp: a storage_ok_def getItem_def map_of_eq_None_iff simp del: js_simps)
  have e: "entry (a # adds) p n = (if p = q then getItem icons n else entry adds p n)" for p
    by (simp add: entry_def a getItem_Cons)
  have none: "entry adds q n = None" using q by (simp add: entry_def)
  note IH = Cons.IH [OF ok(1,3) fa(1), of "add_definitions a R"]
  show ?case using IH add_definitions_entries [OF ok(2), of q R p n, folded a] none fa(2)
    by (auto simp: e simp del: js_simps)
qed simp

text \<open>
  Adding icons to the library: each of them is then found by its prefix and name, by
  the library and among the styles, the icons of \<open>fas\<close> under the old prefix \<open>fa\<close> as well; the
  icons that were there before and are not among the added ones stay.
\<close>

theorem library_add_finds:
  assumes "distinct (map (\<lambda>(p, n, i). (p, n)) ds)" "\<forall>(p, n, i) \<in> set ds. p \<noteq> js ''fa''"
    and "R' = library_add [ds] R"
  shows "((p, n, icon) \<in> set ds \<and> n \<noteq> [] \<longrightarrow> findIconDefinition R' (Some p) n = Some (p, n, icon)
        \<and> getItem (style_of R' p) n = Some icon \<and> (p = js ''fas'' \<longrightarrow> getItem (style_of R' (js ''fa'')) n = Some icon))
    \<and> ((p, n) \<notin> set (map (\<lambda>(p, n, i). (p, n)) ds) \<and> p \<noteq> js ''fa'' \<longrightarrow>
        findIconDefinition R' (Some p) n = findIconDefinition R (Some p) n)"
proof -
  define adds where "adds = fold pull_definition ds []"
  have ok: "storage_ok adds" "\<forall>(p, s) \<in> set adds. storage_ok s" using pull_ok [of ds] by (simp_all add: adds_def)
  have e: "entry adds p n = map_of (map (\<lambda>(p, n, i). ((p, n), i)) ds) (p, n)" for p n
    using entry_pull_all [OF assms(1), of "[]" p n] by (simp add: adds_def split: option.split)
  have "fst ` set (fold pull_definition ds a) \<subseteq> fst ` set a \<union> fst ` set ds" for a
  proof (induction ds arbitrary: a)
    case (Cons d ds)
    have "fst ` set (pull_definition d a) \<subseteq> insert (fst d) (fst ` set a)"
      using set_setItem by (cases d) (force simp: pull_definition_def)
    with Cons.IH [of "pull_definition d a"]
    have "fst ` set (fold pull_definition ds (pull_definition d a)) \<subseteq> insert (fst d) (fst ` set a) \<union> fst ` set ds" by blast
    then show ?case by simp
  qed simp
  from this [of "[]"] have "fst ` set adds \<subseteq> fst ` set ds" by (simp add: adds_def)
  moreover have "js ''fa'' \<notin> fst ` set ds" using assms(2) by (auto simp del: js_simps)
  ultimately have fa: "js ''fa'' \<notin> fst ` set adds" by blast
  have R': "R' = fold add_definitions adds R" by (simp add: assms(3) library_add_def adds_def)
  note all = add_all_entries [OF ok fa, of R, folded R', THEN conjunct1] add_all_entries [OF ok fa, of R, folded R', THEN conjunct2]
  have find: "findIconDefinition S (Some q) m =
      (if m = [] then None else map_option (\<lambda>i. (q, m, i)) (over (entry (r_definitions S) q m) (entry (r_styles S) q m)))" for S q m
    by (simp add: findIconDefinition_def iconFromMapping_def entry_def over_def split: option.split)
  have style: "getItem (style_of S q) m = entry (r_styles S) q m" for S q m
    by (simp add: style_of_def entry_def split: option.split)
  have one: "findIconDefinition R' (Some p) n = Some (p, n, icon) \<and> getItem (style_of R' p) n = Some icon
      \<and> (p = js ''fas'' \<longrightarrow> getItem (style_of R' (js ''fa'')) n = Some icon)" if d: "(p, n, icon) \<in> set ds" "n \<noteq> []"
  proof -
    have "map fst (map (\<lambda>(p, n, i). ((p, n), i)) ds) = map (\<lambda>(p, n, i). (p, n)) ds" by (induction ds) auto
    then have "distinct (map fst (map (\<lambda>(p, n, i). ((p, n), i)) ds))" using assms(1) by metis
    moreover have "((p, n), icon) \<in> set (map (\<lambda>(p, n, i). ((p, n), i)) ds)" using d by force
    ultimately have "entry adds p n = Some icon" unfolding e by (rule map_of_is_SomeI)
    moreover have "p \<noteq> js ''fa''" using d assms(2) by auto
    ultimately show ?thesis using d by (auto simp: find style all simp del: js_simps)
  qed
  have two: "findIconDefinition R' (Some p) n = findIconDefinition R (Some p) n"
    if d: "(p, n) \<notin> set (map (\<lambda>(p, n, i). (p, n)) ds)" "p \<noteq> js ''fa''"
  proof -
    have "entry adds p n = None" using d(1) unfolding e map_of_eq_None_iff by force
    then show ?thesis using d(2) by (simp add: find all del: js_simps)
  qed
  show ?thesis using one two by blast
qed

theorem library_add_finds_witness:
  "findIconDefinition (library_add [[(js ''fas'', js ''x'', demo_icon (js ''f1''))]] empty_registry) (Some (js ''fas'')) (js ''x'')
     = Some (js ''fas'', js ''x'', demo_icon (js ''f1''))"
  using library_add_finds [of "[(js ''fas'', js ''x'', demo_icon (js ''f1''))]" _ empty_registry "js ''fas''" "js ''x''" "demo_icon (js ''f1'')"]
  by simp

end
