(* ===== verification/Fa_Transform.thy ===== *)
theory Fa_Transform
  imports Fa_Text "HOL-Library.Multiset"
begin

text \<open>
  Power transforms of \<open>fontawesome.js\<close>: the parser of the attribute \<open>data-fa-transform\<close> and the
  texts of the transform for SVG and for CSS.  Numbers are exact, which is what doubles are for the whole
  amounts that the property about the order of the words is restricted to; the text of a number, which
  the engine writes, is the parameter \<open>fmt\<close>.
\<close>

section \<open>Transforms\<close>

record transform =
  t_size :: js_float
  t_x :: js_float
  t_y :: js_float
  t_rotate :: js_float
  t_flipX :: bool
  t_flipY :: bool

definition meaninglessTransform :: transform where
  "meaninglessTransform = \<lparr>t_size = Fin 16, t_x = Fin 0, t_y = Fin 0, t_rotate = Fin 0, t_flipX = False, t_flipY = False\<rparr>"

definition apply_word :: "js_string \<Rightarrow> js_float \<Rightarrow> transform \<Rightarrow> transform" where
  "apply_word first v acc =
     (if first = js ''grow'' then acc\<lparr>t_size := t_size acc + v\<rparr>
      else if first = js ''shrink'' then acc\<lparr>t_size := t_size acc - v\<rparr>
      else if first = js ''left'' then acc\<lparr>t_x := t_x acc - v\<rparr>
      else if first = js ''right'' then acc\<lparr>t_x := t_x acc + v\<rparr>
      else if first = js ''up'' then acc\<lparr>t_y := t_y acc - v\<rparr>
      else if first = js ''down'' then acc\<lparr>t_y := t_y acc + v\<rparr>
      else if first = js ''rotate'' then acc\<lparr>t_rotate := t_rotate acc + v\<rparr>
      else acc)"

definition transform_word :: "js_string \<Rightarrow> transform \<Rightarrow> transform" where
  "transform_word n acc =
     (let parts = js_split minus_sign (toLowerCase n); first = hd parts; rest = js_join [minus_sign] (tl parts) in
      if first \<noteq> [] \<and> rest = js ''h'' then acc\<lparr>t_flipX := True\<rparr>
      else if first \<noteq> [] \<and> rest = js ''v'' then acc\<lparr>t_flipY := True\<rparr>
      else
        (let v = parseFloat rest in if v = NaF then acc else apply_word first v acc))"

definition parseTransformString :: "js_string option \<Rightarrow> transform" where
  "parseTransformString s =
     (if s = None \<or> s = Some [] then meaninglessTransform
      else fold transform_word (js_split blank (toLowerCase (the s))) meaninglessTransform)"

definition transformIsMeaningful :: "transform \<Rightarrow> bool" where
  "transformIsMeaningful t =
     (t_size t \<noteq> t_size meaninglessTransform \<or> t_size t = NaF \<or> t_x t \<noteq> t_x meaninglessTransform
      \<or> t_y t \<noteq> t_y meaninglessTransform \<or> t_rotate t \<noteq> t_rotate meaninglessTransform \<or> t_flipX t \<or> t_flipY t)"

definition flip_sign :: "bool \<Rightarrow> js_float" where
  "flip_sign flip = (if flip then Fin (- 1) else Fin 1)"

text \<open>The three transforms of an SVG icon: of the outer group, the inner group and the path.\<close>

definition transformForSvg ::
  "(js_float \<Rightarrow> js_string) \<Rightarrow> transform \<Rightarrow> js_float \<Rightarrow> js_float \<Rightarrow> attributes \<times> attributes \<times> attributes" where
  "transformForSvg fmt t containerWidth iconWidth =
     (let outer = [(js ''transform'', js ''translate('' @ fmt (containerWidth / Fin 2) @ js '' 256)'')];
          innerTranslate = js ''translate('' @ fmt (t_x t * Fin 32) @ js '', '' @ fmt (t_y t * Fin 32) @ js '') '';
          innerScale = js ''scale('' @ fmt (t_size t / Fin 16 * flip_sign (t_flipX t)) @ js '', ''
            @ fmt (t_size t / Fin 16 * flip_sign (t_flipY t)) @ js '') '';
          innerRotate = js ''rotate('' @ fmt (t_rotate t) @ js '' 0 0)'';
          inner = [(js ''transform'', innerTranslate @ js '' '' @ innerScale @ js '' '' @ innerRotate)];
          path = [(js ''transform'', js ''translate('' @ fmt (iconWidth / Fin 2 * Fin (- 1)) @ js '' -256)'')]
      in (outer, inner, path))"

definition UNITS_IN_GRID :: js_float where "UNITS_IN_GRID = Fin 16"

definition transformForCss ::
  "(js_float \<Rightarrow> js_string) \<Rightarrow> bool \<Rightarrow> transform \<Rightarrow> js_float option \<Rightarrow> js_float option \<Rightarrow> bool \<Rightarrow> js_string" where
  "transformForCss fmt IS_IE t width height startCentered =
     (let w = (case width of None \<Rightarrow> UNITS_IN_GRID | Some w \<Rightarrow> w);
          h = (case height of None \<Rightarrow> UNITS_IN_GRID | Some h \<Rightarrow> h);
          d = UNITS_IN_GRID
      in (if startCentered \<and> IS_IE then
            js ''translate('' @ fmt (t_x t / d - w / Fin 2) @ js ''em, '' @ fmt (t_y t / d - h / Fin 2) @ js ''em) ''
          else if startCentered then
            js ''translate(calc(-50% + '' @ fmt (t_x t / d) @ js ''em), calc(-50% + '' @ fmt (t_y t / d) @ js ''em)) ''
          else js ''translate('' @ fmt (t_x t / d) @ js ''em, '' @ fmt (t_y t / d) @ js ''em) '')
         @ js ''scale('' @ fmt (t_size t / d * flip_sign (t_flipX t)) @ js '', '' @ fmt (t_size t / d * flip_sign (t_flipY t)) @ js '') ''
         @ js ''rotate('' @ fmt (t_rotate t) @ js ''deg) '')"

section \<open>The order of the words\<close>

text \<open>
  Doubles round, so sums of arbitrary amounts depend on their order.  The words whose amount is a whole
  number of at most \<open>2 ^ 20\<close>, or no number at all, are those for which the exact numbers of the model
  are the doubles of the program: a transform of up to \<open>2 ^ 32\<close> of them is made of whole numbers up to
  \<open>2 ^ 53\<close>, all of which are doubles.
\<close>

definition word_amount :: "js_string \<Rightarrow> js_float" where
  "word_amount n = parseFloat (js_join [minus_sign] (tl (js_split minus_sign (toLowerCase n))))"

definition whole_word :: "js_string \<Rightarrow> bool" where
  "whole_word n \<longleftrightarrow> (case word_amount n of NaF \<Rightarrow> True | Infinite _ \<Rightarrow> False | Fin v \<Rightarrow> v \<in> \<int> \<and> \<bar>v\<bar> \<le> 2 ^ 20)"

text \<open>Every such word adds to the four numbers and sets flags.\<close>

type_synonym delta = "real \<times> real \<times> real \<times> real \<times> bool \<times> bool"

fun shift_by :: "delta \<Rightarrow> delta \<Rightarrow> delta" where
  "shift_by (ds, dx, dy, dr, hx, hy) (s, x, y, r, fx, fy) = (s + ds, x + dx, y + dy, r + dr, fx \<or> hx, fy \<or> hy)"

fun transform_of :: "delta \<Rightarrow> transform" where
  "transform_of (s, x, y, r, fx, fy) =
     \<lparr>t_size = Fin s, t_x = Fin x, t_y = Fin y, t_rotate = Fin r, t_flipX = fx, t_flipY = fy\<rparr>"

definition named_delta :: "js_string \<Rightarrow> real \<Rightarrow> delta" where
  "named_delta first v =
     (if first = js ''grow'' then (v, 0, 0, 0, False, False)
      else if first = js ''shrink'' then (- v, 0, 0, 0, False, False)
      else if first = js ''left'' then (0, - v, 0, 0, False, False)
      else if first = js ''right'' then (0, v, 0, 0, False, False)
      else if first = js ''up'' then (0, 0, - v, 0, False, False)
      else if first = js ''down'' then (0, 0, v, 0, False, False)
      else if first = js ''rotate'' then (0, 0, 0, v, False, False)
      else (0, 0, 0, 0, False, False))"

definition word_delta :: "js_string \<Rightarrow> delta" where
  "word_delta n =
     (let parts = js_split minus_sign (toLowerCase n); first = hd parts; rest = js_join [minus_sign] (tl parts) in
      if first \<noteq> [] \<and> rest = js ''h'' then (0, 0, 0, 0, True, False)
      else if first \<noteq> [] \<and> rest = js ''v'' then (0, 0, 0, 0, False, True)
      else case parseFloat rest of Fin v \<Rightarrow> named_delta first v | _ \<Rightarrow> (0, 0, 0, 0, False, False))"

lemma apply_word_delta: "apply_word first (Fin v) (transform_of t) = transform_of (shift_by (named_delta first v) t)"
  by (cases t) (simp add: apply_word_def named_delta_def del: js_simps)

lemma transform_word_delta:
  assumes "whole_word n"
  shows "transform_word n (transform_of t) = transform_of (shift_by (word_delta n) t)"
proof -
  define first where "first = hd (js_split minus_sign (toLowerCase n))"
  define rest where "rest = js_join [minus_sign] (tl (js_split minus_sign (toLowerCase n)))"
  obtain s x y r fx fy where t: "t = (s, x, y, r, fx, fy)" by (cases t) auto
  have step: "transform_word n acc =
      (if first \<noteq> [] \<and> rest = js ''h'' then acc\<lparr>t_flipX := True\<rparr>
       else if first \<noteq> [] \<and> rest = js ''v'' then acc\<lparr>t_flipY := True\<rparr>
       else if parseFloat rest = NaF then acc else apply_word first (parseFloat rest) acc)" for acc
    by (simp only: transform_word_def Let_def first_def rest_def)
  have delta: "word_delta n =
      (if first \<noteq> [] \<and> rest = js ''h'' then (0, 0, 0, 0, True, False)
       else if first \<noteq> [] \<and> rest = js ''v'' then (0, 0, 0, 0, False, True)
       else case parseFloat rest of Fin v \<Rightarrow> named_delta first v | _ \<Rightarrow> (0, 0, 0, 0, False, False))"
    by (simp only: word_delta_def Let_def first_def rest_def)
  have "\<not> (\<exists>neg. parseFloat rest = Infinite neg)"
    using assms by (auto simp: whole_word_def word_amount_def rest_def [symmetric])
  then consider "parseFloat rest = NaF" | v where "parseFloat rest = Fin v"
    by (cases "parseFloat rest") auto
  then show ?thesis
  proof cases
    case 1
    then show ?thesis unfolding step delta by (simp add: t del: js_simps)
  next
    case 2
    then show ?thesis unfolding step delta by (simp add: apply_word_delta del: js_simps) (simp add: t)
  qed
qed

lemma shift_by_commute: "shift_by d (shift_by d' t) = shift_by d' (shift_by d t)"
  by (cases d; cases d'; cases t) auto

definition start :: delta where "start = (16, 0, 0, 0, False, False)"

lemma parse_start: "meaninglessTransform = transform_of start"
  by (simp add: meaninglessTransform_def start_def)

definition transform_words :: "js_string \<Rightarrow> js_string list" where
  "transform_words s = js_split blank (toLowerCase s)"

lemma fold_words:
  "\<forall>n \<in> set ws. whole_word n \<Longrightarrow>
     fold transform_word ws (transform_of t) = transform_of (fold (\<lambda>n. shift_by (word_delta n)) ws t)"
  by (induction ws arbitrary: t) (simp_all add: transform_word_delta)

lemma parse_words:
  assumes "\<forall>n \<in> set (transform_words s). whole_word n"
  shows "parseTransformString (Some s) = transform_of (fold (\<lambda>n. shift_by (word_delta n)) (transform_words s) start)"
proof (cases "s = []")
  case True
  have "word_delta [] = (0, 0, 0, 0, False, False)"
    by (simp add: word_delta_def toLowerCase_def parseFloat_def parse_unsigned_def)
  then show ?thesis using True
    by (simp add: parseTransformString_def transform_words_def toLowerCase_def parse_start start_def)
next
  case False
  then show ?thesis using fold_words [OF assms]
    by (simp add: parseTransformString_def transform_words_def parse_start)
qed

subsection \<open>The size of the numbers\<close>

fun whole_upto :: "real \<Rightarrow> delta \<Rightarrow> bool" where
  "whole_upto b (s, x, y, r, fx, fy) \<longleftrightarrow>
     s \<in> \<int> \<and> x \<in> \<int> \<and> y \<in> \<int> \<and> r \<in> \<int> \<and> \<bar>s\<bar> \<le> b \<and> \<bar>x\<bar> \<le> b \<and> \<bar>y\<bar> \<le> b \<and> \<bar>r\<bar> \<le> b"

lemma upto_shift: "whole_upto a d \<Longrightarrow> whole_upto b t \<Longrightarrow> whole_upto (a + b) (shift_by d t)"
  by (cases d; cases t) auto

lemma upto_mono: "whole_upto a d \<Longrightarrow> a \<le> b \<Longrightarrow> whole_upto b d"
  by (cases d) auto

lemma word_delta_upto:
  assumes "whole_word n"
  shows "whole_upto (2 ^ 20) (word_delta n)"
proof -
  have "whole_upto (2 ^ 20) (named_delta first v)" if "word_amount n = Fin v" for first v
    using assms that by (simp add: whole_word_def named_delta_def del: js_simps)
  then show ?thesis
    by (simp add: word_delta_def Let_def word_amount_def del: js_simps split: js_float.split)
qed

lemma fold_upto:
  "\<forall>n \<in> set ws. whole_word n \<Longrightarrow> whole_upto b t \<Longrightarrow>
     whole_upto (real (length ws) * 2 ^ 20 + b) (fold (\<lambda>n. shift_by (word_delta n)) ws t)"
proof (induction ws arbitrary: b t)
  case (Cons n ws)
  have "whole_upto (2 ^ 20 + b) (shift_by (word_delta n) t)"
    using Cons.prems by (intro upto_shift word_delta_upto) simp_all
  from Cons.IH [OF _ this] Cons.prems(1) show ?case by (simp add: algebra_simps)
qed simp

text \<open>
  Property C34.  A power transform of whole amounts is a set of words.  When the amounts of the words are
  whole numbers of at most \<open>2 ^ 20\<close>, or no numbers, and there are at most \<open>2 ^ 32\<close> words, two texts with
  the same words in any order give the same transform; and after each word the numbers of the transform
  are whole and at most \<open>2 ^ 53\<close>, so that no sum is ever rounded.
\<close>

theorem transform_word_order:
  assumes "mset (transform_words s) = mset (transform_words s')"
    and "\<forall>n \<in> set (transform_words s). whole_word n" "length (transform_words s) \<le> 2 ^ 32"
  shows "parseTransformString (Some s) = parseTransformString (Some s') \<and>
    (\<forall>k. \<exists>d. whole_upto (2 ^ 53) d \<and> fold transform_word (take k (transform_words s)) meaninglessTransform = transform_of d)"
proof (intro conjI allI)
  have "fold (\<lambda>n. shift_by (word_delta n)) (transform_words s) start = fold (\<lambda>n. shift_by (word_delta n)) (transform_words s') start"
    using assms(1) by (intro fold_multiset_equiv [THEN fun_cong]) (auto simp: shift_by_commute fun_eq_iff)
  moreover have "\<forall>n \<in> set (transform_words s'). whole_word n"
    using assms(2) mset_eq_setD [OF assms(1)] by simp
  ultimately show "parseTransformString (Some s) = parseTransformString (Some s')"
    using parse_words assms(2) by simp
next
  fix k
  let ?ws = "take k (transform_words s)"
  have ws: "\<forall>n \<in> set ?ws. whole_word n" using assms(2) by (meson in_set_takeD)
  have "length ?ws \<le> 2 ^ 32" using assms(3) by simp
  then have "real (length ?ws) \<le> 2 ^ 32" by (metis of_nat_le_iff of_nat_numeral of_nat_power)
  then have "real (length ?ws) * 2 ^ 20 + 16 \<le> 2 ^ 53" by simp
  moreover have "whole_upto 16 start" by (simp add: start_def)
  ultimately have "whole_upto (2 ^ 53) (fold (\<lambda>n. shift_by (word_delta n)) ?ws start)"
    using upto_mono [OF fold_upto [OF ws]] by blast
  then show "\<exists>d. whole_upto (2 ^ 53) d \<and> fold transform_word ?ws meaninglessTransform = transform_of d"
    unfolding parse_start fold_words [OF ws] by blast
qed

theorem transform_word_order_witness:
  "parseTransformString (Some (js ''up-2 flip-v'')) = parseTransformString (Some (js ''flip-V Up-2''))"
proof -
  have words: "transform_words (js ''up-2 flip-v'') = [js ''up-2'', js ''flip-v'']"
    "transform_words (js ''flip-V Up-2'') = [js ''flip-v'', js ''up-2'']"
    by (simp_all add: transform_words_def toLowerCase_def lower_char_def)
  have "word_amount (js ''up-2'') = Fin 2" "word_amount (js ''flip-v'') = NaF"
    by (simp_all add: word_amount_def toLowerCase_def lower_char_def parseFloat_def parse_unsigned_def white_space_def
        digit_char_def exponent_value_def scaled_def overflow_limit_def)
  then have "whole_word (js ''up-2'')" "whole_word (js ''flip-v'')"
    by (simp_all add: whole_word_def del: js_simps)
  then show ?thesis using transform_word_order [of "js ''up-2 flip-v''" "js ''flip-V Up-2''"]
    by (simp add: words add_mset_commute del: js_simps)
qed

text \<open>Amounts that are not whole may be infinite: the text \<open>grow-1e999\<close> makes an icon of infinite size.\<close>

lemma infinite_size: "t_size (parseTransformString (Some (js ''grow-1e999''))) = Infinite False"
proof -
  have "word_amount (js ''grow-1e999'') = Infinite False"
    by (simp add: word_amount_def toLowerCase_def lower_char_def parseFloat_def parse_unsigned_def white_space_def
        digit_char_def exponent_value_def scaled_def overflow_limit_def)
  then show ?thesis
    by (simp add: parseTransformString_def meaninglessTransform_def toLowerCase_def lower_char_def transform_word_def
        word_amount_def apply_word_def)
qed

end
