(* ===== verification/Fa_Abstract.thy ===== *)
theory Fa_Abstract
  imports Fa_Registry Fa_Transform
begin

text \<open>
  The trees of \<open>fontawesome.js\<close>: the shapes of an icon, the SVG element for an icon with its mask and
  transform, the elements for layers, and what the script reads from an element it replaces.  Ids
  that are drawn at random are arguments.  A missing prefix or name, \<open>null\<close> or \<open>undefined\<close> in the
  code, is \<open>None\<close>; its text is that of \<open>null\<close>.
\<close>

section \<open>Shapes\<close>

definition attrs_of :: "(string \<times> string) list \<Rightarrow> attributes" where
  "attrs_of = map (map_prod js js)"

definition ALL_SPACE :: attributes where
  "ALL_SPACE = attrs_of [(''x'', ''0''), (''y'', ''0''), (''width'', ''100%''), (''height'', ''100%'')]"

record found_icon =
  i_found :: bool
  i_width :: js_float
  i_height :: js_float
  i_icon :: abstract_node

text \<open>\<open>[name, ...]\<close> of an icon with one path, or with the two paths of the duotone style.\<close>

definition path_of :: "attributes \<Rightarrow> js_string option \<Rightarrow> abstract_node" where
  "path_of a d = A_tag (js ''path'') (Some (a @ [(js ''d'', case d of None \<Rightarrow> js ''undefined'' | Some t \<Rightarrow> t)])) None"

definition asFoundIcon :: "config \<Rightarrow> icon_def \<Rightarrow> found_icon" where
  "asFoundIcon C icon =
     \<lparr>i_found = True, i_width = ic_width icon, i_height = ic_height icon,
      i_icon =
        (case ic_data icon of
           Two_paths secondary primary \<Rightarrow>
             A_tag (js ''g'') (Some [(js ''class'', cfg_text C ''familyPrefix'' @ js ''-group'')])
               (Some [path_of [(js ''class'', cfg_text C ''familyPrefix'' @ js ''-secondary''), (js ''fill'', js ''currentColor'')] secondary,
                      path_of [(js ''class'', cfg_text C ''familyPrefix'' @ js ''-primary''), (js ''fill'', js ''currentColor'')] primary])
         | One_path d \<Rightarrow> path_of [(js ''fill'', js ''currentColor'')] (Some d))\<rparr>"

text \<open>The animated sign for an icon that does not exist.\<close>

definition FILL :: attributes where "FILL = attrs_of [(''fill'', ''currentColor'')]"

definition ANIMATION_BASE :: attributes where
  "ANIMATION_BASE = attrs_of [(''attributeType'', ''XML''), (''repeatCount'', ''indefinite''), (''dur'', ''2s'')]"

definition OPACITY_ANIMATE :: attributes where
  "OPACITY_ANIMATE = objectSpread ANIMATION_BASE (attrs_of [(''attributeName'', ''opacity'')])"

definition animate :: "attributes \<Rightarrow> (string \<times> string) list \<Rightarrow> abstract_node" where
  "animate a more_attributes = A_tag (js ''animate'') (Some (objectSpread a (attrs_of more_attributes))) None"

definition RING :: abstract_node where
  "RING = A_tag (js ''path'') (Some (objectSpread FILL [(js ''d'', js
    (''M156.5,447.7l-12.6,29.5c-18.7-9.5-35.9-21.2-51.5-34.9l22.7-22.7C127.6,430.5,141.5,440,156.5,447.'' @
     ''7z M40.6,272H8.5 c1.4,21.2,5.4,41.7,11.7,61.1L50,321.2C45.1,305.5,41.8,289,40.6,272z M40.6,240c1'' @
     ''.4-18.8,5.2-37,11.1-54.1l-29.5-12.6 C14.7,194.3,10,216.7,8.5,240H40.6z M64.3,156.5c7.8-14.9,17.2'' @
     ''-28.8,28.1-41.5L69.7,92.3c-13.7,15.6-25.5,32.8-34.9,51.5 L64.3,156.5z M397,419.6c-13.9,12-29.4,2'' @
     ''2.3-46.1,30.4l11.9,29.8c20.7-9.9,39.8-22.6,56.9-37.6L397,419.6z M115,92.4 c13.9-12,29.4-22.3,46.'' @
     ''1-30.4l-11.9-29.8c-20.7,9.9-39.8,22.6-56.8,37.6L115,92.4z M447.7,355.5c-7.8,14.9-17.2,28.8-28.1,'' @
     ''41.5 l22.7,22.7c13.7-15.6,25.5-32.9,34.9-51.5L447.7,355.5z M471.4,272c-1.4,18.8-5.2,37-11.1,54.1'' @
     ''l29.5,12.6 c7.5-21.1,12.2-43.5,13.6-66.8H471.4z M321.2,462c-15.7,5-32.2,8.2-49.2,9.4v32.1c21.2-1'' @
     ''.4,41.7-5.4,61.1-11.7L321.2,462z M240,471.4c-18.8-1.4-37-5.2-54.1-11.1l-12.6,29.5c21.1,7.5,43.5,'' @
     ''12.2,66.8,13.6V471.4z M462,190.8c5,15.7,8.2,32.2,9.4,49.2h32.1 c-1.4-21.2-5.4-41.7-11.7-61.1L462'' @
     '',190.8z M92.4,397c-12-13.9-22.3-29.4-30.4-46.1l-29.8,11.9c9.9,20.7,22.6,39.8,37.6,56.9 L92.4,397'' @
     ''z M272,40.6c18.8,1.4,36.9,5.2,54.1,11.1l12.6-29.5C317.7,14.7,295.3,10,272,8.5V40.6z M190.8,50 c1'' @
     ''5.7-5,32.2-8.2,49.2-9.4V8.5c-21.2,1.4-41.7,5.4-61.1,11.7L190.8,50z M442.3,92.3L419.6,115c12,13.9'' @
     '',22.3,29.4,30.5,46.1 l29.8-11.9C470,128.5,457.3,109.4,442.3,92.3z M397,92.4l22.7-22.7c-15.6-13.7'' @
     ''-32.8-25.5-51.5-34.9l-12.6,29.5 C370.4,72.1,384.4,81.5,397,92.4z''))])) None"

definition DOT :: abstract_node where
  "DOT = A_tag (js ''circle'') (Some (objectSpread FILL (attrs_of [(''cx'', ''256''), (''cy'', ''364''), (''r'', ''28'')])))
     (Some [animate ANIMATION_BASE [(''attributeName'', ''r''), (''values'', ''28;14;28;28;14;28;'')],
            animate OPACITY_ANIMATE [(''values'', ''1;0;1;1;0;1;'')]])"

definition QUESTION :: abstract_node where
  "QUESTION = A_tag (js ''path'') (Some (objectSpread FILL [(js ''opacity'', js ''1''), (js ''d'', js
    (''M263.7,312h-16c-6.6,0-12-5.4-12-12c0-71,77.4-63.9,77.4-107.8c0-20-17.8-40.2-57.4-40.2c-29.1,0-44'' @
     ''.3,9.6-59.2,28.7 c-3.9,5-11.1,6-16.2,2.4l-13.1-9.2c-5.6-3.9-6.9-11.8-2.6-17.2c21.2-27.2,46.4-44.'' @
     ''7,91.2-44.7c52.3,0,97.4,29.8,97.4,80.2 c0,67.6-77.4,63.5-77.4,107.8C275.7,306.6,270.3,312,263.7,'' @
     ''312z''))]))
     (Some [animate OPACITY_ANIMATE [(''values'', ''1;0;0;0;0;1;'')]])"

definition EXCLAMATION :: abstract_node where
  "EXCLAMATION = A_tag (js ''path'') (Some (objectSpread FILL [(js ''opacity'', js ''0''), (js ''d'', js
    (''M232.5,134.5l7,168c0.3,6.4,5.6,11.5,12,11.5h9c6.4,0,11.7-5.1,12-11.5l7-168c0.3-6.8-5.2-12.5-12-1'' @
     ''2.5h-23 C237.7,122,232.2,127.7,232.5,134.5z''))]))
     (Some [animate OPACITY_ANIMATE [(''values'', ''0;0;1;1;0;0;'')]])"

definition missing :: abstract_node where
  "missing = A_tag (js ''g'') None (Some [RING, DOT, QUESTION, EXCLAMATION])"

text \<open>
  Icons are looked up for an element: the outcome of the promise is the icon, or the rejection when
  the configuration does not want the sign for a missing one.
\<close>

datatype lookup_outcome = Resolved found_icon | Rejected js_string

definition findIcon :: "config \<Rightarrow> registry \<Rightarrow> js_string option \<Rightarrow> js_string option \<Rightarrow> lookup_outcome" where
  "findIcon C R iconName prefix =
     (case (if some_text iconName \<and> some_text prefix then iconFromMapping (r_styles R) (the prefix) (the iconName) else None) of
        Some (_, _, icon) \<Rightarrow> Resolved (asFoundIcon C icon)
      | None \<Rightarrow>
          if some_text iconName \<and> some_text prefix \<and> \<not> cfg_truthy C ''showMissingIcons''
          then Rejected (js ''Icon is missing for prefix '' @ the prefix @ js '' with icon name '' @ the iconName)
          else Resolved \<lparr>i_found = False, i_width = Fin 512, i_height = Fin 512, i_icon = missing\<rparr>)"

section \<open>The SVG element\<close>

definition fillBlack :: "abstract_node \<Rightarrow> bool \<Rightarrow> abstract_node" where
  "fillBlack node force =
     (case node of
        A_tag tag (Some a) cs \<Rightarrow>
          if getItem a (js ''fill'') \<notin> {None, Some []} \<or> force
          then A_tag tag (Some (setItem (js ''fill'') (js ''black'') a)) cs else node
      | _ \<Rightarrow> node)"

text \<open>\<open>map\<close> passes the index as the second argument, so the first child is not forced.\<close>

definition fill_children :: "abstract_node list \<Rightarrow> abstract_node list" where
  "fill_children cs = map (\<lambda>(i, c). fillBlack c (i \<noteq> 0)) (zip [0..<length cs] cs)"

definition deGroup :: "abstract_node \<Rightarrow> abstract_node list" where
  "deGroup node =
     (case node of
        A_tag tag a cs \<Rightarrow> if tag = js ''g'' then (case cs of None \<Rightarrow> [] | Some cs \<Rightarrow> cs) else [node]
      | _ \<Rightarrow> [node])"

definition own_attributes :: "abstract_node \<Rightarrow> attributes" where
  "own_attributes node = (case node of A_tag _ (Some a) _ \<Rightarrow> a | _ \<Rightarrow> [])"

definition element :: "string \<Rightarrow> attributes \<Rightarrow> abstract_node list \<Rightarrow> abstract_node" where
  "element tag a cs = A_tag (js tag) (Some a) (Some cs)"

definition url_of :: "js_string \<Rightarrow> js_string" where
  "url_of i = js ''url(#'' @ i @ js '')''"

definition makeIconMasking ::
  "(js_float \<Rightarrow> js_string) \<Rightarrow> abstract_node list \<Rightarrow> found_icon \<Rightarrow> found_icon \<Rightarrow> js_string option \<Rightarrow> js_string \<times> js_string \<Rightarrow> transform
    \<Rightarrow> abstract_node list" where
  "makeIconMasking fmt children main msk explicitMaskId uids transform =
     (let mainPath = i_icon main;
          maskPath = i_icon msk;
          (outer, inner, path) = transformForSvg fmt transform (i_width msk) (i_width main);
          maskRect = A_tag (js ''rect'') (Some (objectSpread ALL_SPACE (attrs_of [(''fill'', ''white'')]))) None;
          maskInnerGroup = element ''g'' inner
            [fillBlack (A_tag (a_tag mainPath) (Some (objectSpread (own_attributes mainPath) path))
               (map_option fill_children (a_children mainPath))) True];
          maskOuterGroup = element ''g'' outer [maskInnerGroup];
          maskId = js ''mask-'' @ (if some_text explicitMaskId then the explicitMaskId else fst uids);
          clipId = js ''clip-'' @ (if some_text explicitMaskId then the explicitMaskId else snd uids);
          maskTag = element ''mask''
            (objectSpread ALL_SPACE ((js ''id'', maskId) # attrs_of [(''maskUnits'', ''userSpaceOnUse''), (''maskContentUnits'', ''userSpaceOnUse'')]))
            [maskRect, maskOuterGroup];
          defs = A_tag (js ''defs'') None (Some [element ''clipPath'' [(js ''id'', clipId)] (deGroup maskPath), maskTag])
      in children @
         [defs,
          A_tag (js ''rect'')
            (Some (objectSpread [(js ''fill'', js ''currentColor''), (js ''clip-path'', url_of clipId), (js ''mask'', url_of maskId)] ALL_SPACE))
            None])"

definition makeIconStandard ::
  "(js_float \<Rightarrow> js_string) \<Rightarrow> abstract_node list \<Rightarrow> attributes \<Rightarrow> found_icon \<Rightarrow> transform \<Rightarrow> attributes
    \<Rightarrow> abstract_node list \<times> attributes" where
  "makeIconStandard fmt children attrs main transform styles =
     (let styleString = joinStyles styles;
          attrs = (if styleString \<noteq> [] then setItem (js ''style'') styleString attrs else attrs);
          icon = i_icon main
      in (if transformIsMeaningful transform then
            (let (outer, inner, path) = transformForSvg fmt transform (i_width main) (i_width main)
             in children @ [element ''g'' outer [element ''g'' inner
                  [A_tag (a_tag icon) (Some (objectSpread (own_attributes icon) path)) (a_children icon)]]])
          else children @ [icon],
          attrs))"

definition asIcon ::
  "(js_float \<Rightarrow> js_string) \<Rightarrow> abstract_node list \<Rightarrow> found_icon \<Rightarrow> bool \<Rightarrow> attributes \<Rightarrow> attributes \<Rightarrow> transform \<Rightarrow> abstract_node" where
  "asIcon fmt children main mask_found attrs styles transform =
     (let attrs =
        (if transformIsMeaningful transform \<and> i_found main \<and> \<not> mask_found then
           (let ox = i_width main / i_height main / Fin 2; oy = Fin (1 / 2)
            in setItem (js ''style'')
                 (joinStyles (setItem (js ''transform-origin'')
                    (fmt (ox + t_x transform / Fin 16) @ js ''em '' @ fmt (oy + t_y transform / Fin 16) @ js ''em'') styles)) attrs)
         else attrs)
      in element ''svg'' attrs children)"

text \<open>The option \<open>symbol\<close> is a truth value or the id to use.\<close>

datatype symbol = Symbol_bool bool | Symbol_name js_string

definition symbol_truthy :: "symbol \<Rightarrow> bool" where
  "symbol_truthy s = (case s of Symbol_bool b \<Rightarrow> b | Symbol_name t \<Rightarrow> t \<noteq> [])"

definition text_or_null :: "js_string option \<Rightarrow> js_string" where
  "text_or_null a = (case a of None \<Rightarrow> js ''null'' | Some t \<Rightarrow> t)"

definition asSymbol ::
  "config \<Rightarrow> js_string option \<Rightarrow> js_string option \<Rightarrow> abstract_node list \<Rightarrow> attributes \<Rightarrow> symbol \<Rightarrow> abstract_node" where
  "asSymbol C prefix iconName children attrs s =
     (let i = (case s of
                 Symbol_name t \<Rightarrow> t
               | _ \<Rightarrow> text_or_null prefix @ js ''-'' @ cfg_text C ''familyPrefix'' @ js ''-'' @ text_or_null iconName)
      in element ''svg'' (attrs_of [(''style'', ''display: none;'')])
           [element ''symbol'' (objectSpread attrs [(js ''id'', i)]) children])"

record extra =
  x_classes :: "js_string list"
  x_styles :: attributes
  x_attributes :: attributes

record icon_params =
  p_main :: found_icon
  p_mask :: found_icon
  p_prefix :: "js_string option"
  p_iconName :: "js_string option"
  p_transform :: transform
  p_symbol :: symbol
  p_title :: "js_string option"
  p_maskId :: "js_string option"
  p_titleId :: "js_string option"
  p_extra :: extra
  p_watchable :: bool

text \<open>The ids drawn for the title, the mask and the clip path.\<close>

type_synonym drawn_ids = "js_string \<times> js_string \<times> js_string"

fun Math_ceil :: "js_float \<Rightarrow> js_float" where
  "Math_ceil (Fin a) = Fin (of_int \<lceil>a\<rceil>)"
| "Math_ceil x = x"

definition width_class :: "(js_float \<Rightarrow> js_string) \<Rightarrow> icon_params \<Rightarrow> js_string" where
  "width_class fmt p =
     (let shape = (if i_found (p_mask p) then p_mask p else p_main p)
      in if p_prefix p = Some (js ''fak'') then []
         else js ''fa-w-'' @ fmt (Math_ceil (i_width shape / i_height shape * Fin 16)))"

definition icon_classes :: "(js_float \<Rightarrow> js_string) \<Rightarrow> config \<Rightarrow> icon_params \<Rightarrow> js_string list" where
  "icon_classes fmt C p =
     filter (\<lambda>c. c \<noteq> []) (filter (\<lambda>c. c \<notin> set (x_classes (p_extra p)))
       [cfg_text C ''replacementClass'',
        if some_text (p_iconName p) then cfg_text C ''familyPrefix'' @ js ''-'' @ the (p_iconName p) else [],
        width_class fmt p])
     @ x_classes (p_extra p)"

definition icon_attributes :: "(js_float \<Rightarrow> js_string) \<Rightarrow> config \<Rightarrow> icon_params \<Rightarrow> attributes" where
  "icon_attributes fmt C p =
     (let shape = (if i_found (p_mask p) then p_mask p else p_main p);
          old = x_attributes (p_extra p);
          role = getItem old (js ''role'');
          a = objectSpread old
            [(js ''data-prefix'', text_or_null (p_prefix p)), (js ''data-icon'', text_or_null (p_iconName p)),
             (js ''class'', js_join [blank] (icon_classes fmt C p)),
             (js ''role'', if some_text role then the role else js ''img''),
             (js ''xmlns'', js ''http://www.w3.org/2000/svg''),
             (js ''viewBox'', js ''0 0 '' @ fmt (i_width shape) @ js '' '' @ fmt (i_height shape))]
      in if p_watchable p then setItem (js ''data-fa-i2svg'') [] a else a)"

definition icon_title :: "attributes \<Rightarrow> icon_params \<Rightarrow> js_string \<Rightarrow> abstract_node list" where
  "icon_title a p uid =
     (if some_text (p_title p) then
        (let label = getItem a (js ''aria-labelledby'')
         in [element ''title''
               [(js ''id'', if some_text label then the label
                   else js ''title-'' @ (if some_text (p_titleId p) then the (p_titleId p) else uid))]
               [A_text (the (p_title p))]])
      else [])"

definition icon_styles :: "(js_float \<Rightarrow> js_string) \<Rightarrow> icon_params \<Rightarrow> attributes" where
  "icon_styles fmt p =
     (let shape = (if i_found (p_mask p) then p_mask p else p_main p)
      in objectSpread
        (if p_prefix p = Some (js ''fak'') \<and> js ''fa-fw'' \<notin> set (x_classes (p_extra p))
         then [(js ''width'', fmt (i_width shape / i_height shape * Fin 16 * Fin (1 / 16)) @ js ''em'')] else [])
        (x_styles (p_extra p)))"

definition makeInlineSvgAbstract :: "(js_float \<Rightarrow> js_string) \<Rightarrow> config \<Rightarrow> drawn_ids \<Rightarrow> icon_params \<Rightarrow> abstract_node" where
  "makeInlineSvgAbstract fmt C uids p =
     (let a = icon_attributes fmt C p;
          title = icon_title a p (fst uids);
          styles = icon_styles fmt p;
          (children, attrs) =
            (if i_found (p_mask p) \<and> i_found (p_main p)
             then (makeIconMasking fmt title (p_main p) (p_mask p) (p_maskId p) (snd uids) (p_transform p), a)
             else makeIconStandard fmt title a (p_main p) (p_transform p) styles)
      in if symbol_truthy (p_symbol p) then asSymbol C (p_prefix p) (p_iconName p) children attrs (p_symbol p)
         else asIcon fmt children (p_main p) (i_found (p_mask p)) attrs styles (p_transform p))"

section \<open>Layers\<close>

definition layer_attributes :: "js_string option \<Rightarrow> extra \<Rightarrow> attributes" where
  "layer_attributes title ex =
     objectSpread (objectSpread (x_attributes ex) (if some_text title then [(js ''title'', the title)] else []))
       [(js ''class'', js_join [blank] (x_classes ex))]"

definition layer_title :: "js_string option \<Rightarrow> abstract_node list" where
  "layer_title title =
     (if some_text title then [element ''span'' (attrs_of [(''class'', ''sr-only'')]) [A_text (the title)]] else [])"

definition makeLayersTextAbstract ::
  "(js_float \<Rightarrow> js_string) \<Rightarrow> bool \<Rightarrow> js_string \<Rightarrow> js_float option \<Rightarrow> js_float option \<Rightarrow> transform \<Rightarrow> js_string option \<Rightarrow> extra \<Rightarrow> bool
    \<Rightarrow> abstract_node list" where
  "makeLayersTextAbstract fmt IS_IE content width height transform title ex watchable =
     (let a = layer_attributes title ex;
          a = (if watchable then setItem (js ''data-fa-i2svg'') [] a else a);
          css = transformForCss fmt IS_IE transform width height True;
          styles = (if transformIsMeaningful transform
                    then setItem (js ''-webkit-transform'') css (setItem (js ''transform'') css (x_styles ex))
                    else x_styles ex);
          styleString = joinStyles styles;
          a = (if styleString \<noteq> [] then setItem (js ''style'') styleString a else a)
      in element ''span'' a [A_text content] # layer_title title)"

definition makeLayersCounterAbstract :: "js_string \<Rightarrow> js_string option \<Rightarrow> extra \<Rightarrow> abstract_node list" where
  "makeLayersCounterAbstract content title ex =
     (let a = layer_attributes title ex;
          styleString = joinStyles (x_styles ex);
          a = (if styleString \<noteq> [] then setItem (js ''style'') styleString a else a)
      in element ''span'' a [A_text content] # layer_title title)"

end
