(* ===== verification/Fa_Html.thy ===== *)
theory Fa_Html
  imports Fa_Text
begin

text \<open>
  The HTML text that \<open>toHtml\<close> writes is read back by a parser for this subset of HTML.
\<close>

section \<open>A parser\<close>

text \<open>Attributes: a name, an equals sign and a quoted value, separated by blanks.\<close>

fun parse_attributes :: "nat \<Rightarrow> js_string \<Rightarrow> attributes option" where
  "parse_attributes 0 s = (if s = [] then Some [] else None)"
| "parse_attributes (Suc n) s =
     (if s = [] then Some []
      else let name = takeWhile (\<lambda>c. c \<noteq> 61) s; rest = drop (length name) s;
               val = takeWhile (\<lambda>c. c \<noteq> dquote) (drop 2 rest); rest' = drop (length val + 2) rest in
        if take 2 rest \<noteq> [61, dquote] \<or> take 1 rest' \<noteq> [dquote] then None
        else map_option (\<lambda>sibs. (name, unescape val) # sibs) (parse_attributes n (drop 2 rest')))"

fun parse_nodes :: "nat \<Rightarrow> js_string \<Rightarrow> (abstract_node list \<times> js_string) option" where
  "parse_nodes 0 s = None"
| "parse_nodes (Suc n) s =
     (if s = [] \<or> take 2 s = [60, 47] then Some ([], s)
      else if hd s \<noteq> 60 then
        (let text = takeWhile (\<lambda>c. c \<noteq> 60) s in
         map_option (\<lambda>(sibs, rest). (A_text (unescape text) # sibs, rest)) (parse_nodes n (drop (length text) s)))
      else
        (let tag = takeWhile (\<lambda>c. c \<noteq> blank) (tl s); body = drop (length tag + 2) s;
             attrs = takeWhile (\<lambda>c. c \<noteq> 62) body in
         case (parse_attributes (length attrs) attrs, parse_nodes n (drop (length attrs + 1) body)) of
           (Some a, Some (children, rest)) \<Rightarrow>
             if take (length tag + 3) rest = [60, 47] @ tag @ [62] then
               map_option (\<lambda>(sibs, rest). (A_tag tag (Some a) (Some children) # sibs, rest))
                 (parse_nodes n (drop (length tag + 3) rest))
             else None
         | _ \<Rightarrow> None))"

section \<open>Attributes\<close>

definition name_ok :: "js_string \<Rightarrow> bool" where
  "name_ok k \<longleftrightarrow> k \<noteq> [] \<and> \<not> white_space (hd k) \<and> set k \<inter> {61, 62} = {}"

definition attributes_ok :: "attributes \<Rightarrow> bool" where
  "attributes_ok d \<longleftrightarrow> storage_ok d \<and> (\<forall>(k, v) \<in> set d. name_ok k)"

definition attribute_text :: "js_string \<times> js_string \<Rightarrow> js_string" where
  "attribute_text kv = fst kv @ [61, dquote] @ htmlEscape (snd kv) @ [dquote]"

lemma js_trim_blank:
  "s \<noteq> [] \<Longrightarrow> \<not> white_space (hd s) \<Longrightarrow> \<not> white_space (last s) \<Longrightarrow> js_trim (s @ [blank]) = s"
  using js_trim_id [of s] by (cases s) (simp_all add: js_trim_def)

lemma joinAttributes_join:
  assumes "attributes_ok d"
  shows "joinAttributes d = js_join [blank] (map attribute_text d)"
proof (cases d rule: rev_cases)
  case Nil
  then show ?thesis by (simp add: joinAttributes_def storage_keys_def js_trim_def)
next
  case (snoc e x)
  have w: "\<not> white_space dquote" by (simp add: white_space_def)
  let ?f = "\<lambda>(k, v). k @ [61, dquote] @ htmlEscape v @ [dquote, blank]"
  let ?J = "js_join [blank] (map attribute_text d)"
  have txt1: "joinAttributes d = js_trim (concat (map ?f d))"
    unfolding joinAttributes_def foldl_concat
    using concat_keys [of d "\<lambda>k v. k @ [61, dquote] @ htmlEscape v @ [dquote, blank]"] assms
    by (simp add: attributes_ok_def)
  have join: "concat (map ?f (e @ [x])) = js_join [blank] (map attribute_text (e @ [x])) @ [blank]"
  proof (induction e)
    case Nil
    then show ?case by (simp add: attribute_text_def split: prod.split)
  next
    case (Cons y e)
    then show ?case by (simp add: js_join_Cons attribute_text_def split: prod.split)
  qed
  have first: "?J \<noteq> [] \<and> \<not> white_space (hd ?J)"
  proof (cases d)
    case Nil
    then show ?thesis using snoc by simp
  next
    case (Cons y d')
    moreover have "fst y \<noteq> [] \<and> \<not> white_space (hd (fst y))"
      using assms unfolding attributes_ok_def name_ok_def Cons by auto
    ultimately show ?thesis by (auto simp: js_join_Cons attribute_text_def hd_append)
  qed
  have "\<exists>q. js_join [blank] (ps @ [p]) = q @ p" for ps p by (induction ps) (auto simp: js_join_Cons)
  then obtain q where "js_join [blank] (map attribute_text e @ [attribute_text x]) = q @ attribute_text x" by blast
  then have "last (js_join [blank] (map attribute_text (e @ [x]))) = dquote" by (simp add: attribute_text_def)
  then have "\<not> white_space (last ?J)" using snoc w by simp
  with first show ?thesis unfolding txt1 join [folded snoc] by (intro js_trim_blank) auto
qed

lemma takeWhile_stop: "z \<notin> set xs \<Longrightarrow> takeWhile (\<lambda>c. c \<noteq> z) (xs @ z # ys) = xs"
  by (subst takeWhile_append2) auto

lemma escaped_notin: "34 \<notin> set (htmlEscape s)" "60 \<notin> set (htmlEscape s)" "62 \<notin> set (htmlEscape s)"
  using escaped_chars [of s] by auto

lemma unescape_htmlEscape0: "unescape (htmlEscape s) = s"
  using unescape_htmlEscape [of s "[]"] by simp

lemma parse_attributes_join:
  "(\<forall>(k, v) \<in> set d. name_ok k) \<Longrightarrow> length d \<le> n \<Longrightarrow>
   parse_attributes n (js_join [blank] (map attribute_text d)) = Some d"
proof (induction d arbitrary: n)
  case Nil
  then show ?case by (cases n) auto
next
  case (Cons x d)
  obtain k v where x: "x = (k, v)" by (cases x)
  obtain m where n: "n = Suc m" using Cons.prems(2) by (cases n) auto
  have k: "61 \<notin> set k" "k \<noteq> []" using Cons.prems(1) by (auto simp: x name_ok_def)
  let ?sep = "if d = [] then [] else blank # js_join [blank] (map attribute_text d)"
  have s: "js_join [blank] (map attribute_text (x # d)) = k @ 61 # dquote # htmlEscape v @ dquote # ?sep"
    by (simp add: js_join_Cons attribute_text_def x)
  have name: "takeWhile (\<lambda>c. c \<noteq> 61) (k @ 61 # dquote # htmlEscape v @ dquote # ?sep) = k"
    using takeWhile_stop [OF k(1)] by simp
  have val: "takeWhile (\<lambda>c. c \<noteq> dquote) (htmlEscape v @ dquote # ?sep) = htmlEscape v"
    using takeWhile_stop [OF escaped_notin(1)] by simp
  have sibs: "parse_attributes m (js_join [blank] (map attribute_text d)) = Some d"
    using Cons by (simp add: n)
  have "parse_attributes m [] = Some []" by (cases m) simp_all
  then have sep: "parse_attributes m (drop 1 ?sep) = Some d" using sibs by simp
  show ?case unfolding s n using k(2) sep
    by (simp add: name val unescape_htmlEscape0 x)
qed

section \<open>Nodes\<close>

text \<open>
  A tree is in normal form when neighbouring texts are merged and no text is empty: the text of the
  page cannot tell other trees apart.  Missing attributes and children are read back as empty.
\<close>

fun is_text :: "abstract_node \<Rightarrow> bool" where
  "is_text (A_text s) = True"
| "is_text (A_tag tag attrs children) = False"

fun merged :: "abstract_node list \<Rightarrow> bool" where
  "merged (x # y # ns) = (\<not> (is_text x \<and> is_text y) \<and> merged (y # ns))"
| "merged ns = True"

fun node_ok :: "abstract_node \<Rightarrow> bool" where
  "node_ok (A_text s) = (s \<noteq> [])"
| "node_ok (A_tag tag attrs children) =
     (tag \<noteq> [] \<and> hd tag \<noteq> 47 \<and> blank \<notin> set tag \<and> (case attrs of None \<Rightarrow> True | Some d \<Rightarrow> attributes_ok d)
      \<and> (case children of None \<Rightarrow> True | Some cs \<Rightarrow> merged cs \<and> list_all node_ok cs))"

fun filled :: "abstract_node \<Rightarrow> abstract_node" where
  "filled (A_text s) = A_text s"
| "filled (A_tag tag attrs children) =
     A_tag tag (Some (case attrs of None \<Rightarrow> [] | Some d \<Rightarrow> d))
       (Some (case children of None \<Rightarrow> [] | Some cs \<Rightarrow> map filled cs))"

fun weight :: "abstract_node \<Rightarrow> nat" where
  "weight (A_text s) = 1"
| "weight (A_tag tag attrs children) =
     2 + (case children of None \<Rightarrow> 0 | Some cs \<Rightarrow> sum_list (map weight cs))"

lemma htmlEscape_Nil: "htmlEscape s = [] \<longleftrightarrow> s = []"
  using unescape_htmlEscape0 [of s] by (cases "htmlEscape s = []") (auto simp: htmlEscape_single_pass [of "[]"])

lemma toHtml_starts: "\<not> is_text x \<Longrightarrow> hd (toHtml x) = 60" "toHtml x \<noteq> [] \<or> is_text x"
  by (cases x; simp)+

lemma parse_end: "rest = [] \<or> take 2 rest = [60, 47] \<Longrightarrow> parse_nodes (Suc n) rest = Some ([], rest)"
  by auto

lemma length_join: "d \<noteq> [] \<Longrightarrow> length d \<le> length (js_join [blank] (map attribute_text d))"
proof (induction d)
  case (Cons x d)
  then show ?case by (cases "d = []") (auto simp: js_join_Cons attribute_text_def)
qed simp

lemma attributes_parsed:
  assumes "attributes_ok d"
  shows "parse_attributes (length (joinAttributes d)) (joinAttributes d) = Some d" "62 \<notin> set (joinAttributes d)"
proof -
  have "length d \<le> length (joinAttributes d)"
    using joinAttributes_join [OF assms] length_join [of d] by (cases "d = []") auto
  then show "parse_attributes (length (joinAttributes d)) (joinAttributes d) = Some d"
    using assms unfolding joinAttributes_join [OF assms] attributes_ok_def by (intro parse_attributes_join) auto
  have "62 \<notin> set (js_join [blank] (map attribute_text d))"
    if "\<forall>(k, v) \<in> set d. name_ok k" for d
    using that by (induction d) (auto simp: js_join_Cons attribute_text_def name_ok_def escaped_notin)
  then show "62 \<notin> set (joinAttributes d)"
    unfolding joinAttributes_join [OF assms] using assms by (simp add: attributes_ok_def)
qed

lemma parse_text:
  assumes "s \<noteq> []" "rest = [] \<or> hd rest = 60" "parse_nodes n rest = Some (sibs, rest')"
  shows "parse_nodes (Suc n) (htmlEscape s @ rest) = Some (A_text s # sibs, rest')"
proof -
  have 60: "60 \<notin> set (htmlEscape s)" and ne: "htmlEscape s \<noteq> []" using assms(1) by (simp_all add: escaped_notin htmlEscape_Nil)
  have t: "takeWhile (\<lambda>c. c \<noteq> 60) (htmlEscape s @ rest) = htmlEscape s"
    using 60 assms(2) by (cases rest) (auto intro: takeWhile_stop simp: takeWhile_eq_all_conv)
  have h: "hd (htmlEscape s @ rest) \<noteq> 60" "take 2 (htmlEscape s @ rest) \<noteq> [60, 47]" "htmlEscape s @ rest \<noteq> []"
    using 60 ne by (cases "htmlEscape s"; auto)+
  show ?thesis using h by (simp add: t assms(3) unescape_htmlEscape0)
qed

lemma parse_tag:
  assumes "tag \<noteq> []" "hd tag \<noteq> 47" "blank \<notin> set tag" "attributes_ok d"
    and "parse_nodes n (inner @ [60, 47] @ tag @ [62] @ rest) = Some (children, [60, 47] @ tag @ [62] @ rest)"
    and "parse_nodes n rest = Some (sibs, rest')"
  shows "parse_nodes (Suc n) ([60] @ tag @ [blank] @ joinAttributes d @ [62] @ inner @ [60, 47] @ tag @ [62] @ rest)
    = Some (A_tag tag (Some d) (Some children) # sibs, rest')"
proof -
  let ?body = "joinAttributes d @ 62 # inner @ 60 # 47 # tag @ 62 # rest"
  have t: "takeWhile (\<lambda>c. c \<noteq> blank) (tag @ blank # ?body) = tag" using assms(3) by (rule takeWhile_stop)
  have a: "takeWhile (\<lambda>c. c \<noteq> 62) ?body = joinAttributes d" using attributes_parsed(2) [OF assms(4)] by (rule takeWhile_stop)
  have "take 2 (60 # tag @ blank # ?body) \<noteq> [60, 47]" using assms(1,2) by (cases tag) auto
  moreover have "take (length tag + 3) (60 # 47 # tag @ 62 # rest) = 60 # 47 # tag @ [62]"
    "drop (length tag + 3) (60 # 47 # tag @ 62 # rest) = rest" by (simp_all add: numeral_3_eq_3)
  ultimately show ?thesis
    using assms(5,6) by (simp add: Let_def t a attributes_parsed(1) [OF assms(4)])
qed

lemma parse_children:
  "sum_list (map weight cs) < n \<Longrightarrow> merged cs \<Longrightarrow> list_all node_ok cs \<Longrightarrow> rest = [] \<or> take 2 rest = [60, 47] \<Longrightarrow>
   parse_nodes n (concat (map toHtml cs) @ rest) = Some (map filled cs, rest)"
proof (induction n arbitrary: cs rest)
  case (Suc n)
  show ?case
  proof (cases cs)
    case Nil
    then show ?thesis using Suc.prems(4) by auto
  next
    case (Cons x xs)
    have m: "merged xs" using Suc.prems(2) Cons by (cases xs) auto
    have n: "sum_list (map weight xs) < n" using Suc.prems(1) Cons by (cases x) auto
    have sibs: "parse_nodes n (concat (map toHtml xs) @ rest) = Some (map filled xs, rest)"
      using Suc.IH [OF n m _ Suc.prems(4)] Suc.prems(3) Cons by simp
    show ?thesis
    proof (cases x)
      case (A_text s)
      have "concat (map toHtml xs) @ rest = [] \<or> hd (concat (map toHtml xs) @ rest) = 60"
      proof (cases xs)
        case Nil
        then show ?thesis using Suc.prems(4) by (cases rest) auto
      next
        case (Cons y ys)
        then have "\<not> is_text y" using Suc.prems(2) \<open>cs = x # xs\<close> A_text by simp
        then show ?thesis using Cons by (cases y) auto
      qed
      then show ?thesis using parse_text [OF _ _ sibs] Suc.prems(3) Cons A_text by simp
    next
      case (A_tag tag attrs children)
      define d where "d = (case attrs of None \<Rightarrow> [] | Some d \<Rightarrow> d)"
      define ks where "ks = (case children of None \<Rightarrow> [] | Some ks \<Rightarrow> ks)"
      have html: "toHtml x = [60] @ tag @ [blank] @ joinAttributes d @ [62] @ concat (map toHtml ks) @ [60, 47] @ tag @ [62]"
        by (simp add: A_tag d_def ks_def split: option.split)
      have fill: "filled x = A_tag tag (Some d) (Some (map filled ks))"
        by (simp add: A_tag d_def ks_def split: option.split)
      have ok: "tag \<noteq> []" "hd tag \<noteq> 47" "blank \<notin> set tag" "attributes_ok d" "merged ks" "list_all node_ok ks"
        using Suc.prems(3) Cons
        by (auto simp: A_tag d_def ks_def attributes_ok_def split: option.splits)
      have "sum_list (map weight ks) < n"
        using Suc.prems(1) Cons by (auto simp: A_tag ks_def split: option.splits)
      from Suc.IH [OF this ok(5,6), of "[60, 47] @ tag @ [62] @ concat (map toHtml xs) @ rest"]
      have inner: "parse_nodes n (concat (map toHtml ks) @ [60, 47] @ tag @ [62] @ concat (map toHtml xs) @ rest)
          = Some (map filled ks, [60, 47] @ tag @ [62] @ concat (map toHtml xs) @ rest)" by simp
      show ?thesis unfolding Cons using parse_tag [OF ok(1-4) inner sibs] by (simp add: html fill del: toHtml.simps)
    qed
  qed
qed simp

text \<open>
  Property C33.  The HTML text determines the tree: a sequence of abstract nodes in normal form is
  read back from the text that \<open>toHtml\<close> writes for it, whatever its attribute values and texts are.
\<close>

theorem toHtml_round_trip:
  assumes "merged nodes" "list_all node_ok nodes"
  shows "parse_nodes (Suc (sum_list (map weight nodes))) (concat (map toHtml nodes)) = Some (map filled nodes, [])"
  using parse_children [of nodes "Suc (sum_list (map weight nodes))" "[]"] assms by simp

theorem toHtml_round_trip_witness:
  "parse_nodes 6 (toHtml (A_tag (js ''svg'') (Some [(js ''class'', js ''a<b'')]) (Some [A_tag (js ''path'') None None, A_text (js ''x'')])))
     = Some ([A_tag (js ''svg'') (Some [(js ''class'', js ''a<b'')]) (Some [A_tag (js ''path'') (Some []) (Some []), A_text (js ''x'')])], [])"
proof -
  let ?n = "A_tag (js ''svg'') (Some [(js ''class'', js ''a<b'')]) (Some [A_tag (js ''path'') None None, A_text (js ''x'')])"
  have ok: "merged [?n]" "list_all node_ok [?n]"
    by (simp_all add: attributes_ok_def storage_ok_def name_ok_def white_space_def)
  have "Suc (sum_list (map weight [?n])) = 6" by simp
  then show ?thesis using toHtml_round_trip [OF ok] by (simp del: toHtml.simps parse_nodes.simps js_simps)
qed

end
