(* ===== verification/Fa_Render.thy ===== *)
theory Fa_Render
  imports Fa_Abstract Fa_Html
begin

text \<open>
  Replacing elements by icons: what the script reads from an element, the tree it makes for it, the
  HTML text that is put in its place, the reaction to changes of the page, and the programming
  interface for icons, texts, counters and layers.
\<close>

section \<open>Reading an element\<close>

text \<open>The loop looks at the property \<open>name\<close> of the object it builds, not at that of the attribute.\<close>

definition attributesParser :: "config \<Rightarrow> dom_node \<Rightarrow> js_string \<Rightarrow> attributes" where
  "attributesParser C node uid =
     (let extraAttributes = fold (\<lambda>(name, val) acc.
            if getItem acc (js ''name'') \<noteq> Some (js ''class'') \<and> getItem acc (js ''name'') \<noteq> Some (js ''style'')
            then setItem name val acc else acc) (n_attributes node) [];
          title = getAttribute node (js ''title'');
          titleId = getAttribute node (js ''data-fa-title-id'')
      in if cfg_truthy C ''autoA11y'' then
           (if some_text title then
              setItem (js ''aria-labelledby'')
                (cfg_text C ''replacementClass'' @ js ''-title-'' @ (if some_text titleId then the titleId else uid)) extraAttributes
            else setItem (js ''focusable'') (js ''false'') (setItem (js ''aria-hidden'') (js ''true'') extraAttributes))
         else extraAttributes)"

definition symbolParser :: "dom_node \<Rightarrow> symbol" where
  "symbolParser node =
     (case getAttribute node (js ''data-fa-symbol'') of
        None \<Rightarrow> Symbol_bool False
      | Some s \<Rightarrow> if s = [] then Symbol_bool True else Symbol_name s)"

definition transformParser :: "dom_node \<Rightarrow> transform" where
  "transformParser node = parseTransformString (getAttribute node (js ''data-fa-transform''))"

record icon_meta =
  m_iconName :: "js_string option"
  m_title :: "js_string option"
  m_titleId :: "js_string option"
  m_prefix :: "js_string option"
  m_transform :: transform
  m_symbol :: symbol
  m_mask :: canonical_icon
  m_maskId :: "js_string option"
  m_extra :: extra

definition parseMeta :: "config \<Rightarrow> registry \<Rightarrow> dom_node \<Rightarrow> js_string \<Rightarrow> icon_meta" where
  "parseMeta C R node uid =
     (let c = classParser C R node in
      \<lparr>m_iconName = c_iconName c, m_title = getAttribute node (js ''title''),
       m_titleId = getAttribute node (js ''data-fa-title-id''), m_prefix = c_prefix c,
       m_transform = transformParser node, m_symbol = symbolParser node, m_mask = maskParser C R node,
       m_maskId = getAttribute node (js ''data-fa-mask-id''),
       m_extra = \<lparr>x_classes = c_rest c, x_styles = styleParser (getAttribute node (js ''style'')),
                  x_attributes = attributesParser C node uid\<rparr>\<rparr>)"

section \<open>The tree for an element\<close>

text \<open>A rejected lookup has no handler, so the promise of the mutation never settles: \<open>None\<close>.\<close>

definition generateSvgReplacementMutation ::
  "(js_float \<Rightarrow> js_string) \<Rightarrow> config \<Rightarrow> registry \<Rightarrow> drawn_ids \<Rightarrow> icon_meta \<Rightarrow> abstract_node list option" where
  "generateSvgReplacementMutation fmt C R uids meta =
     (case (findIcon C R (m_iconName meta) (m_prefix meta), findIcon C R (c_iconName (m_mask meta)) (c_prefix (m_mask meta))) of
        (Resolved main, Resolved msk) \<Rightarrow>
          Some [makeInlineSvgAbstract fmt C uids
            \<lparr>p_main = main, p_mask = msk, p_prefix = m_prefix meta, p_iconName = m_iconName meta,
             p_transform = m_transform meta, p_symbol = m_symbol meta, p_title = m_title meta,
             p_maskId = m_maskId meta, p_titleId = m_titleId meta, p_extra = m_extra meta, p_watchable = True\<rparr>]
      | _ \<Rightarrow> None)"

text \<open>The text of a layer is the \<open>innerHTML\<close> of the element; its size in units of the font is measured in Internet Explorer.\<close>

definition generateLayersText ::
  "(js_float \<Rightarrow> js_string) \<Rightarrow> config \<Rightarrow> bool \<Rightarrow> js_float \<times> js_float \<Rightarrow> js_string \<Rightarrow> icon_meta \<Rightarrow> abstract_node list" where
  "generateLayersText fmt C IS_IE sz innerHTML meta =
     (let ex = m_extra meta;
          ex = (if cfg_truthy C ''autoA11y'' \<and> \<not> some_text (m_title meta)
                then ex\<lparr>x_attributes := setItem (js ''aria-hidden'') (js ''true'') (x_attributes ex)\<rparr> else ex)
      in makeLayersTextAbstract fmt IS_IE innerHTML (if IS_IE then Some (fst sz) else None)
           (if IS_IE then Some (snd sz) else None) (m_transform meta) (m_title meta) ex True)"

definition generateMutation ::
  "(js_float \<Rightarrow> js_string) \<Rightarrow> config \<Rightarrow> registry \<Rightarrow> bool \<Rightarrow> js_float \<times> js_float \<Rightarrow> drawn_ids \<times> js_string \<Rightarrow> js_string \<Rightarrow> dom_node
    \<Rightarrow> abstract_node list option" where
  "generateMutation fmt C R IS_IE sz uids innerHTML node =
     (let meta = parseMeta C R node (snd uids) in
      if js ''fa-layers-text'' \<in> set (x_classes (m_extra meta)) then Some (generateLayersText fmt C IS_IE sz innerHTML meta)
      else generateSvgReplacementMutation fmt C R (fst uids) meta)"

section \<open>Changing the page\<close>

definition lines_of :: "abstract_node list \<Rightarrow> js_string" where
  "lines_of nodes = js_join [10] (map toHtml nodes)"

text \<open>The original element is kept in a comment, unless it was an SVG element already.\<close>

definition mutator_replace :: "config \<Rightarrow> js_string \<Rightarrow> js_string \<Rightarrow> abstract_node list \<Rightarrow> js_string" where
  "mutator_replace C tagName outerHTML nodes =
     lines_of nodes
     @ (if cfg_truthy C ''keepOriginalSource'' \<and> toLowerCase tagName \<noteq> js ''svg''
        then js ''<!-- '' @ outerHTML @ js '' Font Awesome fontawesome.com -->'' else [])"

fun has_part :: "js_string \<Rightarrow> js_string \<Rightarrow> bool" where
  "has_part p [] = (p = [])"
| "has_part p (c # cs) = (take (length p) (c # cs) = p \<or> has_part p cs)"

text \<open>
  The other mutator writes the SVG into the element: classes of the icon go to it, the others stay.
  The result is the element's new class list and its new content, or the text that replaces it.
\<close>

datatype mutation_result = Replaced js_string | Nested "js_string list" js_string

definition set_class :: "js_string list \<Rightarrow> abstract_node \<Rightarrow> abstract_node" where
  "set_class cs node =
     (case node of
        A_tag tag (Some a) ch \<Rightarrow>
          A_tag tag (Some (setItem (js ''class'') (js_join [blank] cs) (removeItem (js ''id'') (removeItem (js ''style'') a)))) ch
      | _ \<Rightarrow> node)"

definition mutator_nest :: "config \<Rightarrow> dom_node \<Rightarrow> js_string \<Rightarrow> js_string \<Rightarrow> abstract_node list \<Rightarrow> mutation_result" where
  "mutator_nest C node tagName outerHTML nodes =
     (if cfg_text C ''replacementClass'' \<in> set (classArray node)
      then Replaced (mutator_replace C tagName outerHTML nodes)
      else
        (let classes = js_split blank (own_prop (own_attributes (hd nodes)) (js ''class''));
             for_svg = (\<lambda>cls. cls = cfg_text C ''replacementClass'' \<or> has_part (cfg_text C ''familyPrefix'' @ js ''-'') cls)
         in Nested (filter (\<lambda>cls. \<not> for_svg cls) classes)
              (lines_of (set_class (filter for_svg classes) (hd nodes) # tl nodes))))"

definition apply_mutation :: "config \<Rightarrow> dom_node \<Rightarrow> js_string \<Rightarrow> js_string \<Rightarrow> abstract_node list \<Rightarrow> mutation_result" where
  "apply_mutation C node tagName outerHTML nodes =
     (if getItem C (js ''autoReplaceSvg'') = Some (Cfg_text (js ''nest'')) then mutator_nest C node tagName outerHTML nodes
      else Replaced (mutator_replace C tagName outerHTML nodes))"

definition isWatched :: "dom_node \<Rightarrow> bool" where
  "isWatched node = (getAttribute node (js ''data-fa-i2svg'') \<noteq> None)"

text \<open>A record of the mutation observer, with the elements it names by number.\<close>

datatype mutation_record =
    Child_list nat "dom_node list"
  | Attribute_changed nat "nat option" js_string dom_node

datatype observer_action =
    Pseudo_elements nat
  | Tree_changed nat
  | Node_changed nat
  | Set_attribute nat js_string js_string

definition watched_attributes :: "js_string list" where
  "watched_attributes = map js [''class'', ''data-prefix'', ''data-icon'', ''data-fa-transform'', ''data-fa-mask'']"

fun on_record :: "config \<Rightarrow> registry \<Rightarrow> mutation_record \<Rightarrow> observer_action list" where
  "on_record C R (Child_list target added) =
     (if added \<noteq> [] \<and> \<not> isWatched (hd added)
      then (if cfg_truthy C ''searchPseudoElements'' then [Pseudo_elements target] else []) @ [Tree_changed target]
      else [])"
| "on_record C R (Attribute_changed target parent name node) =
     (case parent of
        Some p \<Rightarrow> if cfg_truthy C ''searchPseudoElements'' then [Pseudo_elements p] else []
      | None \<Rightarrow> [])
     @ (if isWatched node \<and> name \<in> set watched_attributes then
          (if name = js ''class'' then
             (let c = getCanonicalIcon C R (classArray node)
              in (if some_text (c_prefix c) then [Set_attribute target (js ''data-prefix'') (the (c_prefix c))] else [])
                 @ (if some_text (c_iconName c) then [Set_attribute target (js ''data-icon'') (the (c_iconName c))] else []))
           else [Node_changed target])
        else [])"

definition on_mutations :: "config \<Rightarrow> registry \<Rightarrow> bool \<Rightarrow> mutation_record list \<Rightarrow> observer_action list" where
  "on_mutations C R disabled records = (if disabled then [] else concat (map (on_record C R) records))"

section \<open>Programming interface\<close>

record api_params =
  a_transform :: transform
  a_symbol :: symbol
  a_mask :: "icon_def option"
  a_maskId :: "js_string option"
  a_title :: "js_string option"
  a_titleId :: "js_string option"
  a_classes :: "js_string list"
  a_attrs :: attributes
  a_styles :: attributes

definition no_icon :: found_icon where
  "no_icon = \<lparr>i_found = False, i_width = Fin 0, i_height = Fin 0, i_icon = A_tag (js ''undefined'') None None\<rparr>"

definition api_icon ::
  "(js_float \<Rightarrow> js_string) \<Rightarrow> config \<Rightarrow> drawn_ids \<times> js_string \<Rightarrow> js_string \<times> js_string \<times> icon_def \<Rightarrow> api_params \<Rightarrow> abstract_node list" where
  "api_icon fmt C uids def q =
     (case def of (prefix, iconName, icon) \<Rightarrow>
        let a = (if cfg_truthy C ''autoA11y'' then
              (if some_text (a_title q) then
                 setItem (js ''aria-labelledby'')
                   (cfg_text C ''replacementClass'' @ js ''-title-'' @ (if some_text (a_titleId q) then the (a_titleId q) else snd uids)) (a_attrs q)
               else setItem (js ''focusable'') (js ''false'') (setItem (js ''aria-hidden'') (js ''true'') (a_attrs q)))
            else a_attrs q)
        in [makeInlineSvgAbstract fmt C (fst uids)
             \<lparr>p_main = asFoundIcon C icon, p_mask = (case a_mask q of None \<Rightarrow> no_icon | Some m \<Rightarrow> asFoundIcon C m),
              p_prefix = Some prefix, p_iconName = Some iconName, p_transform = a_transform q, p_symbol = a_symbol q,
              p_title = a_title q, p_maskId = a_maskId q, p_titleId = a_titleId q,
              p_extra = \<lparr>x_classes = a_classes q, x_styles = a_styles q, x_attributes = a\<rparr>, p_watchable = False\<rparr>])"

definition api_text :: "(js_float \<Rightarrow> js_string) \<Rightarrow> config \<Rightarrow> bool \<Rightarrow> js_string \<Rightarrow> api_params \<Rightarrow> abstract_node list" where
  "api_text fmt C IS_IE content q =
     makeLayersTextAbstract fmt IS_IE content None None (a_transform q) (a_title q)
       \<lparr>x_classes = (cfg_text C ''familyPrefix'' @ js ''-layers-text'') # a_classes q, x_styles = a_styles q, x_attributes = a_attrs q\<rparr> False"

definition api_counter :: "config \<Rightarrow> js_string \<Rightarrow> api_params \<Rightarrow> abstract_node list" where
  "api_counter C content q =
     makeLayersCounterAbstract content (a_title q)
       \<lparr>x_classes = (cfg_text C ''familyPrefix'' @ js ''-layers-counter'') # a_classes q, x_styles = a_styles q, x_attributes = a_attrs q\<rparr>"

text \<open>The assembler of a layer adds the trees of one object or of several.\<close>

definition api_layer :: "config \<Rightarrow> abstract_node list list \<Rightarrow> api_params \<Rightarrow> abstract_node list" where
  "api_layer C parts q =
     [element ''span'' [(js ''class'', js_join [blank] ((cfg_text C ''familyPrefix'' @ js ''-layers'') # a_classes q))] (concat parts)]"

end
