(* ===== verification/Fa_Render_Correct.thy ===== *)
theory Fa_Render_Correct
  imports Fa_Render
begin

text \<open>
  What rendering promises: the tree of an icon is well formed, so that its HTML text is read back as
  this tree, and an element that was replaced is still recognised as the same icon.
\<close>

section \<open>Well-formed trees\<close>

definition shape_ok :: "abstract_node \<Rightarrow> bool" where
  "shape_ok n \<longleftrightarrow> node_ok n \<and> \<not> is_text n"

definition solid :: "abstract_node list \<Rightarrow> bool" where
  "solid cs \<longleftrightarrow> (\<forall>c \<in> set cs. shape_ok c)"

lemma solid_simps [simp]:
  "solid []" "solid (c # cs) \<longleftrightarrow> shape_ok c \<and> solid cs" "solid (cs @ cs') \<longleftrightarrow> solid cs \<and> solid cs'"
  by (auto simp: solid_def)

lemma solid_merged: "solid cs \<Longrightarrow> merged cs \<and> list_all node_ok cs"
  by (induction cs rule: merged.induct) (auto simp: shape_ok_def)

definition names_ok :: "attributes \<Rightarrow> bool" where
  "names_ok d \<longleftrightarrow> (\<forall>(k, v) \<in> set d. name_ok k)"

lemma names_ok_simps [simp]: "names_ok []" "names_ok ((k, v) # d) \<longleftrightarrow> name_ok k \<and> names_ok d"
  by (auto simp: names_ok_def)

lemma attributes_ok_Nil [simp]: "attributes_ok []"
  by (simp add: attributes_ok_def)

lemma attributes_ok_setItem [simp]: "attributes_ok d \<Longrightarrow> name_ok k \<Longrightarrow> attributes_ok (setItem k v d)"
  using set_setItem [of k v d] by (auto simp: attributes_ok_def)

lemma attributes_ok_spread [simp]: "attributes_ok a \<Longrightarrow> names_ok b \<Longrightarrow> attributes_ok (objectSpread a b)"
  unfolding objectSpread_def names_ok_def by (rule fold_keeps) auto

lemma spread_Nil: "objectSpread [] b = fold (\<lambda>(k, v). setItem k v) b []"
  by (simp add: objectSpread_def)

text \<open>The names that the script writes.\<close>

lemma literal_names [simp]:
  "name_ok (js ''class'')" "name_ok (js ''fill'')" "name_ok (js ''d'')" "name_ok (js ''x'')" "name_ok (js ''y'')"
  "name_ok (js ''width'')" "name_ok (js ''height'')" "name_ok (js ''attributeType'')" "name_ok (js ''repeatCount'')"
  "name_ok (js ''dur'')" "name_ok (js ''attributeName'')" "name_ok (js ''values'')" "name_ok (js ''cx'')"
  "name_ok (js ''cy'')" "name_ok (js ''r'')" "name_ok (js ''opacity'')" "name_ok (js ''id'')" "name_ok (js ''mask'')"
  "name_ok (js ''clip-path'')" "name_ok (js ''maskUnits'')" "name_ok (js ''maskContentUnits'')" "name_ok (js ''transform'')"
  "name_ok (js ''style'')" "name_ok (js ''data-prefix'')" "name_ok (js ''data-icon'')" "name_ok (js ''role'')"
  "name_ok (js ''xmlns'')" "name_ok (js ''viewBox'')" "name_ok (js ''data-fa-i2svg'')" "name_ok (js ''aria-labelledby'')"
  "name_ok (js ''aria-hidden'')" "name_ok (js ''focusable'')"
  by (simp_all add: name_ok_def white_space_def)

lemma literal_distinct [simp]:
  "js ''class'' \<noteq> js ''d''" "js ''fill'' \<noteq> js ''d''" "js ''class'' \<noteq> js ''fill''"
  "js ''d'' \<noteq> js ''class''" "js ''d'' \<noteq> js ''fill''"
  by simp_all

declare js_simps [simp del]

definition tag_ok :: "js_string \<Rightarrow> bool" where
  "tag_ok t \<longleftrightarrow> t \<noteq> [] \<and> hd t \<noteq> 47 \<and> blank \<notin> set t"

lemma literal_tags [simp]:
  "tag_ok (js ''g'')" "tag_ok (js ''path'')" "tag_ok (js ''circle'')" "tag_ok (js ''animate'')" "tag_ok (js ''rect'')"
  "tag_ok (js ''mask'')" "tag_ok (js ''clipPath'')" "tag_ok (js ''defs'')" "tag_ok (js ''svg'')" "tag_ok (js ''symbol'')"
  "tag_ok (js ''title'')" "tag_ok (js ''span'')"
  by (simp_all add: tag_ok_def js_simps)

lemma shape_ok_tag:
  "shape_ok (A_tag t a cs) \<longleftrightarrow> tag_ok t \<and> (case a of None \<Rightarrow> True | Some d \<Rightarrow> attributes_ok d)
     \<and> (case cs of None \<Rightarrow> True | Some cs \<Rightarrow> merged cs \<and> list_all node_ok cs)"
  by (simp add: shape_ok_def tag_ok_def)

lemma shape_ok_leaf [simp]: "shape_ok (A_tag t (Some d) None) \<longleftrightarrow> tag_ok t \<and> attributes_ok d"
  by (simp add: shape_ok_tag)

lemma shape_ok_element: "tag_ok (js t) \<Longrightarrow> attributes_ok d \<Longrightarrow> merged cs \<Longrightarrow> list_all node_ok cs \<Longrightarrow> shape_ok (element t d cs)"
  by (simp add: element_def shape_ok_tag)

lemma shape_ok_element_solid [simp]: "tag_ok (js t) \<Longrightarrow> attributes_ok d \<Longrightarrow> solid cs \<Longrightarrow> shape_ok (element t d cs)"
  using solid_merged by (simp add: shape_ok_element)

lemma path_ok: "attributes_ok a \<Longrightarrow> js ''d'' \<notin> fst ` set a \<Longrightarrow> shape_ok (path_of a d)"
  unfolding path_of_def shape_ok_leaf by (auto simp: attributes_ok_def storage_ok_def)

lemma asFoundIcon_ok: "shape_ok (i_icon (asFoundIcon C icon))"
proof (cases "ic_data icon")
  case (One_path d)
  then show ?thesis
    by (auto simp: asFoundIcon_def attributes_ok_def storage_ok_def intro!: path_ok)
next
  case (Two_paths s p)
  have "solid [path_of [(js ''class'', t), (js ''fill'', u)] d, path_of [(js ''class'', t'), (js ''fill'', u')] d']" for t t' u u' d d'
    by (auto simp: attributes_ok_def storage_ok_def intro!: path_ok)
  from this [THEN solid_merged] show ?thesis
    by (simp add: asFoundIcon_def Two_paths shape_ok_tag attributes_ok_def storage_ok_def)
qed

lemma attrs_of_ok [simp]: "names_ok (attrs_of xs) \<longleftrightarrow> (\<forall>(k, v) \<in> set xs. name_ok (js k))"
  by (auto simp: names_ok_def attrs_of_def)

lemma missing_ok: "shape_ok missing"
proof -
  have fill: "attributes_ok FILL" "attributes_ok ANIMATION_BASE"
    by (simp_all add: FILL_def ANIMATION_BASE_def attrs_of_def attributes_ok_def storage_ok_def) (simp add: js_simps)
  then have op: "attributes_ok OPACITY_ANIMATE" by (simp add: OPACITY_ANIMATE_def)
  have an: "shape_ok (animate a xs)" if "attributes_ok a" "\<forall>(k, v) \<in> set xs. name_ok (js k)" for a xs
    using that by (simp add: animate_def)
  have tagged: "shape_ok (A_tag t (Some d) (Some cs))" if "tag_ok t" "attributes_ok d" "solid cs" for t d cs
    using that solid_merged by (simp add: shape_ok_tag)
  have "solid [RING, DOT, QUESTION, EXCLAMATION]"
    unfolding RING_def DOT_def QUESTION_def EXCLAMATION_def
    using fill op by (simp add: tagged an)
  from this [THEN solid_merged] show ?thesis by (simp add: missing_def shape_ok_tag)
qed

lemma findIcon_ok: "findIcon C R n p = Resolved f \<Longrightarrow> shape_ok (i_icon f)"
  by (auto simp: findIcon_def asFoundIcon_ok missing_ok split: option.splits prod.splits if_splits)

subsection \<open>The SVG element\<close>

lemma is_text_fillBlack [simp]: "is_text (fillBlack n f) = is_text n"
  by (cases n) (auto simp: fillBlack_def split: option.split)

lemma node_ok_fillBlack: "node_ok n \<Longrightarrow> node_ok (fillBlack n f)"
  by (cases n) (auto simp: fillBlack_def split: option.split)

lemma fill_children_ok:
  assumes "merged cs" "list_all node_ok cs"
  shows "merged (fill_children cs) \<and> list_all node_ok (fill_children cs)"
proof -
  have "merged (map (\<lambda>(i, c). fillBlack c (i \<noteq> 0)) (zip is cs)) \<and> list_all node_ok (map (\<lambda>(i, c). fillBlack c (i \<noteq> 0)) (zip is cs))"
    if "length is = length cs" for "is" :: "nat list"
    using that assms
  proof (induction cs arbitrary: "is")
    case (Cons x cs)
    then obtain i "js" where ix: "is = i # js" "length js = length cs" by (cases "is") auto
    have "merged cs" using Cons.prems(2) by (cases cs) auto
    then have IH: "merged (map (\<lambda>(i, c). fillBlack c (i \<noteq> 0)) (zip js cs))" "list_all node_ok (map (\<lambda>(i, c). fillBlack c (i \<noteq> 0)) (zip js cs))"
      using Cons.IH [OF ix(2)] Cons.prems(3) by auto
    show ?case using IH Cons.prems ix by (cases cs; cases js) (auto simp: node_ok_fillBlack)
  qed simp
  from this [of "[0..<length cs]"] show ?thesis by (simp add: fill_children_def)
qed

lemma own_attributes_ok: "shape_ok n \<Longrightarrow> attributes_ok (own_attributes n)"
  by (cases n) (auto simp: shape_ok_def own_attributes_def split: option.splits)

lemma shape_tag_ok: "shape_ok n \<Longrightarrow> tag_ok (a_tag n)"
  by (cases n) (auto simp: shape_ok_def tag_ok_def)

lemma shape_children_ok: "shape_ok n \<Longrightarrow> a_children n = Some cs \<Longrightarrow> merged cs \<and> list_all node_ok cs"
  by (cases n) (auto simp: shape_ok_def)

lemma deGroup_ok: "shape_ok n \<Longrightarrow> merged (deGroup n) \<and> list_all node_ok (deGroup n)"
  by (cases n) (auto simp: deGroup_def shape_ok_def split: option.split)

lemma shape_ok_fillBlack: "shape_ok n \<Longrightarrow> shape_ok (fillBlack n f)"
  by (simp add: shape_ok_def node_ok_fillBlack)

lemma transform_names:
  "transformForSvg fmt t w v = (outer, inner, path) \<Longrightarrow>
   attributes_ok outer \<and> attributes_ok inner \<and> names_ok path"
  by (auto simp: transformForSvg_def Let_def attributes_ok_def storage_ok_def)

lemma ALL_SPACE_ok: "attributes_ok ALL_SPACE" "names_ok ALL_SPACE"
  by (simp_all add: ALL_SPACE_def attrs_of_def attributes_ok_def storage_ok_def) (simp add: js_simps)

lemma masking_ok:
  assumes "solid children" "shape_ok (i_icon main)" "shape_ok (i_icon msk)"
  shows "solid (makeIconMasking fmt children main msk i uids t)"
proof -
  obtain outer inner path where tr: "transformForSvg fmt t (i_width msk) (i_width main) = (outer, inner, path)"
    by (cases "transformForSvg fmt t (i_width msk) (i_width main)") auto
  note names = transform_names [OF tr]
  let ?main = "A_tag (a_tag (i_icon main)) (Some (objectSpread (own_attributes (i_icon main)) path))
     (map_option fill_children (a_children (i_icon main)))"
  have "shape_ok ?main"
    using names shape_tag_ok [OF assms(2)] own_attributes_ok [OF assms(2)] fill_children_ok shape_children_ok [OF assms(2)]
    by (auto simp: shape_ok_tag split: option.split)
  then have group: "shape_ok (element ''g'' outer [element ''g'' inner [fillBlack ?main True]])"
    using names by (simp add: shape_ok_fillBlack)
  have clip: "shape_ok (element ''clipPath'' [(js ''id'', c)] (deGroup (i_icon msk)))" for c
    using deGroup_ok [OF assms(3)] by (intro shape_ok_element) (auto simp: attributes_ok_def storage_ok_def)
  have m: "shape_ok (element ''mask'' (objectSpread ALL_SPACE ((js ''id'', k) # attrs_of [(''maskUnits'', ''userSpaceOnUse''), (''maskContentUnits'', ''userSpaceOnUse'')]))
      [A_tag (js ''rect'') (Some (objectSpread ALL_SPACE (attrs_of [(''fill'', ''white'')]))) None,
       element ''g'' outer [element ''g'' inner [fillBlack ?main True]]])" for k
    using group ALL_SPACE_ok by simp
  have defs: "shape_ok (A_tag (js ''defs'') None (Some [a, b]))" if "shape_ok a" "shape_ok b" for a b
    using that solid_merged [of "[a, b]"] by (simp add: shape_ok_tag)
  have rect: "shape_ok (A_tag (js ''rect'') (Some (objectSpread [(js ''fill'', u), (js ''clip-path'', v), (js ''mask'', w)] ALL_SPACE)) None)" for u v w
  proof -
    have "attributes_ok [(js ''fill'', u), (js ''clip-path'', v), (js ''mask'', w)]"
      by (simp add: attributes_ok_def storage_ok_def) (simp add: js_simps)
    then show ?thesis using ALL_SPACE_ok by simp
  qed
  show ?thesis unfolding makeIconMasking_def Let_def tr prod.case
    using assms(1) defs [OF clip m] rect by simp
qed

lemma standard_ok:
  assumes "solid children" "attributes_ok a" "shape_ok (i_icon main)" "makeIconStandard fmt children a main t styles = (cs, a')"
  shows "solid cs \<and> attributes_ok a'"
proof -
  obtain outer inner path where tr: "transformForSvg fmt t (i_width main) (i_width main) = (outer, inner, path)"
    by (cases "transformForSvg fmt t (i_width main) (i_width main)") auto
  have "shape_ok (A_tag (a_tag (i_icon main)) (Some (objectSpread (own_attributes (i_icon main)) path)) (a_children (i_icon main)))"
    using transform_names [OF tr] shape_tag_ok [OF assms(3)] own_attributes_ok [OF assms(3)] shape_children_ok [OF assms(3)]
    by (auto simp: shape_ok_tag split: option.split)
  then show ?thesis using assms transform_names [OF tr] by (auto simp: makeIconStandard_def Let_def tr)
qed

lemma icon_attributes_ok:
  "attributes_ok (x_attributes (p_extra p)) \<Longrightarrow> attributes_ok (icon_attributes fmt C p)"
  by (simp add: icon_attributes_def Let_def)

lemma icon_title_ok: "solid (icon_title a p u)"
  by (auto simp: icon_title_def Let_def some_text_def element_def shape_ok_tag attributes_ok_def storage_ok_def)

lemma makeInlineSvgAbstract_ok:
  assumes "shape_ok (i_icon (p_main p))" "shape_ok (i_icon (p_mask p))" "attributes_ok (x_attributes (p_extra p))"
  shows "shape_ok (makeInlineSvgAbstract fmt C uids p)"
proof -
  let ?a = "icon_attributes fmt C p" and ?t = "icon_title (icon_attributes fmt C p) p (fst uids)"
  obtain cs a where ca: "(if i_found (p_mask p) \<and> i_found (p_main p)
       then (makeIconMasking fmt ?t (p_main p) (p_mask p) (p_maskId p) (snd uids) (p_transform p), ?a)
       else makeIconStandard fmt ?t ?a (p_main p) (p_transform p) (icon_styles fmt p)) = (cs, a)" by (metis surj_pair)
  have a: "attributes_ok ?a" using assms(3) by (rule icon_attributes_ok)
  have "solid cs \<and> attributes_ok a"
  proof (cases "i_found (p_mask p) \<and> i_found (p_main p)")
    case True
    have "solid (makeIconMasking fmt ?t (p_main p) (p_mask p) (p_maskId p) (snd uids) (p_transform p))"
      by (rule masking_ok [OF icon_title_ok assms(1,2)])
    then show ?thesis using ca True a by auto
  next
    case False
    then have "makeIconStandard fmt ?t ?a (p_main p) (p_transform p) (icon_styles fmt p) = (cs, a)" using ca by auto
    from standard_ok [OF icon_title_ok a assms(1) this] show ?thesis .
  qed
  moreover have "attributes_ok (attrs_of [(''style'', x)])" for x
    by (simp add: attrs_of_def attributes_ok_def storage_ok_def)
  ultimately show ?thesis unfolding makeInlineSvgAbstract_def Let_def ca
    by (simp add: asSymbol_def asIcon_def Let_def)
qed

lemma attributesParser_ok: "attributes_ok (n_attributes node) \<Longrightarrow> attributes_ok (attributesParser C node uid)"
proof -
  assume ok: "attributes_ok (n_attributes node)"
  have "attributes_ok (fold (\<lambda>(name, val) acc.
      if getItem acc (js ''name'') \<noteq> Some (js ''class'') \<and> getItem acc (js ''name'') \<noteq> Some (js ''style'')
      then setItem name val acc else acc) (n_attributes node) [])"
  proof (rule fold_keeps)
    fix x acc
    assume x: "x \<in> set (n_attributes node)" and acc: "attributes_ok acc"
    obtain k v where [simp]: "x = (k, v)" by (cases x)
    have "name_ok k" using x ok by (auto simp: attributes_ok_def)
    with acc show "attributes_ok ((\<lambda>(name, val) acc.
      if getItem acc (js ''name'') \<noteq> Some (js ''class'') \<and> getItem acc (js ''name'') \<noteq> Some (js ''style'')
      then setItem name val acc else acc) x acc)" by simp
  qed simp
  then show ?thesis by (simp add: attributesParser_def Let_def)
qed

text \<open>
  Property C20.  Rendering is well formed: the HTML text that replaces an element is read back as the
  tree that was meant, whatever the texts of its attributes, title, classes and styles are; nothing in
  them can close a tag or an attribute.
\<close>

theorem rendered_icon_reads_back:
  assumes "attributes_ok (n_attributes node)"
    and "generateSvgReplacementMutation fmt C R uids (parseMeta C R node uid) = Some nodes"
  shows "parse_nodes (Suc (sum_list (map weight nodes))) (concat (map toHtml nodes)) = Some (map filled nodes, [])"
proof -
  let ?meta = "parseMeta C R node uid"
  obtain main msk where f: "findIcon C R (m_iconName ?meta) (m_prefix ?meta) = Resolved main"
      "findIcon C R (c_iconName (m_mask ?meta)) (c_prefix (m_mask ?meta)) = Resolved msk"
    using assms(2) by (auto simp: generateSvgReplacementMutation_def split: lookup_outcome.splits)
  have "x_attributes (m_extra ?meta) = attributesParser C node uid" by (simp add: parseMeta_def Let_def)
  then have "solid nodes"
    using assms(2) attributesParser_ok [OF assms(1)] findIcon_ok [OF f(1)] findIcon_ok [OF f(2)]
    unfolding generateSvgReplacementMutation_def f by (auto intro!: makeInlineSvgAbstract_ok)
  from solid_merged [OF this] show ?thesis using parse_children [of nodes _ "[]"] by (simp del: parse_nodes.simps)
qed

section \<open>Recognising a replaced element\<close>

text \<open>A class that means nothing to the script.\<close>

definition plain_class :: "config \<Rightarrow> registry \<Rightarrow> js_string \<Rightarrow> bool" where
  "plain_class C R cls \<longleftrightarrow> \<not> is_style C R cls \<and> getIconName (cfg_text C ''familyPrefix'') cls = None
     \<and> cls \<noteq> cfg_text C ''replacementClass'' \<and> take 5 cls \<noteq> js ''fa-w-''"

lemma canonical_rest: "c_rest (getCanonicalIcon C R vs) = filter (plain_class C R) vs"
proof -
  have "c_rest (fold (canonical_step C R) vs acc) = c_rest acc @ filter (plain_class C R) vs" for acc
    by (induction vs arbitrary: acc) (auto simp: canonical_step_def plain_class_def Let_def)
  then show ?thesis by (simp add: getCanonicalIcon_def emptyCanonicalIcon_def)
qed

text \<open>
  The names of styles are the known prefixes, none of which has a hyphen, and the family prefix is
  the usual one.
\<close>

definition usual :: "config \<Rightarrow> registry \<Rightarrow> bool" where
  "usual C R \<longleftrightarrow> cfg_text C ''familyPrefix'' = js ''fa'' \<and> cfg_text C ''replacementClass'' = js ''svg-inline--fa''
     \<and> (\<forall>p. getItem (r_styles R) p \<noteq> None \<longrightarrow> p \<in> set style_prefixes)"

lemma icon_class_name: "\<not> isReserved name \<Longrightarrow> name \<noteq> [] \<Longrightarrow> getIconName (js ''fa'') (js ''fa'' @ minus_sign # name) = Some name"
proof -
  assume n: "\<not> isReserved name" "name \<noteq> []"
  have "js_split minus_sign (js ''fa'' @ minus_sign # name) = js ''fa'' # js_split minus_sign name"
    by (rule js_split_append) (simp add: js_simps)
  then show ?thesis using n by (simp add: getIconName_def Let_def js_join_split)
qed

lemma usual_not_plain:
  assumes "usual C R"
  shows "\<not> plain_class C R (cfg_text C ''replacementClass'')"
    and "\<not> isReserved name \<Longrightarrow> name \<noteq> [] \<Longrightarrow> \<not> plain_class C R (cfg_text C ''familyPrefix'' @ js ''-'' @ name)"
    and "\<not> plain_class C R (js ''fa-w-'' @ w)"
proof -
  show "\<not> plain_class C R (cfg_text C ''replacementClass'')" by (simp add: plain_class_def)
  show "\<not> plain_class C R (cfg_text C ''familyPrefix'' @ js ''-'' @ name)" if "\<not> isReserved name" "name \<noteq> []"
  proof -
    have "js ''-'' = [minus_sign]" by (simp add: js_simps)
    then show ?thesis using assms icon_class_name [OF that] by (simp add: plain_class_def usual_def)
  qed
  have "take 5 (js ''fa-w-'' @ w) = js ''fa-w-''" by (simp add: js_simps)
  then show "\<not> plain_class C R (js ''fa-w-'' @ w)" by (simp add: plain_class_def)
qed

definition word_ok :: "js_string \<Rightarrow> bool" where
  "word_ok c \<longleftrightarrow> c \<noteq> [] \<and> blank \<notin> set c"

lemma icon_classes_rest:
  assumes "usual C R" "p_iconName p = Some name" "name \<noteq> []" "\<not> isReserved name" "\<forall>c \<in> set (x_classes (p_extra p)). plain_class C R c"
  shows "filter (plain_class C R) (icon_classes fmt C p) = x_classes (p_extra p)"
proof -
  have "\<not> plain_class C R c" if "c \<noteq> []"
    "c \<in> set [cfg_text C ''replacementClass'', cfg_text C ''familyPrefix'' @ js ''-'' @ name, width_class fmt p]" for c
    using that usual_not_plain [OF assms(1)] assms(3,4) by (auto simp: width_class_def Let_def split: if_splits)
  then have "filter (plain_class C R) (filter (\<lambda>c. c \<noteq> []) (filter (\<lambda>c. c \<notin> set (x_classes (p_extra p)))
      [cfg_text C ''replacementClass'', cfg_text C ''familyPrefix'' @ js ''-'' @ name, width_class fmt p])) = []"
    unfolding filter_empty_conv set_filter using assms(3) by blast
  then show ?thesis using assms(2,3,5) by (simp add: icon_classes_def some_text_def)
qed

lemma getItem_spread_last:
  "k \<notin> fst ` set b \<Longrightarrow> getItem (objectSpread a b) k = getItem a k"
  by (induction b arbitrary: a) (auto simp: objectSpread_def)

lemma getItem_attributes:
  "getItem (icon_attributes fmt C p) (js ''data-prefix'') = Some (text_or_null (p_prefix p))"
  "getItem (icon_attributes fmt C p) (js ''data-icon'') = Some (text_or_null (p_iconName p))"
  "getItem (icon_attributes fmt C p) (js ''class'') = Some (js_join [blank] (icon_classes fmt C p))"
  by (simp_all add: icon_attributes_def Let_def objectSpread_def js_simps)

lemma svg_attributes:
  assumes "\<not> symbol_truthy (p_symbol p)" "k \<noteq> js ''style''"
  shows "getItem (own_attributes (makeInlineSvgAbstract fmt C uids p)) k = getItem (icon_attributes fmt C p) k"
proof -
  have "getItem (snd (makeIconStandard fmt cs a m t s)) k = getItem a k" for cs a m t s
    using assms(2) by (simp add: makeIconStandard_def Let_def)
  then show ?thesis using assms
    by (auto simp: makeInlineSvgAbstract_def Let_def asIcon_def own_attributes_def element_def split: prod.split)
      (metis snd_conv)+
qed

lemma words_split:
  assumes "\<forall>c \<in> set cs. word_ok c" "cs \<noteq> []"
  shows "filter (\<lambda>i. i \<noteq> []) (js_split blank (js_join [blank] cs)) = cs"
  using assms by (subst js_split_join) (auto simp: word_ok_def filter_id_conv)

text \<open>
  Property C29.  A replaced element is still the same icon: for the SVG element that was made for an
  icon, with its attributes in the page, the script recognises prefix and name again, and the classes
  that are not its own are exactly the ones the original element had.
\<close>

theorem replaced_icon_is_recognised:
  assumes "usual C R" "\<not> symbol_truthy (p_symbol p)" "p_prefix p = Some prefix" "prefix \<noteq> []"
    and "p_iconName p = Some name" "name \<noteq> []" "\<not> isReserved name" "blank \<notin> set name"
    and "\<forall>c \<in> set (x_classes (p_extra p)). plain_class C R c \<and> word_ok c" "\<And>x. word_ok (fmt x)"
    and "n_attributes node = own_attributes (makeInlineSvgAbstract fmt C uids p)" "innerText node = None"
    and "classList node \<in> {None, Some (filter (\<lambda>i. i \<noteq> []) (js_split blank (own_prop (n_attributes node) (js ''class''))))}"
  shows "classParser C R node = \<lparr>c_prefix = Some prefix, c_iconName = Some name, c_rest = x_classes (p_extra p)\<rparr>"
proof -
  have attr: "getAttribute node k = getItem (icon_attributes fmt C p) k" if "k \<noteq> js ''style''" for k
    using svg_attributes [OF assms(2) that] assms(11) by (simp add: getAttribute_def)
  have ne: "js ''data-prefix'' \<noteq> js ''style''" "js ''data-icon'' \<noteq> js ''style''" "js ''class'' \<noteq> js ''style''"
    by (simp_all add: js_simps)
  have words: "\<forall>c \<in> set (icon_classes fmt C p). word_ok c"
  proof -
    have b: "word_ok (cfg_text C ''replacementClass'')" "word_ok (cfg_text C ''familyPrefix'' @ js ''-'' @ name)"
      using assms(1,8) by (auto simp: usual_def word_ok_def js_simps)
    have "word_ok (js ''fa-w-'' @ fmt x)" for x using assms(10) [of x] by (auto simp: word_ok_def js_simps)
    then show ?thesis using b assms(3,5,6,9)
      by (auto simp: icon_classes_def some_text_def width_class_def Let_def split: if_splits)
  qed
  have "icon_classes fmt C p \<noteq> []"
  proof (cases "cfg_text C ''replacementClass'' \<in> set (x_classes (p_extra p))")
    case False
    have "cfg_text C ''replacementClass'' \<noteq> []" using assms(1) by (simp add: usual_def js_simps)
    then show ?thesis using False by (simp add: icon_classes_def)
  qed (auto simp: icon_classes_def)
  then have "classArray node = icon_classes fmt C p"
    using words_split [OF words] attr [OF ne(3)] assms(13)
    by (auto simp: classArray_def getItem_attributes own_prop_def getAttribute_def toArray_def)
  moreover have "filter (plain_class C R) (icon_classes fmt C p) = x_classes (p_extra p)"
    using assms(9) by (intro icon_classes_rest [OF assms(1,5-7)]) blast
  ultimately have rest: "c_rest (getCanonicalIcon C R (classArray node)) = x_classes (p_extra p)"
    by (simp add: canonical_rest)
  have "getAttribute node (js ''data-prefix'') = Some prefix" "getAttribute node (js ''data-icon'') = Some name"
    using attr [OF ne(1)] attr [OF ne(2)] assms(3,5) by (simp_all add: getItem_attributes text_or_null_def)
  then have "classParser C R node = (getCanonicalIcon C R (classArray node))\<lparr>c_prefix := Some prefix, c_iconName := Some name\<rparr>"
    using assms(4,6,12) by (simp add: classParser_def Let_def some_text_def)
  then show ?thesis using rest by (cases "getCanonicalIcon C R (classArray node)") simp
qed

definition demo_fmt :: "js_float \<Rightarrow> js_string" where
  "demo_fmt x = (case x of Fin a \<Rightarrow> int_str 10 \<lfloor>a\<rfloor> | _ \<Rightarrow> js ''NaN'')"

definition demo_params :: icon_params where
  "demo_params = \<lparr>p_main = asFoundIcon default_config (demo_icon (js ''f1'')), p_mask = no_icon, p_prefix = Some (js ''fas''),
     p_iconName = Some (js ''star''), p_transform = meaninglessTransform, p_symbol = Symbol_bool False, p_title = None,
     p_maskId = None, p_titleId = None, p_extra = \<lparr>x_classes = [js ''big''], x_styles = [], x_attributes = []\<rparr>, p_watchable = True\<rparr>"

lemma default_usual: "usual default_config empty_registry"
  by (simp add: usual_def default_config_def cfg_text_def getItem_def empty_registry_def js_simps)

lemma default_plain: "plain_class default_config empty_registry (js ''big'')"
  by (simp add: plain_class_def is_style_def cfg_truthy_def cfg_text_def default_config_def getItem_def empty_registry_def
      getIconName_def js_simps)

lemma digit_word: "word_ok (nat_str 10 n)"
proof (induction n rule: less_induct)
  case (less n)
  have d: "blank \<noteq> digit k" if "k < 10" for k
  proof -
    have "k \<in> {0, 1, 2, 3, 4, 5, 6, 7, 8, 9}" using that by auto
    then show ?thesis by (auto simp: digit_def)
  qed
  show ?case using less [of "n div 10"] d [of "n mod 10"] d [of n]
    by (subst nat_str.simps) (auto simp: word_ok_def)
qed

lemma demo_fmt_word: "word_ok (demo_fmt x)"
  using digit_word by (auto simp: demo_fmt_def int_str_def word_ok_def js_simps split: js_float.split)

theorem replaced_icon_is_recognised_witness:
  "classParser default_config empty_registry \<lparr>n_attributes = own_attributes (makeInlineSvgAbstract demo_fmt default_config ([], [], []) demo_params),
      classList = None, innerText = None\<rparr> = \<lparr>c_prefix = Some (js ''fas''), c_iconName = Some (js ''star''), c_rest = [js ''big'']\<rparr>"
  using replaced_icon_is_recognised [OF default_usual _ _ _ _ _ _ _ _ demo_fmt_word, of demo_params "js ''fas''" "js ''star''"
      "\<lparr>n_attributes = own_attributes (makeInlineSvgAbstract demo_fmt default_config ([], [], []) demo_params), classList = None, innerText = None\<rparr>"
      id "([], [], [])"] default_plain
  by (simp add: demo_params_def symbol_truthy_def isReserved_def RESERVED_CLASSES_def oneToTwenty_def oneToTen_def
      word_ok_def js_simps nat_str.simps digit_def)

text \<open>
  An icon that is wider than one and a quarter of its height gets a class that the observer of class
  changes takes for a name.
\<close>

lemma wide_icon_loses_its_name:
  "getCanonicalIcon default_config empty_registry (map js [''svg-inline--fa'', ''fa-star'', ''fa-w-22''])
     = \<lparr>c_prefix = None, c_iconName = Some (js ''w-22''), c_rest = []\<rparr>"
  by (simp add: getCanonicalIcon_def canonical_step_def is_style_def cfg_truthy_def cfg_text_def default_config_def getItem_def
      empty_registry_def emptyCanonicalIcon_def getIconName_def isReserved_def RESERVED_CLASSES_def oneToTwenty_def oneToTen_def
      nat_str.simps digit_def js_simps or_else_def Let_def)

theorem rendered_icon_reads_back_witness:
  "\<exists>nodes. generateSvgReplacementMutation demo_fmt default_config empty_registry ([], [], [])
      (parseMeta default_config empty_registry \<lparr>n_attributes = [(js ''title'', js ''a<b'')], classList = None, innerText = None\<rparr> []) = Some nodes
    \<and> parse_nodes (Suc (sum_list (map weight nodes))) (concat (map toHtml nodes)) = Some (map filled nodes, [])"
proof -
  let ?node = "\<lparr>n_attributes = [(js ''title'', js ''a<b'')], classList = None, innerText = None\<rparr> :: dom_node"
  have ok: "attributes_ok (n_attributes ?node)"
    by (simp add: attributes_ok_def storage_ok_def name_ok_def white_space_def js_simps)
  have m: "m_prefix (parseMeta default_config empty_registry ?node []) = None" "m_mask (parseMeta default_config empty_registry ?node []) = emptyCanonicalIcon"
    by (simp_all add: parseMeta_def Let_def classParser_def maskParser_def getAttribute_def getItem_def some_text_def
        classArray_def getCanonicalIcon_def canonical_step_def emptyCanonicalIcon_def is_style_def cfg_truthy_def
        default_config_def empty_registry_def js_simps)
  have "generateSvgReplacementMutation demo_fmt default_config empty_registry ([], [], []) (parseMeta default_config empty_registry ?node []) \<noteq> None"
    using m by (simp add: generateSvgReplacementMutation_def findIcon_def some_text_def emptyCanonicalIcon_def)
  then show ?thesis using rendered_icon_reads_back [OF ok] by blast
qed

end
