(* ===== verification/Web_Ui.thy ===== *)
theory Web_Ui
  imports Js_Object Js_Text
begin

text \<open>
  The script of the page (\<open>index.html\<close>): the list of nodes, the handlers of the messages that arrive
  over MQTT, the cards that show the nodes, the map, and the buttons that send commands.

  An address is the number the gateway sends; the page writes it into the ids of its elements, and
  an element is looked up as the first card of this address.  What the browser shows is part of the
  state: the cards, the points and circles of the last update of the map, and the notices.  JSON
  parsing is not modelled: a message is given by its type and its fields, a payload that is not JSON
  is a message of its own.
\<close>

section \<open>Nodes and cards\<close>

record node =
  uwb_address :: int
  mesh_address :: int
  role :: "js_string option"
  locationX :: js_float
  locationY :: js_float
  locationZ :: js_float
  editing :: bool
  identifying :: bool
  lighting :: bool

text \<open>The content of an input: a number that the script wrote, or what the user typed.\<close>

datatype field = Shown js_float | Typed js_string

record card =
  k_address :: int
  k_hex :: js_string
  k_title_role :: js_string
  k_mesh_hex :: js_string
  k_located :: int
  k_onoff :: int
  k_slot :: js_string
  k_lights :: "bool \<times> bool \<times> bool"
  k_anchor_selected :: bool
  k_options_disabled :: bool
  k_x :: field
  k_y :: field
  k_z :: field
  k_readonly :: bool
  k_edit_text :: js_string
  k_identify_text :: js_string
  k_bulb_text :: js_string

text \<open>A node of the Wi-Fi mode; a range names its anchor, whose position is read when it is drawn.\<close>

record wifi_range =
  rg_r :: js_float
  rg_update :: bool

record wifi_node =
  w_x :: js_float
  w_y :: js_float
  w_z :: js_float
  w_type :: js_string
  w_msg :: int
  w_ranges :: "(int, wifi_range) table"

datatype ui_mode = Bluetooth_mesh | Wi_fi

datatype command =
    Cmd_location int field field field
  | Cmd_blink int js_string
  | Cmd_onoff int int

type_synonym points = "(js_float \<times> js_float) list"

record page =
  mode :: ui_mode
  nodeList :: "node list"
  myNodeList :: "(int, wifi_node) table"
  cards :: "card list"
  map_anchors :: points
  map_tags :: points
  map_circles :: "(js_float \<times> js_float \<times> js_float \<times> js_float) list"
  mqtt_up :: bool
  subscribed :: "js_string list"
  published :: "command list"
  toasts :: "js_string list"
  errors_logged :: nat
  reconnects :: nat

type_synonym 'a page_op = "(page, 'a) op"

definition ANCHOR :: js_string where "ANCHOR = js ''ANCHOR''"
definition TAG :: js_string where "TAG = js ''TAG''"

definition new_node :: "int \<Rightarrow> js_string option \<Rightarrow> node" where
  "new_node a r = \<lparr>uwb_address = a, mesh_address = 0, role = r, locationX = Fin 0, locationY = Fin 0, locationZ = Fin 0,
     editing = False, identifying = False, lighting = False\<rparr>"

text \<open>\<open>'0x' + (dec+0x10000).toString(16).substr(-4).toUpperCase()\<close>\<close>

definition upper_hex :: "code_unit \<Rightarrow> code_unit" where
  "upper_hex c = (if 97 \<le> c \<and> c \<le> 102 then c - 32 else c)"

definition dec2hexString :: "int \<Rightarrow> js_string" where
  "dec2hexString dec =
     (let t = int_str 16 (dec + 0x10000) in js ''0x'' @ map upper_hex (drop (length t - 4) t))"

text \<open>The first node with the property, by its position in the list.\<close>

fun index_of :: "('a \<Rightarrow> bool) \<Rightarrow> 'a list \<Rightarrow> nat option" where
  "index_of P [] = None"
| "index_of P (x # xs) = (if P x then Some 0 else map_option Suc (index_of P xs))"

definition find_node :: "node list \<Rightarrow> int \<Rightarrow> nat option" where
  "find_node ns a = index_of (\<lambda>n. uwb_address n = a) ns"

definition find_node_mesh :: "node list \<Rightarrow> int \<Rightarrow> nat option" where
  "find_node_mesh ns a = index_of (\<lambda>n. mesh_address n = a) ns"

fun update_first :: "('a \<Rightarrow> bool) \<Rightarrow> ('a \<Rightarrow> 'a) \<Rightarrow> 'a list \<Rightarrow> 'a list" where
  "update_first P f [] = []"
| "update_first P f (x # xs) = (if P x then f x # xs else x # update_first P f xs)"

definition on_card :: "int \<Rightarrow> (card \<Rightarrow> card) \<Rightarrow> page \<Rightarrow> page" where
  "on_card a f p = p\<lparr>cards := update_first (\<lambda>c. k_address c = a) f (cards p)\<rparr>"

definition get_card :: "int \<Rightarrow> page \<Rightarrow> card option" where
  "get_card a p = find (\<lambda>c. k_address c = a) (cards p)"

definition set_node :: "nat \<Rightarrow> (node \<Rightarrow> node) \<Rightarrow> page \<Rightarrow> page" where
  "set_node i f p = p\<lparr>nodeList := (nodeList p)[i := f (nodeList p ! i)]\<rparr>"

section \<open>The map\<close>

definition node_points :: "js_string \<Rightarrow> node list \<Rightarrow> points" where
  "node_points r ns = map (\<lambda>n. (locationX n, locationY n)) (filter (\<lambda>n. role n = Some r) ns)"

definition plot :: "page \<Rightarrow> page" where
  "plot p = p\<lparr>map_anchors := node_points ANCHOR (nodeList p), map_tags := node_points TAG (nodeList p)\<rparr>"

definition wifi_points :: "js_string \<Rightarrow> (int, wifi_node) table \<Rightarrow> points" where
  "wifi_points t ns = map (\<lambda>(_, n). (w_x n, w_y n)) (filter (\<lambda>(_, n). w_type n = t) ns)"

definition plotNodes :: "page \<Rightarrow> page" where
  "plotNodes p = p\<lparr>map_anchors := wifi_points ANCHOR (myNodeList p), map_tags := wifi_points TAG (myNodeList p)\<rparr>"

text \<open>The circle of a range around its anchor, at the height of the tag.\<close>

definition range_circle :: "(int, wifi_node) table \<Rightarrow> wifi_node \<Rightarrow> int \<times> wifi_range \<Rightarrow> (js_float \<times> js_float \<times> js_float \<times> js_float) list" where
  "range_circle ns n ar =
     (case ar of (a, rg) \<Rightarrow>
        if rg_update rg then
          (case tget ns a of
             None \<Rightarrow> []
           | Some anchor \<Rightarrow>
               let h = w_z anchor - w_z n; r = Math_sqrt (Math_abs (rg_r rg * rg_r rg - h * h))
               in [(w_x anchor - r, w_y anchor - r, w_x anchor + r, w_y anchor + r)])
        else [])"

definition drawn :: "wifi_node \<Rightarrow> wifi_node" where
  "drawn n = (if w_type n = TAG then n\<lparr>w_ranges := map (\<lambda>(a, rg). (a, rg\<lparr>rg_update := False\<rparr>)) (w_ranges n)\<rparr> else n)"

definition plotCircle :: "page \<Rightarrow> page" where
  "plotCircle p =
     p\<lparr>map_circles := concat (map (\<lambda>(_, n). if w_type n = TAG then concat (map (range_circle (myNodeList p) n) (w_ranges n)) else [])
         (myNodeList p)),
       myNodeList := map (\<lambda>(a, n). (a, drawn n)) (myNodeList p)\<rparr>"

section \<open>Notices and the connection\<close>

definition toastError :: "js_string \<Rightarrow> page \<Rightarrow> page" where
  "toastError s p = p\<lparr>toasts := toasts p @ [s]\<rparr>"

definition onConnect :: "js_string \<Rightarrow> page \<Rightarrow> page" where
  "onConnect topic p = p\<lparr>subscribed := subscribed p @ [topic]\<rparr>"

definition onConnectionLost :: "nat \<Rightarrow> page \<Rightarrow> page" where
  "onConnectionLost errorCode p =
     (if errorCode \<noteq> 0 then (toastError (js ''MQTT conection lost'') p)\<lparr>reconnects := Suc (reconnects p)\<rparr> else p)"

text \<open>\<open>client.send\<close> throws when there is no connection.\<close>

definition publish :: "command \<Rightarrow> unit page_op" where
  "publish cmd = reading mqtt_up (\<lambda>up.
     if up then modify (\<lambda>p. p\<lparr>published := published p @ [cmd]\<rparr>)
     else throw (Error (js ''AMQJS0011E Invalid state not connected.'')))"

section \<open>Messages of the mesh\<close>

text \<open>The card of a new node; the template of the Wi-Fi mode lacks the role of the title.\<close>

definition new_card :: "int \<Rightarrow> js_string \<Rightarrow> js_string \<Rightarrow> js_float \<Rightarrow> js_float \<Rightarrow> js_float \<Rightarrow> card" where
  "new_card a title_role r x y z =
     \<lparr>k_address = a, k_hex = dec2hexString a, k_title_role = title_role, k_mesh_hex = js ''0'', k_located = 0, k_onoff = 0,
      k_slot = js ''0'', k_lights = (False, False, False), k_anchor_selected = (r \<noteq> TAG),
      k_options_disabled = (r = ANCHOR \<or> r = TAG), k_x = Shown x, k_y = Shown y, k_z = Shown z, k_readonly = True,
      k_edit_text = js ''Edit'', k_identify_text = js ''Identify'', k_bulb_text = js ''Bulb''\<rparr>"

text \<open>The node is in the list before \<open>toString\<close> throws for a message without a role.\<close>

definition handler_blink :: "int \<Rightarrow> js_string option \<Rightarrow> unit page_op" where
  "handler_blink a r =
     reading (\<lambda>p. find_node (nodeList p) a) (\<lambda>i.
     if i \<noteq> None then ret ()
     else
       seqn (modify (\<lambda>p. p\<lparr>nodeList := nodeList p @ [new_node a r]\<rparr>))
      (case r of
         None \<Rightarrow> throw Type_error
       | Some r \<Rightarrow> modify (\<lambda>p. p\<lparr>cards := cards p @ [new_card a r r (Fin 0) (Fin 0) (Fin 0)]\<rparr>)))"

definition count_location :: "int \<Rightarrow> page \<Rightarrow> page" where
  "count_location a = on_card a (\<lambda>c. c\<lparr>k_located := k_located c + 1\<rparr>)"

definition show_location :: "js_float \<Rightarrow> js_float \<Rightarrow> js_float \<Rightarrow> card \<Rightarrow> card" where
  "show_location x y z c = c\<lparr>k_x := Shown x, k_y := Shown y, k_z := Shown z\<rparr>"

definition nodeLocationUpdate :: "nat \<Rightarrow> js_float \<Rightarrow> js_float \<Rightarrow> js_float \<Rightarrow> page \<Rightarrow> page" where
  "nodeLocationUpdate i x y z p =
     (let p = set_node i (\<lambda>n. n\<lparr>locationX := x, locationY := y, locationZ := z\<rparr>) p;
          n = nodeList p ! i
      in plot (if editing n then p else on_card (uwb_address n) (show_location x y z) p))"

definition handler_location :: "int \<Rightarrow> js_float \<Rightarrow> js_float \<Rightarrow> js_float \<Rightarrow> page \<Rightarrow> page" where
  "handler_location a x y z p =
     (let p = count_location a p in
      case find_node (nodeList p) a of None \<Rightarrow> p | Some i \<Rightarrow> nodeLocationUpdate i x y z p)"

definition handler_location_reduced :: "int \<Rightarrow> js_float \<Rightarrow> js_float \<Rightarrow> page \<Rightarrow> page" where
  "handler_location_reduced m x y p =
     (case find_node_mesh (nodeList p) m of
        None \<Rightarrow> p
      | Some i \<Rightarrow>
          let p = count_location (uwb_address (nodeList p ! i)) p
          in nodeLocationUpdate i x y (locationZ (nodeList p ! i)) p)"

definition lights_of :: "int \<Rightarrow> bool \<times> bool \<times> bool" where
  "lights_of v = (v AND 1 \<noteq> 0, v AND 2 \<noteq> 0, v AND 4 \<noteq> 0)"

definition handler_onoff :: "int \<Rightarrow> int \<Rightarrow> page \<Rightarrow> page" where
  "handler_onoff a v = on_card a (\<lambda>c. c\<lparr>k_lights := lights_of v\<rparr>)"

definition handler_slot :: "int \<Rightarrow> int \<Rightarrow> page \<Rightarrow> page" where
  "handler_slot a s = on_card a (\<lambda>c. c\<lparr>k_slot := int_str 10 s\<rparr>)"

definition handler_ble_mesh :: "int \<Rightarrow> int \<Rightarrow> page \<Rightarrow> page" where
  "handler_ble_mesh a m p =
     (let p = on_card a (\<lambda>c. c\<lparr>k_mesh_hex := dec2hexString m\<rparr>) p in
      case find_node (nodeList p) a of None \<Rightarrow> p | Some i \<Rightarrow> set_node i (\<lambda>n. n\<lparr>mesh_address := m\<rparr>) p)"

text \<open>
  The handlers of distances compare the address in the message with a property \<open>address\<close> that nodes
  do not have: \<open>undefined\<close> equals only a field that is missing.  Then the tag is \<open>undefined\<close>, or a
  node, which has no list of anchors: reading it throws in both cases.
\<close>

definition handler_distance :: "int option \<Rightarrow> unit page_op" where
  "handler_distance anchor =
     reading nodeList (\<lambda>ns. if ns \<noteq> [] \<and> anchor = None then throw Type_error else ret ())"

definition handler_tof :: "int option \<Rightarrow> unit page_op" where
  "handler_tof anchor =
     reading nodeList (\<lambda>ns. if ns \<noteq> [] \<and> anchor = None then throw Type_error else ret ())"

section \<open>Messages of the Wi-Fi mode\<close>

definition guiAddNodes :: "int \<Rightarrow> js_string \<Rightarrow> js_float \<Rightarrow> js_float \<Rightarrow> js_float \<Rightarrow> page \<Rightarrow> page" where
  "guiAddNodes a r x y z p = p\<lparr>cards := cards p @ [new_card a (js ''undefined'') r x y z]\<rparr>"

definition guiUpdateNodes :: "int \<Rightarrow> js_float \<Rightarrow> js_float \<Rightarrow> js_float \<Rightarrow> page \<Rightarrow> page" where
  "guiUpdateNodes a x y z p =
     (case tget (myNodeList p) a of
        None \<Rightarrow> p
      | Some n \<Rightarrow>
          on_card a (\<lambda>c. (show_location x y z c)\<lparr>k_located := w_msg n + 1\<rparr>)
            (p\<lparr>myNodeList := tput a (n\<lparr>w_msg := w_msg n + 1\<rparr>) (myNodeList p)\<rparr>))"

definition dataUpdateNode :: "int \<Rightarrow> js_string \<Rightarrow> js_float \<Rightarrow> js_float \<Rightarrow> js_float \<Rightarrow> page \<Rightarrow> page" where
  "dataUpdateNode a r x y z p =
     (if tget (myNodeList p) a \<noteq> None then
        (let p = guiUpdateNodes a x y z p; n = the (tget (myNodeList p) a)
         in p\<lparr>myNodeList := tput a (n\<lparr>w_x := x, w_y := y, w_z := z, w_type := r\<rparr>) (myNodeList p)\<rparr>)
      else
        guiAddNodes a r x y z
          (p\<lparr>myNodeList := tput a \<lparr>w_x = x, w_y = y, w_z = z, w_type = r, w_msg = 0, w_ranges = []\<rparr> (myNodeList p)\<rparr>))"

definition dataUpdateDistance :: "int \<Rightarrow> int \<Rightarrow> js_float \<Rightarrow> page \<Rightarrow> page" where
  "dataUpdateDistance anchor tag d p =
     (case tget (myNodeList p) tag of
        None \<Rightarrow> p
      | Some n \<Rightarrow> p\<lparr>myNodeList := tput tag (n\<lparr>w_ranges := tput anchor \<lparr>rg_r = d, rg_update = True\<rparr> (w_ranges n)\<rparr>) (myNodeList p)\<rparr>)"

record anchor_report =
  ar_address :: int
  ar_x :: js_float
  ar_y :: js_float
  ar_z :: js_float
  ar_r :: js_float

text \<open>A report of a tag: four anchors with their ranges, and the tag.\<close>

definition handler_anchor :: "int \<Rightarrow> anchor_report \<Rightarrow> page \<Rightarrow> page" where
  "handler_anchor t a p =
     dataUpdateDistance (ar_address a) t (ar_r a) (dataUpdateNode (ar_address a) ANCHOR (ar_x a) (ar_y a) (ar_z a) p)"

definition handler_tag ::
  "anchor_report \<times> anchor_report \<times> anchor_report \<times> anchor_report \<Rightarrow> int \<Rightarrow> js_float \<Rightarrow> js_float \<Rightarrow> js_float \<Rightarrow> page \<Rightarrow> page" where
  "handler_tag as t x y z p =
     (case as of (a0, a1, a2, a3) \<Rightarrow>
        plotCircle (plotNodes (dataUpdateNode t TAG x y z
          (handler_anchor t a3 (handler_anchor t a2 (handler_anchor t a1 (handler_anchor t a0 p)))))))"

section \<open>Dispatch\<close>

datatype ui_message =
    M_blink int "js_string option"
  | M_ble_mesh int int
  | M_location int js_float js_float js_float
  | M_location_reduced int js_float js_float
  | M_onoff int int
  | M_distance "int option"
  | M_tof "int option"
  | M_slot int int
  | M_tag "anchor_report \<times> anchor_report \<times> anchor_report \<times> anchor_report" int js_float js_float js_float
  | M_other
  | M_not_json

definition process_message :: "ui_message \<Rightarrow> unit page_op" where
  "process_message m =
     (case m of M_not_json \<Rightarrow> throw (Error (js ''SyntaxError''))
      | _ \<Rightarrow> reading mode (\<lambda>md.
          case md of
            Bluetooth_mesh \<Rightarrow>
              (case m of
                 M_blink a r \<Rightarrow> handler_blink a r
               | M_ble_mesh a mesh \<Rightarrow> modify (handler_ble_mesh a mesh)
               | M_location a x y z \<Rightarrow> modify (handler_location a x y z)
               | M_location_reduced mesh x y \<Rightarrow> modify (handler_location_reduced mesh x y)
               | M_onoff a v \<Rightarrow> modify (\<lambda>p. handler_onoff a v (on_card a (\<lambda>c. c\<lparr>k_onoff := k_onoff c + 1\<rparr>) p))
               | M_distance anchor \<Rightarrow> handler_distance anchor
               | M_tof anchor \<Rightarrow> handler_tof anchor
               | M_slot a s \<Rightarrow> modify (handler_slot a s)
               | _ \<Rightarrow> ret ())
          | Wi_fi \<Rightarrow>
              (case m of
                 M_tag as t x y z \<Rightarrow> modify (handler_tag as t x y z)
               | _ \<Rightarrow> ret ())))"

definition onMessageArrived :: "ui_message \<Rightarrow> page \<Rightarrow> page" where
  "onMessageArrived m p =
     snd (catching (process_message m) (\<lambda>e. modify (\<lambda>p. p\<lparr>errors_logged := Suc (errors_logged p)\<rparr>)) p)"

section \<open>Buttons\<close>

definition onEditBtnClick :: "int \<Rightarrow> page \<Rightarrow> page" where
  "onEditBtnClick a p =
     (case find_node (nodeList p) a of
        None \<Rightarrow> p
      | Some i \<Rightarrow>
          let now = editing (nodeList p ! i)
          in on_card a (\<lambda>c. c\<lparr>k_edit_text := (if now then js ''Edit'' else js ''Edit...''), k_options_disabled := now, k_readonly := now\<rparr>)
               (set_node i (\<lambda>n. n\<lparr>editing := \<not> now\<rparr>) p))"

fun field_nan :: "field \<Rightarrow> bool" where
  "field_nan (Shown x) = (x = NaF)"
| "field_nan (Typed s) = (\<not> is_number_text s)"

definition onUpdateBtnClick :: "int \<Rightarrow> unit page_op" where
  "onUpdateBtnClick a =
     reading (\<lambda>p. (find_node (nodeList p) a, nodeList p, get_card a p)) (\<lambda>(i, ns, c).
     case i of
       None \<Rightarrow> ret ()
     | Some i \<Rightarrow>
         if \<not> editing (ns ! i) then modify (toastError (js ''Enter editing mode first''))
         else
           (case c of
              None \<Rightarrow> modify (toastError (js ''Invalid location''))
            | Some c \<Rightarrow>
                if field_nan (k_x c) \<or> field_nan (k_y c) \<or> field_nan (k_z c)
                then modify (toastError (js ''Invalid location''))
                else
                  seqn (publish (Cmd_location a (k_x c) (k_y c) (k_z c)))
                       (publish (Cmd_blink a (if k_anchor_selected c then ANCHOR else TAG)))))"

text \<open>The state of the node and the text of the button change before the command is sent.\<close>

definition onIdentifyBtnClick :: "int \<Rightarrow> unit page_op" where
  "onIdentifyBtnClick a =
     reading (\<lambda>p. (find_node (nodeList p) a, nodeList p)) (\<lambda>(i, ns).
     case i of
       None \<Rightarrow> ret ()
     | Some i \<Rightarrow>
         let now = identifying (ns ! i) in
         seqn (modify (\<lambda>p. on_card a (\<lambda>c. c\<lparr>k_identify_text := (if now then js ''Identify'' else js ''Buzzing'')\<rparr>)
                (set_node i (\<lambda>n. n\<lparr>identifying := \<not> now\<rparr>) p)))
        (publish (Cmd_onoff a (if now then 0 else 1))))"

definition onBulbBtnClick :: "int \<Rightarrow> unit page_op" where
  "onBulbBtnClick a =
     reading (\<lambda>p. (find_node (nodeList p) a, nodeList p)) (\<lambda>(i, ns).
     case i of
       None \<Rightarrow> ret ()
     | Some i \<Rightarrow>
         let now = lighting (ns ! i) in
         seqn (modify (\<lambda>p. on_card a (\<lambda>c. c\<lparr>k_bulb_text := (if now then js ''OFF'' else js ''ON'')\<rparr>)
                (set_node i (\<lambda>n. n\<lparr>lighting := \<not> now\<rparr>) p)))
        (publish (Cmd_onoff a (if now then 0 else 6))))"

text \<open>The text of a command; \<open>fmt\<close> is the text of a number.\<close>

fun field_text :: "(js_float \<Rightarrow> js_string) \<Rightarrow> field \<Rightarrow> js_string" where
  "field_text fmt (Shown x) = fmt x"
| "field_text fmt (Typed s) = s"

definition quoted :: "string \<Rightarrow> js_string" where
  "quoted s = [34] @ js s @ [34]"

fun command_text :: "(js_float \<Rightarrow> js_string) \<Rightarrow> command \<Rightarrow> js_string" where
  "command_text fmt (Cmd_location a x y z) =
     js ''{'' @ quoted ''mavpackettype'' @ js '': '' @ quoted ''LOCATION'' @ js '', '' @ quoted ''uwb_address'' @ js '': '' @ int_str 10 a
     @ js '', '' @ quoted ''location_x'' @ js '': '' @ field_text fmt x @ js '', '' @ quoted ''location_y'' @ js '': '' @ field_text fmt y
     @ js '', '' @ quoted ''location_z'' @ js '': '' @ field_text fmt z @ js ''}''"
| "command_text fmt (Cmd_blink a r) =
     js ''{'' @ quoted ''mavpackettype'' @ js '': '' @ quoted ''BLINK'' @ js '', '' @ quoted ''uwb_address'' @ js '': '' @ int_str 10 a
     @ js '', '' @ quoted ''role'' @ js '': '' @ [34] @ r @ [34] @ js ''}''"
| "command_text fmt (Cmd_onoff a v) =
     js ''{'' @ quoted ''mavpackettype'' @ js '': '' @ quoted ''ONOFF'' @ js '', '' @ quoted ''uwb_address'' @ js '': '' @ int_str 10 a
     @ js '', '' @ quoted ''value'' @ js '': '' @ int_str 10 v @ js ''}''"

section \<open>Events\<close>

datatype axis = Axis_x | Axis_y | Axis_z

datatype ui_event =
    E_message ui_message
  | E_mode ui_mode
  | E_connected js_string
  | E_lost nat
  | E_type int axis js_string
  | E_select int bool
  | E_edit int
  | E_update int
  | E_identify int
  | E_bulb int

text \<open>The user can type into an input that is not read-only.\<close>

definition type_into :: "axis \<Rightarrow> js_string \<Rightarrow> card \<Rightarrow> card" where
  "type_into ax s c =
     (if k_readonly c then c
      else case ax of
        Axis_x \<Rightarrow> c\<lparr>k_x := Typed s\<rparr> | Axis_y \<Rightarrow> c\<lparr>k_y := Typed s\<rparr> | Axis_z \<Rightarrow> c\<lparr>k_z := Typed s\<rparr>)"

definition select_role :: "bool \<Rightarrow> card \<Rightarrow> card" where
  "select_role anchor c = (if k_options_disabled c then c else c\<lparr>k_anchor_selected := anchor\<rparr>)"

fun ui_step :: "ui_event \<Rightarrow> page \<Rightarrow> page" where
  "ui_step (E_message m) p = onMessageArrived m p"
| "ui_step (E_mode md) p = p\<lparr>mode := md\<rparr>"
| "ui_step (E_connected topic) p = onConnect topic (p\<lparr>mqtt_up := True\<rparr>)"
| "ui_step (E_lost code) p = onConnectionLost code (p\<lparr>mqtt_up := False\<rparr>)"
| "ui_step (E_type a ax s) p = on_card a (type_into ax s) p"
| "ui_step (E_select a anchor) p = on_card a (select_role anchor) p"
| "ui_step (E_edit a) p = onEditBtnClick a p"
| "ui_step (E_update a) p = snd (onUpdateBtnClick a p)"
| "ui_step (E_identify a) p = snd (onIdentifyBtnClick a p)"
| "ui_step (E_bulb a) p = snd (onBulbBtnClick a p)"

definition ui_run :: "ui_event list \<Rightarrow> page \<Rightarrow> page" where
  "ui_run es p = fold ui_step es p"

definition first_page :: page where
  "first_page = \<lparr>mode = Bluetooth_mesh, nodeList = [], myNodeList = [], cards = [], map_anchors = [], map_tags = [],
     map_circles = [], mqtt_up = False, subscribed = [], published = [], toasts = [], errors_logged = 0, reconnects = 0\<rparr>"

end
