(* ===== verification/Web_Ui_Correct.thy ===== *)
theory Web_Ui_Correct
  imports Web_Ui
begin

text \<open>What the page promises: its lists and cards agree, and the cards show what was reported last.\<close>

section \<open>Lists and cards\<close>

lemma index_of_Some: "index_of P xs = Some i \<Longrightarrow> i < length xs \<and> P (xs ! i) \<and> find P xs = Some (xs ! i)"
  by (induction xs arbitrary: i) (auto split: if_splits)

lemma index_of_None: "index_of P xs = None \<longleftrightarrow> (\<forall>x \<in> set xs. \<not> P x)"
  by (induction xs) auto

lemma find_None: "find P xs = None \<longleftrightarrow> (\<forall>x \<in> set xs. \<not> P x)"
  by (induction xs) auto

lemma index_of_find: "index_of P xs = None \<longleftrightarrow> find P xs = None"
  by (simp add: index_of_None find_None)

lemma map_update_first: "(\<And>x. g (f x) = g x) \<Longrightarrow> map g (update_first P f xs) = map g xs"
  by (induction xs) auto

lemma list_update_first: "index_of P xs = Some i \<Longrightarrow> xs[i := f (xs ! i)] = update_first P f xs"
  by (induction xs arbitrary: i) (auto split: if_splits)

lemma list_update_key:
  "distinct (map g xs) \<Longrightarrow> i < length xs \<Longrightarrow> xs[i := f (xs ! i)] = update_first (\<lambda>x. g x = g (xs ! i)) f xs"
proof (induction xs arbitrary: i)
  case (Cons x xs)
  then show ?case
  proof (cases i)
    case (Suc j)
    then have "g (xs ! j) \<in> g ` set xs" using Cons.prems by simp
    then have "g x \<noteq> g (xs ! j)" using Cons.prems by auto
    then show ?thesis using Suc Cons by simp
  qed simp
qed simp

lemma find_update_first:
  "(\<And>x. g (f x) = g x) \<Longrightarrow>
   find (\<lambda>x. g x = a) (update_first (\<lambda>x. g x = b) f xs)
     = (if a = b then map_option f (find (\<lambda>x. g x = a) xs) else find (\<lambda>x. g x = a) xs)"
  by (induction xs) auto

definition get_node :: "int \<Rightarrow> page \<Rightarrow> node option" where
  "get_node a p = find (\<lambda>n. uwb_address n = a) (nodeList p)"

definition keeps_address :: "(card \<Rightarrow> card) \<Rightarrow> bool" where
  "keeps_address f \<longleftrightarrow> (\<forall>c. k_address (f c) = k_address c)"

definition keeps_uwb :: "(node \<Rightarrow> node) \<Rightarrow> bool" where
  "keeps_uwb f \<longleftrightarrow> (\<forall>n. uwb_address (f n) = uwb_address n \<and> role (f n) = role n)"

lemma on_card_fields [simp]:
  "nodeList (on_card a f p) = nodeList p" "myNodeList (on_card a f p) = myNodeList p" "mode (on_card a f p) = mode p"
  "map_anchors (on_card a f p) = map_anchors p" "map_tags (on_card a f p) = map_tags p"
  "map_circles (on_card a f p) = map_circles p" "published (on_card a f p) = published p"
  "get_node b (on_card a f p) = get_node b p" "mqtt_up (on_card a f p) = mqtt_up p"
  by (simp_all add: on_card_def get_node_def)

lemma on_card_addresses: "keeps_address f \<Longrightarrow> map k_address (cards (on_card a f p)) = map k_address (cards p)"
  by (simp add: on_card_def keeps_address_def map_update_first)

lemma get_card_on_card:
  "keeps_address f \<Longrightarrow> get_card a (on_card b f p) = (if a = b then map_option f (get_card a p) else get_card a p)"
  unfolding get_card_def on_card_def keeps_address_def
  by (simp add: find_update_first [of k_address f] split del: if_split)

lemma set_node_fields [simp]:
  "cards (set_node i f p) = cards p" "myNodeList (set_node i f p) = myNodeList p" "mode (set_node i f p) = mode p"
  "get_card a (set_node i f p) = get_card a p" "length (nodeList (set_node i f p)) = length (nodeList p)"
  by (simp_all add: set_node_def get_card_def)

lemma plot_fields [simp]:
  "cards (plot p) = cards p" "myNodeList (plot p) = myNodeList p" "mode (plot p) = mode p" "nodeList (plot p) = nodeList p"
  "get_card a (plot p) = get_card a p" "get_node a (plot p) = get_node a p"
  by (simp_all add: plot_def get_card_def get_node_def)

lemma set_node_addresses:
  "keeps_uwb f \<Longrightarrow> i < length (nodeList p) \<Longrightarrow>
   map (\<lambda>n. (uwb_address n, role n)) (nodeList (set_node i f p)) = map (\<lambda>n. (uwb_address n, role n)) (nodeList p)"
  by (simp add: set_node_def keeps_uwb_def map_update list_update_same_conv)

lemma get_node_set_node:
  assumes "distinct (map uwb_address (nodeList p))" "i < length (nodeList p)" "keeps_uwb f"
  shows "get_node a (set_node i f p)
    = (if a = uwb_address (nodeList p ! i) then map_option f (get_node a p) else get_node a p)"
  using assms find_update_first [of uwb_address f a "uwb_address (nodeList p ! i)" "nodeList p"]
  unfolding get_node_def set_node_def keeps_uwb_def by (simp add: list_update_key split del: if_split)

section \<open>The invariant of the page\<close>

text \<open>No stored range carries the mark of one that is still to be drawn.\<close>

definition settled :: "(int, wifi_node) table \<Rightarrow> bool" where
  "settled t \<longleftrightarrow> (\<forall>a n b rg. tget t a = Some n \<longrightarrow> tget (w_ranges n) b = Some rg \<longrightarrow> \<not> rg_update rg)"

definition shown_addresses :: "page \<Rightarrow> int set" where
  "shown_addresses p = set (map k_address (cards p))"

definition page_ok :: "page \<Rightarrow> bool" where
  "page_ok p \<longleftrightarrow> distinct (map uwb_address (nodeList p))
     \<and> (\<forall>n \<in> set (nodeList p). role n \<noteq> None \<longrightarrow> uwb_address n \<in> shown_addresses p)
     \<and> tok (myNodeList p) \<and> (\<forall>a n. tget (myNodeList p) a = Some n \<longrightarrow> a \<in> shown_addresses p \<and> tok (w_ranges n))
     \<and> settled (myNodeList p)"

text \<open>Steps that change no list: the invariant depends on the addresses only.\<close>

definition frame_of :: "page \<Rightarrow> (int \<times> js_string option) list \<times> (int, wifi_node) table \<times> int list" where
  "frame_of p = (map (\<lambda>n. (uwb_address n, role n)) (nodeList p), myNodeList p, map k_address (cards p))"

lemma page_ok_frame: "frame_of q = frame_of p \<Longrightarrow> page_ok p \<Longrightarrow> page_ok q"
proof -
  assume e: "frame_of q = frame_of p"
  then have l: "map (\<lambda>n. (uwb_address n, role n)) (nodeList q) = map (\<lambda>n. (uwb_address n, role n)) (nodeList p)"
    and E: "myNodeList q = myNodeList p" "shown_addresses q = shown_addresses p"
    by (simp_all add: frame_of_def shown_addresses_def)
  have A: "map uwb_address (nodeList q) = map uwb_address (nodeList p)"
    using arg_cong [OF l, of "map fst"] by (simp add: comp_def)
  have "(\<forall>n \<in> set (nodeList r). role n \<noteq> None \<longrightarrow> uwb_address n \<in> S)
      = (\<forall>(a, ro) \<in> set (map (\<lambda>n. (uwb_address n, role n)) (nodeList r)). ro \<noteq> None \<longrightarrow> a \<in> S)" for r :: page and S
    by auto
  then have R: "(\<forall>n \<in> set (nodeList q). role n \<noteq> None \<longrightarrow> uwb_address n \<in> S)
      = (\<forall>n \<in> set (nodeList p). role n \<noteq> None \<longrightarrow> uwb_address n \<in> S)" for S by (simp only: l)
  assume "page_ok p"
  then show "page_ok q" unfolding page_ok_def E A R .
qed

lemma frame_on_card [simp]: "keeps_address f \<Longrightarrow> frame_of (on_card a f p) = frame_of p"
  by (simp add: frame_of_def on_card_addresses)

lemma frame_set_node [simp]: "keeps_uwb f \<Longrightarrow> i < length (nodeList p) \<Longrightarrow> frame_of (set_node i f p) = frame_of p"
  by (simp add: frame_of_def set_node_addresses)

lemma frame_plot [simp]: "frame_of (plot p) = frame_of p"
  by (simp add: frame_of_def)

lemma frame_update [simp]:
  "frame_of (p\<lparr>published := x\<rparr>) = frame_of p" "frame_of (p\<lparr>toasts := x2\<rparr>) = frame_of p" "frame_of (p\<lparr>errors_logged := x3\<rparr>) = frame_of p"
  "frame_of (p\<lparr>reconnects := x3\<rparr>) = frame_of p" "frame_of (p\<lparr>subscribed := x4\<rparr>) = frame_of p" "frame_of (p\<lparr>mqtt_up := x5\<rparr>) = frame_of p"
  "frame_of (p\<lparr>mode := x6\<rparr>) = frame_of p"
  by (simp_all add: frame_of_def)

lemma keeps_intros [simp]:
  "keeps_address (\<lambda>c. c\<lparr>k_located := g c\<rparr>)" "keeps_address (show_location x y z)" "keeps_address (\<lambda>c. c\<lparr>k_lights := l\<rparr>)"
  "keeps_address (\<lambda>c. c\<lparr>k_slot := s\<rparr>)" "keeps_address (\<lambda>c. c\<lparr>k_mesh_hex := s\<rparr>)" "keeps_address (\<lambda>c. c\<lparr>k_onoff := h c\<rparr>)"
  "keeps_address (\<lambda>c. c\<lparr>k_edit_text := s, k_options_disabled := d, k_readonly := e\<rparr>)"
  "keeps_address (\<lambda>c. c\<lparr>k_identify_text := s\<rparr>)" "keeps_address (\<lambda>c. c\<lparr>k_bulb_text := s\<rparr>)" "keeps_address (type_into ax s)"
  "keeps_address (select_role an)" "keeps_address (\<lambda>c. (show_location x y z c)\<lparr>k_located := m\<rparr>)"
  "keeps_uwb (\<lambda>n. n\<lparr>locationX := x, locationY := y, locationZ := z\<rparr>)" "keeps_uwb (\<lambda>n. n\<lparr>mesh_address := m\<rparr>)"
  "keeps_uwb (\<lambda>n. n\<lparr>editing := b\<rparr>)" "keeps_uwb (\<lambda>n. n\<lparr>identifying := b\<rparr>)" "keeps_uwb (\<lambda>n. n\<lparr>lighting := b\<rparr>)"
  by (auto simp: keeps_address_def keeps_uwb_def show_location_def type_into_def select_role_def split: axis.split)

lemma nodeLocationUpdate_frame: "i < length (nodeList p) \<Longrightarrow> frame_of (nodeLocationUpdate i x y z p) = frame_of p"
  by (simp add: nodeLocationUpdate_def Let_def)

lemma find_node_bound: "find_node ns a = Some i \<Longrightarrow> i < length ns \<and> uwb_address (ns ! i) = a"
  using index_of_Some by (fastforce simp: find_node_def)

lemma find_mesh_bound: "find_node_mesh ns m = Some i \<Longrightarrow> i < length ns"
  using index_of_Some by (fastforce simp: find_node_mesh_def)

lemma handler_frames:
  "frame_of (handler_location a x y z p) = frame_of p"
  "frame_of (handler_location_reduced m x y p) = frame_of p"
  "frame_of (handler_onoff a v p) = frame_of p" "frame_of (handler_slot a s p) = frame_of p"
  "frame_of (handler_ble_mesh a m p) = frame_of p"
  by (auto simp: handler_location_def handler_location_reduced_def handler_onoff_def handler_slot_def handler_ble_mesh_def
      count_location_def Let_def nodeLocationUpdate_frame dest!: find_node_bound find_mesh_bound split: option.split)

lemma publish_frame [simp]: "frame_of (snd (publish cmd p)) = frame_of p"
  by (simp add: publish_def)

lemma button_frames:
  "frame_of (onEditBtnClick a p) = frame_of p" "frame_of (snd (onUpdateBtnClick a p)) = frame_of p"
  "frame_of (snd (onIdentifyBtnClick a p)) = frame_of p" "frame_of (snd (onBulbBtnClick a p)) = frame_of p"
  by (auto simp: onEditBtnClick_def onUpdateBtnClick_def onIdentifyBtnClick_def onBulbBtnClick_def Let_def toastError_def
      andthen_apply publish_def dest!: find_node_bound split: option.split sum.split)

subsection \<open>New nodes\<close>

lemma page_ok_blink: "page_ok p \<Longrightarrow> page_ok (snd (handler_blink a r p))"
  by (cases r) (auto simp: handler_blink_def page_ok_def find_node_def index_of_None new_node_def shown_addresses_def new_card_def)

subsection \<open>Reports of the Wi-Fi mode\<close>

definition base_ok :: "int \<Rightarrow> page \<Rightarrow> bool" where
  "base_ok t p \<longleftrightarrow> distinct (map uwb_address (nodeList p))
     \<and> (\<forall>n \<in> set (nodeList p). role n \<noteq> None \<longrightarrow> uwb_address n \<in> shown_addresses p)
     \<and> tok (myNodeList p) \<and> (\<forall>a n. tget (myNodeList p) a = Some n \<longrightarrow> a \<in> shown_addresses p \<and> tok (w_ranges n))
     \<and> (\<forall>a n b rg. a \<noteq> t \<longrightarrow> tget (myNodeList p) a = Some n \<longrightarrow> tget (w_ranges n) b = Some rg \<longrightarrow> \<not> rg_update rg)"

definition old_ranges :: "int \<Rightarrow> page \<Rightarrow> (int, wifi_range) table" where
  "old_ranges a p = (case tget (myNodeList p) a of None \<Rightarrow> [] | Some n \<Rightarrow> w_ranges n)"

lemma shown_simps [simp]:
  "keeps_address f \<Longrightarrow> shown_addresses (on_card a f p) = shown_addresses p"
  "shown_addresses (p\<lparr>myNodeList := t\<rparr>) = shown_addresses p" "shown_addresses (set_node i g p) = shown_addresses p"
  by (simp_all add: shown_addresses_def on_card_addresses del: set_map)

lemma dataUpdateNode_effect:
  assumes "tok (myNodeList p)"
  shows "nodeList (dataUpdateNode a r x y z p) = nodeList p" "tok (myNodeList (dataUpdateNode a r x y z p))"
    and "\<exists>k. tget (myNodeList (dataUpdateNode a r x y z p)) b = (if b = a then
        Some \<lparr>w_x = x, w_y = y, w_z = z, w_type = r, w_msg = k, w_ranges = old_ranges a p\<rparr> else tget (myNodeList p) b)"
    and "shown_addresses (dataUpdateNode a r x y z p)
      = (if tget (myNodeList p) a = None then insert a (shown_addresses p) else shown_addresses p)"
proof -
  show "nodeList (dataUpdateNode a r x y z p) = nodeList p" "tok (myNodeList (dataUpdateNode a r x y z p))"
    using assms by (simp_all add: dataUpdateNode_def guiUpdateNodes_def guiAddNodes_def Let_def tok_tput split: option.split)
  show "shown_addresses (dataUpdateNode a r x y z p)
      = (if tget (myNodeList p) a = None then insert a (shown_addresses p) else shown_addresses p)"
  proof (cases "tget (myNodeList p) a")
    case None
    then show ?thesis by (simp add: dataUpdateNode_def guiAddNodes_def shown_addresses_def new_card_def)
  next
    case (Some n)
    then show ?thesis by (simp add: dataUpdateNode_def guiUpdateNodes_def Let_def)
  qed
  show "\<exists>k. tget (myNodeList (dataUpdateNode a r x y z p)) b = (if b = a then
        Some \<lparr>w_x = x, w_y = y, w_z = z, w_type = r, w_msg = k, w_ranges = old_ranges a p\<rparr> else tget (myNodeList p) b)"
  proof (cases "tget (myNodeList p) a")
    case None
    then show ?thesis using assms
      by (auto simp: dataUpdateNode_def guiAddNodes_def Let_def tget_tput old_ranges_def)
  next
    case (Some n)
    then show ?thesis using assms
      by (intro exI [of _ "w_msg n + 1"], cases n)
        (auto simp: dataUpdateNode_def guiUpdateNodes_def Let_def tget_tput tok_tput old_ranges_def)
  qed
qed

lemma base_ok_node:
  assumes "base_ok t p"
  shows "base_ok t (dataUpdateNode a r x y z p)"
proof -
  let ?q = "dataUpdateNode a r x y z p"
  have tok: "tok (myNodeList p)" using assms by (simp add: base_ok_def)
  note eff = dataUpdateNode_effect [OF tok, of a r x y z]
  have sub: "shown_addresses p \<subseteq> shown_addresses ?q" and a: "tget (myNodeList p) a = None \<Longrightarrow> a \<in> shown_addresses ?q"
    by (auto simp: eff(4))
  have old: "tok (old_ranges a p)" "a \<noteq> t \<Longrightarrow> tget (old_ranges a p) b = Some rg \<Longrightarrow> \<not> rg_update rg" for b rg
    using assms by (auto simp: base_ok_def old_ranges_def split: option.splits)
  have entry: "(b \<noteq> a \<and> tget (myNodeList p) b = Some n) \<or> (b = a \<and> w_ranges n = old_ranges a p)"
    if "tget (myNodeList ?q) b = Some n" for b n
    using eff(3) [of b] that by (auto split: if_splits)
  have shown: "b \<in> shown_addresses ?q" if "tget (myNodeList ?q) b = Some n" for b n
    using entry [OF that] sub a assms unfolding base_ok_def by (cases "tget (myNodeList p) a") blast+
  show ?thesis
    unfolding base_ok_def eff(1)
    using assms shown sub entry old eff(2) unfolding base_ok_def by (intro conjI) (blast, blast, blast, metis, metis)
qed

lemma base_ok_distance:
  assumes "base_ok t p"
  shows "base_ok t (dataUpdateDistance a t d p)"
proof (cases "tget (myNodeList p) t")
  case None
  then show ?thesis using assms by (simp add: dataUpdateDistance_def)
next
  case (Some n)
  have tok: "tok (myNodeList p)" using assms by (simp add: base_ok_def)
  show ?thesis using assms Some
    unfolding base_ok_def dataUpdateDistance_def by (auto simp: tget_tput [OF tok] tok_tput split: if_splits)
qed

lemma tget_map_values: "tget (map (\<lambda>(a, n). (a, f n)) t) b = map_option f (tget t b)"
  by (induction t) auto

lemma tok_map_values: "tok (map (\<lambda>(a, n). (a, f n)) t) = tok t"
proof -
  have "map fst (map (\<lambda>(a, n). (a, f n)) t) = map fst t" by (induction t) auto
  then show ?thesis by (simp only: tok_def)
qed

lemma base_ok_plotCircle:
  assumes "base_ok t p" "\<exists>n. tget (myNodeList p) t = Some n \<and> w_type n = TAG"
  shows "page_ok (plotCircle (plotNodes p))"
proof -
  have d: "w_ranges (drawn n) = (if w_type n = TAG then map (\<lambda>(a, rg). (a, rg\<lparr>rg_update := False\<rparr>)) (w_ranges n) else w_ranges n)" for n
    by (simp add: drawn_def)
  have m: "myNodeList (plotCircle (plotNodes p)) = map (\<lambda>(a, n). (a, drawn n)) (myNodeList p)"
    "nodeList (plotCircle (plotNodes p)) = nodeList p" "shown_addresses (plotCircle (plotNodes p)) = shown_addresses p"
    by (simp_all add: plotCircle_def plotNodes_def shown_addresses_def)
  have "\<not> rg_update rg" if "tget (myNodeList p) a = Some n" "tget (w_ranges (drawn n)) b = Some rg" for a n b rg
  proof (cases "w_type n = TAG")
    case True
    then show ?thesis using that(2) by (auto simp: d tget_map_values)
  next
    case False
    then have "a \<noteq> t" using assms(2) that(1) by auto
    then show ?thesis using assms(1) that False unfolding base_ok_def by (auto simp: d)
  qed
  then show ?thesis using assms(1) unfolding page_ok_def base_ok_def settled_def m
    by (auto simp: tget_map_values tok_map_values d)
qed

lemma page_ok_tag:
  assumes "page_ok p"
  shows "page_ok (handler_tag as t x y z p)"
proof -
  have start: "base_ok t p" using assms unfolding page_ok_def base_ok_def settled_def by blast
  have step: "base_ok t (handler_anchor t a p)" if "base_ok t p" for a p
    unfolding handler_anchor_def by (intro base_ok_distance base_ok_node that)
  obtain a0 a1 a2 a3 where as: "as = (a0, a1, a2, a3)" by (cases as)
  define q where "q = handler_anchor t a3 (handler_anchor t a2 (handler_anchor t a1 (handler_anchor t a0 p)))"
  have q: "base_ok t q" unfolding q_def by (intro step start)
  then have "tok (myNodeList q)" by (simp add: base_ok_def)
  from dataUpdateNode_effect(3) [OF this, of t TAG x y z t]
  have "\<exists>n. tget (myNodeList (dataUpdateNode t TAG x y z q)) t = Some n \<and> w_type n = TAG" by auto
  with base_ok_node [OF q] show ?thesis
    unfolding handler_tag_def as prod.case q_def [symmetric] by (rule base_ok_plotCircle)
qed

lemma page_ok_message:
  assumes ok: "page_ok p"
  shows "page_ok (onMessageArrived m p)"
proof -
  have "page_ok (snd (process_message m p))"
    using ok page_ok_blink [OF ok] page_ok_tag [OF ok]
    by (auto simp: process_message_def handler_distance_def handler_tof_def handler_frames intro: page_ok_frame [OF _ ok]
        split: ui_message.split ui_mode.split)
  then show ?thesis
    by (auto simp: onMessageArrived_def catching_def try_catch_def intro: page_ok_frame [rotated]
        split: prod.split sum.split)
qed

lemma ui_run_ok: "page_ok (ui_run es first_page)"
proof -
  have step: "page_ok (ui_step e p)" if ok: "page_ok p" for e p
  proof (cases e)
    case (E_message m)
    then show ?thesis using page_ok_message [OF ok] by simp
  qed (auto simp: onConnect_def onConnectionLost_def toastError_def button_frames intro!: page_ok_frame [OF _ ok])
  have "page_ok first_page" by (simp add: page_ok_def first_page_def settled_def)
  moreover have "page_ok p \<Longrightarrow> page_ok (fold ui_step es p)" for p by (induction es arbitrary: p) (auto simp: step)
  ultimately show ?thesis by (simp add: ui_run_def)
qed

text \<open>
  Property C18.  The page stays consistent: after any sequence of messages, in either mode, button
  clicks, typing, changes of the mode and of the connection, each address is in the list of nodes once,
  every node with a role and every node of the Wi-Fi mode has its card, and no stored range still
  carries the mark \<open>update\<close> of one that waits to be drawn.  That is all it says of the ranges: those of
  the first report of a tag are not stored, and never drawn (\<open>first_report_draws_nothing\<close>).
\<close>

theorem page_consistent:
  "page_ok (ui_run es first_page)"
  by (rule ui_run_ok)

section \<open>What the cards of the mesh show\<close>

definition location_of_node :: "node \<Rightarrow> js_float \<times> js_float \<times> js_float" where
  "location_of_node n = (locationX n, locationY n, locationZ n)"

definition inputs :: "card \<Rightarrow> field \<times> field \<times> field" where
  "inputs c = (k_x c, k_y c, k_z c)"

fun shown_as :: "js_float \<times> js_float \<times> js_float \<Rightarrow> field \<times> field \<times> field" where
  "shown_as (x, y, z) = (Shown x, Shown y, Shown z)"

text \<open>The location that a message reports for an address.\<close>

fun reported_location :: "int \<Rightarrow> ui_message \<Rightarrow> (js_float \<times> js_float \<times> js_float) option" where
  "reported_location a (M_location b x y z) = (if b = a then Some (x, y, z) else None)"
| "reported_location a m = None"

fun is_reduced :: "ui_message \<Rightarrow> bool" where
  "is_reduced (M_location_reduced m x y) = True"
| "is_reduced m = False"

definition mesh_rel :: "(js_float \<times> js_float \<times> js_float) option \<Rightarrow> node \<times> card \<Rightarrow> node \<times> card \<Rightarrow> bool" where
  "mesh_rel l nc nc' \<longleftrightarrow> (case (nc, nc') of ((n, c), (n', c')) \<Rightarrow>
     editing n' = editing n \<and> k_anchor_selected c' = k_anchor_selected c
     \<and> location_of_node n' = (case l of None \<Rightarrow> location_of_node n | Some l \<Rightarrow> l)
     \<and> inputs c' = (if editing n then inputs c else case l of None \<Rightarrow> inputs c | Some l \<Rightarrow> shown_as l)
     \<and> k_located c' = k_located c + (case l of None \<Rightarrow> 0 | Some _ \<Rightarrow> 1))"

lemma find_append: "find P (xs @ ys) = (case find P xs of None \<Rightarrow> find P ys | Some x \<Rightarrow> Some x)"
  by (induction xs) auto

lemma get_node_append: "get_node a p = Some n \<Longrightarrow> find (\<lambda>n. uwb_address n = a) (nodeList p @ xs) = Some n"
  by (simp add: get_node_def find_append)

lemma map_list_update_same: "i < length xs \<Longrightarrow> (map g xs)[i := g (xs ! i)] = map g xs"
  by (metis list_update_id nth_map)

lemma find_distinct: "distinct (map g xs) \<Longrightarrow> i < length xs \<Longrightarrow> find (\<lambda>x. g x = g (xs ! i)) xs = Some (xs ! i)"
proof (induction xs arbitrary: i)
  case (Cons x xs)
  then show ?case
  proof (cases i)
    case (Suc j)
    then have "g (xs ! j) \<in> g ` set xs" using Cons.prems by simp
    then have "g x \<noteq> g (xs ! j)" using Cons.prems by auto
    then show ?thesis using Suc Cons by simp
  qed simp
qed simp

lemma location_update_rel:
  assumes "page_ok p" "get_node a p = Some n" "get_card a p = Some c" "i < length (nodeList p)"
    and "q = nodeLocationUpdate i x y z (count_location (uwb_address (nodeList p ! i)) p)"
  shows "\<exists>n' c'. get_node a q = Some n' \<and> get_card a q = Some c'
    \<and> mesh_rel (if uwb_address (nodeList p ! i) = a then Some (x, y, z) else None) (n, c) (n', c')"
proof -
  let ?b = "uwb_address (nodeList p ! i)"
  define r where "r = set_node i (\<lambda>n. n\<lparr>locationX := x, locationY := y, locationZ := z\<rparr>) (count_location ?b p)"
  have dist: "distinct (map uwb_address (nodeList p))" using assms(1) by (simp add: page_ok_def)
  have b: "uwb_address (nodeList r ! i) = ?b" using assms(4) by (simp add: r_def set_node_def count_location_def)
  have node: "get_node a r = (if a = ?b then Some (n\<lparr>locationX := x, locationY := y, locationZ := z\<rparr>) else Some n)"
    unfolding r_def using get_node_set_node [of "count_location ?b p" i] dist assms(2,4) by (auto simp: count_location_def)
  have card: "get_card a r = (if a = ?b then Some (c\<lparr>k_located := k_located c + 1\<rparr>) else Some c)"
    using assms(3) by (auto simp: r_def count_location_def get_card_on_card)
  have ni: "nodeList r ! i = n\<lparr>locationX := x, locationY := y, locationZ := z\<rparr>" if "a = ?b"
  proof -
    have "i < length (nodeList r)" using assms(4) by (simp add: r_def count_location_def)
    moreover have "distinct (map uwb_address (nodeList r))"
      using dist assms(4) by (simp add: r_def set_node_def count_location_def map_update map_list_update_same)
    ultimately have "find (\<lambda>n. uwb_address n = uwb_address (nodeList r ! i)) (nodeList r) = Some (nodeList r ! i)"
      by (intro find_distinct)
    then show ?thesis using node that b unfolding get_node_def by simp
  qed
  have q: "q = plot (if editing (nodeList r ! i) then r else on_card ?b (show_location x y z) r)"
    unfolding assms(5) nodeLocationUpdate_def Let_def r_def [symmetric] using b by simp
  show ?thesis
  proof (cases "a = ?b")
    case True
    show ?thesis unfolding q using True node card ni [OF True]
      by (simp add: get_card_on_card mesh_rel_def location_of_node_def inputs_def show_location_def)
  next
    case False
    then show ?thesis unfolding q using node card
      by (simp add: get_card_on_card mesh_rel_def)
  qed
qed

text \<open>One message in the mesh mode.\<close>

lemma on_card_rel:
  assumes "get_node a p = Some n" "get_card a p = Some c"
    and "keeps_address f" "\<And>c. k_anchor_selected (f c) = k_anchor_selected c \<and> inputs (f c) = inputs c \<and> k_located (f c) = k_located c"
  shows "\<exists>n' c'. get_node a (on_card b f p) = Some n' \<and> get_card a (on_card b f p) = Some c' \<and> mesh_rel None (n, c) (n', c')"
  using assms by (auto simp: get_card_on_card mesh_rel_def)

lemma mesh_step:
  assumes "page_ok p" "mode p = Bluetooth_mesh" "get_node a p = Some n" "get_card a p = Some c"
  shows "\<exists>n' c' l. get_node a (onMessageArrived m p) = Some n' \<and> get_card a (onMessageArrived m p) = Some c'
    \<and> mesh_rel l (n, c) (n', c') \<and> (\<not> is_reduced m \<longrightarrow> l = reported_location a m) \<and> mode (onMessageArrived m p) = Bluetooth_mesh"
proof -
  have same: "mesh_rel None (n, c) (n, c)" by (simp add: mesh_rel_def)
  show ?thesis
  proof (cases m)
    case (M_location b x y z)
    have q: "onMessageArrived m p = handler_location b x y z p"
      using assms(2) by (simp add: M_location onMessageArrived_def process_message_def catching_def try_catch_def)
    show ?thesis
    proof (cases "find_node (nodeList p) b")
      case None
      then have "b \<noteq> a" using assms(3) by (auto simp: find_node_def get_node_def index_of_find)
      then show ?thesis unfolding q using None assms(2,3,4) same
        by (auto simp: handler_location_def count_location_def get_card_on_card M_location)
    next
      case (Some i)
      note i = find_node_bound [OF Some]
      have "onMessageArrived m p = nodeLocationUpdate i x y z (count_location (uwb_address (nodeList p ! i)) p)"
        unfolding q using Some i by (simp add: handler_location_def count_location_def)
      from location_update_rel [OF assms(1,3,4) i [THEN conjunct1] this] show ?thesis
        using i assms(2) unfolding q by (auto simp: M_location handler_location_def Some nodeLocationUpdate_def count_location_def Let_def)
    qed
  next
    case (M_location_reduced b x y)
    have q: "onMessageArrived m p = handler_location_reduced b x y p"
      using assms(2) by (simp add: M_location_reduced onMessageArrived_def process_message_def catching_def try_catch_def)
    show ?thesis
    proof (cases "find_node_mesh (nodeList p) b")
      case None
      then show ?thesis unfolding q using assms(2,3,4) same by (auto simp: handler_location_reduced_def M_location_reduced)
    next
      case (Some i)
      let ?z = "locationZ (nodeList p ! i)"
      have e: "onMessageArrived m p = nodeLocationUpdate i x y ?z (count_location (uwb_address (nodeList p ! i)) p)"
        unfolding q using Some by (simp add: handler_location_reduced_def count_location_def Let_def)
      have "mode (onMessageArrived m p) = Bluetooth_mesh"
        using assms(2) by (simp add: e nodeLocationUpdate_def count_location_def Let_def)
      then show ?thesis using location_update_rel [OF assms(1,3,4) find_mesh_bound [OF Some] e]
        by (auto simp: M_location_reduced)
    qed
  next
    case (M_blink b r)
    have "find_node (nodeList p) a \<noteq> None" using assms(3) by (simp add: find_node_def get_node_def index_of_find)
    then show ?thesis using assms(2-4) same
      by (cases r) (auto simp: M_blink onMessageArrived_def process_message_def handler_blink_def catching_def try_catch_def
          get_node_def get_card_def find_append)
  next
    case (M_ble_mesh b h)
    have q: "onMessageArrived m p = handler_ble_mesh b h p"
      using assms(2) by (simp add: M_ble_mesh onMessageArrived_def process_message_def catching_def try_catch_def)
    let ?p = "on_card b (\<lambda>c. c\<lparr>k_mesh_hex := dec2hexString h\<rparr>) p"
    have c: "\<exists>n' c'. get_node a ?p = Some n' \<and> get_card a ?p = Some c' \<and> mesh_rel None (n, c) (n', c')"
      by (rule on_card_rel [OF assms(3,4)]) (auto simp: inputs_def)
    show ?thesis
    proof (cases "find_node (nodeList p) b")
      case None
      then show ?thesis unfolding q using c assms(2) by (auto simp: handler_ble_mesh_def M_ble_mesh)
    next
      case (Some i)
      have dist: "distinct (map uwb_address (nodeList ?p))" using assms(1) by (simp add: page_ok_def)
      show ?thesis unfolding q using c assms(2) Some find_node_bound [OF Some] get_node_set_node [OF dist, of i]
        by (auto simp: handler_ble_mesh_def M_ble_mesh mesh_rel_def location_of_node_def)
    qed
  next
    case (M_onoff b v)
    let ?p = "on_card b (\<lambda>c. c\<lparr>k_onoff := k_onoff c + 1\<rparr>) p"
    have "\<exists>n' c'. get_node a ?p = Some n' \<and> get_card a ?p = Some c' \<and> mesh_rel None (n, c) (n', c')"
      by (rule on_card_rel [OF assms(3,4)]) (auto simp: inputs_def)
    then show ?thesis using assms(2)
      by (auto simp: M_onoff onMessageArrived_def process_message_def catching_def try_catch_def handler_onoff_def
          get_card_on_card mesh_rel_def inputs_def)
  next
    case (M_slot b v)
    have "\<exists>n' c'. get_node a (handler_slot b v p) = Some n' \<and> get_card a (handler_slot b v p) = Some c' \<and> mesh_rel None (n, c) (n', c')"
      unfolding handler_slot_def by (rule on_card_rel [OF assms(3,4)]) (auto simp: inputs_def)
    then show ?thesis using assms(2)
      by (auto simp: M_slot onMessageArrived_def process_message_def catching_def try_catch_def handler_slot_def)
  qed (use assms same in \<open>auto simp: onMessageArrived_def process_message_def catching_def try_catch_def
        handler_distance_def handler_tof_def get_node_def get_card_def\<close>)
qed

section \<open>Sequences of messages\<close>

definition receive :: "ui_message list \<Rightarrow> page \<Rightarrow> page" where
  "receive ms p = ui_run (map E_message ms) p"

lemma receive_Cons [simp]: "receive (m # ms) p = receive ms (onMessageArrived m p)" and receive_Nil [simp]: "receive [] p = p"
  by (simp_all add: receive_def ui_run_def)

definition page_reachable :: "page \<Rightarrow> bool" where
  "page_reachable p \<longleftrightarrow> (\<exists>es. p = ui_run es first_page)"

text \<open>The last location that is reported for an address, and how many are.\<close>

definition reports :: "int \<Rightarrow> ui_message list \<Rightarrow> (js_float \<times> js_float \<times> js_float) list" where
  "reports a ms = List.map_filter (reported_location a) ms"

lemma reports_Cons [simp]:
  "reports a (m # ms) = (case reported_location a m of None \<Rightarrow> reports a ms | Some l \<Rightarrow> l # reports a ms)"
  and reports_Nil [simp]: "reports a [] = []"
  by (auto simp: reports_def map_filter_simps split: option.split)

definition after_reports :: "(js_float \<times> js_float \<times> js_float) list \<Rightarrow> node \<times> card \<Rightarrow> node \<times> card \<Rightarrow> bool" where
  "after_reports ls nc nc' \<longleftrightarrow> (case (nc, nc') of ((n, c), (n', c')) \<Rightarrow>
     editing n' = editing n
     \<and> location_of_node n' = (if ls = [] then location_of_node n else last ls)
     \<and> inputs c' = (if editing n \<or> ls = [] then inputs c else shown_as (last ls))
     \<and> k_located c' = k_located c + int (length ls))"

lemma after_reports_step:
  assumes "mesh_rel l nc nc'" "after_reports ls nc' nc''"
  shows "after_reports (case l of None \<Rightarrow> ls | Some l \<Rightarrow> l # ls) nc nc''"
  using assms by (cases nc; cases nc'; cases nc'') (auto simp: mesh_rel_def after_reports_def split: option.splits)

lemma receive_reports:
  assumes "page_ok p" "mode p = Bluetooth_mesh" "get_node a p = Some n" "get_card a p = Some c" "\<forall>m \<in> set ms. \<not> is_reduced m"
  shows "\<exists>n' c'. get_node a (receive ms p) = Some n' \<and> get_card a (receive ms p) = Some c'
    \<and> after_reports (reports a ms) (n, c) (n', c')"
  using assms
proof (induction ms arbitrary: p n c)
  case Nil
  then show ?case by (simp add: after_reports_def)
next
  case (Cons m ms)
  from mesh_step [OF Cons.prems(1-4), of m] obtain n1 c1 l where
    1: "get_node a (onMessageArrived m p) = Some n1" "get_card a (onMessageArrived m p) = Some c1"
    "mesh_rel l (n, c) (n1, c1)" "mode (onMessageArrived m p) = Bluetooth_mesh" "\<not> is_reduced m \<longrightarrow> l = reported_location a m"
    by blast
  have l: "l = reported_location a m" using 1(5) Cons.prems(5) by simp
  from Cons.IH [OF page_ok_message [OF Cons.prems(1)] 1(4,1,2)] Cons.prems(5) obtain n' c' where
    "get_node a (receive ms (onMessageArrived m p)) = Some n'" "get_card a (receive ms (onMessageArrived m p)) = Some c'"
    "after_reports (reports a ms) (n1, c1) (n', c')" by auto
  with after_reports_step [OF 1(3) this(3)] show ?case by (simp add: l split: option.splits)
qed

lemma reachable_ok: "page_reachable p \<Longrightarrow> page_ok p"
  using ui_run_ok by (auto simp: page_reachable_def)

text \<open>A node with a role has its card: the node and the card of an address.\<close>

lemma card_of_node:
  assumes "page_ok p" "get_node a p = Some n" "role n \<noteq> None"
  obtains c where "get_card a p = Some c"
proof -
  have "n \<in> set (nodeList p)" "uwb_address n = a" using assms(2) by (auto simp: get_node_def find_Some_iff)
  then have "a \<in> shown_addresses p" using assms(1,3) by (auto simp: page_ok_def)
  then have "get_card a p \<noteq> None" by (auto simp: get_card_def find_None shown_addresses_def)
  then show ?thesis using that by auto
qed

text \<open>
  Property C31.  In the mesh mode the page shows what was reported last: from any reachable page,
  after any sequence of messages without reduced reports, a known node has the location of the last
  report of its address, its card shows this location in the three inputs unless the node is being
  edited, and its counter has grown by the number of the reports.
\<close>

theorem last_location_shown:
  assumes "page_reachable p" "mode p = Bluetooth_mesh" "get_node a p = Some n" "role n \<noteq> None"
    and "\<forall>m \<in> set ms. \<not> is_reduced m"
  shows "\<exists>c n' c'. get_card a p = Some c \<and> get_node a (receive ms p) = Some n' \<and> get_card a (receive ms p) = Some c'
    \<and> location_of_node n' = (if reports a ms = [] then location_of_node n else last (reports a ms))
    \<and> inputs c' = (if editing n \<or> reports a ms = [] then inputs c else shown_as (last (reports a ms)))
    \<and> k_located c' = k_located c + int (length (reports a ms))"
proof -
  have ok: "page_ok p" by (rule reachable_ok) fact
  obtain c where c: "get_card a p = Some c" using card_of_node [OF ok assms(3,4)] .
  from receive_reports [OF ok assms(2,3) c assms(5)] show ?thesis
    by (auto simp: after_reports_def c)
qed

definition demo_page :: page where
  "demo_page = ui_run [E_message (M_blink 7 (Some TAG)), E_message (M_blink 9 (Some ANCHOR))] first_page"

lemma demo_page_facts:
  "page_reachable demo_page" "mode demo_page = Bluetooth_mesh" "get_node 7 demo_page = Some (new_node 7 (Some TAG))"
proof -
  show "page_reachable demo_page" unfolding page_reachable_def demo_page_def by blast
  show "mode demo_page = Bluetooth_mesh" "get_node 7 demo_page = Some (new_node 7 (Some TAG))"
    by (simp_all add: demo_page_def ui_run_def onMessageArrived_def process_message_def catching_def try_catch_def
      handler_blink_def first_page_def find_node_def get_node_def new_node_def)
qed

theorem last_location_shown_witness:
  "\<exists>n' c'. get_node 7 (receive [M_location 7 (Fin 1) (Fin 2) (Fin 3), M_slot 7 4, M_location 9 (Fin 0) (Fin 0) (Fin 1),
        M_location 7 (Fin 4) (Fin 5) (Fin 6)] demo_page) = Some n'
     \<and> get_card 7 (receive [M_location 7 (Fin 1) (Fin 2) (Fin 3), M_slot 7 4, M_location 9 (Fin 0) (Fin 0) (Fin 1),
        M_location 7 (Fin 4) (Fin 5) (Fin 6)] demo_page) = Some c'
     \<and> location_of_node n' = (Fin 4, Fin 5, Fin 6) \<and> inputs c' = (Shown (Fin 4), Shown (Fin 5), Shown (Fin 6))"
  using last_location_shown [OF demo_page_facts, of "[M_location 7 (Fin 1) (Fin 2) (Fin 3), M_slot 7 4, M_location 9 (Fin 0) (Fin 0) (Fin 1),
        M_location 7 (Fin 4) (Fin 5) (Fin 6)]"]
  by (auto simp: new_node_def)

section \<open>Editing\<close>

definition sending :: "page \<Rightarrow> command list \<times> bool" where
  "sending p = (published p, mqtt_up p)"

lemma sending_simps [simp]:
  "sending (on_card a f p) = sending p" "sending (set_node i g p) = sending p" "sending (plot p) = sending p"
  "sending (p\<lparr>myNodeList := t\<rparr>) = sending p" "sending (p\<lparr>cards := cs\<rparr>) = sending p" "sending (p\<lparr>nodeList := ns\<rparr>) = sending p"
  "sending (plotNodes p) = sending p" "sending (plotCircle p) = sending p" "sending (p\<lparr>errors_logged := k\<rparr>) = sending p"
  by (simp_all add: sending_def set_node_def plot_def plotNodes_def plotCircle_def)

lemma sending_location [simp]: "sending (nodeLocationUpdate i x y z p) = sending p"
  by (simp add: nodeLocationUpdate_def Let_def)

lemma sending_tag [simp]: "sending (handler_tag as t x y z p) = sending p"
proof -
  have n: "sending (dataUpdateNode a r x y z p) = sending p" for a r x y z p
    by (simp add: dataUpdateNode_def guiAddNodes_def guiUpdateNodes_def Let_def split: option.split)
  have d: "sending (dataUpdateDistance a t d p) = sending p" for a t d p
    by (simp add: dataUpdateDistance_def split: option.split)
  show ?thesis by (simp add: handler_tag_def handler_anchor_def n d split: prod.split)
qed

lemma sending_mesh [simp]:
  "sending (handler_location a x y z p) = sending p" "sending (handler_location_reduced m x y p) = sending p"
  "sending (handler_onoff a v p) = sending p" "sending (handler_slot a s p) = sending p"
  "sending (handler_ble_mesh a m p) = sending p" "sending (snd (handler_blink a r p)) = sending p"
  by (auto simp: handler_location_def handler_location_reduced_def handler_onoff_def handler_slot_def handler_ble_mesh_def
      handler_blink_def count_location_def Let_def split: option.split)

lemma sending_message: "sending (onMessageArrived m p) = sending p"
proof -
  have "sending (snd (process_message m p)) = sending p"
    by (cases m; cases "mode p") (simp_all add: process_message_def handler_distance_def handler_tof_def)
  then show ?thesis by (auto simp: onMessageArrived_def catching_def try_catch_def split: prod.split sum.split)
qed

lemma receive_edited:
  assumes "page_ok p" "mode p = Bluetooth_mesh" "get_node a p = Some n" "get_card a p = Some c" "editing n"
  shows "\<exists>n' c'. get_node a (receive ms p) = Some n' \<and> get_card a (receive ms p) = Some c' \<and> editing n'
    \<and> inputs c' = inputs c \<and> k_anchor_selected c' = k_anchor_selected c
    \<and> published (receive ms p) = published p \<and> mqtt_up (receive ms p) = mqtt_up p"
  using assms
proof (induction ms arbitrary: p n c)
  case (Cons m ms)
  from mesh_step [OF Cons.prems(1-4), of m] obtain n1 c1 l where
    1: "get_node a (onMessageArrived m p) = Some n1" "get_card a (onMessageArrived m p) = Some c1"
    "mesh_rel l (n, c) (n1, c1)" "mode (onMessageArrived m p) = Bluetooth_mesh" by blast
  then have "editing n1" "inputs c1 = inputs c" "k_anchor_selected c1 = k_anchor_selected c"
    using Cons.prems(5) by (simp_all add: mesh_rel_def)
  then show ?case using Cons.IH [OF page_ok_message [OF Cons.prems(1)] 1(4,1,2)] using sending_message [of m p]
    by (simp add: sending_def)
qed simp

lemma edit_click:
  assumes "page_ok p" "get_node a p = Some n" "get_card a p = Some c" "\<not> editing n"
  defines "q \<equiv> ui_step (E_edit a) p"
  shows "page_ok q" "mode q = mode p" "published q = published p" "mqtt_up q = mqtt_up p"
    and "get_node a q = Some (n\<lparr>editing := True\<rparr>)"
    and "get_card a q = Some (c\<lparr>k_edit_text := js ''Edit...'', k_options_disabled := False, k_readonly := False\<rparr>)"
proof -
  have "find_node (nodeList p) a \<noteq> None" using assms(2) by (simp add: find_node_def get_node_def index_of_find)
  then obtain i where i: "find_node (nodeList p) a = Some i" by blast
  have dist: "distinct (map uwb_address (nodeList p))" using assms(1) by (simp add: page_ok_def)
  have ni: "nodeList p ! i = n" using index_of_Some [of _ "nodeList p" i] i assms(2) by (simp add: find_node_def get_node_def)
  have q: "q = on_card a (\<lambda>c. c\<lparr>k_edit_text := js ''Edit...'', k_options_disabled := False, k_readonly := False\<rparr>)
      (set_node i (\<lambda>n. n\<lparr>editing := True\<rparr>) p)"
    using assms(4) by (simp add: q_def onEditBtnClick_def i ni)
  show "page_ok q" using button_frames(1) page_ok_frame assms(1) unfolding q_def by simp
  show "mode q = mode p" "published q = published p" "mqtt_up q = mqtt_up p" by (simp_all add: q set_node_def)
  show "get_node a q = Some (n\<lparr>editing := True\<rparr>)"
    using get_node_set_node [OF dist, of i] find_node_bound [OF i] assms(2) by (simp add: q)
  show "get_card a q = Some (c\<lparr>k_edit_text := js ''Edit...'', k_options_disabled := False, k_readonly := False\<rparr>)"
    by (simp add: q get_card_on_card assms(3))
qed

definition typing :: "int \<Rightarrow> js_string \<Rightarrow> js_string \<Rightarrow> js_string \<Rightarrow> ui_event list" where
  "typing a sx sy sz = [E_type a Axis_x sx, E_type a Axis_y sy, E_type a Axis_z sz]"

lemma typing_effect:
  fixes sx sy sz :: js_string
  assumes "page_ok p" "get_card a p = Some c" "\<not> k_readonly c"
  defines "q \<equiv> ui_run (typing a sx sy sz) p"
  shows "page_ok q" "mode q = mode p" "published q = published p" "mqtt_up q = mqtt_up p" "get_node b q = get_node b p"
    and "\<exists>c'. get_card a q = Some c' \<and> inputs c' = (Typed sx, Typed sy, Typed sz) \<and> k_anchor_selected c' = k_anchor_selected c"
  unfolding q_def typing_def ui_run_def using assms(2,3)
  by (auto simp: get_card_on_card type_into_def inputs_def intro!: page_ok_frame [OF _ assms(1)])

text \<open>
  Property C19.  In the mode of the Bluetooth mesh, what the user types is what is sent: the user clicks
  Edit on the card of a node with a role while the page is connected, types a number into each of the
  three inputs, any messages arrive, and the user clicks Update.  Then exactly two commands are sent, the
  location as it was typed and a role; no report overwrites an input.  In the Wi-Fi mode a report does
  overwrite the inputs of a card, edited or not (\<open>wifi_report_overwrites_inputs\<close>).
\<close>

theorem typed_location_sent:
  assumes "page_reachable p" "mode p = Bluetooth_mesh" "mqtt_up p" "get_node a p = Some n" "role n \<noteq> None" "\<not> editing n"
    and "is_number_text sx" "is_number_text sy" "is_number_text sz"
  shows "\<exists>r \<in> {ANCHOR, TAG}. published (ui_step (E_update a) (receive ms (ui_run (typing a sx sy sz) (ui_step (E_edit a) p))))
    = published p @ [Cmd_location a (Typed sx) (Typed sy) (Typed sz), Cmd_blink a r]"
proof -
  have ok: "page_ok p" by (rule reachable_ok) fact
  obtain c where c: "get_card a p = Some c" using card_of_node [OF ok assms(4,5)] .
  note e = edit_click [OF ok assms(4) c assms(6)]
  let ?q = "ui_run (typing a sx sy sz) (ui_step (E_edit a) p)" and ?r = "receive ms (ui_run (typing a sx sy sz) (ui_step (E_edit a) p))"
  have "\<not> k_readonly (c\<lparr>k_edit_text := js ''Edit...'', k_options_disabled := False, k_readonly := False\<rparr>)" by simp
  note t = typing_effect [OF e(1) e(6) this, where sx = sx and sy = sy and sz = sz]
  from t(6) obtain c1 where c1: "get_card a ?q = Some c1" "inputs c1 = (Typed sx, Typed sy, Typed sz)" by auto
  have "get_node a ?q = Some (n\<lparr>editing := True\<rparr>)" "mode ?q = Bluetooth_mesh" using t(2,5) e(2,5) assms(2) by simp_all
  from receive_edited [OF _ this(2,1) c1(1), of ms] t(1) obtain n' c' where
    r: "get_node a ?r = Some n'" "get_card a ?r = Some c'" "editing n'" "inputs c' = (Typed sx, Typed sy, Typed sz)"
    "published ?r = published p" "mqtt_up ?r" using c1(2) t(3,4) e(3,4) assms(3) by auto
  have "find_node (nodeList ?r) a \<noteq> None" using r(1) by (simp add: find_node_def get_node_def index_of_find)
  then obtain i where i: "find_node (nodeList ?r) a = Some i" by blast
  have "nodeList ?r ! i = n'" using index_of_Some [of _ "nodeList ?r" i] i r(1) by (simp add: find_node_def get_node_def)
  then show ?thesis using r(2-6) assms(7-9) i
    by (auto simp: onUpdateBtnClick_def publish_def andthen_apply inputs_def)
qed

definition online_page :: page where
  "online_page = ui_run [E_connected (js ''gateway''), E_message (M_blink 7 (Some TAG))] first_page"

theorem typed_location_sent_witness:
  "\<exists>r \<in> {ANCHOR, TAG}. published (ui_step (E_update 7) (receive [M_location 7 (Fin 1) (Fin 2) (Fin 3), M_location_reduced 0 (Fin 8) (Fin 9)]
        (ui_run (typing 7 (js ''1.5'') (js ''-2'') (js ''3'')) (ui_step (E_edit 7) online_page))))
    = published online_page @ [Cmd_location 7 (Typed (js ''1.5'')) (Typed (js ''-2'')) (Typed (js ''3'')), Cmd_blink 7 r]"
proof (rule typed_location_sent)
  show "page_reachable online_page" unfolding page_reachable_def online_page_def by blast
  have f: "mode online_page = Bluetooth_mesh \<and> mqtt_up online_page \<and> get_node 7 online_page = Some (new_node 7 (Some TAG))"
    by (simp add: online_page_def ui_run_def onConnect_def onMessageArrived_def process_message_def catching_def try_catch_def
      handler_blink_def first_page_def find_node_def get_node_def new_node_def)
  then show "mode online_page = Bluetooth_mesh" "mqtt_up online_page" "get_node 7 online_page = Some (new_node 7 (Some TAG))" by auto
  show "role (new_node 7 (Some TAG)) \<noteq> None" "\<not> editing (new_node 7 (Some TAG))" by (simp_all add: new_node_def)
  show "is_number_text (js ''1.5'')" "is_number_text (js ''-2'')" "is_number_text (js ''3'')" by code_simp+
qed

section \<open>Addresses in hexadecimal\<close>

definition hex_digit_value :: "code_unit \<Rightarrow> int" where
  "hex_digit_value c = (if 65 \<le> c then uint c - 55 else uint c - 48)"

definition hex_value :: "js_string \<Rightarrow> int" where
  "hex_value s = foldl (\<lambda>acc c. 16 * acc + hex_digit_value c) 0 s"

lemma nat_str_snoc: "16 \<le> n \<Longrightarrow> nat_str 16 n = nat_str 16 (n div 16) @ [digit (n mod 16)]"
  by (subst nat_str.simps) simp

lemma hex_digit_upper: "d < 16 \<Longrightarrow> hex_digit_value (upper_hex (digit d)) = int d"
proof -
  have "\<forall>d \<in> {..<16}. hex_digit_value (upper_hex (digit d)) = int d"
    by (simp add: lessThan_nat_numeral lessThan_Suc hex_digit_value_def upper_hex_def digit_def)
  then show "d < 16 \<Longrightarrow> hex_digit_value (upper_hex (digit d)) = int d" by simp
qed

text \<open>
  The address of a card reads back: the text of an address has six characters and its
  four digits are the address modulo \<open>0x10000\<close>, so addresses of 16 bits are shown without loss.
\<close>

theorem dec2hexString_reads_back:
  assumes "0 \<le> a"
  shows "length (dec2hexString a) = 6 \<and> take 2 (dec2hexString a) = js ''0x'' \<and> hex_value (drop 2 (dec2hexString a)) = a mod 65536"
proof -
  define n where "n = nat (a + 65536)"
  have n: "65536 \<le> n" "int n = a + 65536" using assms by (simp_all add: n_def)
  have "nat_str 16 n = nat_str 16 (n div 16 div 16 div 16 div 16) @
      [digit (n div 16 div 16 div 16 mod 16), digit (n div 16 div 16 mod 16), digit (n div 16 mod 16), digit (n mod 16)]"
    using n(1) by (simp add: nat_str_snoc)
  moreover have "int_str 16 (a + 0x10000) = nat_str 16 n" using assms by (simp add: int_str_def n_def)
  ultimately have "dec2hexString a = js ''0x'' @ map (upper_hex \<circ> digit)
      [n div 16 div 16 div 16 mod 16, n div 16 div 16 mod 16, n div 16 mod 16, n mod 16]"
    by (simp add: dec2hexString_def Let_def)
  moreover have "4096 * (n div 16 div 16 div 16 mod 16) + 256 * (n div 16 div 16 mod 16) + 16 * (n div 16 mod 16) + n mod 16 = n mod 65536"
    using mod_mult2_eq [of n 16 4096] mod_mult2_eq [of "n div 16" 16 256] mod_mult2_eq [of "n div 16 div 16" 16 16] by simp
  moreover have "int (n mod 65536) = a mod 65536" using n(2) by (simp add: zmod_int)
  ultimately show ?thesis by (simp add: hex_value_def hex_digit_upper js_simps)
qed

theorem dec2hexString_reads_back_witness:
  "hex_value (drop 2 (dec2hexString 26211)) = 26211"
  using dec2hexString_reads_back [of 26211] by simp

end
