(* ===== verification/Web_Ui_Circles.thy ===== *)
theory Web_Ui_Circles
  imports Web_Ui_Correct "HOL-Library.Multiset"
begin

text \<open>What the map shows after a report of the Wi-Fi mode: a circle through the tag for each anchor.\<close>

lemma tget_set: "tok m \<Longrightarrow> (k, v) \<in> set m \<longleftrightarrow> tget m k = Some v"
proof (induction m)
  case (Cons e m)
  obtain j w where e: "e = (j, w)" by (cases e)
  have tok: "tok m" and fresh: "\<forall>x \<in> set m. j < fst x" using Cons.prems by (auto simp: tok_def e)
  have "(j, v) \<notin> set m" using fresh by auto
  then show ?case using Cons.IH [OF tok] by (auto simp: e)
qed simp

text \<open>The ranges of the tag \<open>t\<close> that wait to be drawn are those of the reports \<open>D\<close>.\<close>

definition marked :: "int \<Rightarrow> anchor_report set \<Rightarrow> page \<Rightarrow> bool" where
  "marked t D p \<longleftrightarrow> tok (myNodeList p)
     \<and> (\<exists>n. tget (myNodeList p) t = Some n \<and> tok (w_ranges n)
         \<and> (\<forall>b rg. tget (w_ranges n) b = Some rg \<and> rg_update rg
              \<longleftrightarrow> (\<exists>d \<in> D. b = ar_address d \<and> rg = \<lparr>rg_r = ar_r d, rg_update = True\<rparr>)))
     \<and> (\<forall>d \<in> D. \<exists>m. tget (myNodeList p) (ar_address d) = Some m \<and> w_x m = ar_x d \<and> w_y m = ar_y d \<and> w_z m = ar_z d)
     \<and> (\<forall>a n. tget (myNodeList p) a = Some n \<longrightarrow> tok (w_ranges n) \<and> (a \<noteq> t \<longrightarrow> (\<forall>b rg. tget (w_ranges n) b = Some rg \<longrightarrow> \<not> rg_update rg)))"

lemma marked_start:
  assumes "page_ok p" "tget (myNodeList p) t \<noteq> None"
  shows "marked t {} p"
proof -
  obtain n where "tget (myNodeList p) t = Some n" using assms(2) by auto
  then show ?thesis using assms(1) unfolding marked_def page_ok_def settled_def by blast
qed

lemma marked_node:
  assumes "marked t D p" "a \<notin> ar_address ` D"
  shows "marked t D (dataUpdateNode a r x y z p)"
proof -
  let ?q = "dataUpdateNode a r x y z p"
  have tok: "tok (myNodeList p)" using assms(1) by (simp add: marked_def)
  note eff = dataUpdateNode_effect [OF tok, of a r x y z]
  have same: "tget (myNodeList ?q) b = tget (myNodeList p) b" if "b \<noteq> a" for b using eff(3) [of b] that by auto
  obtain k where new: "tget (myNodeList ?q) a = Some \<lparr>w_x = x, w_y = y, w_z = z, w_type = r, w_msg = k, w_ranges = old_ranges a p\<rparr>"
    using eff(3) [of a] by auto
  obtain n where n: "tget (myNodeList p) t = Some n" "tok (w_ranges n)"
    "\<forall>b rg. tget (w_ranges n) b = Some rg \<and> rg_update rg \<longleftrightarrow> (\<exists>d \<in> D. b = ar_address d \<and> rg = \<lparr>rg_r = ar_r d, rg_update = True\<rparr>)"
    using assms(1) unfolding marked_def by blast
  have "\<exists>n'. tget (myNodeList ?q) t = Some n' \<and> w_ranges n' = w_ranges n"
    using n(1) new same [of t] by (cases "t = a") (auto simp: old_ranges_def)
  then obtain n' where n': "tget (myNodeList ?q) t = Some n'" "w_ranges n' = w_ranges n" by blast
  have pos: "\<exists>m. tget (myNodeList ?q) (ar_address d) = Some m \<and> w_x m = ar_x d \<and> w_y m = ar_y d \<and> w_z m = ar_z d" if "d \<in> D" for d
  proof -
    have "ar_address d \<noteq> a" using assms(2) that by auto
    then show ?thesis using same assms(1) that unfolding marked_def by auto
  qed
  have old: "tok (old_ranges a p) \<and> (a \<noteq> t \<longrightarrow> (\<forall>b rg. tget (old_ranges a p) b = Some rg \<longrightarrow> \<not> rg_update rg))"
    using assms(1) unfolding marked_def old_ranges_def by (auto split: option.splits)
  have rest: "tok (w_ranges m) \<and> (b \<noteq> t \<longrightarrow> (\<forall>c rg. tget (w_ranges m) c = Some rg \<longrightarrow> \<not> rg_update rg))"
    if "tget (myNodeList ?q) b = Some m" for b m
  proof (cases "b = a")
    case True
    then show ?thesis using old that new by auto
  next
    case False
    then have "tget (myNodeList p) b = Some m" using same that by simp
    then show ?thesis using assms(1) unfolding marked_def by blast
  qed
  show ?thesis unfolding marked_def
    by (intro conjI eff(2) ballI pos exI [of _ n'] allI impI rest n'(1)) (use n n'(2) rest in auto)
qed

lemma marked_anchor:
  assumes "marked t D p" "ar_address d \<notin> ar_address ` D" "ar_address d \<noteq> t"
  shows "marked t (insert d D) (handler_anchor t d p)"
proof -
  let ?a = "ar_address d"
  define q where "q = dataUpdateNode ?a ANCHOR (ar_x d) (ar_y d) (ar_z d) p"
  have q: "marked t D q" unfolding q_def by (rule marked_node) fact+
  have tok: "tok (myNodeList q)" "tok (myNodeList p)" using q assms(1) by (simp_all add: marked_def)
  obtain m where m: "tget (myNodeList q) ?a = Some m" "w_x m = ar_x d" "w_y m = ar_y d" "w_z m = ar_z d"
    using dataUpdateNode_effect(3) [OF tok(2), of ?a ANCHOR "ar_x d" "ar_y d" "ar_z d" ?a] unfolding q_def by auto
  obtain n where n: "tget (myNodeList q) t = Some n" "tok (w_ranges n)"
    "\<forall>b rg. tget (w_ranges n) b = Some rg \<and> rg_update rg \<longleftrightarrow> (\<exists>d \<in> D. b = ar_address d \<and> rg = \<lparr>rg_r = ar_r d, rg_update = True\<rparr>)"
    using q unfolding marked_def by blast
  let ?n = "n\<lparr>w_ranges := tput ?a \<lparr>rg_r = ar_r d, rg_update = True\<rparr> (w_ranges n)\<rparr>"
  have h: "handler_anchor t d p = q\<lparr>myNodeList := tput t ?n (myNodeList q)\<rparr>"
    by (simp add: handler_anchor_def dataUpdateDistance_def q_def [symmetric] n(1))
  have look: "tget (myNodeList (handler_anchor t d p)) b = (if b = t then Some ?n else tget (myNodeList q) b)" for b
    by (simp add: h tget_tput [OF tok(1)])
  have ranges: "tget (w_ranges ?n) b = Some rg \<and> rg_update rg
      \<longleftrightarrow> (\<exists>d \<in> insert d D. b = ar_address d \<and> rg = \<lparr>rg_r = ar_r d, rg_update = True\<rparr>)" for b rg
  proof (cases "b = ?a")
    case True
    then show ?thesis using assms(2) by (auto simp: tget_tput [OF n(2)])
  next
    case False
    then show ?thesis using n(3) by (auto simp: tget_tput [OF n(2)])
  qed
  have pos: "\<exists>m. tget (myNodeList (handler_anchor t d p)) (ar_address e) = Some m \<and> w_x m = ar_x e \<and> w_y m = ar_y e \<and> w_z m = ar_z e"
    if e: "e \<in> insert d D" for e
  proof (cases "e = d")
    case True
    then show ?thesis using m assms(3) by (simp add: look)
  next
    case False
    then have "\<exists>m. tget (myNodeList q) (ar_address e) = Some m \<and> w_x m = ar_x e \<and> w_y m = ar_y e \<and> w_z m = ar_z e"
      using q e unfolding marked_def by blast
    then show ?thesis using n(1) by (auto simp: look)
  qed
  have "tok (w_ranges m) \<and> (a \<noteq> t \<longrightarrow> (\<forall>b rg. tget (w_ranges m) b = Some rg \<longrightarrow> \<not> rg_update rg))"
    if "tget (myNodeList q) a = Some m" for a m using q that unfolding marked_def by blast
  then have rest: "\<forall>a m. tget (myNodeList (handler_anchor t d p)) a = Some m \<longrightarrow> tok (w_ranges m)
      \<and> (a \<noteq> t \<longrightarrow> (\<forall>b rg. tget (w_ranges m) b = Some rg \<longrightarrow> \<not> rg_update rg))"
    using n(2) by (auto simp: look tok_tput)
  have "tok (myNodeList (handler_anchor t d p))" "tok (w_ranges ?n)" using tok(1) n(2) by (simp_all add: h tok_tput)
  then show ?thesis unfolding marked_def
    by (intro conjI rest ballI pos exI [of _ ?n] allI ranges) (simp_all add: look)
qed

text \<open>The circles of the map when the tag is at \<open>(x, y, z)\<close>.\<close>

definition circle_at :: "js_float \<Rightarrow> anchor_report \<Rightarrow> js_float \<times> js_float \<times> js_float \<times> js_float" where
  "circle_at z d =
     (let h = ar_z d - z; r = Math_sqrt (Math_abs (ar_r d * ar_r d - h * h))
      in (ar_x d - r, ar_y d - r, ar_x d + r, ar_y d + r))"

lemma circle_of_range:
  assumes "marked t D p" "tget (myNodeList p) t = Some n" "d \<in> D"
  shows "range_circle (myNodeList p) n (ar_address d, \<lparr>rg_r = ar_r d, rg_update = True\<rparr>) = [circle_at (w_z n) d]"
proof -
  obtain m where "tget (myNodeList p) (ar_address d) = Some m" "w_x m = ar_x d" "w_y m = ar_y d" "w_z m = ar_z d"
    using assms(1,3) unfolding marked_def by blast
  then show ?thesis by (simp add: range_circle_def circle_at_def Let_def)
qed

lemma concat_single:
  "tok m \<Longrightarrow> tget m t = Some n \<Longrightarrow> (\<And>a k. (a, k) \<in> set m \<Longrightarrow> a \<noteq> t \<Longrightarrow> F (a, k) = []) \<Longrightarrow>
     concat (map F m) = F (t, n)"
proof (induction m)
  case (Cons e m)
  obtain j w where e: "e = (j, w)" by (cases e)
  have tok: "tok m" and fresh: "\<forall>x \<in> set m. j < fst x" using Cons.prems(1) by (auto simp: tok_def e)
  show ?case
  proof (cases "j = t")
    case True
    then have "F x = []" if "x \<in> set m" for x
      using Cons.prems(3) [of "fst x" "snd x"] fresh that by force
    then have "concat (map F m) = []" by simp
    then show ?thesis using Cons.prems(2) True by (simp add: e)
  next
    case False
    then show ?thesis using Cons.prems(2,3) Cons.IH [OF tok] by (simp add: e)
  qed
qed simp

lemma concat_filter: "(\<And>x. x \<in> set xs \<Longrightarrow> g x = (if P x then [h x] else [])) \<Longrightarrow> concat (map g xs) = map h (filter P xs)"
  by (induction xs) auto

lemma tok_distinct: "tok m \<Longrightarrow> distinct m"
  by (auto simp: tok_def strict_sorted_iff distinct_map)

text \<open>The circles drawn for the reports \<open>D\<close> of a tag: one for each.\<close>

lemma marked_circles:
  assumes "marked t D p" "tget (myNodeList p) t = Some n" "w_type n = TAG" "inj_on ar_address D"
  shows "mset (map_circles (plotCircle (plotNodes p))) = image_mset (circle_at (w_z n)) (mset_set D)"
proof -
  have tok: "tok (myNodeList p)" "tok (w_ranges n)" using assms(1,2) unfolding marked_def by auto
  have waiting: "tget (w_ranges n) b = Some rg \<and> rg_update rg \<longleftrightarrow> (\<exists>d \<in> D. b = ar_address d \<and> rg = \<lparr>rg_r = ar_r d, rg_update = True\<rparr>)" for b rg
    using assms(1,2) unfolding marked_def by auto
  let ?F = "\<lambda>(a, n). if w_type n = TAG then concat (map (range_circle (myNodeList p) n) (w_ranges n)) else []"
  let ?f = "\<lambda>d. (ar_address d, \<lparr>rg_r = ar_r d, rg_update = True\<rparr>)" and ?g = "range_circle (myNodeList p) n"
  have silent: "range_circle ns m (b, rg) = []" if "\<not> rg_update rg" for ns m b rg
    using that by (simp add: range_circle_def)
  have "?F (a, m) = []" if "(a, m) \<in> set (myNodeList p)" "a \<noteq> t" for a m
  proof -
    have "tget (myNodeList p) a = Some m" using that(1) tget_set [OF tok(1)] by simp
    then have "tok (w_ranges m)" "\<forall>b rg. tget (w_ranges m) b = Some rg \<longrightarrow> \<not> rg_update rg"
      using assms(1) that(2) unfolding marked_def by blast+
    then have "\<forall>x \<in> set (w_ranges m). range_circle (myNodeList p) m x = []"
      using silent tget_set by fast
    then show ?thesis by simp
  qed
  from concat_single [of _ t n ?F, OF tok(1) assms(2) this] have one: "map_circles (plotCircle (plotNodes p)) = concat (map ?g (w_ranges n))"
    using assms(3) by (simp add: plotCircle_def plotNodes_def cong: if_cong)
  have waits: "x \<in> ?f ` D \<longleftrightarrow> x \<in> set (w_ranges n) \<and> rg_update (snd x)" for x
    using waiting [of "fst x" "snd x"] tget_set [OF tok(2), of "fst x" "snd x"] by (cases x) auto
  have g: "?g (?f d) = [circle_at (w_z n) d]" if "d \<in> D" for d by (rule circle_of_range) fact+
  have "?g x = (if rg_update (snd x) then [hd (?g x)] else [])" if "x \<in> set (w_ranges n)" for x
    using waits [of x] that g silent by (cases x) auto
  from concat_filter [of "w_ranges n" ?g "\<lambda>x. rg_update (snd x)" "\<lambda>x. hd (?g x)", OF this] one have "mset (map_circles (plotCircle (plotNodes p)))
      = image_mset (\<lambda>x. hd (?g x)) (mset (filter (\<lambda>x. rg_update (snd x)) (w_ranges n)))" by simp
  also have "mset (filter (\<lambda>x. rg_update (snd x)) (w_ranges n)) = mset_set (?f ` D)"
    using waits tok_distinct [OF tok(2)] by (subst mset_set_set [symmetric]) (auto intro!: arg_cong [where f = mset_set])
  also have "mset_set (?f ` D) = image_mset ?f (mset_set D)"
    using assms(4) by (intro image_mset_mset_set [symmetric]) (auto simp: inj_on_def)
  finally show ?thesis
    using g by (cases "finite D") (auto simp: multiset.map_comp intro!: image_mset_cong)
qed

section \<open>A report with exact ranges\<close>

definition exact_report :: "real \<times> real \<times> real \<Rightarrow> int \<times> real \<times> real \<times> real \<Rightarrow> anchor_report" where
  "exact_report P A = (case (P, A) of ((x, y, z), (a, ax, ay, az)) \<Rightarrow>
     \<lparr>ar_address = a, ar_x = Fin ax, ar_y = Fin ay, ar_z = Fin az,
      ar_r = Fin (sqrt ((ax - x)\<^sup>2 + (ay - y)\<^sup>2 + (az - z)\<^sup>2))\<rparr>)"

text \<open>The bounding box of the circle around an anchor that goes through the point of the tag.\<close>

definition circle_through :: "real \<times> real \<times> real \<Rightarrow> int \<times> real \<times> real \<times> real \<Rightarrow> js_float \<times> js_float \<times> js_float \<times> js_float" where
  "circle_through P A = (case (P, A) of ((x, y, z), (a, ax, ay, az)) \<Rightarrow>
     let r = sqrt ((ax - x)\<^sup>2 + (ay - y)\<^sup>2) in (Fin (ax - r), Fin (ay - r), Fin (ax + r), Fin (ay + r)))"

lemma circle_at_exact: "circle_at (Fin z) (exact_report (x, y, z) A) = circle_through (x, y, z) A"
proof -
  obtain a ax ay az where A: "A = (a, ax, ay, az)" by (cases A)
  let ?s = "(ax - x)\<^sup>2 + (ay - y)\<^sup>2 + (az - z)\<^sup>2"
  have "sqrt ?s * sqrt ?s = ?s" by simp
  then have "sqrt ?s * sqrt ?s - (az - z) * (az - z) = (ax - x)\<^sup>2 + (ay - y)\<^sup>2" by (simp add: power2_eq_square)
  then show ?thesis unfolding circle_at_def circle_through_def exact_report_def A Let_def
    by (simp del: real_sqrt_mult_self add: not_less)
qed

lemma exact_report_address [simp]: "ar_address (exact_report P A) = fst A"
  by (auto simp: exact_report_def split: prod.split)

lemma wifi_tag_message:
  "mode p = Wi_fi \<Longrightarrow> onMessageArrived (M_tag as t x y z) p = handler_tag as t x y z p"
  by (simp add: onMessageArrived_def process_message_def catching_def try_catch_def)

text \<open>
  Property C24.  The circles of the Wi-Fi map meet at the tag: when a known tag reports its position
  with the exact distances to four different anchors, the map shows exactly one circle around each of
  the four anchors and no other circle, and each of them goes through the point of the tag, whatever the
  heights of the tag and of the anchors are and whatever was drawn before.
\<close>

theorem circles_meet_at_tag:
  assumes "page_reachable p" "mode p = Wi_fi" "tget (myNodeList p) t \<noteq> None"
    and "distinct [fst A0, fst A1, fst A2, fst A3, t]"
  shows "mset (map_circles (onMessageArrived (M_tag (exact_report (x, y, z) A0, exact_report (x, y, z) A1, exact_report (x, y, z) A2,
      exact_report (x, y, z) A3) t (Fin x) (Fin y) (Fin z)) p))
    = {# circle_through (x, y, z) A0, circle_through (x, y, z) A1, circle_through (x, y, z) A2, circle_through (x, y, z) A3 #}"
proof -
  define r where "r = exact_report (x, y, z)"
  define q where "q = handler_anchor t (r A3) (handler_anchor t (r A2) (handler_anchor t (r A1) (handler_anchor t (r A0) p)))"
  have "marked t {} p" by (rule marked_start [OF reachable_ok]) fact+
  then have "marked t (insert (r A3) (insert (r A2) (insert (r A1) (insert (r A0) {})))) q"
    unfolding q_def by (intro marked_anchor) (use assms(4) in \<open>auto simp: r_def\<close>)
  moreover have "{r A3, r A2, r A1, r A0} = r ` {A0, A1, A2, A3}" by auto
  ultimately have q: "marked t (r ` {A0, A1, A2, A3}) q" by simp
  let ?q = "dataUpdateNode t TAG (Fin x) (Fin y) (Fin z) q"
  have m: "marked t (r ` {A0, A1, A2, A3}) ?q"
    by (rule marked_node [OF q]) (use assms(4) in \<open>auto simp: r_def\<close>)
  have "tok (myNodeList q)" using q by (simp add: marked_def)
  from dataUpdateNode_effect(3) [OF this, of t TAG "Fin x" "Fin y" "Fin z" t] obtain n where
    n: "tget (myNodeList ?q) t = Some n" "w_type n = TAG" "w_z n = Fin z" by auto
  have addresses: "ar_address (r A) = fst A" for A by (simp add: r_def)
  have "r A0 \<notin> {r A1, r A2, r A3}" "r A1 \<notin> {r A2, r A3}" "r A2 \<noteq> r A3"
    using assms(4) addresses by (metis distinct_length_2_or_more insertE singletonD)+
  then have reports: "mset_set (r ` {A0, A1, A2, A3}) = {# r A0, r A1, r A2, r A3 #}" by simp
  have "inj_on ar_address (r ` {A0, A1, A2, A3})" using assms(4) by (auto simp: inj_on_def addresses)
  from marked_circles [OF m n(1,2) this] n(3) circle_at_exact [of z x y] show ?thesis
    unfolding wifi_tag_message [OF assms(2)] handler_tag_def prod.case r_def [symmetric] q_def [symmetric] reports
    by (simp add: r_def)
qed

lemma handler_tag_known: "tok (myNodeList p) \<Longrightarrow> tget (myNodeList (handler_tag as t x y z p)) t \<noteq> None"
proof -
  assume tok: "tok (myNodeList p)"
  have n: "tok (myNodeList (handler_anchor t a p))" if "tok (myNodeList p)" for a p
    using that dataUpdateNode_effect(2) [OF that, of "ar_address a" ANCHOR "ar_x a" "ar_y a" "ar_z a"]
    by (auto simp: handler_anchor_def dataUpdateDistance_def tok_tput split: option.split)
  obtain a0 a1 a2 a3 where as: "as = (a0, a1, a2, a3)" by (cases as)
  define q where "q = handler_anchor t a3 (handler_anchor t a2 (handler_anchor t a1 (handler_anchor t a0 p)))"
  have "tok (myNodeList q)" unfolding q_def by (intro n tok)
  from dataUpdateNode_effect(3) [OF this, of t TAG x y z t] show ?thesis
    unfolding handler_tag_def as prod.case q_def [symmetric] by (auto simp: plotCircle_def plotNodes_def tget_map_values)
qed

lemma handler_tag_mode: "mode (handler_tag as t x y z p) = mode p"
proof -
  have "mode (dataUpdateNode a r x y z p) = mode p" "mode (dataUpdateDistance a t d p) = mode p" for a r x y z t d p
    by (auto simp: dataUpdateNode_def guiAddNodes_def guiUpdateNodes_def dataUpdateDistance_def Let_def split: option.split)
  then show ?thesis by (simp add: handler_tag_def handler_anchor_def plotCircle_def plotNodes_def split: prod.split)
qed

definition wifi_page :: page where
  "wifi_page = ui_run [E_mode Wi_fi, E_message (M_tag
     (exact_report (1, 2, 0) (1, 0, 0, 3), exact_report (1, 2, 0) (2, 5, 0, 3), exact_report (1, 2, 0) (3, 0, 5, 3), exact_report (1, 2, 0) (4, 5, 5, 3))
     9 (Fin 1) (Fin 2) (Fin 0))] first_page"

theorem circles_meet_at_tag_witness:
  "mset (map_circles (onMessageArrived (M_tag
     (exact_report (4, 4, 1) (1, 0, 0, 3), exact_report (4, 4, 1) (2, 5, 0, 3), exact_report (4, 4, 1) (3, 0, 5, 3), exact_report (4, 4, 1) (4, 5, 5, 3))
     9 (Fin 4) (Fin 4) (Fin 1)) wifi_page))
   = {# circle_through (4, 4, 1) (1, 0, 0, 3), circle_through (4, 4, 1) (2, 5, 0, 3),
        circle_through (4, 4, 1) (3, 0, 5, 3), circle_through (4, 4, 1) (4, 5, 5, 3) #}"
proof (rule circles_meet_at_tag)
  show "page_reachable wifi_page" unfolding page_reachable_def wifi_page_def by blast
  let ?p = "first_page\<lparr>mode := Wi_fi\<rparr>"
  have w: "wifi_page = handler_tag
     (exact_report (1, 2, 0) (1, 0, 0, 3), exact_report (1, 2, 0) (2, 5, 0, 3), exact_report (1, 2, 0) (3, 0, 5, 3), exact_report (1, 2, 0) (4, 5, 5, 3))
     9 (Fin 1) (Fin 2) (Fin 0) ?p"
    by (simp add: wifi_page_def ui_run_def wifi_tag_message first_page_def)
  show "mode wifi_page = Wi_fi" by (simp add: w handler_tag_mode)
  show "tget (myNodeList wifi_page) 9 \<noteq> None" unfolding w by (rule handler_tag_known) (simp add: first_page_def)
  show "distinct [fst (1, 0, 0, 3), fst (2, 5, 0, 3), fst (3, 0, 5, 3), fst (4, 5, 5, 3), 9 :: int]" by simp
qed

section \<open>What the page loses\<close>

text \<open>
  The first report of a tag draws nothing: its ranges are stored before the tag is in the list, and
  are dropped.
\<close>

lemma first_report_draws_nothing:
  assumes "page_ok p" "tget (myNodeList p) t = None"
    and "ar_address a0 \<noteq> t" "ar_address a1 \<noteq> t" "ar_address a2 \<noteq> t" "ar_address a3 \<noteq> t"
  shows "map_circles (handler_tag (a0, a1, a2, a3) t x y z p) = []"
proof -
  have step: "base_ok t (handler_anchor t a q) \<and> tget (myNodeList (handler_anchor t a q)) t = None"
    if "base_ok t q \<and> tget (myNodeList q) t = None" "ar_address a \<noteq> t" for a q
  proof -
    have tok: "tok (myNodeList q)" using that by (simp add: base_ok_def)
    have "tget (myNodeList (dataUpdateNode (ar_address a) ANCHOR (ar_x a) (ar_y a) (ar_z a) q)) t = None"
      using dataUpdateNode_effect(3) [OF tok, of "ar_address a" ANCHOR "ar_x a" "ar_y a" "ar_z a" t] that by auto
    then show ?thesis using base_ok_node that by (simp add: handler_anchor_def dataUpdateDistance_def)
  qed
  define q where "q = handler_anchor t a3 (handler_anchor t a2 (handler_anchor t a1 (handler_anchor t a0 p)))"
  have "base_ok t p" using assms(1) unfolding page_ok_def base_ok_def settled_def by blast
  then have q: "base_ok t q \<and> tget (myNodeList q) t = None" unfolding q_def by (intro step conjI assms)
  let ?q = "dataUpdateNode t TAG x y z q"
  have tok: "tok (myNodeList q)" using q by (simp add: base_ok_def)
  from dataUpdateNode_effect(3) [OF tok, of t TAG x y z t] obtain n where
    n: "tget (myNodeList ?q) t = Some n" "w_type n = TAG" "w_ranges n = []" using q by (auto simp: old_ranges_def)
  have "base_ok t ?q" using q base_ok_node by blast
  then have "marked t {} ?q" using n unfolding base_ok_def marked_def by auto
  from marked_circles [OF this n(1,2)] show ?thesis
    unfolding handler_tag_def prod.case q_def [symmetric] by (simp add: inj_on_def)
qed

text \<open>In the Wi-Fi mode a report of a known tag writes over the inputs of its card, also while they are edited.\<close>

lemma wifi_report_overwrites_inputs:
  assumes "tok (myNodeList p)" "tget (myNodeList p) a \<noteq> None" "get_card a p = Some c"
  shows "map_option inputs (get_card a (dataUpdateNode a r x y z p)) = Some (Shown x, Shown y, Shown z)"
proof -
  have local: "get_card a (q\<lparr>myNodeList := m\<rparr>) = get_card a q" for q m by (simp add: get_card_def)
  show ?thesis
    using assms by (auto simp: dataUpdateNode_def guiUpdateNodes_def Let_def local get_card_on_card keeps_address_def show_location_def inputs_def)
qed

text \<open>A report of a distance or of a time of flight changes nothing on the page.\<close>

lemma distance_reports_change_nothing:
  "\<exists>k. onMessageArrived (M_distance anchor) p = p\<lparr>errors_logged := k\<rparr>"
  "\<exists>k. onMessageArrived (M_tof anchor) p = p\<lparr>errors_logged := k\<rparr>"
proof -
  have same: "\<exists>k. p = p\<lparr>errors_logged := k\<rparr>" by (rule exI [of _ "errors_logged p"]) simp
  show "\<exists>k. onMessageArrived (M_distance anchor) p = p\<lparr>errors_logged := k\<rparr>"
    "\<exists>k. onMessageArrived (M_tof anchor) p = p\<lparr>errors_logged := k\<rparr>"
    using same by (cases "mode p"; force simp: onMessageArrived_def process_message_def handler_distance_def handler_tof_def
        catching_def try_catch_def)+
qed

end
