(* ===== verification/Js_Timers.thy ===== *)
theory Js_Timers
  imports Main
begin

text \<open>
  The timers of a page: \<open>setTimeout\<close> and \<open>clearTimeout\<close>, and the order in which the event loop runs
  what is due.  A timer never runs before its time and before an earlier one; timers of the same time
  run in the order in which they were set.  The interface \<open>event_loop\<close> states when the loop comes to
  rest: a measure of what is still to be done falls with each timer that runs.
\<close>

type_synonym 'a jobs = "(nat \<times> nat \<times> 'a) list"

record 'a clock =
  clk_now :: nat
  clk_next :: nat
  clk_jobs :: "'a jobs"

fun insert_job :: "nat \<times> nat \<times> 'a \<Rightarrow> 'a jobs \<Rightarrow> 'a jobs" where
  "insert_job j [] = [j]"
| "insert_job j (k # ks) = (if fst j < fst k then j # k # ks else k # insert_job j ks)"

definition start_timer :: "nat \<Rightarrow> 'a \<Rightarrow> 'a clock \<Rightarrow> 'a clock" where
  "start_timer d a clk = clk\<lparr>clk_next := Suc (clk_next clk), clk_jobs := insert_job (clk_now clk + d, clk_next clk, a) (clk_jobs clk)\<rparr>"

definition stop_timer :: "nat option \<Rightarrow> 'a clock \<Rightarrow> 'a clock" where
  "stop_timer t clk = (case t of None \<Rightarrow> clk | Some i \<Rightarrow> clk\<lparr>clk_jobs := filter (\<lambda>(_, j, _). j \<noteq> i) (clk_jobs clk)\<rparr>)"

text \<open>The loop takes the first timer; time is then at least its time.\<close>

definition take_job :: "'a clock \<Rightarrow> 'a clock" where
  "take_job clk = clk\<lparr>clk_now := max (clk_now clk) (fst (hd (clk_jobs clk))), clk_jobs := tl (clk_jobs clk)\<rparr>"

definition fresh_clock :: "'a clock" where
  "fresh_clock = \<lparr>clk_now = 0, clk_next = 0, clk_jobs = []\<rparr>"

lemma set_insert_job [simp]: "set (insert_job j ks) = insert j (set ks)"
  by (induction ks) auto

lemma sum_insert_job: "sum_list (map f (insert_job j ks)) = f j + (sum_list (map f ks) :: nat)"
  by (induction ks) auto

lemma sum_filter_le: "sum_list (map f (filter P ks)) \<le> (sum_list (map f ks) :: nat)"
  by (induction ks) auto

definition clock_ok :: "'a clock \<Rightarrow> bool" where
  "clock_ok clk \<longleftrightarrow> sorted (map fst (clk_jobs clk)) \<and> (\<forall>(t, i, a) \<in> set (clk_jobs clk). i < clk_next clk)"

lemma sorted_insert_job: "sorted (map fst ks) \<Longrightarrow> sorted (map fst (insert_job j ks))"
  by (induction ks) auto

lemma clock_ok_start: "clock_ok clk \<Longrightarrow> clock_ok (start_timer d a clk)"
  by (auto simp: clock_ok_def start_timer_def sorted_insert_job less_Suc_eq)

lemma sorted_filter_fst: "sorted (map fst ks) \<Longrightarrow> sorted (map fst (filter P ks))"
  by (induction ks) auto

lemma clock_ok_stop: "clock_ok clk \<Longrightarrow> clock_ok (stop_timer t clk)"
  by (auto simp: clock_ok_def stop_timer_def sorted_filter_fst split: option.split)

lemma clock_ok_take: "clock_ok clk \<Longrightarrow> clock_ok (take_job clk)"
  by (cases "clk_jobs clk") (auto simp: clock_ok_def take_job_def)

text \<open>The interface of a system of timers, and how it comes to rest.\<close>

locale event_loop =
  fixes jobs :: "'s \<Rightarrow> 'a jobs"
    and fire :: "'s \<Rightarrow> 's"
    and load :: "'s \<Rightarrow> nat"
  assumes load_fire: "jobs s \<noteq> [] \<Longrightarrow> load (fire s) < load s"
begin

lemma comes_to_rest: "\<exists>n \<le> load s. jobs ((fire ^^ n) s) = []"
proof (induction "load s" arbitrary: s rule: less_induct)
  case less
  show ?case
  proof (cases "jobs s = []")
    case True
    then show ?thesis by (intro exI [of _ 0]) simp
  next
    case False
    from less [OF load_fire [OF False]] obtain n where
      "n \<le> load (fire s)" "jobs ((fire ^^ n) (fire s)) = []" by blast
    then show ?thesis using load_fire [OF False]
      by (intro exI [of _ "Suc n"]) (simp add: funpow_swap1)
  qed
qed

lemma keeps_firing:
  assumes "P s" "\<And>s. P s \<Longrightarrow> jobs s \<noteq> [] \<Longrightarrow> P (fire s)" "\<And>m. m < n \<Longrightarrow> jobs ((fire ^^ m) s) \<noteq> []"
  shows "P ((fire ^^ n) s)"
  using assms(3) by (induction n) (auto intro: assms(1,2))

lemma rest_with:
  assumes "P s" "\<And>s. P s \<Longrightarrow> jobs s \<noteq> [] \<Longrightarrow> P (fire s)"
  shows "\<exists>n \<le> load s. jobs ((fire ^^ n) s) = [] \<and> P ((fire ^^ n) s)"
proof -
  obtain n where n: "n \<le> load s" "jobs ((fire ^^ n) s) = []" using comes_to_rest by blast
  define k where "k = (LEAST k. jobs ((fire ^^ k) s) = [])"
  have k: "jobs ((fire ^^ k) s) = []" "k \<le> n" unfolding k_def by (rule LeastI, rule n) (rule Least_le, rule n)
  have "P ((fire ^^ k) s)" by (rule keeps_firing [OF assms]) (auto dest: not_less_Least simp: k_def)
  with k n show ?thesis by (intro exI [of _ k]) simp
qed

end

end
