(* ===== verification/Bs_Util.thy ===== *)
theory Bs_Util
  imports Js_Object Js_Text Js_Timers
begin

text \<open>
  The helpers that the Bootstrap plugins share (\<open>Util\<close> of \<open>bootstrap.js\<close>): the check of a
  configuration, the duration of a transition, and the emulation of its end.

  A plugin registers one-shot listeners for the end of a transition.  When the browser reports it, or
  when the timer of the emulation finds that it was not reported, the listeners run in the order in
  which they were registered, and a listener that throws leaves those behind it registered.  The type
  of what a listener does is a parameter.
\<close>

section \<open>Classes and configurations\<close>

datatype bs_class =
    K_fade | K_hide | K_show | K_showing | K_collapse | K_collapsing | K_collapsed | K_width | K_active | K_disabled | K_focus

text \<open>The name of the type of a value; arrays are not among the values.\<close>

definition toType :: "js_value \<Rightarrow> js_string" where
  "toType v = (case v of V_object s \<Rightarrow> if s = js ''null'' then s else js ''object'' | _ \<Rightarrow> typeof v)"

type_synonym settings = "(js_string, js_value) storage"

definition extend_with :: "settings \<Rightarrow> settings \<Rightarrow> settings" where
  "extend_with target source = fold (\<lambda>(k, v). setItem k v) source target"

definition setting :: "settings \<Rightarrow> js_string \<Rightarrow> js_value" where
  "setting config k = (case getItem config k of None \<Rightarrow> V_undefined | Some v \<Rightarrow> v)"

text \<open>The expected types of a property: a match of one of them is enough.\<close>

definition typeCheckConfig :: "js_string \<Rightarrow> settings \<Rightarrow> (js_string \<times> js_string list) list \<Rightarrow> unit res" where
  "typeCheckConfig componentName config configTypes =
     (case find (\<lambda>(property, expected). toType (setting config property) \<notin> set expected) configTypes of
        None \<Rightarrow> Inr ()
      | Some (property, expected) \<Rightarrow>
          Inl (Error (componentName @ js '': Option '' @ [34] @ property @ [34] @ js '' provided type '' @ [34]
            @ toType (setting config property) @ [34] @ js '' but expected type '' @ [34] @ js_join [124] expected @ [34] @ js ''.'')))"

lemma typeCheckConfig_ok:
  "typeCheckConfig n c ts = Inr () \<longleftrightarrow> (\<forall>(p, e) \<in> set ts. toType (setting c p) \<in> set e)"
proof (cases "find (\<lambda>(p, e). toType (setting c p) \<notin> set e) ts")
  case None
  moreover from None have "\<forall>(p, e) \<in> set ts. toType (setting c p) \<in> set e" by (auto simp: find_None_iff)
  ultimately show ?thesis by (simp add: typeCheckConfig_def)
next
  case (Some x)
  moreover have "find P xs = Some y \<Longrightarrow> y \<in> set xs \<and> P y" for P and xs :: "(js_string \<times> js_string list) list" and y
    by (induction xs) (auto split: if_splits)
  from this [OF Some] have "\<exists>y \<in> set ts. \<not> (case y of (p, e) \<Rightarrow> toType (setting c p) \<in> set e)" by auto
  ultimately show ?thesis by (auto simp: typeCheckConfig_def split: prod.split)
qed

definition truthy_value :: "js_value \<Rightarrow> bool" where
  "truthy_value v = (case v of
     V_undefined \<Rightarrow> False | V_bool b \<Rightarrow> b | V_number n \<Rightarrow> n \<noteq> NaN \<and> n \<noteq> Num 0 | V_string s \<Rightarrow> s \<noteq> [] | V_function _ \<Rightarrow> True
   | V_object s \<Rightarrow> s \<noteq> js ''null'')"

section \<open>Transitions\<close>

text \<open>The duration in milliseconds from the computed style of an element.\<close>

definition falsy_number :: "js_float \<Rightarrow> bool" where
  "falsy_number x = (x = NaF \<or> x = Fin 0)"

definition getTransitionDuration :: "js_string \<Rightarrow> js_string \<Rightarrow> js_float" where
  "getTransitionDuration transitionDuration transitionDelay =
     (if falsy_number (parseFloat transitionDuration) \<and> falsy_number (parseFloat transitionDelay) then Fin 0
      else (parseFloat (hd (js_split 44 transitionDuration)) + parseFloat (hd (js_split 44 transitionDelay))) * Fin 1000)"

datatype 'c ender = Ender 'c | Mark nat

record 'c transitions =
  enders :: "'c ender list"
  called :: "nat set"
  emulations :: nat

definition no_transitions :: "'c transitions" where
  "no_transitions = \<lparr>enders = [], called = {}, emulations = 0\<rparr>"

text \<open>\<open>.one(TRANSITION_END, complete).emulateTransitionEnd(duration)\<close>: the timer gets the number of the emulation.\<close>

definition await_end :: "'c \<Rightarrow> 'c transitions \<Rightarrow> nat \<times> 'c transitions" where
  "await_end c tr = (emulations tr, tr\<lparr>enders := enders tr @ [Ender c, Mark (emulations tr)], emulations := Suc (emulations tr)\<rparr>)"

definition drop_first :: "'c transitions \<Rightarrow> 'c transitions" where
  "drop_first tr = tr\<lparr>enders := tl (enders tr)\<rparr>"

definition mark :: "nat \<Rightarrow> 'c transitions \<Rightarrow> 'c transitions" where
  "mark k tr = tr\<lparr>called := insert k (called tr)\<rparr>"

end
