(* ===== verification/Bs_Toast.thy ===== *)
theory Bs_Toast
  imports Bs_Util
begin

text \<open>
  The plugin \<open>Toast\<close> of \<open>bootstrap.js\<close>, on the one element of the page that shows notices, and the
  function \<open>toastError\<close> of the page that uses it.

  The state holds the classes of the element, the instance of the plugin with its configuration, the
  listeners for the end of a transition and the timers.  The application can prevent the default of
  the events \<open>show\<close> and \<open>hide\<close>: which ones it does is a parameter.  The duration of a transition is
  that of the computed style.
\<close>

section \<open>State\<close>

record toast_config =
  animation :: bool
  autohide :: bool
  delay :: nat

datatype toast_event = Ev_show | Ev_shown | Ev_hide | Ev_hidden

text \<open>What a listener for the end of a transition completes, and of which instance.\<close>

datatype toast_complete = Show_complete nat | Hide_complete nat

datatype toast_job = Job_end nat | Job_hide nat

record toast =
  t_classes :: "bs_class set"
  t_config :: "toast_config option"
  t_instance :: nat
  t_timeout :: "nat option"
  t_dismiss :: bool
  t_duration :: nat
  t_transitions :: "toast_complete transitions"
  t_clock :: "toast_job clock"
  t_events :: "toast_event list"
  t_title :: js_string
  t_body :: js_string
  t_errors :: nat

type_synonym 'a toast_op = "(toast, 'a) op"

definition element_has :: "bs_class \<Rightarrow> toast \<Rightarrow> bool" where
  "element_has k t = (k \<in> t_classes t)"

definition add_class :: "bs_class \<Rightarrow> toast \<Rightarrow> toast" where
  "add_class k t = t\<lparr>t_classes := insert k (t_classes t)\<rparr>"

definition remove_class :: "bs_class \<Rightarrow> toast \<Rightarrow> toast" where
  "remove_class k t = t\<lparr>t_classes := t_classes t - {k}\<rparr>"

definition trigger :: "toast_event \<Rightarrow> toast \<Rightarrow> toast" where
  "trigger e t = t\<lparr>t_events := t_events t @ [e]\<rparr>"

definition after :: "nat \<Rightarrow> toast_job \<Rightarrow> toast \<Rightarrow> toast" where
  "after d j t = t\<lparr>t_clock := start_timer d j (t_clock t)\<rparr>"

text \<open>The rule \<open>.toast.hide\<close> of the style sheet comes after \<open>.toast.show\<close> and \<open>.toast.showing\<close>.\<close>

definition displayed :: "toast \<Rightarrow> bool" where
  "displayed t = ((K_show \<in> t_classes t \<or> K_showing \<in> t_classes t) \<and> K_hide \<notin> t_classes t)"

section \<open>The configuration\<close>

definition toast_default :: settings where
  "toast_default = [(js ''animation'', V_bool True), (js ''autohide'', V_bool True), (js ''delay'', V_number (Num 500))]"

definition toast_types :: "(js_string \<times> js_string list) list" where
  "toast_types = [(js ''animation'', [js ''boolean'']), (js ''autohide'', [js ''boolean'']), (js ''delay'', [js ''number''])]"

definition toast_of :: "settings \<Rightarrow> toast_config" where
  "toast_of c = \<lparr>animation = truthy_value (setting c (js ''animation'')), autohide = truthy_value (setting c (js ''autohide'')),
     delay = (case setting c (js ''delay'') of V_number (Num n) \<Rightarrow> nat n | _ \<Rightarrow> 0)\<rparr>"

definition getConfig :: "settings \<Rightarrow> settings \<Rightarrow> toast_config res" where
  "getConfig data config =
     (let c = extend_with (extend_with toast_default data) config
      in bind_res (typeCheckConfig (js ''TOAST'') c toast_types) (\<lambda>_. Inr (toast_of c)))"

section \<open>Operations\<close>

text \<open>A listener is registered, and a timer that stands in for a transition whose end is not reported.\<close>

definition await_transition :: "toast_complete \<Rightarrow> toast \<Rightarrow> toast" where
  "await_transition c t =
     (case await_end c (t_transitions t) of (k, tr) \<Rightarrow> after (t_duration t) (Job_end k) (t\<lparr>t_transitions := tr\<rparr>))"

definition clear_timeout :: "toast \<Rightarrow> toast" where
  "clear_timeout t = t\<lparr>t_clock := stop_timer (t_timeout t) (t_clock t), t_timeout := None\<rparr>"

definition show_complete :: "toast_config \<Rightarrow> toast \<Rightarrow> toast" where
  "show_complete cfg t =
     (let t = trigger Ev_shown (add_class K_show (remove_class K_showing t)) in
      if autohide cfg then (after (delay cfg) (Job_hide (t_instance t)) t)\<lparr>t_timeout := Some (clk_next (t_clock t))\<rparr> else t)"

definition hide_complete :: "toast \<Rightarrow> toast" where
  "hide_complete t = trigger Ev_hidden (add_class K_hide t)"

definition show_toast :: "(toast_event \<Rightarrow> bool) \<Rightarrow> toast_config \<Rightarrow> toast \<Rightarrow> toast" where
  "show_toast prevents cfg t =
     (let t = trigger Ev_show t in
      if prevents Ev_show then t
      else
        let t = clear_timeout t;
            t = (if animation cfg then add_class K_fade t else t);
            t = add_class K_showing (remove_class K_hide t)
        in if animation cfg then await_transition (Show_complete (t_instance t)) t else show_complete cfg t)"

definition close_toast :: "toast_config \<Rightarrow> toast \<Rightarrow> toast" where
  "close_toast cfg t =
     (let t = remove_class K_show t
      in if animation cfg then await_transition (Hide_complete (t_instance t)) t else hide_complete t)"

definition hide_toast :: "(toast_event \<Rightarrow> bool) \<Rightarrow> toast_config \<Rightarrow> toast \<Rightarrow> toast" where
  "hide_toast prevents cfg t =
     (if \<not> element_has K_show t then t
      else
        let t = trigger Ev_hide t
        in if prevents Ev_hide then t else close_toast cfg t)"

definition dispose_toast :: "toast \<Rightarrow> toast" where
  "dispose_toast t = (remove_class K_show (clear_timeout t))\<lparr>t_config := None, t_dismiss := False\<rparr>"

text \<open>The jQuery method: it makes the instance at its first call, and ignores a configuration later.\<close>

datatype toast_call = Configure settings | Method js_string

definition new_toast :: "settings \<Rightarrow> settings \<Rightarrow> unit toast_op" where
  "new_toast data config =
     andthen (lift_res (getConfig data config)) (\<lambda>cfg.
       modify (\<lambda>t. t\<lparr>t_config := Some cfg, t_instance := Suc (t_instance t), t_timeout := None, t_dismiss := True\<rparr>))"

definition call_method :: "(toast_event \<Rightarrow> bool) \<Rightarrow> js_string \<Rightarrow> unit toast_op" where
  "call_method prevents m =
     reading t_config (\<lambda>c.
     case c of
       None \<Rightarrow> ret ()
     | Some cfg \<Rightarrow>
         if m = js ''show'' then modify (show_toast prevents cfg)
         else if m = js ''hide'' then modify (hide_toast prevents cfg)
         else if m = js ''dispose'' then modify dispose_toast
         else throw Type_error)"

definition toast_plugin :: "(toast_event \<Rightarrow> bool) \<Rightarrow> settings \<Rightarrow> toast_call \<Rightarrow> unit toast_op" where
  "toast_plugin prevents data config =
     reading t_config (\<lambda>c.
     seqn (if c = None then new_toast data (case config of Configure s \<Rightarrow> s | Method m \<Rightarrow> []) else ret ())
          (case config of Configure s \<Rightarrow> ret () | Method m \<Rightarrow> call_method prevents m))"

text \<open>\<open>toastError\<close> of the page.\<close>

definition toast_error :: "(toast_event \<Rightarrow> bool) \<Rightarrow> js_string \<Rightarrow> unit toast_op" where
  "toast_error prevents errorString =
     seqn (modify (\<lambda>t. t\<lparr>t_title := js ''Error'', t_body := errorString\<rparr>))
    (seqn (toast_plugin prevents [] (Configure [(js ''delay'', V_number (Num 3000))]))
          (toast_plugin prevents [] (Method (js ''show''))))"

section \<open>Events\<close>

text \<open>A listener of an instance that was disposed of finds no element and throws.\<close>

definition live :: "nat \<Rightarrow> toast \<Rightarrow> toast_config option" where
  "live i t = (if i = t_instance t then t_config t else None)"

fun run_enders :: "toast_complete ender list \<Rightarrow> toast \<Rightarrow> toast" where
  "run_enders [] t = t"
| "run_enders (h # hs) t =
     (let t = t\<lparr>t_transitions := drop_first (t_transitions t)\<rparr> in
      case h of
        Mark k \<Rightarrow> run_enders hs (t\<lparr>t_transitions := mark k (t_transitions t)\<rparr>)
      | Ender (Show_complete i) \<Rightarrow>
          (case live i t of None \<Rightarrow> t\<lparr>t_errors := Suc (t_errors t)\<rparr> | Some cfg \<Rightarrow> run_enders hs (show_complete cfg t))
      | Ender (Hide_complete i) \<Rightarrow>
          (case live i t of None \<Rightarrow> t\<lparr>t_errors := Suc (t_errors t)\<rparr> | Some cfg \<Rightarrow> run_enders hs (hide_complete t)))"

definition transition_end :: "toast \<Rightarrow> toast" where
  "transition_end t = run_enders (enders (t_transitions t)) t"

definition run_job :: "(toast_event \<Rightarrow> bool) \<Rightarrow> toast_job \<Rightarrow> toast \<Rightarrow> toast" where
  "run_job prevents j t =
     (case j of
        Job_end k \<Rightarrow> if k \<in> called (t_transitions t) then t else transition_end t
      | Job_hide i \<Rightarrow>
          (case live i t of None \<Rightarrow> t\<lparr>t_errors := Suc (t_errors t)\<rparr> | Some cfg \<Rightarrow> hide_toast prevents cfg t))"

definition fire_toast :: "(toast_event \<Rightarrow> bool) \<Rightarrow> toast \<Rightarrow> toast" where
  "fire_toast prevents t =
     (case clk_jobs (t_clock t) of
        [] \<Rightarrow> t
      | (_, _, j) # _ \<Rightarrow> run_job prevents j (t\<lparr>t_clock := take_job (t_clock t)\<rparr>))"

definition click_dismiss :: "(toast_event \<Rightarrow> bool) \<Rightarrow> toast \<Rightarrow> toast" where
  "click_dismiss prevents t =
     (case t_config t of None \<Rightarrow> t | Some cfg \<Rightarrow> if t_dismiss t then hide_toast prevents cfg t else t)"

definition idle_page :: "nat \<Rightarrow> toast" where
  "idle_page d = \<lparr>t_classes = {}, t_config = None, t_instance = 0, t_timeout = None, t_dismiss = False, t_duration = d,
     t_transitions = no_transitions, t_clock = fresh_clock, t_events = [], t_title = [], t_body = [], t_errors = 0\<rparr>"

section \<open>The timers come to rest\<close>

definition ender_load :: "toast_complete ender \<Rightarrow> nat" where
  "ender_load e = (case e of Ender (Show_complete i) \<Rightarrow> 4 | Ender (Hide_complete i) \<Rightarrow> 1 | Mark k \<Rightarrow> 0)"

definition job_load :: "nat \<times> nat \<times> toast_job \<Rightarrow> nat" where
  "job_load j = (case snd (snd j) of Job_end k \<Rightarrow> 1 | Job_hide i \<Rightarrow> 3)"

definition toast_load :: "toast \<Rightarrow> nat" where
  "toast_load t = sum_list (map job_load (clk_jobs (t_clock t))) + sum_list (map ender_load (enders (t_transitions t)))"

lemma load_updates [simp]:
  "toast_load (add_class k t) = toast_load t" "toast_load (remove_class k t) = toast_load t"
  "toast_load (trigger e t) = toast_load t" "toast_load (t\<lparr>t_timeout := x\<rparr>) = toast_load t"
  "toast_load (t\<lparr>t_errors := n\<rparr>) = toast_load t"
  by (simp_all add: toast_load_def add_class_def remove_class_def trigger_def)

lemma load_after: "toast_load (after d j t) = toast_load t + job_load (0, 0, j)"
  by (simp add: toast_load_def after_def start_timer_def sum_insert_job job_load_def)

lemma load_show_complete: "toast_load (show_complete cfg t) \<le> toast_load t + 3"
  by (simp add: show_complete_def Let_def load_after) (simp add: job_load_def)

lemma load_hide_complete [simp]: "toast_load (hide_complete t) = toast_load t"
  by (simp add: hide_complete_def)

lemma load_await: "toast_load (await_transition c t) = toast_load t + ender_load (Ender c) + 1"
  by (cases c) (simp_all add: await_transition_def await_end_def load_after, simp_all add: toast_load_def ender_load_def job_load_def)

lemma load_hide: "toast_load (hide_toast prevents cfg t) \<le> toast_load t + 2"
  by (simp add: hide_toast_def close_toast_def Let_def load_await ender_load_def)

lemma load_run_enders: "enders (t_transitions t) = hs \<Longrightarrow> toast_load (run_enders hs t) \<le> toast_load t"
proof (induction hs arbitrary: t)
  case (Cons h hs)
  let ?t = "t\<lparr>t_transitions := drop_first (t_transitions t)\<rparr>"
  have load: "toast_load ?t + ender_load h = toast_load t" and hs: "enders (t_transitions ?t) = hs"
    using Cons.prems by (simp_all add: toast_load_def drop_first_def)
  have keep: "enders (t_transitions (show_complete cfg u)) = enders (t_transitions u)"
    "enders (t_transitions (hide_complete u)) = enders (t_transitions u)" for cfg u
    by (simp_all add: show_complete_def hide_complete_def trigger_def add_class_def remove_class_def after_def Let_def)
  show ?case
  proof (cases h)
    case (Mark k)
    have "toast_load (?t\<lparr>t_transitions := mark k (t_transitions ?t)\<rparr>) = toast_load ?t" by (simp add: toast_load_def mark_def)
    then show ?thesis using Cons.IH [of "?t\<lparr>t_transitions := mark k (t_transitions ?t)\<rparr>"] load hs
      by (simp add: Mark mark_def)
  next
    case (Ender c)
    show ?thesis
    proof (cases c)
      case (Show_complete i)
      then show ?thesis using Ender load hs Cons.IH [of "show_complete cfg ?t" for cfg] load_show_complete [of _ ?t]
        by (fastforce simp: keep ender_load_def Let_def split: option.split intro: order_trans)
    next
      case (Hide_complete i)
      then show ?thesis using Ender load hs Cons.IH [of "hide_complete ?t"]
        by (auto simp: keep ender_load_def Let_def split: option.split)
    qed
  qed
qed simp

lemma load_fire_toast: "clk_jobs (t_clock t) \<noteq> [] \<Longrightarrow> toast_load (fire_toast prevents t) < toast_load t"
proof -
  assume "clk_jobs (t_clock t) \<noteq> []"
  then obtain d i j js where j: "clk_jobs (t_clock t) = (d, i, j) # js" by (metis neq_Nil_conv prod_cases3)
  let ?t = "t\<lparr>t_clock := take_job (t_clock t)\<rparr>"
  have load: "toast_load ?t + job_load (d, i, j) = toast_load t"
    by (simp add: toast_load_def take_job_def j)
  show ?thesis
  proof (cases j)
    case (Job_end k)
    then show ?thesis using load load_run_enders [of ?t "enders (t_transitions ?t)"]
      by (simp add: fire_toast_def j run_job_def transition_end_def job_load_def)
  next
    case (Job_hide n)
    then show ?thesis using load load_hide [of prevents _ ?t]
      by (fastforce simp: fire_toast_def j run_job_def job_load_def split: option.split intro: le_less_trans)
  qed
qed

interpretation toast_timers: event_loop "\<lambda>t. clk_jobs (t_clock t)" "fire_toast prevents" toast_load
  by unfold_locales (rule load_fire_toast)

text \<open>The page waits until a point in time: what is due by then runs.\<close>

function wait_until :: "(toast_event \<Rightarrow> bool) \<Rightarrow> nat \<Rightarrow> toast \<Rightarrow> toast" where
  "wait_until prevents T t =
     (if clk_jobs (t_clock t) \<noteq> [] \<and> fst (hd (clk_jobs (t_clock t))) \<le> T
      then wait_until prevents T (fire_toast prevents t)
      else t\<lparr>t_clock := (t_clock t)\<lparr>clk_now := max (clk_now (t_clock t)) T\<rparr>\<rparr>)"
  by pat_completeness auto
termination
  by (relation "measure (\<lambda>(_, _, t). toast_load t)") (auto intro: load_fire_toast)

declare wait_until.simps [simp del]

end
