(* ===== verification/Bs_Toast_Correct.thy ===== *)
theory Bs_Toast_Correct
  imports Bs_Toast
begin

text \<open>What the notices of the page promise: each is shown for its time, and none stays.\<close>

section \<open>At rest\<close>

definition page_config :: toast_config where
  "page_config = \<lparr>animation = True, autohide = True, delay = 3000\<rparr>"

definition old_marks :: "toast \<Rightarrow> bool" where
  "old_marks t \<longleftrightarrow> (\<forall>k \<in> called (t_transitions t). k < emulations (t_transitions t))"

definition at_rest :: "toast \<Rightarrow> bool" where
  "at_rest t \<longleftrightarrow> t_config t \<in> {None, Some page_config} \<and> enders (t_transitions t) = [] \<and> clk_jobs (t_clock t) = []
     \<and> K_show \<notin> t_classes t \<and> K_showing \<notin> t_classes t \<and> old_marks t"

lemma page_settings: "getConfig [] [(js ''delay'', V_number (Num 3000))] = Inr page_config"
  unfolding getConfig_def Let_def page_config_def
  by (simp add: typeCheckConfig_def toast_types_def toast_default_def extend_with_def setting_def toType_def toast_of_def
      getItem_def setItem_def truthy_value_def js_simps)

definition asked :: "js_string \<Rightarrow> toast \<Rightarrow> toast" where
  "asked m t = t\<lparr>t_title := js ''Error'', t_body := m, t_config := Some page_config, t_dismiss := (t_config t = None \<or> t_dismiss t),
     t_instance := (if t_config t = None then Suc (t_instance t) else t_instance t),
     t_timeout := (if t_config t = None then None else t_timeout t)\<rparr>"

lemma toast_error_asked:
  "t_config t \<in> {None, Some page_config} \<Longrightarrow> toast_error prevents m t = (Inr (), show_toast prevents page_config (asked m t))"
  by (cases t) (auto simp: toast_error_def toast_plugin_def new_toast_def call_method_def andthen_apply page_settings asked_def
      simp del: js_simps)

section \<open>The phases of a notice\<close>

text \<open>
  A notice appears until the time \<open>e\<close>, is shown until \<open>e\<close>, and fades out until \<open>e\<close>: one timer is set in
  each phase.
\<close>

definition phase :: "toast_complete ender list \<Rightarrow> toast_job \<Rightarrow> nat \<Rightarrow> js_string \<Rightarrow> toast \<Rightarrow> bool" where
  "phase es j e m t \<longleftrightarrow> (\<exists>n. clk_jobs (t_clock t) = [(e, n, j)]) \<and> enders (t_transitions t) = es
     \<and> clk_now (t_clock t) \<le> e \<and> t_config t = Some page_config \<and> t_body t = m \<and> old_marks t"

definition appearing :: "nat \<Rightarrow> js_string \<Rightarrow> toast \<Rightarrow> bool" where
  "appearing e m t \<longleftrightarrow> K_showing \<in> t_classes t \<and> K_show \<notin> t_classes t \<and> K_hide \<notin> t_classes t
     \<and> (\<exists>k. phase [Ender (Show_complete (t_instance t)), Mark k] (Job_end k) e m t \<and> k \<notin> called (t_transitions t)
          \<and> k < emulations (t_transitions t))"

definition shown :: "nat \<Rightarrow> js_string \<Rightarrow> toast \<Rightarrow> bool" where
  "shown e m t \<longleftrightarrow> K_showing \<notin> t_classes t \<and> K_show \<in> t_classes t \<and> K_hide \<notin> t_classes t \<and> phase [] (Job_hide (t_instance t)) e m t"

definition fading :: "nat \<Rightarrow> js_string \<Rightarrow> toast \<Rightarrow> bool" where
  "fading e m t \<longleftrightarrow> K_showing \<notin> t_classes t \<and> K_show \<notin> t_classes t
     \<and> (\<exists>k. phase [Ender (Hide_complete (t_instance t)), Mark k] (Job_end k) e m t \<and> k \<notin> called (t_transitions t)
          \<and> k < emulations (t_transitions t))"

lemmas phase_defs = phase_def appearing_def shown_def fading_def at_rest_def old_marks_def

lemmas toast_ops = show_toast_def clear_timeout_def add_class_def remove_class_def trigger_def await_transition_def await_end_def
  after_def start_timer_def stop_timer_def show_complete_def hide_complete_def hide_toast_def close_toast_def element_has_def
  page_config_def Let_def

lemma show_from_rest:
  assumes "at_rest t" "\<not> prevents Ev_show"
  shows "appearing (clk_now (t_clock t) + t_duration t) m (show_toast prevents page_config (asked m t))"
proof -
  have "emulations (t_transitions t) \<notin> called (t_transitions t)" using assms(1) by (auto simp: at_rest_def old_marks_def)
  then show ?thesis using assms
    by (auto simp: phase_defs toast_ops asked_def less_Suc_eq split: option.split)
qed

lemma fire_appearing:
  assumes "appearing e m t"
  shows "shown (e + 3000) m (fire_toast prevents t) \<and> t_duration (fire_toast prevents t) = t_duration t"
  using assms unfolding appearing_def phase_def
  by (auto simp: fire_toast_def run_job_def transition_end_def live_def take_job_def drop_first_def mark_def toast_ops
      shown_def phase_def old_marks_def)

lemma fire_shown:
  assumes "shown e m t" "\<not> prevents Ev_hide"
  shows "fading (e + t_duration t) m (fire_toast prevents t)"
proof -
  have "emulations (t_transitions t) \<notin> called (t_transitions t)" using assms(1) by (auto simp: shown_def phase_def old_marks_def)
  then show ?thesis using assms unfolding shown_def phase_def
    by (auto simp: fire_toast_def run_job_def live_def take_job_def toast_ops fading_def phase_def old_marks_def less_Suc_eq)
qed

lemma fire_fading:
  assumes "fading e m t"
  shows "at_rest (fire_toast prevents t)"
  using assms unfolding fading_def phase_def
  by (auto simp: fire_toast_def run_job_def transition_end_def live_def take_job_def drop_first_def mark_def toast_ops
      at_rest_def old_marks_def)

subsection \<open>Waiting\<close>

lemma wait_phase:
  assumes "phase es j e m t"
  shows "wait_until prevents T t = (if e \<le> T then wait_until prevents T (fire_toast prevents t)
      else t\<lparr>t_clock := (t_clock t)\<lparr>clk_now := max (clk_now (t_clock t)) T\<rparr>\<rparr>)"
  using assms by (subst wait_until.simps) (auto simp: phase_def)

lemma wait_rest: "at_rest t \<Longrightarrow> at_rest (wait_until prevents T t)"
  by (subst wait_until.simps) (simp add: at_rest_def old_marks_def)

lemma rest_not_displayed: "at_rest t \<Longrightarrow> \<not> displayed t"
  by (simp add: at_rest_def displayed_def)

lemma wait_fading:
  assumes "fading e m t"
  shows "\<not> displayed (wait_until prevents T t)" "e \<le> T \<Longrightarrow> at_rest (wait_until prevents T t)"
proof -
  obtain es j where p: "phase es j e m t" using assms by (auto simp: fading_def)
  show "e \<le> T \<Longrightarrow> at_rest (wait_until prevents T t)" using wait_rest [OF fire_fading [OF assms]] by (simp add: wait_phase [OF p])
  show "\<not> displayed (wait_until prevents T t)"
    using rest_not_displayed [OF wait_rest [OF fire_fading [OF assms]]] assms
    by (simp add: wait_phase [OF p] displayed_def fading_def)
qed

lemma wait_shown:
  assumes "shown e m t" "\<not> prevents Ev_hide"
  shows "T < e \<Longrightarrow> displayed (wait_until prevents T t) \<and> t_body (wait_until prevents T t) = m"
    and "e \<le> T \<Longrightarrow> \<not> displayed (wait_until prevents T t)"
    and "e + t_duration t \<le> T \<Longrightarrow> at_rest (wait_until prevents T t)"
proof -
  have p: "phase [] (Job_hide (t_instance t)) e m t" using assms by (simp add: shown_def)
  show "T < e \<Longrightarrow> displayed (wait_until prevents T t) \<and> t_body (wait_until prevents T t) = m"
    using assms(1) by (simp add: wait_phase [OF p] shown_def displayed_def phase_def)
  show "e \<le> T \<Longrightarrow> \<not> displayed (wait_until prevents T t)" "e + t_duration t \<le> T \<Longrightarrow> at_rest (wait_until prevents T t)"
    using wait_fading [OF fire_shown [OF assms(1), where prevents = prevents, OF assms(2)], where prevents = prevents and T = T] by (auto simp: wait_phase [OF p])
qed

text \<open>
  Property C32.  A notice is shown for its time: when no notice is being shown, \<open>toastError\<close> makes the
  notice visible with its text at once, it stays visible until three seconds after the transition, is
  not visible any more from then on, and after one more transition the notice is at rest, whether
  the browser has an instance of the plugin already or not.
\<close>

theorem notice_shown_for_its_time:
  assumes "at_rest t" "\<not> prevents Ev_show" "\<not> prevents Ev_hide"
  defines "e \<equiv> clk_now (t_clock t) + t_duration t + 3000"
  shows "(T < e \<longrightarrow> displayed (wait_until prevents T (snd (toast_error prevents m t)))
                 \<and> t_body (wait_until prevents T (snd (toast_error prevents m t))) = m)
     \<and> (e \<le> T \<longrightarrow> \<not> displayed (wait_until prevents T (snd (toast_error prevents m t))))
     \<and> (e + t_duration t \<le> T \<longrightarrow> at_rest (wait_until prevents T (snd (toast_error prevents m t))))"
proof -
  define u where "u = snd (toast_error prevents m t)"
  have u: "u = show_toast prevents page_config (asked m t)"
    unfolding u_def using toast_error_asked [of t prevents m] assms(1) by (simp add: at_rest_def)
  have dur: "t_duration u = t_duration t"
    by (simp add: u show_toast_def clear_timeout_def add_class_def remove_class_def trigger_def await_transition_def await_end_def
        after_def show_complete_def asked_def Let_def)
  have a: "appearing (clk_now (t_clock t) + t_duration t) m u" unfolding u by (rule show_from_rest) fact+
  then obtain es j where p: "phase es j (clk_now (t_clock t) + t_duration t) m u" by (auto simp: appearing_def)
  note s = fire_appearing [OF a, of prevents]
  note w = wait_shown [OF s [THEN conjunct1], where prevents = prevents and T = T, OF assms(3)]
  have "T < clk_now (t_clock t) + t_duration t \<Longrightarrow> displayed (wait_until prevents T u) \<and> t_body (wait_until prevents T u) = m"
    using a p by (simp add: wait_phase [OF p] appearing_def displayed_def phase_def)
  then show ?thesis unfolding u_def [symmetric] e_def using w s dur by (auto simp: wait_phase [OF p])
qed

theorem notice_shown_for_its_time_witness:
  "displayed (wait_until (\<lambda>_. False) 3000 (snd (toast_error (\<lambda>_. False) (js ''Invalid location'') (idle_page 150))))
   \<and> \<not> displayed (wait_until (\<lambda>_. False) 3150 (snd (toast_error (\<lambda>_. False) (js ''Invalid location'') (idle_page 150))))
   \<and> at_rest (wait_until (\<lambda>_. False) 3300 (snd (toast_error (\<lambda>_. False) (js ''Invalid location'') (idle_page 150))))"
proof -
  have "at_rest (idle_page 150)" "clk_now (t_clock (idle_page 150)) = 0" "t_duration (idle_page 150) = 150"
    by (simp_all add: at_rest_def idle_page_def no_transitions_def fresh_clock_def old_marks_def)
  from notice_shown_for_its_time [OF this(1), of "\<lambda>_. False"] this show ?thesis by simp
qed

section \<open>No notice stays\<close>

text \<open>What the timers and the listeners of the page have in common: they belong to the one instance.\<close>

definition timers_ok :: "toast \<Rightarrow> bool" where
  "timers_ok t \<longleftrightarrow> t_config t \<in> {None, Some page_config} \<and> old_marks t
     \<and> (\<forall>d i j. (d, i, j) \<in> set (clk_jobs (t_clock t)) \<longrightarrow> i < clk_next (t_clock t) \<and> t_config t \<noteq> None
          \<and> (\<forall>n. j = Job_hide n \<longrightarrow> n = t_instance t) \<and> (t_timeout t = Some i \<longrightarrow> (\<exists>n. j = Job_hide n)))
     \<and> (\<forall>i. t_timeout t = Some i \<longrightarrow> i < clk_next (t_clock t))"

definition enders_ok :: "toast_complete ender list \<Rightarrow> toast \<Rightarrow> bool" where
  "enders_ok hs t \<longleftrightarrow> (\<forall>h \<in> set hs. case h of
       Mark k \<Rightarrow> k < emulations (t_transitions t)
     | Ender c \<Rightarrow> t_config t = Some page_config \<and> (c = Show_complete (t_instance t) \<or> c = Hide_complete (t_instance t)))"

definition to_show :: "toast \<Rightarrow> toast_complete ender" where
  "to_show t = Ender (Show_complete (t_instance t))"

definition hides :: "toast \<Rightarrow> bool" where
  "hides t \<longleftrightarrow> (\<exists>d i. (d, i, Job_hide (t_instance t)) \<in> set (clk_jobs (t_clock t)))"

definition notice_ok :: "toast \<Rightarrow> bool" where
  "notice_ok t \<longleftrightarrow> timers_ok t \<and> enders_ok (enders (t_transitions t)) t
     \<and> (K_showing \<in> t_classes t \<longrightarrow> to_show t \<in> set (enders (t_transitions t)))
     \<and> (K_show \<in> t_classes t \<longrightarrow> hides t \<or> to_show t \<in> set (enders (t_transitions t)))
     \<and> (enders (t_transitions t) \<noteq> [] \<longrightarrow> (\<exists>k. Mark k \<in> set (enders (t_transitions t)) \<and> k \<notin> called (t_transitions t)
          \<and> (\<exists>d i. (d, i, Job_end k) \<in> set (clk_jobs (t_clock t)))))"

lemma fresh_id: "timers_ok t \<Longrightarrow> (d, clk_next (t_clock t), j) \<notin> set (clk_jobs (t_clock t))"
  unfolding timers_ok_def by blast

lemma show_complete_ok:
  assumes "timers_ok t" "t_config t = Some page_config"
  shows "timers_ok (show_complete page_config t)" "hides (show_complete page_config t)"
  using assms fresh_id [OF assms(1)] unfolding timers_ok_def hides_def
  by (auto simp: show_complete_def trigger_def add_class_def remove_class_def after_def start_timer_def page_config_def Let_def
      old_marks_def less_Suc_eq)

lemma show_complete_fields [simp]:
  "t_transitions (show_complete cfg t) = t_transitions t" "t_config (show_complete cfg t) = t_config t"
  "t_instance (show_complete cfg t) = t_instance t" "t_classes (show_complete cfg t) = insert K_show (t_classes t - {K_showing})"
  by (simp_all add: show_complete_def trigger_def add_class_def remove_class_def after_def Let_def)

lemma hide_complete_fields [simp]:
  "t_transitions (hide_complete t) = t_transitions t" "t_config (hide_complete t) = t_config t"
  "t_instance (hide_complete t) = t_instance t" "t_classes (hide_complete t) = insert K_hide (t_classes t)"
  "t_clock (hide_complete t) = t_clock t" "t_timeout (hide_complete t) = t_timeout t"
  by (simp_all add: hide_complete_def trigger_def add_class_def)

lemma hide_complete_ok: "timers_ok t \<Longrightarrow> timers_ok (hide_complete t)" "hides (hide_complete t) = hides t"
  by (simp_all add: timers_ok_def hides_def old_marks_def)

lemma show_complete_hides: "hides t \<Longrightarrow> hides (show_complete cfg t)"
  by (auto simp: hides_def show_complete_def trigger_def add_class_def remove_class_def after_def start_timer_def Let_def)

text \<open>After the listeners have run none is registered, and a notice that is shown will be hidden.\<close>

definition settled_notice :: "toast \<Rightarrow> bool" where
  "settled_notice t \<longleftrightarrow> timers_ok t \<and> enders (t_transitions t) = [] \<and> K_showing \<notin> t_classes t \<and> (K_show \<in> t_classes t \<longrightarrow> hides t)"

lemma run_enders_ok:
  assumes "timers_ok t" "enders_ok hs t" "enders (t_transitions t) = hs"
    "K_showing \<in> t_classes t \<longrightarrow> to_show t \<in> set hs" "K_show \<in> t_classes t \<longrightarrow> hides t \<or> to_show t \<in> set hs"
  shows "settled_notice (run_enders hs t)"
  using assms
proof (induction hs arbitrary: t)
  case Nil
  then show ?case by (auto simp: settled_notice_def)
next
  case (Cons h hs)
  let ?t = "t\<lparr>t_transitions := drop_first (t_transitions t)\<rparr>"
  have t: "timers_ok ?t" "enders_ok hs ?t" "enders (t_transitions ?t) = hs"
    using Cons.prems(1-3) by (auto simp: timers_ok_def enders_ok_def old_marks_def drop_first_def split: ender.splits)
  show ?case
  proof (cases h)
    case (Mark k)
    let ?u = "?t\<lparr>t_transitions := mark k (t_transitions ?t)\<rparr>"
    have "k < emulations (t_transitions t)" using Cons.prems(2) by (simp add: Mark enders_ok_def)
    then have "settled_notice (run_enders hs ?u)" using t Cons.prems(4,5)
      by (intro Cons.IH) (auto simp: timers_ok_def enders_ok_def old_marks_def mark_def drop_first_def to_show_def hides_def Mark split: ender.splits)
    then show ?thesis by (simp add: Mark Let_def)
  next
    case (Ender c)
    then have c: "t_config t = Some page_config" "c = Show_complete (t_instance t) \<or> c = Hide_complete (t_instance t)"
      using Cons.prems(2) by (simp_all add: enders_ok_def)
    from c(2) show ?thesis
    proof
      assume show': "c = Show_complete (t_instance t)"
      have "settled_notice (run_enders hs (show_complete page_config ?t))"
        using t c(1) by (intro Cons.IH) (auto simp: show_complete_ok enders_ok_def split: ender.splits)
      then show ?thesis using c(1) by (simp add: Ender show' live_def Let_def)
    next
      assume hide': "c = Hide_complete (t_instance t)"
      have "settled_notice (run_enders hs (hide_complete ?t))"
        using t c(1) Cons.prems(4,5)
        by (intro Cons.IH) (auto simp: hide_complete_ok enders_ok_def to_show_def hides_def Ender hide' split: ender.splits)
      then show ?thesis using c(1) by (simp add: Ender hide' live_def Let_def)
    qed
  qed
qed

lemma settled_notice_ok: "settled_notice t \<Longrightarrow> notice_ok t"
  by (simp add: settled_notice_def notice_ok_def enders_ok_def)

lemma transition_end_ok: "notice_ok t \<Longrightarrow> notice_ok (transition_end t)"
  unfolding transition_end_def by (rule settled_notice_ok, rule run_enders_ok) (auto simp: notice_ok_def)

subsection \<open>Operations\<close>

lemma await_ok:
  assumes "timers_ok t" "t_config t = Some page_config" "enders_ok (enders (t_transitions t)) t"
    and "c = Show_complete (t_instance t) \<or> c = Hide_complete (t_instance t)"
  shows "timers_ok (await_transition c t)" "enders_ok (enders (t_transitions (await_transition c t))) (await_transition c t)"
    "\<exists>k. Mark k \<in> set (enders (t_transitions (await_transition c t))) \<and> k \<notin> called (t_transitions (await_transition c t))
          \<and> (\<exists>d i. (d, i, Job_end k) \<in> set (clk_jobs (t_clock (await_transition c t))))"
    "Ender c \<in> set (enders (t_transitions (await_transition c t)))"
proof -
  have new: "emulations (t_transitions t) \<notin> called (t_transitions t)" using assms(1) by (auto simp: timers_ok_def old_marks_def)
  show "timers_ok (await_transition c t)"
    using assms(1,2) unfolding timers_ok_def await_transition_def await_end_def after_def start_timer_def
    by (auto simp: old_marks_def less_Suc_eq)
  show "enders_ok (enders (t_transitions (await_transition c t))) (await_transition c t)"
    using assms unfolding enders_ok_def await_transition_def await_end_def after_def
    by (auto simp: less_Suc_eq split: ender.splits)
  show "\<exists>k. Mark k \<in> set (enders (t_transitions (await_transition c t))) \<and> k \<notin> called (t_transitions (await_transition c t))
          \<and> (\<exists>d i. (d, i, Job_end k) \<in> set (clk_jobs (t_clock (await_transition c t))))"
    using new by (intro exI [of _ "emulations (t_transitions t)"]) (auto simp: await_transition_def await_end_def after_def start_timer_def)
  show "Ender c \<in> set (enders (t_transitions (await_transition c t)))"
    by (simp add: await_transition_def await_end_def after_def)
qed

lemma await_fields [simp]:
  "t_classes (await_transition c t) = t_classes t" "t_instance (await_transition c t) = t_instance t"
  "hides t \<Longrightarrow> t_instance t = t_instance u \<Longrightarrow> hides (await_transition c t)"
  by (auto simp: await_transition_def await_end_def after_def start_timer_def hides_def)

lemma clear_timeout_ok: "timers_ok t \<Longrightarrow> timers_ok (clear_timeout t)"
  by (auto simp: timers_ok_def clear_timeout_def stop_timer_def old_marks_def split: option.split)

text \<open>\<open>timers_ok\<close> and \<open>enders_ok\<close> do not depend on classes, events and texts.\<close>

lemma timers_ok_update [simp]:
  "timers_ok (add_class k t) = timers_ok t" "timers_ok (remove_class k t) = timers_ok t" "timers_ok (trigger e t) = timers_ok t"
  by (simp_all add: timers_ok_def add_class_def remove_class_def trigger_def old_marks_def)

lemma enders_ok_update [simp]:
  "enders_ok hs (add_class k t) = enders_ok hs t" "enders_ok hs (remove_class k t) = enders_ok hs t"
  "enders_ok hs (trigger e t) = enders_ok hs t" "enders_ok hs (clear_timeout t) = enders_ok hs t"
  by (simp_all add: enders_ok_def add_class_def remove_class_def trigger_def clear_timeout_def cong: ender.case_cong)

lemma same_fields [simp]:
  "t_config (add_class k t) = t_config t" "t_config (remove_class k t) = t_config t" "t_config (trigger e t) = t_config t"
  "t_config (clear_timeout t) = t_config t" "t_transitions (add_class k t) = t_transitions t"
  "t_transitions (remove_class k t) = t_transitions t" "t_transitions (trigger e t) = t_transitions t"
  "t_transitions (clear_timeout t) = t_transitions t" "t_instance (add_class k t) = t_instance t"
  "t_instance (remove_class k t) = t_instance t" "t_instance (trigger e t) = t_instance t" "t_instance (clear_timeout t) = t_instance t"
  "t_classes (add_class k t) = insert k (t_classes t)" "t_classes (remove_class k t) = t_classes t - {k}"
  "t_classes (trigger e t) = t_classes t" "t_classes (clear_timeout t) = t_classes t"
  "t_clock (add_class k t) = t_clock t" "t_clock (remove_class k t) = t_clock t" "t_clock (trigger e t) = t_clock t"
  "hides (add_class k t) = hides t" "hides (remove_class k t) = hides t" "hides (trigger e t) = hides t"
  by (simp_all add: add_class_def remove_class_def trigger_def clear_timeout_def hides_def)

lemma notice_trigger [simp]: "notice_ok (trigger e t) = notice_ok t"
  by (simp add: notice_ok_def to_show_def)

lemma show_toast_ok:
  assumes "notice_ok t" "t_config t = Some page_config"
  shows "notice_ok (show_toast prevents page_config t)"
proof (cases "prevents Ev_show")
  case True
  then show ?thesis using assms by (simp add: show_toast_def)
next
  case False
  define u where "u = add_class K_showing (remove_class K_hide (add_class K_fade (clear_timeout (trigger Ev_show t))))"
  have u: "timers_ok u" "enders_ok (enders (t_transitions u)) u" "t_config u = Some page_config" "t_instance u = t_instance t"
    using assms by (simp_all add: u_def notice_ok_def clear_timeout_ok)
  have s: "show_toast prevents page_config t = await_transition (Show_complete (t_instance u)) u"
    using False by (simp add: show_toast_def u_def page_config_def)
  note a = await_ok [OF u(1,3,2), of "Show_complete (t_instance u)"]
  show ?thesis unfolding s notice_ok_def to_show_def using a by simp
qed

lemma hide_toast_ok:
  assumes "notice_ok (remove_class K_show t)" "t_config t = Some page_config" "\<not> prevents Ev_hide"
  shows "notice_ok (hide_toast prevents page_config t)"
proof (cases "K_show \<in> t_classes t")
  case True
  define u where "u = remove_class K_show (trigger Ev_hide t)"
  have u: "timers_ok u" "enders_ok (enders (t_transitions u)) u" "t_config u = Some page_config"
    using assms by (simp_all add: u_def notice_ok_def)
  have s: "hide_toast prevents page_config t = await_transition (Hide_complete (t_instance u)) u"
    using assms(3) True by (simp add: hide_toast_def close_toast_def element_has_def u_def page_config_def)
  note a = await_ok [OF u(1,3,2), of "Hide_complete (t_instance u)"]
  have "K_showing \<in> t_classes t \<longrightarrow> to_show t \<in> set (enders (t_transitions t))"
    using assms(1) by (simp add: notice_ok_def to_show_def)
  then have "K_showing \<in> t_classes u \<longrightarrow> to_show t \<in> set (enders (t_transitions (await_transition (Hide_complete (t_instance u)) u)))"
    by (simp add: u_def) (simp add: await_transition_def await_end_def after_def)
  then show ?thesis unfolding s notice_ok_def using a by (simp add: to_show_def u_def)
next
  case False
  then have "remove_class K_show t = t" by (simp add: remove_class_def)
  then show ?thesis using assms(1) False by (simp add: hide_toast_def element_has_def)
qed

subsection \<open>Events\<close>

lemma timers_take_job: "timers_ok t \<Longrightarrow> clk_jobs (t_clock t) \<noteq> [] \<Longrightarrow> timers_ok (t\<lparr>t_clock := take_job (t_clock t)\<rparr>)"
  unfolding timers_ok_def by (cases "clk_jobs (t_clock t)") (auto simp: take_job_def old_marks_def)

lemma enders_take_job [simp]:
  "enders_ok hs (t\<lparr>t_clock := c\<rparr>) = enders_ok hs t" "to_show (t\<lparr>t_clock := c\<rparr>) = to_show t"
  by (simp_all add: enders_ok_def to_show_def cong: ender.case_cong)

lemma notice_take_hide:
  assumes "notice_ok t" "clk_jobs (t_clock t) = (d, i, Job_hide n) # ks"
  shows "notice_ok (remove_class K_show (t\<lparr>t_clock := take_job (t_clock t)\<rparr>))"
proof -
  have "timers_ok (t\<lparr>t_clock := take_job (t_clock t)\<rparr>)"
    by (rule timers_take_job) (use assms in \<open>auto simp: notice_ok_def\<close>)
  moreover have "(\<exists>d i. (d, i, Job_end k) \<in> set (tl (clk_jobs (t_clock t))))
      \<longleftrightarrow> (\<exists>d i. (d, i, Job_end k) \<in> set (clk_jobs (t_clock t)))" for k using assms(2) by auto
  ultimately show ?thesis using assms(1) unfolding notice_ok_def
    by (simp add: take_job_def to_show_def)
qed

lemma notice_take_end:
  assumes "notice_ok t" "clk_jobs (t_clock t) = (d, i, Job_end k) # ks"
  shows "notice_ok (if k \<in> called (t_transitions t) then t\<lparr>t_clock := take_job (t_clock t)\<rparr>
    else transition_end (t\<lparr>t_clock := take_job (t_clock t)\<rparr>))"
proof -
  let ?u = "t\<lparr>t_clock := take_job (t_clock t)\<rparr>"
  have u: "timers_ok ?u" by (rule timers_take_job) (use assms in \<open>auto simp: notice_ok_def\<close>)
  have h: "hides ?u = hides t" using assms(2) by (auto simp: hides_def take_job_def)
  show ?thesis
  proof (cases "k \<in> called (t_transitions t)")
    case True
    have "m \<notin> called (t_transitions t) \<and> (\<exists>d i. (d, i, Job_end m) \<in> set (tl (clk_jobs (t_clock t))))
        \<longleftrightarrow> m \<notin> called (t_transitions t) \<and> (\<exists>d i. (d, i, Job_end m) \<in> set (clk_jobs (t_clock t)))" for m
      using assms(2) True by auto
    moreover have "clk_jobs (t_clock ?u) = tl (clk_jobs (t_clock t))" by (simp add: take_job_def)
    ultimately show ?thesis using True u assms(1) h unfolding notice_ok_def by simp
  next
    case False
    have "settled_notice (transition_end ?u)" unfolding transition_end_def
      by (rule run_enders_ok) (use u h assms(1) in \<open>auto simp: notice_ok_def\<close>)
    then show ?thesis using False settled_notice_ok by simp
  qed
qed

lemma fire_ok:
  assumes "notice_ok t" "\<not> prevents Ev_hide" "clk_jobs (t_clock t) \<noteq> []"
  shows "notice_ok (fire_toast prevents t)"
proof -
  obtain d i j ks where j: "clk_jobs (t_clock t) = (d, i, j) # ks" using assms(3) by (metis neq_Nil_conv prod_cases3)
  let ?u = "t\<lparr>t_clock := take_job (t_clock t)\<rparr>"
  show ?thesis
  proof (cases j)
    case (Job_end k)
    then show ?thesis using notice_take_end [OF assms(1)] j by (simp add: fire_toast_def run_job_def)
  next
    case (Job_hide n)
    then have n: "n = t_instance t" "t_config t = Some page_config"
      using assms(1) j unfolding notice_ok_def timers_ok_def by auto
    have "notice_ok (hide_toast prevents page_config ?u)"
      using hide_toast_ok [of ?u prevents] notice_take_hide [OF assms(1)] j n assms(2) by (simp add: Job_hide)
    then show ?thesis using j n by (simp add: fire_toast_def run_job_def Job_hide live_def)
  qed
qed

lemma notice_clock: "notice_ok t \<Longrightarrow> notice_ok (t\<lparr>t_clock := (t_clock t)\<lparr>clk_now := n\<rparr>\<rparr>)"
  by (simp add: notice_ok_def timers_ok_def hides_def old_marks_def)

lemma wait_ok: "notice_ok t \<Longrightarrow> \<not> prevents Ev_hide \<Longrightarrow> notice_ok (wait_until prevents T t)"
proof (induction prevents T t rule: wait_until.induct)
  case (1 prevents T t)
  then show ?case
    by (subst wait_until.simps) (auto intro: fire_ok notice_clock)
qed

datatype toast_input = In_error js_string | In_dismiss | In_transition_end | In_wait nat

fun toast_step :: "(toast_event \<Rightarrow> bool) \<Rightarrow> toast_input \<Rightarrow> toast \<Rightarrow> toast" where
  "toast_step prevents (In_error m) t = snd (toast_error prevents m t)"
| "toast_step prevents In_dismiss t = click_dismiss prevents t"
| "toast_step prevents In_transition_end t = transition_end t"
| "toast_step prevents (In_wait T) t = wait_until prevents T t"

definition toast_run :: "(toast_event \<Rightarrow> bool) \<Rightarrow> toast_input list \<Rightarrow> toast \<Rightarrow> toast" where
  "toast_run prevents ins t = fold (toast_step prevents) ins t"

lemma notice_asked: "notice_ok t \<Longrightarrow> notice_ok (asked m t)"
proof -
  assume ok: "notice_ok t"
  show ?thesis
  proof (cases "t_config t")
    case None
    then have "clk_jobs (t_clock t) = []" using ok unfolding notice_ok_def timers_ok_def
      by (cases "clk_jobs (t_clock t)") auto
    moreover from this have "enders (t_transitions t) = []" using ok unfolding notice_ok_def by fastforce
    ultimately show ?thesis using ok None
      by (simp add: notice_ok_def asked_def timers_ok_def enders_ok_def hides_def old_marks_def)
  next
    case (Some c)
    then have "c = page_config" using ok by (simp add: notice_ok_def timers_ok_def)
    then have "asked m t = t\<lparr>t_title := js ''Error'', t_body := m\<rparr>" using Some by (cases t) (simp add: asked_def)
    then show ?thesis using ok by (simp add: notice_ok_def timers_ok_def enders_ok_def hides_def old_marks_def to_show_def cong: ender.case_cong)
  qed
qed

lemma step_ok:
  assumes "notice_ok t" "\<not> prevents Ev_hide"
  shows "notice_ok (toast_step prevents i t)"
proof (cases i)
  case (In_error m)
  have "t_config t \<in> {None, Some page_config}" using assms(1) by (simp add: notice_ok_def timers_ok_def)
  from toast_error_asked [OF this] show ?thesis
    using show_toast_ok [OF notice_asked [OF assms(1)], of m] by (simp add: In_error asked_def)
next
  case In_dismiss
  have "notice_ok (remove_class K_show t)" using assms(1) by (auto simp: notice_ok_def to_show_def)
  moreover have "t_config t \<in> {None, Some page_config}" using assms(1) by (simp add: notice_ok_def timers_ok_def)
  ultimately show ?thesis using hide_toast_ok [of t prevents] assms
    by (auto simp: In_dismiss click_dismiss_def)
qed (use assms transition_end_ok wait_ok in auto)

text \<open>
  Property C25.  No notice stays for ever: after any sequence of notices, clicks on the button that
  dismisses, ends of transitions and waiting, the timers of the page come to rest, and then no notice
  is visible and the next one will be shown for its time.
\<close>

theorem notices_end:
  assumes "\<not> prevents Ev_hide"
  shows "\<exists>n \<le> toast_load (toast_run prevents ins (idle_page d)).
    at_rest ((fire_toast prevents ^^ n) (toast_run prevents ins (idle_page d)))
    \<and> \<not> displayed ((fire_toast prevents ^^ n) (toast_run prevents ins (idle_page d)))"
proof -
  define t where "t = toast_run prevents ins (idle_page d)"
  have "notice_ok (idle_page d)"
    by (simp add: idle_page_def notice_ok_def timers_ok_def enders_ok_def old_marks_def no_transitions_def fresh_clock_def)
  moreover have "notice_ok (fold (toast_step prevents) ins u)" if "notice_ok u" for u
    using that by (induction ins arbitrary: u) (simp_all add: step_ok assms(1))
  ultimately have "notice_ok t" by (simp add: t_def toast_run_def)
  from toast_timers.rest_with [of notice_ok t, OF this fire_ok] assms(1) obtain n where
    n: "n \<le> toast_load t" "clk_jobs (t_clock ((fire_toast prevents ^^ n) t)) = []" "notice_ok ((fire_toast prevents ^^ n) t)"
    by blast
  then have "at_rest ((fire_toast prevents ^^ n) t)"
    unfolding at_rest_def notice_ok_def timers_ok_def hides_def by auto
  then show ?thesis using n(1) rest_not_displayed unfolding t_def by blast
qed

theorem notices_end_witness:
  "\<exists>n. \<not> displayed ((fire_toast (\<lambda>_. False) ^^ n)
     (toast_run (\<lambda>_. False) [In_error (js ''a''), In_wait 10, In_error (js ''b''), In_dismiss, In_wait 400, In_transition_end] (idle_page 150)))"
  using notices_end [of "\<lambda>_. False"] by blast

section \<open>A notice that is lost\<close>

text \<open>
  While a notice fades out the listener that hides it is registered before the one of a new notice, so
  the class \<open>hide\<close> comes back when the new notice is complete: the new notice is visible for the
  rest of the fading only.
\<close>

lemma run_enders_hide: "K_hide \<in> t_classes t \<Longrightarrow> K_hide \<in> t_classes (run_enders hs t)"
proof (induction hs arbitrary: t)
  case (Cons h hs)
  then show ?case
    by (cases h) (auto simp: Let_def show_complete_fields hide_complete_fields split: toast_complete.split option.split)
qed simp

lemma fire_hide: "K_hide \<in> t_classes t \<Longrightarrow> K_hide \<in> t_classes (fire_toast prevents t)"
  by (auto simp: fire_toast_def run_job_def transition_end_def hide_toast_def close_toast_def Let_def run_enders_hide
      split: list.split toast_job.split option.split)

lemma wait_hidden: "K_hide \<in> t_classes t \<Longrightarrow> \<not> displayed (wait_until prevents T t)"
proof (induction prevents T t rule: wait_until.induct)
  case (1 prevents T t)
  then show ?case by (subst wait_until.simps) (auto simp: fire_hide displayed_def)
qed

lemma notice_during_fade_out_is_lost:
  assumes "fading e m t" "e \<le> clk_now (t_clock t) + t_duration t" "\<not> prevents Ev_show" "timers_ok t" "e \<le> T"
  shows "\<not> displayed (wait_until prevents T (snd (toast_error prevents m' t)))"
proof -
  define u where "u = snd (toast_error prevents m' t)"
  obtain k n where f: "enders (t_transitions t) = [Ender (Hide_complete (t_instance t)), Mark k]" "k \<notin> called (t_transitions t)"
    "clk_jobs (t_clock t) = [(e, n, Job_end k)]" "t_config t = Some page_config" "clk_now (t_clock t) \<le> e"
    using assms(1) by (auto simp: fading_def phase_def)
  have u: "u = show_toast prevents page_config (asked m' t)"
    unfolding u_def using toast_error_asked [of t prevents m'] f(4) by simp
  have "t_timeout t \<noteq> Some n" using assms(4) f(3) unfolding timers_ok_def by auto
  have "hd (clk_jobs (t_clock u)) = (e, n, Job_end k)" "clk_jobs (t_clock u) \<noteq> []" "k \<notin> called (t_transitions u)"
    "enders (t_transitions u) = [Ender (Hide_complete (t_instance u)), Mark k, Ender (Show_complete (t_instance u)), Mark (emulations (t_transitions t))]"
    "t_config u = Some page_config"
    using f assms(2,3) \<open>t_timeout t \<noteq> Some n\<close> by (auto simp: u asked_def toast_ops split: option.split)
  then have "K_hide \<in> t_classes (fire_toast prevents u)"
    by (cases "clk_jobs (t_clock u)") (auto simp: fire_toast_def run_job_def transition_end_def live_def Let_def)
  then have "\<not> displayed (wait_until prevents T (fire_toast prevents u))" by (rule wait_hidden)
  then show ?thesis using assms(5) \<open>hd (clk_jobs (t_clock u)) = _\<close> \<open>clk_jobs (t_clock u) \<noteq> []\<close>
    unfolding u_def [symmetric] by (subst wait_until.simps) simp
qed

end
