(* ===== verification/Bs_Collapse.thy ===== *)
theory Bs_Collapse
  imports Bs_Util
begin

text \<open>
  The plugin \<open>Collapse\<close> of \<open>bootstrap.js\<close>: panels that open and close, one at a time under a common
  parent, and the triggers that a click toggles them with.

  The document is a list of panels and a list of triggers, referred to by position; a trigger names
  one panel.  The instances of the plugin are objects of their own, because the listeners that
  complete a transition keep theirs when the element gets another one.  An element of a common parent
  is taken to be inside of it.  Which events the application prevents the default of is a parameter.
\<close>

section \<open>State\<close>

datatype size = Auto | Px nat

datatype collapse_complete = Opened nat | Closed nat

record panel =
  p_classes :: "bs_class set"
  p_parent :: js_string
  p_data :: "nat option"
  p_width :: size
  p_height :: size
  p_extent :: nat
  p_transitions :: "collapse_complete transitions"

record panel_trigger =
  tr_target :: nat
  tr_parent :: js_string
  tr_collapsed :: bool
  tr_expanded :: bool

record instance_obj =
  i_element :: "nat option"
  i_parent :: "js_string option"
  i_triggers :: "nat list"
  i_transitioning :: bool

datatype collapse_event = On_show nat | On_shown nat | On_hide nat | On_hidden nat

record doc =
  panels :: "panel list"
  triggers :: "panel_trigger list"
  instances :: "instance_obj list"
  d_duration :: nat
  d_clock :: "(nat \<times> nat) clock"
  d_events :: "collapse_event list"
  d_errors :: nat

type_synonym 'a doc_op = "(doc, 'a) op"

definition on_panel :: "nat \<Rightarrow> (panel \<Rightarrow> panel) \<Rightarrow> doc \<Rightarrow> doc" where
  "on_panel p f d = d\<lparr>panels := (panels d)[p := f (panels d ! p)]\<rparr>"

definition on_instance :: "nat \<Rightarrow> (instance_obj \<Rightarrow> instance_obj) \<Rightarrow> doc \<Rightarrow> doc" where
  "on_instance i f d = d\<lparr>instances := (instances d)[i := f (instances d ! i)]\<rparr>"

definition on_triggers :: "nat list \<Rightarrow> (panel_trigger \<Rightarrow> panel_trigger) \<Rightarrow> doc \<Rightarrow> doc" where
  "on_triggers ts f d = d\<lparr>triggers := fold (\<lambda>t trs. trs[t := f (trs ! t)]) ts (triggers d)\<rparr>"

definition dispatch :: "collapse_event \<Rightarrow> doc \<Rightarrow> doc" where
  "dispatch e d = d\<lparr>d_events := d_events d @ [e]\<rparr>"

definition has_class :: "bs_class \<Rightarrow> nat \<Rightarrow> doc \<Rightarrow> bool" where
  "has_class k p d = (k \<in> p_classes (panels d ! p))"

definition change_classes :: "bs_class set \<Rightarrow> bs_class set \<Rightarrow> nat \<Rightarrow> doc \<Rightarrow> doc" where
  "change_classes remove add p = on_panel p (\<lambda>e. e\<lparr>p_classes := p_classes e - remove \<union> add\<rparr>)"

definition setTransitioning :: "bool \<Rightarrow> nat \<Rightarrow> doc \<Rightarrow> doc" where
  "setTransitioning b i = on_instance i (\<lambda>o'. o'\<lparr>i_transitioning := b\<rparr>)"

definition set_size :: "size \<Rightarrow> panel \<Rightarrow> panel" where
  "set_size s e = (if K_width \<in> p_classes e then e\<lparr>p_width := s\<rparr> else e\<lparr>p_height := s\<rparr>)"

definition await_panel :: "nat \<Rightarrow> collapse_complete \<Rightarrow> doc \<Rightarrow> doc" where
  "await_panel p c d =
     (case await_end c (p_transitions (panels d ! p)) of (k, tr) \<Rightarrow>
        (on_panel p (\<lambda>e. e\<lparr>p_transitions := tr\<rparr>) d)\<lparr>d_clock := start_timer (d_duration d) (p, k) (d_clock d)\<rparr>)"

section \<open>Opening and closing\<close>

text \<open>The open and moving panels of the parent, in the order of the document.\<close>

definition actives :: "js_string option \<Rightarrow> doc \<Rightarrow> nat list" where
  "actives parent d =
     (case parent of
        None \<Rightarrow> []
      | Some s \<Rightarrow> filter (\<lambda>p. p_parent (panels d ! p) = s \<and> (has_class K_show p d \<or> has_class K_collapsing p d)) [0..<length (panels d)])"

definition instance_of :: "nat \<Rightarrow> doc \<Rightarrow> (nat \<times> instance_obj) option" where
  "instance_of p d = map_option (\<lambda>i. (i, instances d ! i)) (p_data (panels d ! p))"

text \<open>\<open>hide\<close>: the triggers whose panel is not open any more say so.\<close>

definition hide_panel :: "(collapse_event \<Rightarrow> bool) \<Rightarrow> nat \<Rightarrow> doc \<Rightarrow> doc" where
  "hide_panel prevents i d =
     (case i_element (instances d ! i) of
        None \<Rightarrow> d
      | Some p \<Rightarrow>
          if i_transitioning (instances d ! i) \<or> \<not> has_class K_show p d then d
          else
            let d = dispatch (On_hide p) d in
            if prevents (On_hide p) then d
            else
              let d = on_panel p (\<lambda>e. set_size (Px (p_extent e)) e) d;
                  d = change_classes {K_collapse, K_show} {K_collapsing} p d;
                  d = on_triggers (filter (\<lambda>t. \<not> has_class K_show (tr_target (triggers d ! t)) d) (i_triggers (instances d ! i)))
                        (\<lambda>t. t\<lparr>tr_collapsed := True, tr_expanded := False\<rparr>) d;
                  d = setTransitioning True i d;
                  d = on_panel p (set_size Auto) d
              in await_panel p (Closed i) d)"

definition panel_hidden :: "nat \<Rightarrow> doc \<Rightarrow> doc" where
  "panel_hidden i d =
     (let d = setTransitioning False i d in
      case i_element (instances d ! i) of
        None \<Rightarrow> d
      | Some p \<Rightarrow> dispatch (On_hidden p) (change_classes {K_collapsing} {K_collapse} p d))"

text \<open>A disposed instance has no element: the listener fails at the style of \<open>null\<close>.\<close>

definition panel_shown :: "nat \<Rightarrow> doc \<Rightarrow> doc option" where
  "panel_shown i d =
     (case i_element (instances d ! i) of
        None \<Rightarrow> None
      | Some p \<Rightarrow>
          Some (dispatch (On_shown p) (setTransitioning False i
            (on_panel p (set_size Auto) (change_classes {K_collapsing} {K_collapse, K_show} p d)))))"

text \<open>The constructor, before it toggles; \<open>_getParent\<close> marks the triggers of the parent.\<close>

definition mark_triggers :: "nat list \<Rightarrow> doc \<Rightarrow> doc" where
  "mark_triggers ts d =
     on_triggers ts (\<lambda>t. let isOpen = has_class K_show (tr_target t) d in t\<lparr>tr_collapsed := \<not> isOpen, tr_expanded := isOpen\<rparr>) d"

definition trigger_indices :: "(panel_trigger \<Rightarrow> bool) \<Rightarrow> doc \<Rightarrow> nat list" where
  "trigger_indices P d = filter (\<lambda>t. P (triggers d ! t)) [0..<length (triggers d)]"

definition new_collapse :: "nat \<Rightarrow> js_string \<Rightarrow> doc \<Rightarrow> nat \<times> doc" where
  "new_collapse p parent d =
     (let ts = trigger_indices (\<lambda>t. tr_target t = p) d;
          i = length (instances d);
          d = d\<lparr>instances := instances d @ [\<lparr>i_element = Some p, i_parent = (if parent = [] then None else Some parent),
                 i_triggers = ts, i_transitioning = False\<rparr>]\<rparr>;
          d = mark_triggers (if parent = [] then ts else trigger_indices (\<lambda>t. tr_parent t = parent) d) d
      in (i, d))"

definition attach :: "nat \<Rightarrow> nat \<Rightarrow> doc \<Rightarrow> doc" where
  "attach p i = on_panel p (\<lambda>e. e\<lparr>p_data := Some i\<rparr>)"

text \<open>The other panels are closed through the jQuery method, which makes an instance if there is none.\<close>

definition hide_other :: "(collapse_event \<Rightarrow> bool) \<Rightarrow> nat \<Rightarrow> doc \<Rightarrow> doc" where
  "hide_other prevents p d =
     (case p_data (panels d ! p) of
        Some i \<Rightarrow> hide_panel prevents i d
      | None \<Rightarrow> (case new_collapse p (p_parent (panels d ! p)) d of (i, d) \<Rightarrow> hide_panel prevents i (attach p i d)))"

definition open_panel :: "nat \<Rightarrow> nat \<Rightarrow> doc \<Rightarrow> doc" where
  "open_panel i p d =
     (let d = change_classes {K_collapse} {K_collapsing} p d;
          d = on_panel p (set_size (Px 0)) d;
          d = on_triggers (i_triggers (instances d ! i)) (\<lambda>t. t\<lparr>tr_collapsed := False, tr_expanded := True\<rparr>) d;
          d = setTransitioning True i d;
          d = await_panel p (Opened i) d
      in on_panel p (\<lambda>e. set_size (Px (p_extent e)) e) d)"

definition show_panel :: "(collapse_event \<Rightarrow> bool) \<Rightarrow> nat \<Rightarrow> doc \<Rightarrow> doc" where
  "show_panel prevents i d =
     (case i_element (instances d ! i) of
        None \<Rightarrow> d
      | Some p \<Rightarrow>
          if i_transitioning (instances d ! i) \<or> has_class K_show p d then d
          else
            let as = filter (\<lambda>q. q \<noteq> p) (actives (i_parent (instances d ! i)) d);
                activesData = (case as of [] \<Rightarrow> None | q # _ \<Rightarrow> instance_of q d)
            in if \<exists>x. activesData = Some x \<and> i_transitioning (snd x) then d
               else
                 let d = dispatch (On_show p) d in
                 if prevents (On_show p) then d
                 else
                   let d = fold (hide_other prevents) as d;
                       d = (if as \<noteq> [] \<and> activesData = None then fold (\<lambda>q. on_panel q (\<lambda>e. e\<lparr>p_data := None\<rparr>)) as d else d)
                   in open_panel i p d)"

definition toggle_panel :: "(collapse_event \<Rightarrow> bool) \<Rightarrow> nat \<Rightarrow> doc \<Rightarrow> doc" where
  "toggle_panel prevents i d =
     (case i_element (instances d ! i) of
        None \<Rightarrow> d
      | Some p \<Rightarrow> if has_class K_show p d then hide_panel prevents i d else show_panel prevents i d)"

definition dispose_panel :: "nat \<Rightarrow> doc \<Rightarrow> doc" where
  "dispose_panel i d =
     (case i_element (instances d ! i) of
        None \<Rightarrow> d
      | Some p \<Rightarrow>
          on_instance i (\<lambda>o'. o'\<lparr>i_element := None, i_parent := None, i_triggers := [], i_transitioning := False\<rparr>)
            (on_panel p (\<lambda>e. e\<lparr>p_data := None\<rparr>) d))"

section \<open>The jQuery method and the clicks\<close>

datatype collapse_call = Settings "bool option" "js_string option" | Call js_string

text \<open>Settings of the call, of the attributes of the panel, and the defaults.\<close>

definition call_toggle :: "collapse_call \<Rightarrow> bool" where
  "call_toggle c = (case c of Settings (Some b) _ \<Rightarrow> b | Settings None _ \<Rightarrow> True | Call m \<Rightarrow> m \<noteq> js ''show'' \<and> m \<noteq> js ''hide'')"

definition call_parent :: "collapse_call \<Rightarrow> panel \<Rightarrow> js_string" where
  "call_parent c e = (case c of Settings _ (Some s) \<Rightarrow> s | _ \<Rightarrow> p_parent e)"

definition call_panel :: "(collapse_event \<Rightarrow> bool) \<Rightarrow> js_string \<Rightarrow> nat \<Rightarrow> unit doc_op" where
  "call_panel prevents m i =
     (if m = js ''show'' then modify (show_panel prevents i)
      else if m = js ''hide'' then modify (hide_panel prevents i)
      else if m = js ''toggle'' then modify (toggle_panel prevents i)
      else if m = js ''dispose'' then modify (dispose_panel i)
      else throw Type_error)"

definition collapse_plugin :: "(collapse_event \<Rightarrow> bool) \<Rightarrow> collapse_call \<Rightarrow> nat \<Rightarrow> unit doc_op" where
  "collapse_plugin prevents c p =
     reading (\<lambda>d. panels d ! p) (\<lambda>e.
     seqn
       (if p_data e = None
        then modify (\<lambda>d. case new_collapse p (call_parent c e) d of (i, d) \<Rightarrow>
               attach p i (if call_toggle c then toggle_panel prevents i d else d))
        else ret ())
       (case c of
          Settings _ _ \<Rightarrow> ret ()
        | Call m \<Rightarrow> reading (\<lambda>d. p_data (panels d ! p)) (\<lambda>data.
            case data of None \<Rightarrow> ret () | Some i \<Rightarrow> call_panel prevents m i)))"

text \<open>A click: the attribute \<open>data-toggle\<close> of the trigger is a setting that counts as true.\<close>

definition click_trigger :: "(collapse_event \<Rightarrow> bool) \<Rightarrow> nat \<Rightarrow> doc \<Rightarrow> doc" where
  "click_trigger prevents t d =
     (let p = tr_target (triggers d ! t) in
      snd (collapse_plugin prevents
        (case p_data (panels d ! p) of
           Some _ \<Rightarrow> Call (js ''toggle'')
         | None \<Rightarrow> Settings (Some True) (if tr_parent (triggers d ! t) = [] then None else Some (tr_parent (triggers d ! t)))) p d))"

section \<open>The end of a transition\<close>

fun run_panel_enders :: "nat \<Rightarrow> collapse_complete ender list \<Rightarrow> doc \<Rightarrow> doc" where
  "run_panel_enders p [] d = d"
| "run_panel_enders p (h # hs) d =
     (let d = on_panel p (\<lambda>e. e\<lparr>p_transitions := drop_first (p_transitions e)\<rparr>) d in
      case h of
        Mark k \<Rightarrow> run_panel_enders p hs (on_panel p (\<lambda>e. e\<lparr>p_transitions := mark k (p_transitions e)\<rparr>) d)
      | Ender (Opened i) \<Rightarrow>
          (case panel_shown i d of None \<Rightarrow> d\<lparr>d_errors := Suc (d_errors d)\<rparr> | Some d \<Rightarrow> run_panel_enders p hs d)
      | Ender (Closed i) \<Rightarrow> run_panel_enders p hs (panel_hidden i d))"

definition panel_end :: "nat \<Rightarrow> doc \<Rightarrow> doc" where
  "panel_end p d = run_panel_enders p (enders (p_transitions (panels d ! p))) d"

definition fire_panel :: "doc \<Rightarrow> doc" where
  "fire_panel d =
     (case clk_jobs (d_clock d) of
        [] \<Rightarrow> d
      | (_, _, p, k) # _ \<Rightarrow>
          let d = d\<lparr>d_clock := take_job (d_clock d)\<rparr>
          in if k \<in> called (p_transitions (panels d ! p)) then d else panel_end p d)"

end
