(* ===== verification/Bs_Collapse_Correct.thy ===== *)
theory Bs_Collapse_Correct
  imports Bs_Collapse
begin

text \<open>
  The panels as an abstract machine: a panel is closed, open, opening or closing, a click toggles a
  panel at rest, a panel that opens closes the open one of its parent, and a moving panel ignores
  clicks.  The plugin refines this machine.
\<close>

section \<open>The abstract machine\<close>

datatype panel_state = Is_closed | Is_open | Opening | Closing

definition moving :: "panel_state \<Rightarrow> bool" where
  "moving s \<longleftrightarrow> s = Opening \<or> s = Closing"

definition wants_open :: "panel_state \<Rightarrow> bool" where
  "wants_open s \<longleftrightarrow> s = Is_open \<or> s = Opening"

text \<open>\<open>par\<close> gives the parents of the panels; the siblings that are not closed, in the order of the document.\<close>

definition siblings :: "js_string list \<Rightarrow> nat \<Rightarrow> (nat \<Rightarrow> panel_state) \<Rightarrow> nat list" where
  "siblings par p s = (if par ! p = [] then [] else filter (\<lambda>q. q \<noteq> p \<and> par ! q = par ! p \<and> s q \<noteq> Is_closed) [0..<length par])"

definition a_show :: "js_string list \<Rightarrow> nat \<Rightarrow> (nat \<Rightarrow> panel_state) \<Rightarrow> nat \<Rightarrow> panel_state" where
  "a_show par p s =
     (if s p \<noteq> Is_closed then s
      else case siblings par p s of
        [] \<Rightarrow> s(p := Opening)
      | q # _ \<Rightarrow> if moving (s q) then s else s(q := Closing, p := Opening))"

definition a_hide :: "nat \<Rightarrow> (nat \<Rightarrow> panel_state) \<Rightarrow> nat \<Rightarrow> panel_state" where
  "a_hide p s = (if s p = Is_open then s(p := Closing) else s)"

definition a_toggle :: "js_string list \<Rightarrow> nat \<Rightarrow> (nat \<Rightarrow> panel_state) \<Rightarrow> nat \<Rightarrow> panel_state" where
  "a_toggle par p s = (if s p = Is_open then a_hide p s else a_show par p s)"

definition arrive :: "panel_state \<Rightarrow> panel_state" where
  "arrive s = (case s of Opening \<Rightarrow> Is_open | Closing \<Rightarrow> Is_closed | _ \<Rightarrow> s)"

definition a_end :: "nat \<Rightarrow> (nat \<Rightarrow> panel_state) \<Rightarrow> nat \<Rightarrow> panel_state" where
  "a_end p s = s(p := arrive (s p))"

text \<open>At most one panel of a parent is open or opens.\<close>

definition accordion :: "js_string list \<Rightarrow> (nat \<Rightarrow> panel_state) \<Rightarrow> bool" where
  "accordion par s \<longleftrightarrow> (\<forall>p < length par. \<forall>q < length par. p \<noteq> q \<longrightarrow> par ! p \<noteq> [] \<longrightarrow> par ! p = par ! q \<longrightarrow>
     \<not> (wants_open (s p) \<and> wants_open (s q)))"

lemma siblings_Nil:
  "siblings par p s = [] \<Longrightarrow> par ! p \<noteq> [] \<Longrightarrow> q < length par \<Longrightarrow> q \<noteq> p \<Longrightarrow> par ! q = par ! p \<Longrightarrow> s q = Is_closed"
  by (auto simp: siblings_def filter_empty_conv)

lemma siblings_Cons:
  "siblings par p s = q # qs \<Longrightarrow> par ! p \<noteq> [] \<and> q < length par \<and> q \<noteq> p \<and> par ! q = par ! p \<and> s q \<noteq> Is_closed"
proof -
  assume e: "siblings par p s = q # qs"
  then have "q \<in> set (siblings par p s)" by simp
  moreover have "par ! p \<noteq> []" using e by (auto simp: siblings_def split: if_splits)
  ultimately show ?thesis by (auto simp: siblings_def)
qed

lemma accordion_show:
  assumes "accordion par s" "p < length par"
  shows "accordion par (a_show par p s)"
proof (cases "s p = Is_closed")
  case True
  show ?thesis
  proof (cases "siblings par p s")
    case Nil
    then show ?thesis using assms siblings_Nil [OF Nil] True
      unfolding accordion_def a_show_def by (auto simp: wants_open_def)
  next
    case (Cons q qs)
    note q = siblings_Cons [OF Cons]
    show ?thesis
    proof (cases "moving (s q)")
      case True
      then show ?thesis using assms by (simp add: a_show_def Cons)
    next
      case False
      then have "wants_open (s q)" using q by (cases "s q") (auto simp: moving_def wants_open_def)
      then have "\<not> wants_open (s r)" if "r < length par" "r \<noteq> q" "par ! r = par ! p" for r
        using assms(1) that q unfolding accordion_def by metis
      then show ?thesis using assms(1) True False q
        unfolding accordion_def a_show_def by (auto simp: Cons wants_open_def)
    qed
  qed
next
  case False
  then show ?thesis using assms by (simp add: a_show_def)
qed

lemma accordion_hide: "accordion par s \<Longrightarrow> accordion par (a_hide p s)"
  by (auto simp: accordion_def a_hide_def wants_open_def)

lemma accordion_end: "accordion par s \<Longrightarrow> accordion par (a_end p s)"
  by (auto simp: accordion_def a_end_def wants_open_def arrive_def split: panel_state.splits)

section \<open>What an operation on one panel changes\<close>

abbreviation quiet :: "collapse_event \<Rightarrow> bool" where
  "quiet \<equiv> \<lambda>_. False"

definition touches :: "nat \<Rightarrow> doc \<Rightarrow> doc \<Rightarrow> bool" where
  "touches p d d' \<longleftrightarrow> length (panels d') = length (panels d) \<and> (\<forall>q. p_parent (panels d' ! q) = p_parent (panels d ! q))
     \<and> (\<forall>q. q \<noteq> p \<longrightarrow> panels d' ! q = panels d ! q)
     \<and> length (instances d') = length (instances d) \<and> (\<forall>j. i_element (instances d ! j) \<noteq> Some p \<longrightarrow> instances d' ! j = instances d ! j)
     \<and> length (triggers d') = length (triggers d) \<and> (\<forall>t. tr_target (triggers d' ! t) = tr_target (triggers d ! t))
     \<and> (\<forall>t. tr_parent (triggers d' ! t) = tr_parent (triggers d ! t))
     \<and> (\<forall>t. tr_target (triggers d ! t) \<noteq> p \<longrightarrow> triggers d' ! t = triggers d ! t)
     \<and> set (clk_jobs (d_clock d)) \<subseteq> set (clk_jobs (d_clock d'))
     \<and> set (clk_jobs (d_clock d')) \<subseteq> set (clk_jobs (d_clock d)) \<union> {(t, j, q, k). q = p}"

lemma touches_refl: "touches p d d"
  by (simp add: touches_def)

lemma touchesD:
  assumes "touches p d d'"
  shows "length (panels d') = length (panels d)" "p_parent (panels d' ! q) = p_parent (panels d ! q)"
    "q \<noteq> p \<Longrightarrow> panels d' ! q = panels d ! q" "length (instances d') = length (instances d)"
    "i_element (instances d ! j) \<noteq> Some p \<Longrightarrow> instances d' ! j = instances d ! j"
    "length (triggers d') = length (triggers d)" "tr_target (triggers d' ! t) = tr_target (triggers d ! t)"
    "tr_parent (triggers d' ! t) = tr_parent (triggers d ! t)"
    "tr_target (triggers d ! t) \<noteq> p \<Longrightarrow> triggers d' ! t = triggers d ! t"
    "set (clk_jobs (d_clock d)) \<subseteq> set (clk_jobs (d_clock d'))"
    "set (clk_jobs (d_clock d')) \<subseteq> set (clk_jobs (d_clock d)) \<union> {(t, j, q, k). q = p}"
  using assms unfolding touches_def by blast+

lemma touches_trans:
  assumes "touches p d d'" "touches p d' d''"
  shows "touches p d d''"
proof -
  note 1 = touchesD [OF assms(1)] and 2 = touchesD [OF assms(2)]
  have "set (clk_jobs (d_clock d'')) \<subseteq> set (clk_jobs (d_clock d)) \<union> {(t, j, q, k). q = p}" using 1(11) 2(11) by blast
  then show ?thesis unfolding touches_def
    by (intro conjI allI impI) (simp_all only: 1 2 not_False_eq_True subset_trans [OF 1(10) 2(10)])
qed

lemma nth_upd: "xs[p := f (xs ! p)] ! q = (if q = p \<and> p < length xs then f (xs ! p) else xs ! q)"
  by (cases "p < length xs") (auto simp: list_update_beyond)

lemma touches_on_panel: "(\<And>e. p_parent (f e) = p_parent e) \<Longrightarrow> touches p d (on_panel p f d)"
  by (auto simp: touches_def on_panel_def nth_upd)

lemma touches_on_instance: "i_element (instances d ! i) = Some p \<Longrightarrow> touches p d (on_instance i f d)"
  by (auto simp: touches_def on_instance_def nth_upd)

lemma nth_fold_triggers:
  "distinct ts \<Longrightarrow> fold (\<lambda>t trs. trs[t := f (trs ! t)]) ts trs ! t = (if t \<in> set ts \<and> t < length trs then f (trs ! t) else trs ! t)"
  by (induction ts arbitrary: trs) (auto simp: nth_upd)

lemma length_fold_triggers [simp]: "length (fold (\<lambda>t trs. trs[t := f (trs ! t)]) ts trs) = length trs"
  by (induction ts arbitrary: trs) auto

lemma nth_on_triggers:
  "distinct ts \<Longrightarrow> triggers (on_triggers ts f d) ! t = (if t \<in> set ts \<and> t < length (triggers d) then f (triggers d ! t) else triggers d ! t)"
  by (simp add: on_triggers_def nth_fold_triggers)

lemma touches_on_triggers:
  assumes "distinct ts" "\<forall>t \<in> set ts. tr_target (triggers d ! t) = p"
    and "\<And>t. tr_target (f t) = tr_target t \<and> tr_parent (f t) = tr_parent t"
  shows "touches p d (on_triggers ts f d)"
  using assms unfolding touches_def by (auto simp: nth_on_triggers) (simp_all add: on_triggers_def)

lemma touches_dispatch: "touches p d (dispatch e d)"
  by (simp add: touches_def dispatch_def)

lemma p_parent_set_size [simp]: "p_parent (set_size z e) = p_parent e"
  by (simp add: set_size_def)

lemma touches_await: "touches p d (await_panel p c d)"
proof -
  have "touches p d (on_panel p (\<lambda>e. e\<lparr>p_transitions := tr\<rparr>) d)" for tr by (rule touches_on_panel) simp
  then show ?thesis unfolding await_panel_def await_end_def touches_def by (auto simp: start_timer_def on_panel_def)
qed

text \<open>The fields of the states between the statements of an operation.\<close>

lemma on_panel_fields [simp]:
  "instances (on_panel p f d) = instances d" "triggers (on_panel p f d) = triggers d" "d_clock (on_panel p f d) = d_clock d"
  "length (panels (on_panel p f d)) = length (panels d)"
  by (simp_all add: on_panel_def)

lemma nth_on_panel: "panels (on_panel p f d) ! q = (if q = p \<and> p < length (panels d) then f (panels d ! p) else panels d ! q)"
  by (simp add: on_panel_def nth_upd)

lemma on_instance_fields [simp]:
  "panels (on_instance i f d) = panels d" "triggers (on_instance i f d) = triggers d" "d_clock (on_instance i f d) = d_clock d"
  "length (instances (on_instance i f d)) = length (instances d)"
  by (simp_all add: on_instance_def)

lemma nth_on_instance: "instances (on_instance i f d) ! j = (if j = i \<and> i < length (instances d) then f (instances d ! i) else instances d ! j)"
  by (simp add: on_instance_def nth_upd)

lemma on_triggers_fields [simp]:
  "panels (on_triggers ts f d) = panels d" "instances (on_triggers ts f d) = instances d" "d_clock (on_triggers ts f d) = d_clock d"
  "length (triggers (on_triggers ts f d)) = length (triggers d)"
  by (simp_all add: on_triggers_def)

lemma dispatch_fields [simp]:
  "panels (dispatch e d) = panels d" "instances (dispatch e d) = instances d" "triggers (dispatch e d) = triggers d"
  "d_clock (dispatch e d) = d_clock d" "d_duration (dispatch e d) = d_duration d"
  by (simp_all add: dispatch_def)

lemma await_panel_fields [simp]:
  "instances (await_panel p c d) = instances d" "triggers (await_panel p c d) = triggers d"
  "length (panels (await_panel p c d)) = length (panels d)"
  by (simp_all add: await_panel_def await_end_def)

lemma nth_await: "panels (await_panel p c d) ! q = (if q = p \<and> p < length (panels d)
    then (panels d ! p)\<lparr>p_transitions := snd (await_end c (p_transitions (panels d ! p)))\<rparr> else panels d ! q)"
  by (simp add: await_panel_def await_end_def nth_on_panel)

lemma jobs_await: "set (clk_jobs (d_clock (await_panel p c d)))
    = insert (clk_now (d_clock d) + d_duration d, clk_next (d_clock d), p, emulations (p_transitions (panels d ! p))) (set (clk_jobs (d_clock d)))"
  by (simp add: await_panel_def await_end_def start_timer_def)

section \<open>Representation\<close>

definition looks :: "panel \<Rightarrow> bs_class set" where
  "looks e = p_classes e \<inter> {K_collapse, K_collapsing, K_show}"

definition state_looks :: "panel_state \<Rightarrow> bs_class set" where
  "state_looks s = (case s of Is_closed \<Rightarrow> {K_collapse} | Is_open \<Rightarrow> {K_collapse, K_show} | _ \<Rightarrow> {K_collapsing})"

definition parent_of :: "js_string \<Rightarrow> js_string option" where
  "parent_of s = (if s = [] then None else Some s)"

text \<open>The end of the transition of a panel is awaited, and a timer stands in for it.\<close>

definition waits :: "nat \<Rightarrow> collapse_complete \<Rightarrow> doc \<Rightarrow> bool" where
  "waits p c d \<longleftrightarrow> (\<exists>k. enders (p_transitions (panels d ! p)) = [Ender c, Mark k] \<and> k \<notin> called (p_transitions (panels d ! p))
     \<and> k < emulations (p_transitions (panels d ! p)) \<and> (\<exists>t j. (t, j, p, k) \<in> set (clk_jobs (d_clock d))))"

text \<open>The list holds all triggers of the panel, and each of them shows whether it is to be open.\<close>

definition triggers_show :: "nat list \<Rightarrow> nat \<Rightarrow> bool \<Rightarrow> doc \<Rightarrow> bool" where
  "triggers_show ts p b d \<longleftrightarrow> distinct ts \<and> (\<forall>t \<in> set ts. t < length (triggers d)
     \<and> tr_target (triggers d ! t) = p \<and> tr_expanded (triggers d ! t) = b \<and> tr_collapsed (triggers d ! t) = (\<not> b))
     \<and> (\<forall>t < length (triggers d). tr_target (triggers d ! t) = p \<longrightarrow> t \<in> set ts)"

definition panel_marks :: "panel \<Rightarrow> bool" where
  "panel_marks e \<longleftrightarrow> (\<forall>k \<in> called (p_transitions e). k < emulations (p_transitions e))"

text \<open>Panel \<open>p\<close> with the instance \<open>i\<close> is in the state \<open>s\<close>.\<close>

definition rep_i :: "nat \<Rightarrow> nat \<Rightarrow> panel_state \<Rightarrow> doc \<Rightarrow> bool" where
  "rep_i p i s d \<longleftrightarrow> looks (panels d ! p) = state_looks s \<and> panel_marks (panels d ! p)
     \<and> i < length (instances d) \<and> i_element (instances d ! i) = Some p \<and> i_parent (instances d ! i) = parent_of (p_parent (panels d ! p))
     \<and> i_transitioning (instances d ! i) = moving s
     \<and> (if moving s then waits p (if s = Opening then Opened i else Closed i) d else enders (p_transitions (panels d ! p)) = [])
     \<and> triggers_show (i_triggers (instances d ! i)) p (wants_open s) d"

definition rep :: "nat \<Rightarrow> panel_state \<Rightarrow> doc \<Rightarrow> bool" where
  "rep p s d \<longleftrightarrow> (case p_data (panels d ! p) of
       None \<Rightarrow> s = Is_closed \<and> looks (panels d ! p) = {K_collapse} \<and> enders (p_transitions (panels d ! p)) = []
         \<and> panel_marks (panels d ! p)
     | Some i \<Rightarrow> rep_i p i s d)"

lemma rep_i_frame:
  assumes t: "touches p d d'" and "q \<noteq> p" and r: "rep_i q i s d"
  shows "rep_i q i s d'"
proof -
  have e: "i_element (instances d ! i) = Some q" using r by (simp add: rep_i_def)
  note t = touchesD [OF t]
  have same: "panels d' ! q = panels d ! q" "instances d' ! i = instances d ! i" using t(3,5) assms(2) e by simp_all
  have "waits q c d \<Longrightarrow> waits q c d'" for c unfolding waits_def same using t(10) by blast
  moreover have "triggers_show ts q b d \<Longrightarrow> triggers_show ts q b d'" for ts b
    unfolding triggers_show_def using t(6,7,9) assms(2) by (metis (no_types, lifting))
  ultimately show ?thesis using r unfolding rep_i_def same t(4) by (simp split: if_splits)
qed

lemma rep_frame: "touches p d d' \<Longrightarrow> q \<noteq> p \<Longrightarrow> rep q s d \<Longrightarrow> rep q s d'"
  using touchesD(3) [of p d d' q] rep_i_frame [of p d d' q] by (simp add: rep_def split: option.splits)

lemma looks_K: "looks e = state_looks s \<Longrightarrow> (K_show \<in> p_classes e) = (s = Is_open)"
  "looks e = state_looks s \<Longrightarrow> (K_collapsing \<in> p_classes e) = moving s"
proof -
  assume e: "looks e = state_looks s"
  have "(K_show \<in> p_classes e) = (K_show \<in> looks e)" "(K_collapsing \<in> p_classes e) = (K_collapsing \<in> looks e)" by (simp_all add: looks_def)
  then show "(K_show \<in> p_classes e) = (s = Is_open)" "(K_collapsing \<in> p_classes e) = moving s"
    unfolding e by (cases s; simp add: state_looks_def moving_def)+
qed

section \<open>Operations\<close>

lemma p_parent_classes [simp]: "p_parent (e\<lparr>p_classes := c\<rparr>) = p_parent e" "p_parent (e\<lparr>p_transitions := t\<rparr>) = p_parent e"
  by simp_all

lemma touches_change_classes: "touches p d (change_classes A B p d)"
  unfolding change_classes_def by (rule touches_on_panel) simp

lemma touches_setTransitioning: "i_element (instances d ! i) = Some p \<Longrightarrow> touches p d (setTransitioning b i d)"
  unfolding setTransitioning_def by (rule touches_on_instance)

lemma change_classes_fields [simp]:
  "instances (change_classes A B p d) = instances d" "triggers (change_classes A B p d) = triggers d"
  "d_clock (change_classes A B p d) = d_clock d" "length (panels (change_classes A B p d)) = length (panels d)"
  by (simp_all add: change_classes_def)

lemma setTransitioning_fields [simp]:
  "panels (setTransitioning b i d) = panels d" "triggers (setTransitioning b i d) = triggers d" "d_clock (setTransitioning b i d) = d_clock d"
  "length (instances (setTransitioning b i d)) = length (instances d)"
  by (simp_all add: setTransitioning_def)

lemma nth_setTransitioning:
  "instances (setTransitioning b i d) ! j
    = (if j = i \<and> i < length (instances d) then (instances d ! i)\<lparr>i_transitioning := b\<rparr> else instances d ! j)"
  by (simp add: setTransitioning_def nth_on_instance)

lemma set_size_fields [simp]:
  "p_classes (set_size z e) = p_classes e" "p_data (set_size z e) = p_data e" "p_transitions (set_size z e) = p_transitions e"
  by (simp_all add: set_size_def)

lemmas panel_nths = nth_on_panel nth_await nth_setTransitioning

lemma triggers_show_set:
  assumes "triggers_show ts p b d" "\<And>t. tr_target (f t) = tr_target t \<and> tr_expanded (f t) = b' \<and> tr_collapsed (f t) = (\<not> b')"
    and "triggers d' = triggers (on_triggers ts f d)"
  shows "triggers_show ts p b' d'"
  using assms unfolding triggers_show_def by (auto simp: nth_on_triggers)

lemma fresh_mark: "panel_marks e \<Longrightarrow> emulations (p_transitions e) \<notin> called (p_transitions e)"
  by (auto simp: panel_marks_def)

lemma hide_open:
  assumes r: "rep_i p i Is_open d" and p: "p < length (panels d)"
  shows "touches p d (hide_panel quiet i d) \<and> rep_i p i Closing (hide_panel quiet i d)
    \<and> p_data (panels (hide_panel quiet i d) ! p) = p_data (panels d ! p)"
proof -
  let ?e = "panels d ! p" and ?ts = "i_triggers (instances d ! i)"
  have el: "i_element (instances d ! i) = Some p" "i < length (instances d)" "\<not> i_transitioning (instances d ! i)"
    "i_parent (instances d ! i) = parent_of (p_parent ?e)" "triggers_show ?ts p True d" "panel_marks ?e" "looks ?e = state_looks Is_open"
    "enders (p_transitions ?e) = []"
    using r by (simp_all add: rep_i_def moving_def wants_open_def)
  have show': "has_class K_show p d" using looks_K(1) [OF el(7)] by (simp add: has_class_def)
  define d1 where "d1 = change_classes {K_collapse, K_show} {K_collapsing} p (on_panel p (\<lambda>e. set_size (Px (p_extent e)) e) (dispatch (On_hide p) d))"
  define d2 where "d2 = on_triggers ?ts (\<lambda>t. t\<lparr>tr_collapsed := True, tr_expanded := False\<rparr>) d1"
  define d3 where "d3 = on_panel p (set_size Auto) (setTransitioning True i d2)"
  have len: "p < length (panels d1)" "p < length (panels d3)" using p by (simp_all add: d1_def d2_def d3_def)
  have e1: "K_show \<notin> p_classes (panels d1 ! p)" "looks (panels d1 ! p) = {K_collapsing}" "p_data (panels d1 ! p) = p_data ?e"
    "p_transitions (panels d1 ! p) = p_transitions ?e" "p_parent (panels d1 ! p) = p_parent ?e"
    using p by (auto simp: d1_def change_classes_def nth_on_panel looks_def)
  have e3: "looks (panels d3 ! p) = {K_collapsing}" "p_data (panels d3 ! p) = p_data ?e"
    "p_transitions (panels d3 ! p) = p_transitions ?e" "p_parent (panels d3 ! p) = p_parent ?e"
    using e1 len by (simp_all add: d3_def d2_def nth_on_panel looks_def)
  have tr1: "triggers d1 = triggers d" "instances d1 = instances d" by (simp_all add: d1_def)
  have ts: "\<forall>t \<in> set ?ts. tr_target (triggers d1 ! t) = p" "distinct ?ts" using el(5) tr1 by (simp_all add: triggers_show_def)
  have "filter (\<lambda>t. \<not> has_class K_show (tr_target (triggers d1 ! t)) d1) ?ts = ?ts"
    using ts e1(1) by (intro filter_True) (auto simp: has_class_def)
  then have h: "hide_panel quiet i d = await_panel p (Closed i) d3"
    unfolding hide_panel_def using el(1,3) show' by (simp add: d1_def [symmetric] tr1 d2_def d3_def)
  have "touches p d d1" unfolding d1_def
    by (intro touches_trans [OF touches_trans [OF touches_dispatch touches_on_panel] touches_change_classes]) simp
  then have "touches p d d2" unfolding d2_def by (rule touches_trans) (rule touches_on_triggers [OF ts(2,1)], simp)
  moreover have "i_element (instances d2 ! i) = Some p" using el(1) tr1 by (simp add: d2_def)
  ultimately have "touches p d d3" unfolding d3_def
    by (intro touches_trans [OF touches_trans [OF _ touches_setTransitioning] touches_on_panel]) auto
  then have touch: "touches p d (hide_panel quiet i d)" unfolding h by (rule touches_trans) (rule touches_await)
  have shows': "triggers_show ?ts p False (await_panel p (Closed i) d3)"
    by (rule triggers_show_set [where d = d1, of _ _ True]) (use el(5) tr1 in \<open>auto simp: triggers_show_def d3_def d2_def\<close>)
  have inst: "instances (await_panel p (Closed i) d3) ! i = (instances d ! i)\<lparr>i_transitioning := True\<rparr>"
    using el(2) tr1 by (simp add: d3_def d2_def nth_setTransitioning)
  have new: "panels (await_panel p (Closed i) d3) ! p = (panels d3 ! p)\<lparr>p_transitions := snd (await_end (Closed i) (p_transitions ?e))\<rparr>"
    using len e3 by (simp add: nth_await)
  have "rep_i p i Closing (await_panel p (Closed i) d3)"
    unfolding rep_i_def inst new waits_def using el e3 shows' fresh_mark [OF el(6)] tr1
    by (auto simp: looks_def state_looks_def moving_def wants_open_def await_end_def panel_marks_def jobs_await less_Suc_eq d3_def d2_def
        simp del: set_simps)
  then show ?thesis using touch e3 unfolding h by (simp add: new)
qed

lemma hide_noop: "rep_i p i s d \<Longrightarrow> s \<noteq> Is_open \<Longrightarrow> hide_panel quiet i d = d"
  using looks_K(1) [of "panels d ! p" s] by (simp add: rep_i_def hide_panel_def has_class_def)

lemma open_closed:
  assumes r: "rep_i p i Is_closed d" and p: "p < length (panels d)"
  shows "touches p d (open_panel i p d) \<and> rep_i p i Opening (open_panel i p d)
    \<and> p_data (panels (open_panel i p d) ! p) = p_data (panels d ! p)"
proof -
  let ?e = "panels d ! p" and ?ts = "i_triggers (instances d ! i)"
  have el: "i_element (instances d ! i) = Some p" "i < length (instances d)"
    "i_parent (instances d ! i) = parent_of (p_parent ?e)" "triggers_show ?ts p False d" "panel_marks ?e" "looks ?e = state_looks Is_closed"
    "enders (p_transitions ?e) = []"
    using r by (simp_all add: rep_i_def moving_def wants_open_def)
  define d1 where "d1 = on_panel p (set_size (Px 0)) (change_classes {K_collapse} {K_collapsing} p d)"
  define d2 where "d2 = on_triggers ?ts (\<lambda>t. t\<lparr>tr_collapsed := False, tr_expanded := True\<rparr>) d1"
  define d3 where "d3 = setTransitioning True i d2"
  have tr1: "triggers d1 = triggers d" "instances d1 = instances d" by (simp_all add: d1_def)
  have len: "p < length (panels d1)" "p < length (panels d3)" using p by (simp_all add: d1_def d2_def d3_def)
  have "K_show \<notin> p_classes ?e" using looks_K(1) [OF el(6)] by simp
  then have e1: "looks (panels d1 ! p) = {K_collapsing}" "p_data (panels d1 ! p) = p_data ?e"
    "p_transitions (panels d1 ! p) = p_transitions ?e" "p_parent (panels d1 ! p) = p_parent ?e"
    using p by (auto simp: d1_def change_classes_def nth_on_panel looks_def)
  have e3: "panels d3 = panels d1" by (simp add: d3_def d2_def)
  have ts: "\<forall>t \<in> set ?ts. tr_target (triggers d1 ! t) = p" "distinct ?ts" using el(4) tr1 by (simp_all add: triggers_show_def)
  define d4 where "d4 = await_panel p (Opened i) d3"
  have h: "open_panel i p d = on_panel p (\<lambda>e. set_size (Px (p_extent e)) e) d4"
    unfolding open_panel_def by (simp add: d1_def [symmetric] tr1 d2_def d3_def d4_def Let_def)
  have "touches p d d1" unfolding d1_def by (intro touches_trans [OF touches_change_classes touches_on_panel]) simp
  then have "touches p d d2" unfolding d2_def by (rule touches_trans) (rule touches_on_triggers [OF ts(2,1)], simp)
  moreover have "i_element (instances d2 ! i) = Some p" using el(1) tr1 by (simp add: d2_def)
  ultimately have "touches p d d4" unfolding d3_def d4_def
    by (intro touches_trans [OF touches_trans [OF _ touches_setTransitioning] touches_await]) auto
  then have touch: "touches p d (open_panel i p d)" unfolding h by (rule touches_trans) (rule touches_on_panel, simp)
  have shows': "triggers_show ?ts p True d4"
    by (rule triggers_show_set [where d = d1, of _ _ False]) (use el(4) tr1 in \<open>auto simp: triggers_show_def d4_def d3_def d2_def\<close>)
  have inst: "instances d4 ! i = (instances d ! i)\<lparr>i_transitioning := True\<rparr>"
    using el(2) tr1 by (simp add: d4_def d3_def d2_def nth_setTransitioning)
  define e4 where "e4 = (panels d1 ! p)\<lparr>p_transitions := snd (await_end (Opened i) (p_transitions ?e))\<rparr>"
  have new: "panels (open_panel i p d) ! p = set_size (Px (p_extent e4)) e4" "panels d4 ! p = e4"
    using len e1 e3 by (simp_all add: h nth_on_panel d4_def nth_await e4_def)
  have shows'': "triggers_show ?ts p True (open_panel i p d)" using shows' unfolding triggers_show_def h by simp
  have inst': "instances (open_panel i p d) ! i = (instances d ! i)\<lparr>i_transitioning := True\<rparr>"
    "length (instances (open_panel i p d)) = length (instances d)"
    using inst tr1 by (simp_all add: h d4_def d3_def d2_def)
  have job: "set (clk_jobs (d_clock (open_panel i p d)))
      = insert (clk_now (d_clock d) + d_duration d3, clk_next (d_clock d), p, emulations (p_transitions ?e)) (set (clk_jobs (d_clock d)))"
    using e1 e3 by (simp add: h d4_def jobs_await) (simp add: d3_def d2_def d1_def)
  have "rep_i p i Opening (open_panel i p d)"
    unfolding rep_i_def new inst' waits_def job using el e1 shows'' fresh_mark [OF el(5)]
    by (auto simp: looks_def state_looks_def moving_def wants_open_def await_end_def panel_marks_def less_Suc_eq e4_def)
  then show ?thesis using touch e1 by (simp add: new e4_def)
qed

subsection \<open>All panels\<close>

definition jobs_ok :: "js_string list \<Rightarrow> doc \<Rightarrow> bool" where
  "jobs_ok par d \<longleftrightarrow> (\<forall>t j p k. (t, j, p, k) \<in> set (clk_jobs (d_clock d)) \<longrightarrow> p < length par)"

lemma jobs_ok_touch: "touches p d d' \<Longrightarrow> p < length par \<Longrightarrow> jobs_ok par d \<Longrightarrow> jobs_ok par d'"
  using touchesD(11) [of p d d'] unfolding jobs_ok_def by blast

definition doc_rep :: "js_string list \<Rightarrow> (nat \<Rightarrow> panel_state) \<Rightarrow> doc \<Rightarrow> bool" where
  "doc_rep par s d \<longleftrightarrow> length (panels d) = length par \<and> (\<forall>p < length par. p_parent (panels d ! p) = par ! p \<and> rep p (s p) d)
     \<and> (\<forall>t < length (triggers d). tr_target (triggers d ! t) < length par \<and> tr_parent (triggers d ! t) = [])
     \<and> (\<forall>t < length (triggers d). p_data (panels d ! tr_target (triggers d ! t)) = None \<longrightarrow>
          \<not> tr_expanded (triggers d ! t) \<and> (par ! tr_target (triggers d ! t) \<noteq> [] \<longrightarrow> tr_collapsed (triggers d ! t)))
     \<and> accordion par s \<and> jobs_ok par d"

lemma doc_rep_touch:
  assumes "doc_rep par s d" "touches p d d'" "rep p s' d'" "p < length par" "accordion par (s(p := s'))"
    and "p_data (panels d' ! p) \<noteq> None"
  shows "doc_rep par (s(p := s')) d'"
proof -
  note t = touchesD [OF assms(2)]
  have "rep q ((s(p := s')) q) d'" if "q < length par" for q
    using assms(1,3) that rep_frame [OF assms(2), of q "s q"] by (cases "q = p") (auto simp: doc_rep_def)
  moreover have "\<not> tr_expanded (triggers d' ! u) \<and> (par ! tr_target (triggers d ! u) \<noteq> [] \<longrightarrow> tr_collapsed (triggers d' ! u))"
    if "u < length (triggers d)" "p_data (panels d' ! tr_target (triggers d ! u)) = None" for u
  proof -
    have "tr_target (triggers d ! u) \<noteq> p" using that(2) assms(6) by auto
    then show ?thesis using that assms(1) t(3,9) unfolding doc_rep_def by auto
  qed
  moreover have "jobs_ok par d'" using jobs_ok_touch [OF assms(2,4)] assms(1) by (simp add: doc_rep_def)
  ultimately show ?thesis using assms(1,5) unfolding doc_rep_def by (simp add: t)
qed

lemma rep_class:
  assumes "rep p s d"
  shows "has_class K_show p d = (s = Is_open)" "has_class K_collapsing p d = moving s"
proof -
  have "looks (panels d ! p) = state_looks s" using assms by (auto simp: rep_def rep_i_def state_looks_def split: option.splits)
  from looks_K [OF this] show "has_class K_show p d = (s = Is_open)" "has_class K_collapsing p d = moving s"
    by (simp_all add: has_class_def)
qed

lemma filter_cong_set: "(\<And>x. x \<in> set xs \<Longrightarrow> P x = Q x) \<Longrightarrow> filter P xs = filter Q xs"
  by (induction xs) auto

lemma actives_siblings:
  assumes "doc_rep par s d" "p < length par"
  shows "filter (\<lambda>q. q \<noteq> p) (actives (parent_of (par ! p)) d) = siblings par p s"
proof (cases "par ! p = []")
  case False
  have "has_class K_show q d \<or> has_class K_collapsing q d \<longleftrightarrow> s q \<noteq> Is_closed" if "q < length par" for q
    using assms(1) that rep_class [of q "s q" d] by (cases "s q") (auto simp: doc_rep_def moving_def)
  then have "(p_parent (panels d ! q) = par ! p \<and> (has_class K_show q d \<or> has_class K_collapsing q d)) \<and> q \<noteq> p
      \<longleftrightarrow> q \<noteq> p \<and> par ! q = par ! p \<and> s q \<noteq> Is_closed" if "q < length par" for q
    using assms(1) that unfolding doc_rep_def by auto
  then have "filter (\<lambda>q. (p_parent (panels d ! q) = par ! p \<and> (has_class K_show q d \<or> has_class K_collapsing q d)) \<and> q \<noteq> p) [0..<length par]
      = filter (\<lambda>q. q \<noteq> p \<and> par ! q = par ! p \<and> s q \<noteq> Is_closed) [0..<length par]"
    by (intro filter_cong_set) simp
  moreover have "length (panels d) = length par" using assms(1) by (simp add: doc_rep_def)
  ultimately show ?thesis using False unfolding siblings_def actives_def parent_of_def by (simp add: conj_commute)
qed (simp add: siblings_def actives_def parent_of_def)

text \<open>The panels of the siblings: closing the others changes the first only, when it is at rest.\<close>

lemma hide_others:
  assumes "doc_rep par s d" "\<And>q. q \<in> set qs \<Longrightarrow> q < length par \<and> s q \<noteq> Is_closed \<and> s q \<noteq> Is_open"
  shows "fold (hide_other quiet) qs d = d"
  using assms(2)
proof (induction qs)
  case (Cons q qs)
  then have "rep q (s q) d" "s q \<noteq> Is_closed" "s q \<noteq> Is_open" using assms(1) by (auto simp: doc_rep_def)
  then obtain i where "p_data (panels d ! q) = Some i" "rep_i q i (s q) d" by (auto simp: rep_def split: option.splits)
  then have "hide_other quiet q d = d" using hide_noop \<open>s q \<noteq> Is_open\<close> by (simp add: hide_other_def)
  then show ?case using Cons by simp
qed simp

lemma rep_dispatch [simp]: "rep_i p i s (dispatch e d) = rep_i p i s d" "rep p s (dispatch e d) = rep p s d"
  by (simp_all add: rep_i_def rep_def waits_def triggers_show_def cong: option.case_cong)

lemma jobs_ok_dispatch [simp]: "jobs_ok par (dispatch e d) = jobs_ok par d"
  by (simp add: jobs_ok_def)

lemma doc_rep_dispatch [simp]: "doc_rep par s (dispatch e d) = doc_rep par s d"
  by (simp add: doc_rep_def jobs_ok_def)

lemma doc_repD:
  assumes "doc_rep par s d" "p < length par"
  shows "rep p (s p) d" "p < length (panels d)" "p_parent (panels d ! p) = par ! p"
  using assms by (simp_all add: doc_rep_def)

text \<open>The rest of the document, when panel \<open>p\<close> is being given its instance.\<close>

definition others_rep :: "js_string list \<Rightarrow> nat \<Rightarrow> (nat \<Rightarrow> panel_state) \<Rightarrow> doc \<Rightarrow> bool" where
  "others_rep par p s d \<longleftrightarrow> length (panels d) = length par \<and> p_parent (panels d ! p) = par ! p
     \<and> (\<forall>q < length par. q \<noteq> p \<longrightarrow> p_parent (panels d ! q) = par ! q \<and> rep q (s q) d)
     \<and> (\<forall>t < length (triggers d). tr_target (triggers d ! t) < length par \<and> tr_parent (triggers d ! t) = [])
     \<and> (\<forall>t < length (triggers d). tr_target (triggers d ! t) \<noteq> p \<longrightarrow> p_data (panels d ! tr_target (triggers d ! t)) = None \<longrightarrow>
          \<not> tr_expanded (triggers d ! t) \<and> (par ! tr_target (triggers d ! t) \<noteq> [] \<longrightarrow> tr_collapsed (triggers d ! t)))
     \<and> accordion par s \<and> jobs_ok par d"

lemma doc_rep_others: "doc_rep par s d \<Longrightarrow> p < length par \<Longrightarrow> others_rep par p s d"
  by (auto simp: doc_rep_def others_rep_def)

lemma others_rep_touch:
  assumes "others_rep par p s d" "touches p d d'" "accordion par s'" "\<And>q. q \<noteq> p \<Longrightarrow> s' q = s q" "p < length par"
  shows "others_rep par p s' d'"
proof -
  note t = touchesD [OF assms(2)]
  have "rep q (s' q) d'" if "q < length par" "q \<noteq> p" for q
    using assms(1,4) that rep_frame [OF assms(2), of q "s q"] by (auto simp: others_rep_def)
  moreover have "jobs_ok par d'" using jobs_ok_touch [OF assms(2,5)] assms(1) by (simp add: others_rep_def)
  ultimately show ?thesis using assms(1,3) unfolding others_rep_def by (simp add: t)
qed

lemma attach_rep:
  assumes "others_rep par p s d" "rep_i p i (s p) d" "p < length par"
  shows "doc_rep par s (attach p i d)"
proof -
  have len: "p < length (panels d)" using assms(1,3) by (simp add: others_rep_def)
  have touch: "touches p d (attach p i d)" unfolding attach_def by (rule touches_on_panel) simp
  have o: "others_rep par p s (attach p i d)"
    by (rule others_rep_touch [OF assms(1) touch]) (use assms(1,3) in \<open>auto simp: others_rep_def\<close>)
  have e: "panels (attach p i d) ! p = (panels d ! p)\<lparr>p_data := Some i\<rparr>" using len by (simp add: attach_def nth_on_panel)
  have w: "waits p c (attach p i d) = waits p c d" "triggers_show ts p b (attach p i d) = triggers_show ts p b d" for c ts b
    unfolding waits_def triggers_show_def e by (simp_all add: attach_def)
  have "rep_i p i (s p) (attach p i d)"
    using assms(2) w e unfolding rep_i_def by (simp add: looks_def panel_marks_def attach_def)
  then have "rep p (s p) (attach p i d)" by (simp add: rep_def e)
  then show ?thesis using o unfolding doc_rep_def others_rep_def by (auto simp: e)
qed

lemma attach_same:
  assumes "others_rep par p s d" "rep_i p i (s p) d" "p < length par" "p_data (panels d ! p) = Some i"
  shows "doc_rep par s d"
proof -
  have "(panels d ! p)\<lparr>p_data := Some i\<rparr> = panels d ! p" using assms(4) by (cases "panels d ! p") simp
  then have "attach p i d = d" by (simp add: attach_def on_panel_def)
  then show ?thesis using attach_rep [OF assms(1-3)] by simp
qed

lemma sibling_instance:
  assumes "rep q s d" "s \<noteq> Is_closed"
  obtains j where "p_data (panels d ! q) = Some j" "rep_i q j s d"
  using assms by (auto simp: rep_def split: option.splits)

lemma show_panel_others:
  assumes "i_element (instances d ! i) = Some p" "\<not> i_transitioning (instances d ! i)" "\<not> has_class K_show p d"
    and "filter (\<lambda>q. q \<noteq> p) (actives (i_parent (instances d ! i)) d) = q # qs" "instance_of q d = Some x" "\<not> i_transitioning (snd x)"
  shows "show_panel quiet i d = open_panel i p (fold (hide_other quiet) (q # qs) (dispatch (On_show p) d))"
  unfolding show_panel_def assms(1,4) option.case Let_def using assms(2,3,5,6) by (simp del: fold_simps)

lemma show_step:
  assumes o: "others_rep par p s d" and r: "rep_i p i (s p) d" and p: "p < length par" and dr: "doc_rep par s d"
  shows "others_rep par p (a_show par p s) (show_panel quiet i d) \<and> rep_i p i (a_show par p s p) (show_panel quiet i d)
    \<and> p_data (panels (show_panel quiet i d) ! p) = p_data (panels d ! p)"
proof (cases "s p = Is_closed")
  case False
  then have "show_panel quiet i d = d" using r looks_K(1) [of "panels d ! p" "s p"]
    by (cases "s p") (simp_all add: show_panel_def rep_i_def moving_def has_class_def)
  then show ?thesis using False o r by (simp add: a_show_def)
next
  case True
  have el: "i_element (instances d ! i) = Some p" "\<not> i_transitioning (instances d ! i)" "\<not> has_class K_show p d"
    "i_parent (instances d ! i) = parent_of (par ! p)"
    using r True looks_K(1) [of "panels d ! p" Is_closed] o by (simp_all add: rep_i_def moving_def has_class_def others_rep_def)
  have as: "filter (\<lambda>q. q \<noteq> p) (actives (i_parent (instances d ! i)) d) = siblings par p s"
    unfolding el(4) by (rule actives_siblings [OF dr p])
  have acc: "accordion par (a_show par p s)" using o p by (intro accordion_show) (simp_all add: others_rep_def)
  show ?thesis
  proof (cases "siblings par p s")
    case Nil
    let ?d = "dispatch (On_show p) d"
    have "show_panel quiet i d = open_panel i p ?d" using el as Nil by (simp add: show_panel_def Let_def)
    moreover have s': "a_show par p s = s(p := Opening)" using True Nil by (simp add: a_show_def)
    moreover have "rep_i p i Is_closed ?d" "p < length (panels ?d)" using r True o p by (simp_all add: others_rep_def)
    note op = open_closed [OF this]
    have "others_rep par p s ?d" using o by (simp add: others_rep_def)
    then have "others_rep par p (s(p := Opening)) (open_panel i p ?d)"
      by (rule others_rep_touch) (use op acc s' p in auto)
    ultimately show ?thesis using op by simp
  next
    case (Cons q qs)
    note q = siblings_Cons [OF Cons]
    obtain j where j: "p_data (panels d ! q) = Some j" "rep_i q j (s q) d"
      using sibling_instance doc_repD(1) [OF dr, of q] q by blast
    have data: "instance_of q d = Some (j, instances d ! j)" by (simp add: instance_of_def j)
    have tr: "i_transitioning (instances d ! j) = moving (s q)" using j(2) by (simp add: rep_i_def)
    show ?thesis
    proof (cases "moving (s q)")
      case True
      have "show_panel quiet i d = d" using el as Cons data tr True by (simp add: show_panel_def Let_def)
      moreover have "a_show par p s = s" using True Cons by (simp add: a_show_def)
      ultimately show ?thesis using o r by simp
    next
      case False
      let ?d = "dispatch (On_show p) d"
      have sq: "s q = Is_open" using False q by (cases "s q") (simp_all add: moving_def)
      have jd: "rep_i q j Is_open ?d" "q < length (panels ?d)" using j(2) sq q dr by (simp_all add: doc_rep_def)
      note h = hide_open [OF jd]
      let ?h = "hide_panel quiet j ?d"
      have "doc_rep par s ?d" using dr by simp
      then have d2: "doc_rep par (s(q := Closing)) ?h"
      proof (rule doc_rep_touch)
        show "touches q ?d ?h" using h by blast
        show "rep q Closing ?h" using h j by (simp add: rep_def)
        show "q < length par" using q by simp
        have "a_hide q s = s(q := Closing)" using sq by (simp add: a_hide_def)
        then show "accordion par (s(q := Closing))" using accordion_hide [of par s q] dr by (simp add: doc_rep_def)
        show "p_data (panels ?h ! q) \<noteq> None" using h j by simp
      qed
      have rest: "r < length par \<and> (s(q := Closing)) r \<noteq> Is_closed \<and> (s(q := Closing)) r \<noteq> Is_open" if "r \<in> set qs" for r
      proof -
        have "distinct (siblings par p s)" by (simp add: siblings_def)
        then have rq: "r \<noteq> q" using that Cons by auto
        have "r \<in> set (siblings par p s)" using that Cons by simp
        then have rr: "r < length par" "par ! r = par ! p" "s r \<noteq> Is_closed" by (auto simp: siblings_def split: if_splits)
        have "accordion par s" "wants_open (s q)" using dr sq by (simp_all add: doc_rep_def wants_open_def)
        then have "\<not> wants_open (s r)" using rq rr q unfolding accordion_def by metis
        then show ?thesis using rq rr by (simp add: wants_open_def)
      qed
      have fold': "fold (hide_other quiet) (q # qs) ?d = ?h"
        using hide_others [OF d2 rest] j by (simp add: hide_other_def)
      have pq: "p \<noteq> q" using q by simp
      have nt: "\<not> i_transitioning (snd (j, instances d ! j))" unfolding snd_conv tr by (rule False)
      have "show_panel quiet i d = open_panel i p (fold (hide_other quiet) (q # qs) ?d)"
        by (rule show_panel_others [OF el(1-3) as [unfolded Cons] data nt])
      then have sh: "show_panel quiet i d = open_panel i p ?h" by (simp only: fold')
      have "rep_i p i (s p) ?h" by (rule rep_i_frame [OF h [THEN conjunct1] pq]) (simp add: r)
      moreover have "p < length (panels ?h)" using d2 p by (simp add: doc_rep_def)
      ultimately have op: "touches p ?h (open_panel i p ?h)" "rep_i p i Opening (open_panel i p ?h)"
        "p_data (panels (open_panel i p ?h) ! p) = p_data (panels ?h ! p)"
        using open_closed True by auto
      have pd: "p_data (panels ?h ! p) = p_data (panels d ! p)" using touchesD(3) [of q ?d ?h p] h pq by simp
      have s': "a_show par p s = s(q := Closing, p := Opening)" using True False Cons by (simp add: a_show_def)
      have "others_rep par p (s(q := Closing, p := Opening)) (open_panel i p ?h)"
        by (rule others_rep_touch [OF doc_rep_others [OF d2 p] op(1)]) (use acc s' p in auto)
      then show ?thesis unfolding sh s' using op pd by simp
    qed
  qed
qed

lemma toggle_step:
  assumes o: "others_rep par p s d" and r: "rep_i p i (s p) d" and p: "p < length par" and dr: "doc_rep par s d"
  shows "others_rep par p (a_toggle par p s) (toggle_panel quiet i d) \<and> rep_i p i (a_toggle par p s p) (toggle_panel quiet i d)
    \<and> p_data (panels (toggle_panel quiet i d) ! p) = p_data (panels d ! p)"
proof -
  have el: "i_element (instances d ! i) = Some p" using r by (simp add: rep_i_def)
  have has: "has_class K_show p d = (s p = Is_open)" using r looks_K(1) [of "panels d ! p" "s p"] by (simp add: rep_i_def has_class_def)
  show ?thesis
  proof (cases "s p = Is_open")
    case True
    have len: "p < length (panels d)" using o p by (simp add: others_rep_def)
    have h: "touches p d (hide_panel quiet i d)" "rep_i p i Closing (hide_panel quiet i d)"
      "p_data (panels (hide_panel quiet i d) ! p) = p_data (panels d ! p)"
      using hide_open [OF r [unfolded True] len] by auto
    have s': "a_toggle par p s = s(p := Closing)" using True by (simp add: a_toggle_def a_hide_def)
    have "accordion par (s(p := Closing))" using accordion_hide [of par s p] o True by (simp add: others_rep_def a_hide_def)
    then have "others_rep par p (s(p := Closing)) (hide_panel quiet i d)" by (intro others_rep_touch [OF o h(1)]) (simp_all add: p)
    then show ?thesis using h el has True by (simp add: toggle_panel_def s')
  next
    case False
    then show ?thesis using show_step [OF o r p dr] el has by (simp add: toggle_panel_def a_toggle_def)
  qed
qed

subsection \<open>A new instance\<close>

lemma distinct_trigger_indices [simp]: "distinct (trigger_indices P d)"
  by (simp add: trigger_indices_def)

lemma new_instance:
  assumes dr: "doc_rep par s d" and p: "p < length par" and data: "p_data (panels d ! p) = None"
  defines "n \<equiv> new_collapse p (par ! p) d"
  shows "doc_rep par s (snd n) \<and> rep_i p (fst n) (s p) (snd n) \<and> p_data (panels (snd n) ! p) = None"
proof -
  let ?ts = "trigger_indices (\<lambda>t. tr_target t = p) d"
  let ?o = "\<lparr>i_element = Some p, i_parent = parent_of (par ! p), i_triggers = ?ts, i_transitioning = False\<rparr>"
  let ?d1 = "d\<lparr>instances := instances d @ [?o]\<rparr>"
  let ?ms = "if par ! p = [] then ?ts else []"
  have tp: "tr_parent (triggers d ! t) = []" if "t < length (triggers d)" for t using dr that by (simp add: doc_rep_def)
  have none: "trigger_indices (\<lambda>t. tr_parent t = par ! p) ?d1 = []" if "par ! p \<noteq> []"
    using tp that by (auto simp: trigger_indices_def filter_empty_conv)
  have n: "n = (length (instances d), mark_triggers ?ms ?d1)"
    using none by (simp add: n_def new_collapse_def Let_def parent_of_def)
  have rp: "s p = Is_closed" "looks (panels d ! p) = {K_collapse}" "enders (p_transitions (panels d ! p)) = []" "panel_marks (panels d ! p)"
    using doc_repD(1) [OF dr p] data by (simp_all add: rep_def)
  have closed: "\<not> has_class K_show p d" using rep_class(1) [OF doc_repD(1) [OF dr p]] rp(1) by simp
  have in_ts: "t \<in> set ?ts \<longleftrightarrow> t < length (triggers d) \<and> tr_target (triggers d ! t) = p" for t
    by (auto simp: trigger_indices_def)
  define d2 where "d2 = mark_triggers ?ms ?d1"
  have d2: "panels d2 = panels d" "instances d2 = instances d @ [?o]" "d_clock d2 = d_clock d" "length (triggers d2) = length (triggers d)"
    by (simp_all add: d2_def mark_triggers_def)
  have tr2: "triggers d2 ! t = (if t \<in> set ?ms then (triggers d ! t)\<lparr>tr_collapsed := True, tr_expanded := False\<rparr> else triggers d ! t)" for t
    using closed in_ts unfolding d2_def mark_triggers_def by (auto simp: nth_on_triggers has_class_def Let_def)
  have keep: "rep_i q j x d2" if "rep_i q j x d" "q \<noteq> p" for q j x
  proof -
    have j: "j < length (instances d)" "instances d2 ! j = instances d ! j" using that(1) by (simp_all add: rep_i_def d2 nth_append)
    have "triggers d2 ! t = triggers d ! t" if "tr_target (triggers d ! t) = q" for t
      using tr2 [of t] in_ts [of t] that \<open>q \<noteq> p\<close> by (auto split: if_splits)
    moreover have "tr_target (triggers d2 ! t) = tr_target (triggers d ! t)" for t by (simp add: tr2)
    ultimately have "triggers_show ts q b d \<Longrightarrow> triggers_show ts q b d2" for ts b by (simp add: triggers_show_def d2)
    moreover have "waits q c d2 = waits q c d" for c by (simp add: waits_def d2)
    ultimately show ?thesis using that(1) j unfolding rep_i_def j(2) by (simp add: d2)
  qed
  have new: "rep_i p (length (instances d)) (s p) d2"
  proof -
    have "triggers_show ?ts p False d2"
      using dr data in_ts unfolding triggers_show_def doc_rep_def by (auto simp: tr2 d2)
    then show ?thesis using rp p dr
      by (simp add: rep_i_def d2 state_looks_def moving_def wants_open_def nth_append doc_rep_def)
  qed
  have reps: "rep q x d2" if "rep q x d" for q x
    using that keep data by (cases "q = p") (auto simp: rep_def d2 split: option.splits)
  have "tr_target (triggers d2 ! t) = tr_target (triggers d ! t)" "tr_parent (triggers d2 ! t) = tr_parent (triggers d ! t)" for t
    by (simp_all add: tr2)
  then have "doc_rep par s d2"
    using dr reps unfolding doc_rep_def d2 by (auto simp: tr2 jobs_ok_def d2)
  then show ?thesis using new data n by (simp add: d2_def [symmetric] d2)
qed

section \<open>The plugin refines the machine\<close>

lemma click_step:
  assumes dr: "doc_rep par s d" and t: "t < length (triggers d)"
  shows "doc_rep par (a_toggle par (tr_target (triggers d ! t)) s) (click_trigger quiet t d)"
proof -
  define p where "p = tr_target (triggers d ! t)"
  have p: "p < length par" and tp: "tr_parent (triggers d ! t) = []" using dr t by (simp_all add: doc_rep_def p_def)
  show ?thesis
  proof (cases "p_data (panels d ! p)")
    case (Some i)
    then have r: "rep_i p i (s p) d" using doc_repD(1) [OF dr p] by (simp add: rep_def)
    have c: "click_trigger quiet t d = toggle_panel quiet i d"
      by (simp add: click_trigger_def p_def [symmetric] Some collapse_plugin_def call_panel_def js_simps)
    have "doc_rep par (a_toggle par p s) (toggle_panel quiet i d)"
      using toggle_step [OF doc_rep_others [OF dr p] r p dr] p Some by (intro attach_same [of par p _ _ i]) auto
    then show ?thesis by (simp add: c p_def)
  next
    case None
    obtain i d1 where n: "new_collapse p (par ! p) d = (i, d1)" by (cases "new_collapse p (par ! p) d")
    have i: "doc_rep par s d1" "rep_i p i (s p) d1" using new_instance [OF dr p None] by (simp_all add: n)
    have "call_parent (Settings (Some True) None) (panels d ! p) = par ! p" using doc_repD(3) [OF dr p] by (simp add: call_parent_def)
    then have c: "click_trigger quiet t d = attach p i (toggle_panel quiet i d1)"
      by (simp add: click_trigger_def p_def [symmetric] tp None collapse_plugin_def call_toggle_def n andthen_apply)
    have "doc_rep par (a_toggle par p s) (attach p i (toggle_panel quiet i d1))"
      using toggle_step [OF doc_rep_others [OF i(1) p] i(2) p i(1)] p by (intro attach_rep) auto
    then show ?thesis by (simp add: c p_def)
  qed
qed

lemma end_still: "rep p s d \<Longrightarrow> \<not> moving s \<Longrightarrow> panel_end p d = d"
  by (auto simp: rep_def rep_i_def panel_end_def split: option.splits)

lemma marks_fields [simp]:
  "looks (e\<lparr>p_transitions := t\<rparr>) = looks e" "p_data (e\<lparr>p_transitions := t\<rparr>) = p_data e"
  by (simp_all add: looks_def)

lemma end_moving:
  assumes r: "rep_i p i s d" "moving s" and len: "p < length (panels d)"
  shows "touches p d (panel_end p d) \<and> rep_i p i (arrive s) (panel_end p d) \<and> p_data (panels (panel_end p d) ! p) = p_data (panels d ! p)"
proof -
  let ?e = "panels d ! p" and ?c = "if s = Opening then Opened i else Closed i"
  obtain k where k: "enders (p_transitions ?e) = [Ender ?c, Mark k]" "k < emulations (p_transitions ?e)"
    using r unfolding rep_i_def waits_def by auto
  have el: "i_element (instances d ! i) = Some p" "i < length (instances d)" "i_parent (instances d ! i) = parent_of (p_parent ?e)"
    "triggers_show (i_triggers (instances d ! i)) p (wants_open s) d" "panel_marks ?e" "looks ?e = state_looks s"
    using r(1) by (simp_all add: rep_i_def)
  have looks_e: "looks ?e = {K_collapsing}" using el(6) r(2) by (cases s) (simp_all add: state_looks_def moving_def)
  define d1 where "d1 = on_panel p (\<lambda>e. e\<lparr>p_transitions := drop_first (p_transitions e)\<rparr>) d"
  define d2 where "d2 = (if s = Opening
    then dispatch (On_shown p) (setTransitioning False i (on_panel p (set_size Auto) (change_classes {K_collapsing} {K_collapse, K_show} p d1)))
    else dispatch (On_hidden p) (change_classes {K_collapsing} {K_collapse} p (setTransitioning False i d1)))"
  define d3 where "d3 = on_panel p (\<lambda>e. e\<lparr>p_transitions := mark k (p_transitions e)\<rparr>)
    (on_panel p (\<lambda>e. e\<lparr>p_transitions := drop_first (p_transitions e)\<rparr>) d2)"
  have e1: "i_element (instances d1 ! i) = Some p" using el by (simp add: d1_def)
  have e1': "i_element (instances (setTransitioning False i d1) ! i) = Some p" using e1 by (simp add: nth_setTransitioning)
  have e: "panel_end p d = d3"
    by (cases "s = Opening")
      (simp_all add: panel_end_def k d1_def [symmetric] panel_shown_def panel_hidden_def e1 e1' d2_def d3_def Let_def)
  have t1: "touches p d d1" unfolding d1_def by (rule touches_on_panel) simp
  have t2: "touches p d1 d2"
  proof (cases "s = Opening")
    case True
    let ?a = "change_classes {K_collapsing} {K_collapse, K_show} p d1"
    let ?b = "on_panel p (set_size Auto) ?a"
    have "touches p d1 ?b" by (intro touches_trans [OF touches_change_classes touches_on_panel]) simp
    moreover have "i_element (instances ?b ! i) = Some p" using e1 by simp
    ultimately have "touches p d1 (setTransitioning False i ?b)" by (intro touches_trans [OF _ touches_setTransitioning])
    then show ?thesis unfolding d2_def using True by (simp add: touches_trans [OF _ touches_dispatch])
  next
    case False
    have "touches p d1 (change_classes {K_collapsing} {K_collapse} p (setTransitioning False i d1))"
      by (rule touches_trans [OF touches_setTransitioning touches_change_classes]) (rule e1)
    then show ?thesis unfolding d2_def using False by (simp add: touches_trans [OF _ touches_dispatch])
  qed
  have t3: "touches p d2 d3" unfolding d3_def by (intro touches_trans [OF touches_on_panel touches_on_panel]) simp_all
  have touch: "touches p d d3" by (rule touches_trans [OF touches_trans [OF t1 t2] t3])
  have tr: "triggers d3 = triggers d" by (simp add: d3_def d2_def d1_def)
  have inst: "instances d3 ! i = (instances d ! i)\<lparr>i_transitioning := False\<rparr>"
    using el(2) by (simp add: d3_def d2_def d1_def nth_setTransitioning)
  have pt: "p_transitions (panels d3 ! p) = mark k (drop_first (drop_first (p_transitions ?e)))" "p_data (panels d3 ! p) = p_data ?e"
    using len by (simp_all add: d3_def d2_def d1_def nth_on_panel change_classes_def)
  have lk: "looks (panels d3 ! p) = (if s = Opening then {K_collapse, K_show} else {K_collapse})"
    using len looks_e by (auto simp: d3_def d2_def d1_def nth_on_panel change_classes_def looks_def)
  have s: "s = Opening \<or> s = Closing" using r(2) by (simp add: moving_def)
  have "wants_open (arrive s) = wants_open s" using s by (auto simp: wants_open_def arrive_def)
  moreover have "triggers_show (i_triggers (instances d ! i)) p (wants_open s) d3" using el(4) by (simp add: triggers_show_def tr)
  moreover have "state_looks (arrive s) = looks (panels d3 ! p)" "\<not> moving (arrive s)"
    using s lk by (auto simp: arrive_def state_looks_def moving_def)
  moreover have "panel_marks (panels d3 ! p)" "enders (p_transitions (panels d3 ! p)) = []"
    using el(5) k unfolding panel_marks_def pt by (simp_all add: mark_def drop_first_def)
  ultimately have "rep_i p i (arrive s) d3"
    using el touchesD(2,4) [OF touch] unfolding rep_i_def inst by simp
  then show ?thesis unfolding e using touch pt by simp
qed

lemma end_step:
  assumes "doc_rep par s d" "p < length par"
  shows "doc_rep par (a_end p s) (panel_end p d)"
proof (cases "moving (s p)")
  case False
  then have "a_end p s = s" by (cases "s p") (auto simp: a_end_def arrive_def moving_def)
  then show ?thesis using assms(1) end_still [OF doc_repD(1) [OF assms] False] by simp
next
  case True
  then have "s p \<noteq> Is_closed" by (auto simp: moving_def)
  then obtain i where i: "p_data (panels d ! p) = Some i" "rep_i p i (s p) d"
    using sibling_instance [OF doc_repD(1) [OF assms]] by blast
  note m = end_moving [OF i(2) True doc_repD(2) [OF assms]]
  have "accordion par (s(p := arrive (s p)))" using accordion_end [of par s p] assms(1) by (simp add: doc_rep_def a_end_def)
  with m i show ?thesis unfolding a_end_def
    by (intro doc_rep_touch [OF assms(1), of p]) (simp_all add: rep_def assms(2))
qed

lemma clock_commutes [simp]:
  "on_panel p f (d\<lparr>d_clock := c\<rparr>) = (on_panel p f d)\<lparr>d_clock := c\<rparr>" "on_instance i g (d\<lparr>d_clock := c\<rparr>) = (on_instance i g d)\<lparr>d_clock := c\<rparr>"
  "dispatch e (d\<lparr>d_clock := c\<rparr>) = (dispatch e d)\<lparr>d_clock := c\<rparr>"
  by (simp_all add: on_panel_def on_instance_def dispatch_def)

lemma run_enders_clock:
  "run_panel_enders p hs (d\<lparr>d_clock := c\<rparr>) = (run_panel_enders p hs d)\<lparr>d_clock := c\<rparr>"
proof (induction hs arbitrary: d)
  case (Cons h hs)
  show ?case
  proof (cases h)
    case (Mark k)
    then show ?thesis using Cons by (simp add: Let_def)
  next
    case (Ender e)
    have "panel_hidden i (d\<lparr>d_clock := c\<rparr>) = (panel_hidden i d)\<lparr>d_clock := c\<rparr>" for i d
      by (simp add: panel_hidden_def setTransitioning_def change_classes_def Let_def split: option.split)
    moreover have "panel_shown i (d\<lparr>d_clock := c\<rparr>) = map_option (\<lambda>d. d\<lparr>d_clock := c\<rparr>) (panel_shown i d)" for i d
      by (simp add: panel_shown_def setTransitioning_def change_classes_def Let_def split: option.split)
    ultimately show ?thesis using Ender Cons by (cases e) (simp_all add: Let_def split: option.split)
  qed
qed simp

lemma panel_end_clock: "panel_end p (d\<lparr>d_clock := c\<rparr>) = (panel_end p d)\<lparr>d_clock := c\<rparr>"
  by (simp add: panel_end_def run_enders_clock)

lemma panel_end_keeps_clock [simp]: "d_clock (panel_end p d) = d_clock d"
proof -
  have "panel_end p d = panel_end p (d\<lparr>d_clock := d_clock d\<rparr>)" by simp
  also have "\<dots> = (panel_end p d)\<lparr>d_clock := d_clock d\<rparr>" by (rule panel_end_clock)
  finally show ?thesis by (metis doc.select_convs(5) doc.surjective doc.update_convs(5))
qed

lemma fire_form:
  assumes "clk_jobs (d_clock d) = (t, j, p, k) # js'"
  shows "fire_panel d = (if k \<in> called (p_transitions (panels d ! p)) then d else panel_end p d)\<lparr>d_clock := take_job (d_clock d)\<rparr>"
  using assms by (simp add: fire_panel_def panel_end_clock)

interpretation collapse_timers: event_loop "\<lambda>d. clk_jobs (d_clock d)" fire_panel "\<lambda>d. length (clk_jobs (d_clock d))"
proof
  fix d :: doc
  assume "clk_jobs (d_clock d) \<noteq> []"
  then obtain t j p k ks where e: "clk_jobs (d_clock d) = (t, j, p, k) # ks" by (metis neq_Nil_conv prod_cases4)
  then show "length (clk_jobs (d_clock (fire_panel d))) < length (clk_jobs (d_clock d))"
    by (simp add: fire_form [OF e] take_job_def)
qed

lemma take_step:
  assumes dr: "doc_rep par s d" and e: "clk_jobs (d_clock d) = (t, j, p, k) # ks"
    and "k \<in> called (p_transitions (panels d ! p)) \<or> \<not> moving (s p)"
  shows "doc_rep par s (d\<lparr>d_clock := take_job (d_clock d)\<rparr>)"
proof -
  let ?d = "d\<lparr>d_clock := take_job (d_clock d)\<rparr>"
  have w: "waits q c ?d" if "waits q c d" "q \<noteq> p \<or> k \<in> called (p_transitions (panels d ! p))" for q c
    using that unfolding waits_def by (auto simp: take_job_def e)
  have "rep_i q i (s q) ?d" if "rep_i q i (s q) d" for q i
  proof (cases "moving (s q)")
    case True
    then have "q \<noteq> p \<or> k \<in> called (p_transitions (panels d ! p))" using assms(3) by auto
    then have "waits q c d \<Longrightarrow> waits q c ?d" for c using w by blast
    then show ?thesis using that True unfolding rep_i_def triggers_show_def by simp
  next
    case False
    then show ?thesis using that unfolding rep_i_def triggers_show_def by simp
  qed
  then have "rep q (s q) ?d" if "rep q (s q) d" for q
    using that by (cases "p_data (panels d ! q)") (auto simp: rep_def)
  moreover have "jobs_ok par ?d" using dr by (auto simp: doc_rep_def jobs_ok_def take_job_def e)
  ultimately show ?thesis using dr unfolding doc_rep_def by simp
qed

lemma fire_step:
  assumes dr: "doc_rep par s d" and ne: "clk_jobs (d_clock d) \<noteq> []"
  shows "\<exists>s'. doc_rep par s' (fire_panel d)"
proof -
  obtain t i p k ks where e: "clk_jobs (d_clock d) = (t, i, p, k) # ks" using ne by (metis neq_Nil_conv prod_cases4)
  have p: "p < length par" using dr e unfolding doc_rep_def jobs_ok_def by auto
  show "\<exists>s'. doc_rep par s' (fire_panel d)"
  proof (cases "k \<in> called (p_transitions (panels d ! p))")
    case True
    then show ?thesis using take_step [OF dr e] by (auto simp: fire_form [OF e])
  next
    case False
    have "doc_rep par (a_end p s) (panel_end p d)" by (rule end_step [OF dr p])
    moreover have "\<not> moving (a_end p s p)" by (cases "s p") (simp_all add: a_end_def arrive_def moving_def)
    ultimately have "doc_rep par (a_end p s) ((panel_end p d)\<lparr>d_clock := take_job (d_clock (panel_end p d))\<rparr>)"
      using e by (intro take_step) auto
    then show ?thesis using False by (auto simp: fire_form [OF e])
  qed
qed

section \<open>Runs of the page\<close>

text \<open>The page adds a card with its panel and the trigger of its heading.\<close>

definition closed_panel :: "js_string \<Rightarrow> nat \<Rightarrow> panel" where
  "closed_panel parent extent = \<lparr>p_classes = {K_collapse}, p_parent = parent, p_data = None, p_width = Auto, p_height = Auto,
     p_extent = extent, p_transitions = no_transitions\<rparr>"

definition add_card :: "nat \<Rightarrow> doc \<Rightarrow> doc" where
  "add_card extent d =
     d\<lparr>panels := panels d @ [closed_panel [] extent],
       triggers := triggers d @ [\<lparr>tr_target = length (panels d), tr_parent = [], tr_collapsed = False, tr_expanded = False\<rparr>]\<rparr>"

text \<open>A document of closed panels with the given parents, one trigger for each.\<close>

definition start_doc :: "js_string list \<Rightarrow> nat \<Rightarrow> doc" where
  "start_doc par duration = \<lparr>panels = map (\<lambda>s. closed_panel s 100) par,
     triggers = map (\<lambda>p. \<lparr>tr_target = p, tr_parent = [], tr_collapsed = True, tr_expanded = False\<rparr>) [0..<length par],
     instances = [], d_duration = duration, d_clock = fresh_clock, d_events = [], d_errors = 0\<rparr>"

datatype doc_input = D_click nat | D_end nat | D_timer | D_card nat

definition doc_step :: "doc_input \<Rightarrow> doc \<Rightarrow> doc" where
  "doc_step i d = (case i of
     D_click t \<Rightarrow> if t < length (triggers d) then click_trigger quiet t d else d
   | D_end p \<Rightarrow> if p < length (panels d) then panel_end p d else d
   | D_timer \<Rightarrow> fire_panel d
   | D_card extent \<Rightarrow> add_card extent d)"

definition doc_run :: "doc_input list \<Rightarrow> doc \<Rightarrow> doc" where
  "doc_run is d = fold doc_step is d"

definition doc_ok :: "doc \<Rightarrow> bool" where
  "doc_ok d \<longleftrightarrow> (\<exists>par s. doc_rep par s d)"

lemma card_ok: "doc_ok d \<Longrightarrow> doc_ok (add_card extent d)"
proof -
  assume "doc_ok d"
  then obtain par s where dr: "doc_rep par s d" by (auto simp: doc_ok_def)
  let ?par = "par @ [[]]" and ?s = "s(length par := Is_closed)" and ?d = "add_card extent d"
  have len: "length (panels d) = length par" using dr by (simp add: doc_rep_def)
  have old: "panels ?d ! q = panels d ! q" if "q < length par" for q using that len by (simp add: add_card_def nth_append)
  have last: "panels ?d ! length par = closed_panel [] extent" using len by (simp add: add_card_def nth_append)
  have tr: "triggers ?d ! t = triggers d ! t" if "t < length (triggers d)" for t using that by (simp add: add_card_def nth_append)
  have count: "length (triggers ?d) = Suc (length (triggers d))" and target: "tr_target (triggers ?d ! length (triggers d)) = length par"
    using len by (simp_all add: add_card_def)
  have "rep_i q i x ?d" if "rep_i q i x d" "q < length par" for q i x
  proof -
    have "triggers_show ts q b ?d" if "triggers_show ts q b d" for ts b
      using that \<open>q < length par\<close> unfolding triggers_show_def by (auto simp: less_Suc_eq tr count target)
    moreover have "waits q c ?d = waits q c d" for c using old \<open>q < length par\<close> by (simp add: waits_def) (simp add: add_card_def)
    moreover have "instances ?d = instances d" by (simp add: add_card_def)
    ultimately show ?thesis using that unfolding rep_i_def by (simp add: old)
  qed
  then have reps: "rep q (s q) ?d" if "q < length par" for q
    using doc_repD(1) [OF dr that] that by (auto simp: rep_def old split: option.splits)
  have "rep (length par) Is_closed ?d"
    by (simp add: rep_def last closed_panel_def looks_def no_transitions_def panel_marks_def)
  then have r: "p_parent (panels ?d ! q) = ?par ! q \<and> rep q (?s q) ?d" if "q < length ?par" for q
    using that reps doc_repD(3) [OF dr] last by (cases "q < length par") (auto simp: old nth_append closed_panel_def less_Suc_eq)
  have acc: "accordion ?par ?s" unfolding accordion_def
  proof (intro allI impI)
    fix p q assume a: "p < length ?par" "q < length ?par" "p \<noteq> q" "?par ! p \<noteq> []" "?par ! p = ?par ! q"
    have "p < length par" using a(1,4) by (cases "p = length par") auto
    moreover have "q < length par" using a(2,4,5) by (cases "q = length par") auto
    moreover have "accordion par s" using dr by (simp add: doc_rep_def)
    ultimately show "\<not> (wants_open (?s p) \<and> wants_open (?s q))" using a(3-5) unfolding accordion_def by (simp add: nth_append)
  qed
  have trs: "tr_target (triggers ?d ! t) < length ?par \<and> tr_parent (triggers ?d ! t) = []
      \<and> (p_data (panels ?d ! tr_target (triggers ?d ! t)) = None \<longrightarrow>
          \<not> tr_expanded (triggers ?d ! t) \<and> (?par ! tr_target (triggers ?d ! t) \<noteq> [] \<longrightarrow> tr_collapsed (triggers ?d ! t)))" if t: "t < length (triggers ?d)" for t
  proof (cases "t < length (triggers d)")
    case True
    then have "tr_target (triggers d ! t) < length par" using dr by (simp add: doc_rep_def)
    then show ?thesis using dr True old by (auto simp: tr doc_rep_def nth_append)
  next
    case False
    then have "t = length (triggers d)" using t by (simp add: add_card_def)
    then show ?thesis using len by (simp add: add_card_def)
  qed
  have "length (panels ?d) = length ?par" using len by (simp add: add_card_def)
  moreover have "jobs_ok ?par ?d"
  proof -
    have "jobs_ok par d" using dr by (simp add: doc_rep_def)
    then show ?thesis unfolding jobs_ok_def by (simp add: add_card_def) (metis less_SucI)
  qed
  ultimately have "doc_rep ?par ?s ?d" unfolding doc_rep_def using r acc trs by blast
  then show "doc_ok ?d" unfolding doc_ok_def by blast
qed

lemma doc_step_ok: "doc_ok d \<Longrightarrow> doc_ok (doc_step i d)"
proof -
  assume ok: "doc_ok d"
  then obtain par s where dr: "doc_rep par s d" by (auto simp: doc_ok_def)
  have len: "length (panels d) = length par" using dr by (simp add: doc_rep_def)
  show ?thesis
  proof (cases i)
    case (D_click t)
    then show ?thesis using click_step [OF dr, of t] ok unfolding doc_step_def doc_ok_def by auto
  next
    case (D_end p)
    then show ?thesis using end_step [OF dr, of p] ok len unfolding doc_step_def doc_ok_def by auto
  next
    case D_timer
    then show ?thesis using fire_step [OF dr] ok unfolding doc_step_def doc_ok_def
      by (cases "clk_jobs (d_clock d)") (auto simp: fire_panel_def)
  next
    case (D_card extent)
    then show ?thesis using card_ok [OF ok] by (simp add: doc_step_def)
  qed
qed

lemma start_doc_ok: "doc_rep par (\<lambda>_. Is_closed) (start_doc par duration)"
  by (auto simp: doc_rep_def start_doc_def closed_panel_def rep_def looks_def no_transitions_def panel_marks_def accordion_def
      wants_open_def jobs_ok_def fresh_clock_def)

lemma doc_run_ok: "doc_ok (doc_run is (start_doc par duration))"
proof -
  have "doc_ok d \<Longrightarrow> doc_ok (fold doc_step is d)" for d by (induction "is" arbitrary: d) (simp_all add: doc_step_ok)
  then show ?thesis using start_doc_ok unfolding doc_run_def doc_ok_def by blast
qed

section \<open>Properties\<close>

text \<open>
  Property C4.  The plugin \<open>Collapse\<close> refines the machine of its panels: a click on a trigger is the
  toggle of its panel in the abstract machine (nothing while the panel moves, and closing the open
  panel of the same parent), and the end of a transition lets the panel arrive.
\<close>

theorem collapse_refines_panels:
  assumes "doc_rep par s d"
  shows "(\<forall>t < length (triggers d). doc_rep par (a_toggle par (tr_target (triggers d ! t)) s) (click_trigger quiet t d))
    \<and> (\<forall>p < length par. doc_rep par (a_end p s) (panel_end p d))"
  using click_step [OF assms] end_step [OF assms] by blast

theorem collapse_refines_panels_witness:
  "doc_rep [js ''a'', js ''a''] (a_toggle [js ''a'', js ''a''] 1 (\<lambda>_. Is_closed)) (click_trigger quiet 1 (start_doc [js ''a'', js ''a''] 350))"
  using collapse_refines_panels [OF start_doc_ok [of "[js ''a'', js ''a'']" 350]] by (auto simp: start_doc_def)

text \<open>
  What is left when all timers have run: every panel is open or closed, and one of a parent; each
  trigger says so by \<open>aria-expanded\<close>, and by the class \<open>collapsed\<close> unless nothing was ever done with
  its panel.
\<close>

definition panels_settled :: "doc \<Rightarrow> bool" where
  "panels_settled d \<longleftrightarrow> (\<forall>p < length (panels d). looks (panels d ! p) \<in> {{K_collapse}, {K_collapse, K_show}}
       \<and> (\<forall>i. p_data (panels d ! p) = Some i \<longrightarrow> \<not> i_transitioning (instances d ! i)))
     \<and> (\<forall>t < length (triggers d). tr_expanded (triggers d ! t) = has_class K_show (tr_target (triggers d ! t)) d
       \<and> (p_data (panels d ! tr_target (triggers d ! t)) \<noteq> None \<or> p_parent (panels d ! tr_target (triggers d ! t)) \<noteq> [] \<longrightarrow>
            tr_collapsed (triggers d ! t) = (\<not> has_class K_show (tr_target (triggers d ! t)) d)))
     \<and> (\<forall>p < length (panels d). \<forall>q < length (panels d). p \<noteq> q \<longrightarrow> p_parent (panels d ! p) \<noteq> [] \<longrightarrow>
          p_parent (panels d ! p) = p_parent (panels d ! q) \<longrightarrow> \<not> (has_class K_show p d \<and> has_class K_show q d))"

lemma settled_doc:
  assumes "doc_ok d" "clk_jobs (d_clock d) = []"
  shows "panels_settled d"
proof -
  obtain par s where dr: "doc_rep par s d" using assms(1) by (auto simp: doc_ok_def)
  have still: "\<not> moving (s p)" if p: "p < length par" for p
  proof
    assume m: "moving (s p)"
    then have "s p \<noteq> Is_closed" by (auto simp: moving_def)
    then obtain i where "rep_i p i (s p) d" using sibling_instance [OF doc_repD(1) [OF dr p]] by blast
    then have "\<exists>c. waits p c d" using m unfolding rep_i_def by meson
    then show False using assms(2) by (auto simp: waits_def)
  qed
  have s: "s p = Is_closed \<or> s p = Is_open" if "p < length par" for p using still [OF that] by (cases "s p") (auto simp: moving_def)
  have shows': "has_class K_show p d = (s p = Is_open)" if "p < length par" for p by (rule rep_class(1) [OF doc_repD(1) [OF dr that]])
  have A: "looks (panels d ! p) \<in> {{K_collapse}, {K_collapse, K_show}}
       \<and> (\<forall>i. p_data (panels d ! p) = Some i \<longrightarrow> \<not> i_transitioning (instances d ! i)
            \<and> triggers_show (i_triggers (instances d ! i)) p (has_class K_show p d) d)" if p: "p < length par" for p
  proof (cases "p_data (panels d ! p)")
    case None
    then show ?thesis using doc_repD(1) [OF dr p] by (simp add: rep_def)
  next
    case (Some i)
    then have "rep_i p i (s p) d" using doc_repD(1) [OF dr p] by (simp add: rep_def)
    moreover have "wants_open (s p) = has_class K_show p d" using s [OF p] shows' [OF p] by (auto simp: wants_open_def)
    moreover have "state_looks (s p) \<in> {{K_collapse}, {K_collapse, K_show}}" using s [OF p] by (auto simp: state_looks_def)
    ultimately show ?thesis using Some still [OF p] by (simp add: rep_i_def)
  qed
  have T: "tr_expanded (triggers d ! t) = has_class K_show p d
       \<and> (p_data (panels d ! p) \<noteq> None \<or> p_parent (panels d ! p) \<noteq> [] \<longrightarrow> tr_collapsed (triggers d ! t) = (\<not> has_class K_show p d))"
    if t: "t < length (triggers d)" and p_def: "p = tr_target (triggers d ! t)" for t p
  proof -
    have p: "p < length par" using dr t p_def by (simp add: doc_rep_def)
    show ?thesis
    proof (cases "p_data (panels d ! p)")
      case None
      then have "\<not> has_class K_show p d" using doc_repD(1) [OF dr p] shows' [OF p] by (simp add: rep_def)
      then show ?thesis using None dr t doc_repD(3) [OF dr p] unfolding doc_rep_def p_def by auto
    next
      case (Some i)
      then have "triggers_show (i_triggers (instances d ! i)) p (has_class K_show p d) d" using A [OF p] by blast
      then show ?thesis using t p_def unfolding triggers_show_def by blast
    qed
  qed
  have B: "\<not> (has_class K_show p d \<and> has_class K_show q d)"
    if "p < length par" "q < length par" "p \<noteq> q" "par ! p \<noteq> []" "par ! p = par ! q" for p q
    using dr that shows' unfolding doc_rep_def accordion_def wants_open_def by blast
  have C: "length (panels d) = length par" "\<And>p. p < length par \<Longrightarrow> p_parent (panels d ! p) = par ! p"
    using dr doc_repD(3) [OF dr] by (simp_all add: doc_rep_def)
  show ?thesis unfolding panels_settled_def C(1)
  proof (rule conjI)
    show "\<forall>p < length par. looks (panels d ! p) \<in> {{K_collapse}, {K_collapse, K_show}}
       \<and> (\<forall>i. p_data (panels d ! p) = Some i \<longrightarrow> \<not> i_transitioning (instances d ! i))" using A by blast
  next
    show "(\<forall>t < length (triggers d). tr_expanded (triggers d ! t) = has_class K_show (tr_target (triggers d ! t)) d
       \<and> (p_data (panels d ! tr_target (triggers d ! t)) \<noteq> None \<or> p_parent (panels d ! tr_target (triggers d ! t)) \<noteq> [] \<longrightarrow>
            tr_collapsed (triggers d ! t) = (\<not> has_class K_show (tr_target (triggers d ! t)) d)))
     \<and> (\<forall>p < length par. \<forall>q < length par. p \<noteq> q \<longrightarrow> p_parent (panels d ! p) \<noteq> [] \<longrightarrow>
          p_parent (panels d ! p) = p_parent (panels d ! q) \<longrightarrow> \<not> (has_class K_show p d \<and> has_class K_show q d))"
      using T B C(2) by (intro conjI allI impI) (blast, blast, metis)
  qed
qed

text \<open>
  Property C26.  The panels come to rest consistently: after any sequence of clicks, ends of
  transitions, timers and new cards, the remaining timers end, and then no panel is half open, at most
  one panel of a parent is open, and every trigger in the document tells whether its panel is open: by
  \<open>aria-expanded\<close>, and by the class \<open>collapsed\<close> when its panel has a parent or an instance.  The
  heading of a new card is without this class until it is first clicked.
\<close>

theorem panels_come_to_rest:
  "\<exists>n \<le> length (clk_jobs (d_clock (doc_run is (start_doc par duration)))).
     clk_jobs (d_clock ((fire_panel ^^ n) (doc_run is (start_doc par duration)))) = []
     \<and> panels_settled ((fire_panel ^^ n) (doc_run is (start_doc par duration)))"
proof -
  have "doc_ok (fire_panel d)" if "doc_ok d" for d using doc_step_ok [OF that, of D_timer] by (simp add: doc_step_def)
  from collapse_timers.rest_with [of doc_ok, OF doc_run_ok this] show ?thesis using settled_doc by blast
qed

end
