(* ===== verification/Md5.thy ===== *)
theory Md5
  imports Utf8
begin

text \<open>
  The MD5 routines of \<open>conflict-detection.js\<close>, which the detector uses to name the elements of the
  page by their contents.

  The code computes with the bit operations of the language, which convert their operands to signed
  32-bit integers and read \<open>undefined\<close> as 0.  An array is the list of its elements, \<open>None\<close> for the
  holes that assignments behind its end leave; an assignment at a negative index makes a property
  that is no element.
\<close>

section \<open>Bit operations and arrays\<close>

definition js_and :: "int \<Rightarrow> int \<Rightarrow> int" where "js_and x y = (to_int32 x AND to_int32 y)"
definition js_or :: "int \<Rightarrow> int \<Rightarrow> int" where "js_or x y = (to_int32 x OR to_int32 y)"
definition js_xor :: "int \<Rightarrow> int \<Rightarrow> int" where "js_xor x y = (to_int32 x XOR to_int32 y)"
definition js_not :: "int \<Rightarrow> int" where "js_not x = NOT (to_int32 x)"

text \<open>\<open><<\<close>, \<open>>>\<close> and \<open>>>>\<close>: the shift count is taken modulo 32; the last one gives an unsigned result.\<close>

definition js_shl :: "int \<Rightarrow> int \<Rightarrow> int" where
  "js_shl x n = to_int32 (push_bit (nat (n mod 32)) (to_int32 x))"

definition js_sar :: "int \<Rightarrow> int \<Rightarrow> int" where
  "js_sar x n = drop_bit (nat (n mod 32)) (to_int32 x)"

definition js_shr :: "int \<Rightarrow> int \<Rightarrow> int" where
  "js_shr x n = drop_bit (nat (n mod 32)) (take_bit 32 x)"

type_synonym js_array = "int option list"

text \<open>An element, as the operand of a bit operation.\<close>

definition elem :: "js_array \<Rightarrow> int \<Rightarrow> int" where
  "elem xs i = (if 0 \<le> i \<and> nat i < length xs then (case xs ! nat i of None \<Rightarrow> 0 | Some x \<Rightarrow> x) else 0)"

definition set_elem :: "js_array \<Rightarrow> int \<Rightarrow> int \<Rightarrow> js_array" where
  "set_elem xs i x =
     (if i < 0 then xs
      else if nat i < length xs then xs[nat i := Some x]
      else xs @ replicate (nat i - length xs) None @ [Some x])"

text \<open>\<open>xs[i] |= x\<close>\<close>

definition or_elem :: "js_array \<Rightarrow> int \<Rightarrow> int \<Rightarrow> js_array" where
  "or_elem xs i x = set_elem xs i (js_or (elem xs i) x)"

section \<open>The compression function\<close>

definition safeAdd :: "int \<Rightarrow> int \<Rightarrow> int" where
  "safeAdd x y =
     (let lsw = js_and x 0xffff + js_and y 0xffff;
          msw = js_sar x 16 + js_sar y 16 + js_sar lsw 16
      in js_or (js_shl msw 16) (js_and lsw 0xffff))"

definition bitRotateLeft :: "int \<Rightarrow> int \<Rightarrow> int" where
  "bitRotateLeft num cnt = js_or (js_shl num cnt) (js_shr num (32 - cnt))"

definition md5cmn :: "int \<Rightarrow> int \<Rightarrow> int \<Rightarrow> int \<Rightarrow> int \<Rightarrow> int \<Rightarrow> int" where
  "md5cmn q a b x s t = safeAdd (bitRotateLeft (safeAdd (safeAdd a q) (safeAdd x t)) s) b"

definition md5ff :: "int \<Rightarrow> int \<Rightarrow> int \<Rightarrow> int \<Rightarrow> int \<Rightarrow> int \<Rightarrow> int \<Rightarrow> int" where
  "md5ff a b c d x s t = md5cmn (js_or (js_and b c) (js_and (js_not b) d)) a b x s t"

definition md5gg :: "int \<Rightarrow> int \<Rightarrow> int \<Rightarrow> int \<Rightarrow> int \<Rightarrow> int \<Rightarrow> int \<Rightarrow> int" where
  "md5gg a b c d x s t = md5cmn (js_or (js_and b d) (js_and c (js_not d))) a b x s t"

definition md5hh :: "int \<Rightarrow> int \<Rightarrow> int \<Rightarrow> int \<Rightarrow> int \<Rightarrow> int \<Rightarrow> int \<Rightarrow> int" where
  "md5hh a b c d x s t = md5cmn (js_xor (js_xor b c) d) a b x s t"

definition md5ii :: "int \<Rightarrow> int \<Rightarrow> int \<Rightarrow> int \<Rightarrow> int \<Rightarrow> int \<Rightarrow> int \<Rightarrow> int" where
  "md5ii a b c d x s t = md5cmn (js_xor c (js_or b (js_not d))) a b x s t"

text \<open>
  The statements of the loop body, one row for each: the variable that is assigned and that is the
  first argument, the next three arguments, the function, the offset in \<open>x\<close> and the two constants.
\<close>

datatype md5_var = Ra | Rb | Rc | Rd

type_synonym md5_vars = "int \<times> int \<times> int \<times> int"

fun get_var :: "md5_vars \<Rightarrow> md5_var \<Rightarrow> int" where
  "get_var (a, b, c, d) Ra = a"
| "get_var (a, b, c, d) Rb = b"
| "get_var (a, b, c, d) Rc = c"
| "get_var (a, b, c, d) Rd = d"

fun set_var :: "md5_var \<Rightarrow> int \<Rightarrow> md5_vars \<Rightarrow> md5_vars" where
  "set_var Ra v (a, b, c, d) = (v, b, c, d)"
| "set_var Rb v (a, b, c, d) = (a, v, c, d)"
| "set_var Rc v (a, b, c, d) = (a, b, v, d)"
| "set_var Rd v (a, b, c, d) = (a, b, c, v)"

type_synonym md5_statement =
  "(int \<Rightarrow> int \<Rightarrow> int \<Rightarrow> int \<Rightarrow> int \<Rightarrow> int \<Rightarrow> int \<Rightarrow> int) \<times> md5_var \<times> md5_var \<times> md5_var \<times> md5_var \<times> int \<times> int \<times> int"

definition md5_rows :: "md5_statement list" where
  "md5_rows =
    [(md5ff, Ra, Rb, Rc, Rd, 0, 7, - 680876936), (md5ff, Rd, Ra, Rb, Rc, 1, 12, - 389564586),
     (md5ff, Rc, Rd, Ra, Rb, 2, 17, 606105819), (md5ff, Rb, Rc, Rd, Ra, 3, 22, - 1044525330),
     (md5ff, Ra, Rb, Rc, Rd, 4, 7, - 176418897), (md5ff, Rd, Ra, Rb, Rc, 5, 12, 1200080426),
     (md5ff, Rc, Rd, Ra, Rb, 6, 17, - 1473231341), (md5ff, Rb, Rc, Rd, Ra, 7, 22, - 45705983),
     (md5ff, Ra, Rb, Rc, Rd, 8, 7, 1770035416), (md5ff, Rd, Ra, Rb, Rc, 9, 12, - 1958414417),
     (md5ff, Rc, Rd, Ra, Rb, 10, 17, - 42063), (md5ff, Rb, Rc, Rd, Ra, 11, 22, - 1990404162),
     (md5ff, Ra, Rb, Rc, Rd, 12, 7, 1804603682), (md5ff, Rd, Ra, Rb, Rc, 13, 12, - 40341101),
     (md5ff, Rc, Rd, Ra, Rb, 14, 17, - 1502002290), (md5ff, Rb, Rc, Rd, Ra, 15, 22, 1236535329),
     (md5gg, Ra, Rb, Rc, Rd, 1, 5, - 165796510), (md5gg, Rd, Ra, Rb, Rc, 6, 9, - 1069501632),
     (md5gg, Rc, Rd, Ra, Rb, 11, 14, 643717713), (md5gg, Rb, Rc, Rd, Ra, 0, 20, - 373897302),
     (md5gg, Ra, Rb, Rc, Rd, 5, 5, - 701558691), (md5gg, Rd, Ra, Rb, Rc, 10, 9, 38016083),
     (md5gg, Rc, Rd, Ra, Rb, 15, 14, - 660478335), (md5gg, Rb, Rc, Rd, Ra, 4, 20, - 405537848),
     (md5gg, Ra, Rb, Rc, Rd, 9, 5, 568446438), (md5gg, Rd, Ra, Rb, Rc, 14, 9, - 1019803690),
     (md5gg, Rc, Rd, Ra, Rb, 3, 14, - 187363961), (md5gg, Rb, Rc, Rd, Ra, 8, 20, 1163531501),
     (md5gg, Ra, Rb, Rc, Rd, 13, 5, - 1444681467), (md5gg, Rd, Ra, Rb, Rc, 2, 9, - 51403784),
     (md5gg, Rc, Rd, Ra, Rb, 7, 14, 1735328473), (md5gg, Rb, Rc, Rd, Ra, 12, 20, - 1926607734),
     (md5hh, Ra, Rb, Rc, Rd, 5, 4, - 378558), (md5hh, Rd, Ra, Rb, Rc, 8, 11, - 2022574463),
     (md5hh, Rc, Rd, Ra, Rb, 11, 16, 1839030562), (md5hh, Rb, Rc, Rd, Ra, 14, 23, - 35309556),
     (md5hh, Ra, Rb, Rc, Rd, 1, 4, - 1530992060), (md5hh, Rd, Ra, Rb, Rc, 4, 11, 1272893353),
     (md5hh, Rc, Rd, Ra, Rb, 7, 16, - 155497632), (md5hh, Rb, Rc, Rd, Ra, 10, 23, - 1094730640),
     (md5hh, Ra, Rb, Rc, Rd, 13, 4, 681279174), (md5hh, Rd, Ra, Rb, Rc, 0, 11, - 358537222),
     (md5hh, Rc, Rd, Ra, Rb, 3, 16, - 722521979), (md5hh, Rb, Rc, Rd, Ra, 6, 23, 76029189),
     (md5hh, Ra, Rb, Rc, Rd, 9, 4, - 640364487), (md5hh, Rd, Ra, Rb, Rc, 12, 11, - 421815835),
     (md5hh, Rc, Rd, Ra, Rb, 15, 16, 530742520), (md5hh, Rb, Rc, Rd, Ra, 2, 23, - 995338651),
     (md5ii, Ra, Rb, Rc, Rd, 0, 6, - 198630844), (md5ii, Rd, Ra, Rb, Rc, 7, 10, 1126891415),
     (md5ii, Rc, Rd, Ra, Rb, 14, 15, - 1416354905), (md5ii, Rb, Rc, Rd, Ra, 5, 21, - 57434055),
     (md5ii, Ra, Rb, Rc, Rd, 12, 6, 1700485571), (md5ii, Rd, Ra, Rb, Rc, 3, 10, - 1894986606),
     (md5ii, Rc, Rd, Ra, Rb, 10, 15, - 1051523), (md5ii, Rb, Rc, Rd, Ra, 1, 21, - 2054922799),
     (md5ii, Ra, Rb, Rc, Rd, 8, 6, 1873313359), (md5ii, Rd, Ra, Rb, Rc, 15, 10, - 30611744),
     (md5ii, Rc, Rd, Ra, Rb, 6, 15, - 1560198380), (md5ii, Rb, Rc, Rd, Ra, 13, 21, 1309151649),
     (md5ii, Ra, Rb, Rc, Rd, 4, 6, - 145523070), (md5ii, Rd, Ra, Rb, Rc, 11, 10, - 1120210379),
     (md5ii, Rc, Rd, Ra, Rb, 2, 15, 718787259), (md5ii, Rb, Rc, Rd, Ra, 9, 21, - 343485551)]"

definition md5_row :: "js_array \<Rightarrow> int \<Rightarrow> md5_statement \<Rightarrow> md5_vars \<Rightarrow> md5_vars" where
  "md5_row x i = (\<lambda>(f, p, q, r, u, k, s, t) v.
     set_var p (f (get_var v p) (get_var v q) (get_var v r) (get_var v u) (elem x (i + k)) s t) v)"

definition md5_body :: "js_array \<Rightarrow> int \<Rightarrow> md5_vars \<Rightarrow> md5_vars" where
  "md5_body x i old =
     (let (olda, oldb, oldc, oldd) = old;
          (a, b, c, d) = fold (md5_row x i) md5_rows old
      in (safeAdd a olda, safeAdd b oldb, safeAdd c oldc, safeAdd d oldd))"

function md5_loop :: "js_array \<Rightarrow> nat \<Rightarrow> md5_vars \<Rightarrow> md5_vars" where
  "md5_loop x i v = (if i < length x then md5_loop x (i + 16) (md5_body x (int i) v) else v)"
  by auto
termination by (relation "measure (\<lambda>(x, i, v). length x - i)") auto

declare md5_loop.simps [simp del]

definition md5_start :: md5_vars where
  "md5_start = (1732584193, - 271733879, - 1732584194, 271733878)"

definition binlMD5 :: "js_array \<Rightarrow> int \<Rightarrow> int list" where
  "binlMD5 x len =
     (let x = or_elem x (js_sar len 5) (js_shl 0x80 (len mod 32));
          x = set_elem x (js_shl (js_shr (len + 64) 9) 4 + 14) len;
          (a, b, c, d) = md5_loop x 0 md5_start
      in [a, b, c, d])"

section \<open>Raw strings\<close>

definition binl2rstr :: "int list \<Rightarrow> js_string" where
  "binl2rstr input =
     map (\<lambda>k. let i = 8 * int k
              in word_of_int (js_and (js_shr (input ! nat (js_sar i 5)) (i mod 32)) 0xff))
       [0..<length input * 4]"

fun put_chars :: "int \<Rightarrow> js_string \<Rightarrow> js_array \<Rightarrow> js_array" where
  "put_chars i [] out = out"
| "put_chars i (c # cs) out =
     put_chars (i + 8) cs (or_elem out (js_sar i 5) (js_shl (js_and (uint c) 0xff) (i mod 32)))"

definition rstr2binl :: "js_string \<Rightarrow> js_array" where
  "rstr2binl input = put_chars 0 input (replicate (nat (js_sar (int (length input)) 2)) (Some 0))"

definition rstrMD5 :: "js_string \<Rightarrow> js_string" where
  "rstrMD5 s = binl2rstr (binlMD5 (rstr2binl s) (int (length s) * 8))"

definition xor_pad :: "js_array \<Rightarrow> int \<Rightarrow> js_array" where
  "xor_pad bkey pad = map (\<lambda>i. Some (js_xor (elem bkey (int i)) pad)) [0..<16]"

definition rstrHMACMD5 :: "js_string \<Rightarrow> js_string \<Rightarrow> js_string" where
  "rstrHMACMD5 key dat =
     (let bkey = rstr2binl key;
          bkey = (if length bkey > 16 then map Some (binlMD5 bkey (int (length key) * 8)) else bkey);
          hash = binlMD5 (xor_pad bkey 0x36363636 @ rstr2binl dat) (512 + int (length dat) * 8)
      in binl2rstr (binlMD5 (xor_pad bkey 0x5c5c5c5c @ map Some hash) (512 + 128)))"

definition hexTab :: js_string where "hexTab = js ''0123456789abcdef''"

definition rstr2hex :: "js_string \<Rightarrow> js_string" where
  "rstr2hex input =
     concat (map (\<lambda>c. [hexTab ! nat (js_and (js_shr (uint c) 4) 0x0f), hexTab ! nat (js_and (uint c) 0x0f)]) input)"

section \<open>Text\<close>

text \<open>
  \<open>encodeURIComponent\<close> and \<open>unescape\<close> of the language.  The first one throws a \<open>URIError\<close>, here
  \<open>None\<close>, for a surrogate without its partner.
\<close>

definition unreserved :: "code_unit \<Rightarrow> bool" where
  "unreserved c =
     (48 \<le> uint c \<and> uint c \<le> 57 \<or> 65 \<le> uint c \<and> uint c \<le> 90 \<or> 97 \<le> uint c \<and> uint c \<le> 122
      \<or> c \<in> set (js ''-_.!~*'' @ [39] @ js ''()''))"

definition percent :: code_unit where "percent = 37"

definition upper_digit :: "int \<Rightarrow> code_unit" where
  "upper_digit d = (if d < 10 then word_of_int (48 + d) else word_of_int (55 + d))"

definition percent_byte :: "int \<Rightarrow> js_string" where
  "percent_byte b = [percent, upper_digit (b div 16), upper_digit (b mod 16)]"

fun encodeURIComponent :: "js_string \<Rightarrow> js_string option" where
  "encodeURIComponent [] = Some []"
| "encodeURIComponent (c # cs) =
     (if unreserved c then map_option (\<lambda>r. c # r) (encodeURIComponent cs)
      else if low_surrogate c then None
      else if high_surrogate c then
        (case cs of
           [] \<Rightarrow> None
         | d # ds \<Rightarrow>
             if low_surrogate d
             then map_option (\<lambda>r. concat (map percent_byte (utf8_bytes (code_point c d))) @ r) (encodeURIComponent ds)
             else None)
      else map_option (\<lambda>r. concat (map percent_byte (utf8_bytes (uint c))) @ r) (encodeURIComponent cs))"

definition hex_val :: "code_unit \<Rightarrow> int option" where
  "hex_val c =
     (if 48 \<le> uint c \<and> uint c \<le> 57 then Some (uint c - 48)
      else if 65 \<le> uint c \<and> uint c \<le> 70 then Some (uint c - 55)
      else if 97 \<le> uint c \<and> uint c \<le> 102 then Some (uint c - 87)
      else None)"

fun hex_number :: "js_string \<Rightarrow> int option" where
  "hex_number [] = Some 0"
| "hex_number (c # cs) =
     (case (hex_val c, hex_number cs) of
        (Some d, Some n) \<Rightarrow> Some (16 ^ length cs * d + n)
      | _ \<Rightarrow> None)"

function unescape :: "js_string \<Rightarrow> js_string" where
  "unescape s =
     (case s of
        [] \<Rightarrow> []
      | c # cs \<Rightarrow>
          if c = percent \<and> 5 \<le> length cs \<and> hd cs = 117 \<and> hex_number (take 4 (tl cs)) \<noteq> None
          then word_of_int (the (hex_number (take 4 (tl cs)))) # unescape (drop 5 cs)
          else if c = percent \<and> 2 \<le> length cs \<and> hex_number (take 2 cs) \<noteq> None
          then word_of_int (the (hex_number (take 2 cs))) # unescape (drop 2 cs)
          else c # unescape cs)"
  by auto
termination by (relation "measure length") auto

declare unescape.simps [simp del]

definition str2rstrUTF8 :: "js_string \<Rightarrow> js_string option" where
  "str2rstrUTF8 input = map_option unescape (encodeURIComponent input)"

definition rawMD5 :: "js_string \<Rightarrow> js_string option" where
  "rawMD5 s = map_option rstrMD5 (str2rstrUTF8 s)"

definition hexMD5 :: "js_string \<Rightarrow> js_string option" where
  "hexMD5 s = map_option rstr2hex (rawMD5 s)"

definition rawHMACMD5 :: "js_string \<Rightarrow> js_string \<Rightarrow> js_string option" where
  "rawHMACMD5 k d =
     Option.bind (str2rstrUTF8 k) (\<lambda>k. map_option (rstrHMACMD5 k) (str2rstrUTF8 d))"

definition hexHMACMD5 :: "js_string \<Rightarrow> js_string \<Rightarrow> js_string option" where
  "hexHMACMD5 k d = map_option rstr2hex (rawHMACMD5 k d)"

text \<open>An absent key is \<open>None\<close>; the empty key counts as absent.\<close>

definition md5 :: "js_string \<Rightarrow> js_string option \<Rightarrow> bool \<Rightarrow> js_string option" where
  "md5 string key raw =
     (case key of
        Some (k # ks) \<Rightarrow> if raw then rawHMACMD5 (k # ks) string else hexHMACMD5 (k # ks) string
      | _ \<Rightarrow> if raw then rawMD5 string else hexMD5 string)"

end
