(* ===== verification/Md5_Spec.thy ===== *)
theory Md5_Spec
  imports Md5
begin

text \<open>
  The message digest of RFC 1321 and the keyed hash of RFC 2104, over bytes and 32-bit words: the
  reference for the routines of the code.
\<close>

type_synonym word32 = "32 word"
type_synonym digest = "word32 \<times> word32 \<times> word32 \<times> word32"

section \<open>Padding\<close>

text \<open>A one bit, zeros up to 8 bytes before a multiple of 64, and the length in bits.\<close>

definition length_bytes :: "nat \<Rightarrow> byte list" where
  "length_bytes n = map (\<lambda>k. word_of_int (int n div 256 ^ k)) [0..<8]"

definition pad_zeros :: "nat \<Rightarrow> nat" where
  "pad_zeros n = (119 - n mod 64) mod 64"

definition pad_message :: "byte list \<Rightarrow> byte list" where
  "pad_message bs = bs @ [0x80] @ replicate (pad_zeros (length bs)) 0 @ length_bytes (8 * length bs)"

text \<open>Bytes as words, the first byte the lowest.\<close>

fun le_int :: "byte list \<Rightarrow> int" where
  "le_int [] = 0"
| "le_int (b # bs) = uint b + 256 * le_int bs"

definition le_word :: "byte list \<Rightarrow> word32" where "le_word bs = word_of_int (le_int bs)"

fun le_words :: "byte list \<Rightarrow> word32 list" where
  "le_words [] = []"
| "le_words bs = le_word (take 4 bs) # le_words (drop 4 bs)"

definition word_bytes :: "word32 \<Rightarrow> byte list" where
  "word_bytes w = map (\<lambda>k. word_of_int (uint w div 256 ^ k)) [0..<4]"

section \<open>Rounds\<close>

definition rfc_F :: "word32 \<Rightarrow> word32 \<Rightarrow> word32 \<Rightarrow> word32" where "rfc_F x y z = x AND y OR NOT x AND z"
definition rfc_G :: "word32 \<Rightarrow> word32 \<Rightarrow> word32 \<Rightarrow> word32" where "rfc_G x y z = x AND z OR y AND NOT z"
definition rfc_H :: "word32 \<Rightarrow> word32 \<Rightarrow> word32 \<Rightarrow> word32" where "rfc_H x y z = (x XOR y) XOR z"
definition rfc_I :: "word32 \<Rightarrow> word32 \<Rightarrow> word32 \<Rightarrow> word32" where "rfc_I x y z = y XOR (x OR NOT z)"

definition rfc_fun :: "nat \<Rightarrow> word32 \<Rightarrow> word32 \<Rightarrow> word32 \<Rightarrow> word32" where
  "rfc_fun n = (if n < 16 then rfc_F else if n < 32 then rfc_G else if n < 48 then rfc_H else rfc_I)"

definition rfc_index :: "nat \<Rightarrow> nat" where
  "rfc_index n =
     (if n < 16 then n else if n < 32 then (5 * n + 1) mod 16 else if n < 48 then (3 * n + 5) mod 16
      else 7 * n mod 16)"

definition rfc_shift :: "nat \<Rightarrow> nat" where
  "rfc_shift n =
     (if n < 16 then [7, 12, 17, 22] else if n < 32 then [5, 9, 14, 20] else if n < 48 then [4, 11, 16, 23]
      else [6, 10, 15, 21]) ! (n mod 4)"

text \<open>The table of the standard: the integer parts of \<open>2 ^ 32 * \<bar>sin n\<bar>\<close> for \<open>n\<close> from 1 to 64.\<close>

definition rfc_T :: "word32 list" where
  "rfc_T =
    [0xd76aa478, 0xe8c7b756, 0x242070db, 0xc1bdceee, 0xf57c0faf, 0x4787c62a,
     0xa8304613, 0xfd469501, 0x698098d8, 0x8b44f7af, 0xffff5bb1, 0x895cd7be,
     0x6b901122, 0xfd987193, 0xa679438e, 0x49b40821, 0xf61e2562, 0xc040b340,
     0x265e5a51, 0xe9b6c7aa, 0xd62f105d, 0x02441453, 0xd8a1e681, 0xe7d3fbc8,
     0x21e1cde6, 0xc33707d6, 0xf4d50d87, 0x455a14ed, 0xa9e3e905, 0xfcefa3f8,
     0x676f02d9, 0x8d2a4c8a, 0xfffa3942, 0x8771f681, 0x6d9d6122, 0xfde5380c,
     0xa4beea44, 0x4bdecfa9, 0xf6bb4b60, 0xbebfbc70, 0x289b7ec6, 0xeaa127fa,
     0xd4ef3085, 0x04881d05, 0xd9d4d039, 0xe6db99e5, 0x1fa27cf8, 0xc4ac5665,
     0xf4292244, 0x432aff97, 0xab9423a7, 0xfc93a039, 0x655b59c3, 0x8f0ccc92,
     0xffeff47d, 0x85845dd1, 0x6fa87e4f, 0xfe2ce6e0, 0xa3014314, 0x4e0811a1,
     0xf7537e82, 0xbd3af235, 0x2ad7d2bb, 0xeb86d391]"

text \<open>One operation, followed by the exchange of the roles of the four words.\<close>

fun rfc_step :: "word32 list \<Rightarrow> nat \<Rightarrow> digest \<Rightarrow> digest" where
  "rfc_step M n (a, b, c, d) =
     (d, b + word_rotl (rfc_shift n) (a + rfc_fun n b c d + M ! rfc_index n + rfc_T ! n), b, c)"

fun add_digest :: "digest \<Rightarrow> digest \<Rightarrow> digest" where
  "add_digest (a, b, c, d) (a', b', c', d') = (a + a', b + b', c + c', d + d')"

definition rfc_block :: "word32 list \<Rightarrow> digest \<Rightarrow> digest" where
  "rfc_block M v = add_digest v (fold (rfc_step M) [0..<64] v)"

function rfc_blocks :: "word32 list \<Rightarrow> digest \<Rightarrow> digest" where
  "rfc_blocks ws v = (if ws = [] then v else rfc_blocks (drop 16 ws) (rfc_block (take 16 ws) v))"
  by auto
termination by (relation "measure (\<lambda>(ws, v). length ws)") auto

declare rfc_blocks.simps [simp del]

definition rfc_start :: digest where
  "rfc_start = (0x67452301, 0xefcdab89, 0x98badcfe, 0x10325476)"

definition rfc_digest :: "byte list \<Rightarrow> digest" where
  "rfc_digest bs = rfc_blocks (le_words (pad_message bs)) rfc_start"

definition rfc_md5 :: "byte list \<Rightarrow> byte list" where
  "rfc_md5 bs = (let (a, b, c, d) = rfc_digest bs in concat (map word_bytes [a, b, c, d]))"

section \<open>The keyed hash\<close>

definition rfc_key :: "byte list \<Rightarrow> byte list" where
  "rfc_key key = (let k = (if length key > 64 then rfc_md5 key else key) in k @ replicate (64 - length k) 0)"

definition rfc_hmac :: "byte list \<Rightarrow> byte list \<Rightarrow> byte list" where
  "rfc_hmac key bs =
     rfc_md5 (map (\<lambda>b. b XOR 0x5c) (rfc_key key) @ rfc_md5 (map (\<lambda>b. b XOR 0x36) (rfc_key key) @ bs))"

text \<open>Two test vectors of RFC 1321.\<close>

definition hex_bytes :: "byte list \<Rightarrow> js_string" where
  "hex_bytes bs = concat (map (\<lambda>b. [hexTab ! (unat b div 16), hexTab ! (unat b mod 16)]) bs)"


end
