(* ===== verification/Md5_Rounds.thy ===== *)
theory Md5_Rounds
  imports Md5_Spec
begin

text \<open>
  \<open>binlMD5\<close> of \<open>conflict-detection.js\<close> computes the four words of the digest of RFC 1321 for an array
  that represents a list of bytes: the bit operations of the code are the operations on 32-bit
  words, its rows are the rounds of the standard, and what it writes behind the message is the
  padding.
\<close>

section \<open>Bit operations on words\<close>

abbreviation w32 :: "int \<Rightarrow> word32" where "w32 \<equiv> word_of_int"

named_theorems word_forms \<open>the 32-bit word of the result of an operation\<close>

lemma bit_int32: "n < 32 \<Longrightarrow> bit (to_int32 x) n = bit x n"
  by (cases "n = 31") (auto simp: to_int32_def bit_simps min_def)

lemma w32_int32 [word_forms]: "w32 (to_int32 x) = w32 x"
  by (rule bit_word_eqI) (simp add: bit_simps bit_int32)

lemma w32_and [word_forms]: "w32 (js_and x y) = w32 x AND w32 y"
  by (rule bit_word_eqI) (simp add: js_and_def bit_simps bit_int32)

lemma w32_or [word_forms]: "w32 (js_or x y) = w32 x OR w32 y"
  by (rule bit_word_eqI) (simp add: js_or_def bit_simps bit_int32)

lemma w32_xor [word_forms]: "w32 (js_xor x y) = w32 x XOR w32 y"
  by (rule bit_word_eqI) (simp add: js_xor_def bit_simps bit_int32)

lemma w32_not [word_forms]: "w32 (js_not x) = NOT (w32 x)"
  by (rule bit_word_eqI) (simp add: js_not_def bit_simps bit_int32)

lemma w32_shl: "n < 32 \<Longrightarrow> w32 (js_shl x (int n)) = push_bit n (w32 x)"
  by (rule bit_word_eqI) (auto simp: js_shl_def bit_simps bit_int32)

lemma w32_shr: "n < 32 \<Longrightarrow> w32 (js_shr x (int n)) = drop_bit n (w32 x)"
  by (rule bit_word_eqI) (auto simp: js_shr_def bit_simps)

lemma and_0xffff: "js_and x 0xffff = to_int32 x mod 65536"
  using and_mod [of "to_int32 x" 16] by (simp add: js_and_def to_int32_id)

lemma sar_16: "js_sar x 16 = to_int32 x div 65536"
  by (simp add: js_sar_def drop_bit_eq_div)

lemma w32_safeAdd [word_forms]: "w32 (safeAdd x y) = w32 x + w32 y"
proof -
  define a b where "a = to_int32 x" and "b = to_int32 y"
  define l where "l = a mod 65536 + b mod 65536"
  define m where "m = a div 65536 + b div 65536 + l div 65536"
  have "0 \<le> a mod 65536" "a mod 65536 < 65536" "0 \<le> b mod 65536" "b mod 65536 < 65536" by simp_all
  then have "0 \<le> l" "l < 2147483648" unfolding l_def by linarith+
  then have l: "to_int32 l = l" by (intro to_int32_id) simp_all
  have "safeAdd x y = js_or (js_shl m 16) (l mod 65536)"
    by (simp add: safeAdd_def and_0xffff sar_16 l flip: a_def b_def l_def m_def)
  then have "w32 (safeAdd x y) = w32 (65536 * m) OR w32 (l mod 65536)"
    using w32_shl [of 16 m] by (simp add: w32_or push_bit_eq_mult mult.commute)
  also have "\<dots> = w32 (l mod 65536 OR 65536 * m)"
    by (simp only: of_int_or_eq or.commute)
  also have "\<dots> = w32 (l mod 65536 + 65536 * m)"
    using mod_or [of l 16 m] by simp
  also have "l mod 65536 + 65536 * m = a + b"
    unfolding m_def l_def by (simp add: algebra_simps)
  also have "w32 (a + b) = w32 x + w32 y"
    by (simp add: a_def b_def w32_int32)
  finally show ?thesis .
qed

lemma w32_rotate:
  assumes "0 < n" "n < 32" shows "w32 (bitRotateLeft x (int n)) = word_rotl n (w32 x)"
proof -
  have "int 32 - int n = int (32 - n)" using assms by simp
  then have "w32 (bitRotateLeft x (int n)) = push_bit n (w32 x) OR drop_bit (32 - n) (w32 x)"
    using assms w32_shl [of n x] w32_shr [of "32 - n" x]
    by (simp add: bitRotateLeft_def w32_or)
  also have "\<dots> = word_rotl n (w32 x)"
  proof (rule bit_word_eqI)
    fix k assume "k < LENGTH(32)"
    then have k: "k < 32" by simp
    have rot: "bit (word_rotl n (w32 x)) k = bit x ((k + 32 - n) mod 32)"
      using assms k by (simp add: bit_simps)
    have sum: "32 - n + k = k + 32 - n" using assms by simp
    have less: "n \<le> k \<Longrightarrow> \<not> k + 32 - n < 32" "\<not> n \<le> k \<Longrightarrow> k + 32 - n < 32" "k - n < 32"
      using assms k by linarith+
    have "bit (push_bit n (w32 x)) k = (n \<le> k \<and> bit x (k - n))"
      using k less(3) by (auto simp: bit_simps)
    moreover have "bit (drop_bit (32 - n) (w32 x)) k = (k + 32 - n < 32 \<and> bit x (k + 32 - n))"
      by (simp only: bit_drop_bit_eq o_apply sum bit_word_of_int_iff) simp
    ultimately have shifts: "bit (push_bit n (w32 x) OR drop_bit (32 - n) (w32 x)) k
        = (if n \<le> k then bit x (k - n) else bit x (k + 32 - n))"
      by (cases "n \<le> k") (simp_all only: bit_or_iff less if_True if_False simp_thms)
    show "bit (push_bit n (w32 x) OR drop_bit (32 - n) (w32 x)) k = bit (word_rotl n (w32 x)) k"
    proof (cases "n \<le> k")
      case True
      then have "k + 32 - n = (k - n) + 32" by simp
      then have "(k + 32 - n) mod 32 = k - n" by (simp only: mod_add_self2 mod_less less(3))
      then show ?thesis using True unfolding shifts rot by (simp only: if_True)
    next
      case False
      then have "(k + 32 - n) mod 32 = k + 32 - n" by (simp only: mod_less less(2))
      then show ?thesis using False unfolding shifts rot by (simp only: if_False simp_thms)
    qed
  qed
  finally show ?thesis .
qed

section \<open>The rounds\<close>

text \<open>
  A row of the table is an operation of the standard when its function is the one of the round, and
  its constants are those of the standard.  The code assigns the variables in turn, where the
  standard exchanges their roles: before the operation \<open>n\<close> the roles are rotated by \<open>n mod 4\<close>.
\<close>

definition word_fun :: "(int \<Rightarrow> int \<Rightarrow> int \<Rightarrow> int \<Rightarrow> int \<Rightarrow> int \<Rightarrow> int \<Rightarrow> int) \<Rightarrow> (word32 \<Rightarrow> word32 \<Rightarrow> word32 \<Rightarrow> word32) \<Rightarrow> bool" where
  "word_fun f g = (\<forall>a b c d x n t. 0 < n \<and> n < 32 \<longrightarrow>
     w32 (f a b c d x (int n) t) = w32 b + word_rotl n (w32 a + g (w32 b) (w32 c) (w32 d) + w32 x + w32 t))"

lemma word_funs: "word_fun md5ff rfc_F" "word_fun md5gg rfc_G" "word_fun md5hh rfc_H" "word_fun md5ii rfc_I"
  unfolding word_fun_def md5ff_def md5gg_def md5hh_def md5ii_def md5cmn_def rfc_F_def rfc_G_def rfc_H_def rfc_I_def
  by (auto simp: word_forms w32_rotate ac_simps)

fun roles :: "nat \<Rightarrow> digest \<Rightarrow> digest" where
  "roles n (a, b, c, d) =
     (if n mod 4 = 0 then (a, b, c, d) else if n mod 4 = 1 then (d, a, b, c)
      else if n mod 4 = 2 then (c, d, a, b) else (b, c, d, a))"

fun word_vars :: "md5_vars \<Rightarrow> digest" where
  "word_vars (a, b, c, d) = (w32 a, w32 b, w32 c, w32 d)"

fun row_vars :: "nat \<Rightarrow> md5_var \<times> md5_var \<times> md5_var \<times> md5_var" where
  "row_vars n = (if n mod 4 = 0 then (Ra, Rb, Rc, Rd) else if n mod 4 = 1 then (Rd, Ra, Rb, Rc)
      else if n mod 4 = 2 then (Rc, Rd, Ra, Rb) else (Rb, Rc, Rd, Ra))"

definition row_ok :: "nat \<Rightarrow> md5_statement \<Rightarrow> bool" where
  "row_ok n = (\<lambda>(f, p, q, r, u, k, s, t).
     word_fun f (rfc_fun n) \<and> (p, q, r, u) = row_vars n \<and> k = int (rfc_index n) \<and> s = int (rfc_shift n)
     \<and> 0 < rfc_shift n \<and> rfc_shift n < 32 \<and> rfc_index n < 16 \<and> w32 t = rfc_T ! n)"

lemma rows_ok: "list_all2 row_ok [0..<64] md5_rows"
  by (simp add: upt_conv_Cons md5_rows_def row_ok_def word_funs rfc_fun_def rfc_index_def rfc_shift_def rfc_T_def)

lemma row_step:
  assumes "row_ok n row" and M: "\<forall>k < 16. w32 (elem x (i + int k)) = M ! k"
  shows "roles (Suc n) (word_vars (md5_row x i row v)) = rfc_step M n (roles n (word_vars v))"
proof -
  obtain f p q r u k s t where row: "row = (f, p, q, r, u, k, s, t)" by (cases row) auto
  obtain a b c d where v: "v = (a, b, c, d)" by (cases v) auto
  have f: "w32 (f a b c d y s t) = w32 b + word_rotl (rfc_shift n) (w32 a + rfc_fun n (w32 b) (w32 c) (w32 d) + w32 y + rfc_T ! n)"
    for a b c d y using assms(1) by (auto simp: row row_ok_def word_fun_def)
  have e: "w32 (elem x (i + k)) = M ! rfc_index n" and vars: "(p, q, r, u) = row_vars n"
    using assms by (auto simp: row row_ok_def)
  consider "n mod 4 = 0" | "n mod 4 = 1" | "n mod 4 = 2" | "n mod 4 = 3" by linarith
  then show ?thesis
  proof cases
    case 1
    then have "Suc n mod 4 = 1" by presburger
    then show ?thesis using 1 vars e by (simp add: v row md5_row_def f)
  next
    case 2
    then have "Suc n mod 4 = 2" by presburger
    then show ?thesis using 2 vars e by (simp add: v row md5_row_def f)
  next
    case 3
    then have "Suc n mod 4 = 3" by presburger
    then show ?thesis using 3 vars e by (simp add: v row md5_row_def f)
  next
    case 4
    then have "Suc n mod 4 = 0" by presburger
    then show ?thesis using 4 vars e by (simp add: v row md5_row_def f)
  qed
qed

lemma fold_rows:
  assumes "list_all2 row_ok [m..<m + length rows] rows" and "\<forall>k < 16. w32 (elem x (i + int k)) = M ! k"
  shows "roles (m + length rows) (word_vars (fold (md5_row x i) rows v))
     = fold (rfc_step M) [m..<m + length rows] (roles m (word_vars v))"
  using assms(1)
proof (induction rows arbitrary: m v rule: list.induct)
  case (Cons row rows)
  have upt: "[m..<m + length (row # rows)] = m # [Suc m..<Suc m + length rows]"
    using upt_conv_Cons [of m "m + length (row # rows)"] by (simp del: upt_Suc)
  have row: "row_ok m row" and rest: "list_all2 row_ok [Suc m..<Suc m + length rows] rows"
    using Cons.prems unfolding upt by simp_all
  show ?case
    using Cons.IH [OF rest, of "md5_row x i row v"] row_step [OF row assms(2), of v]
    unfolding upt by (simp del: upt_Suc)
qed simp

lemma length_rows: "length md5_rows = 64"
  by (simp add: md5_rows_def)

lemma w32_body:
  assumes "\<forall>k < 16. w32 (elem x (i + int k)) = M ! k"
  shows "word_vars (md5_body x i v) = rfc_block M (word_vars v)"
proof -
  have id: "roles 0 d = d" "roles 64 d = d" for d by (cases d; simp)+
  have "word_vars (fold (md5_row x i) md5_rows v) = fold (rfc_step M) [0..<64] (word_vars v)"
    using fold_rows [of 0 md5_rows x i M v] rows_ok assms by (simp only: length_rows id add_0)
  moreover have "word_vars (md5_body x i v) = add_digest (word_vars v) (word_vars (fold (md5_row x i) md5_rows v))"
    by (cases v; cases "fold (md5_row x i) md5_rows v") (simp add: md5_body_def word_forms ac_simps)
  ultimately show ?thesis by (simp add: rfc_block_def)
qed

lemma w32_loop:
  assumes "length x = 16 * N - 1" "\<forall>k < 16 * N. w32 (elem x (int k)) = ws ! k" "length ws = 16 * N"
  shows "j \<le> N \<Longrightarrow> word_vars (md5_loop x (16 * j) v) = rfc_blocks (drop (16 * j) ws) (word_vars v)"
proof (induction "N - j" arbitrary: j v)
  case 0
  then have "\<not> 16 * j < length x" using assms(1) by simp
  then show ?case using 0 assms(3) by (simp add: md5_loop.simps [of x] rfc_blocks.simps [of "[]"])
next
  case (Suc n)
  then have j: "j < N" by simp
  then have more: "16 * j < length x" "drop (16 * j) ws \<noteq> []" using assms(1,3) by auto
  have "\<forall>k < 16. w32 (elem x (int (16 * j) + int k)) = take 16 (drop (16 * j) ws) ! k"
  proof (intro allI impI)
    fix k :: nat assume k: "k < 16"
    then have "16 * j + k < 16 * N" using j by linarith
    then have "w32 (elem x (int (16 * j + k))) = ws ! (16 * j + k)" using assms(2) by blast
    then show "w32 (elem x (int (16 * j) + int k)) = take 16 (drop (16 * j) ws) ! k"
      using k assms(3) j by (simp add: of_nat_add)
  qed
  then have body: "word_vars (md5_body x (int (16 * j)) v) = rfc_block (take 16 (drop (16 * j) ws)) (word_vars v)"
    by (rule w32_body)
  have "word_vars (md5_loop x (16 * Suc j) (md5_body x (int (16 * j)) v))
      = rfc_blocks (drop (16 * Suc j) ws) (word_vars (md5_body x (int (16 * j)) v))"
    using Suc j by (intro Suc.hyps(1)) simp_all
  then show ?case
    using more body by (simp add: md5_loop.simps [of x "16 * j"] rfc_blocks.simps [of "drop (16 * j) ws"] add.commute)
qed

section \<open>Words and bytes\<close>

definition word_at :: "byte list \<Rightarrow> nat \<Rightarrow> word32" where
  "word_at bs i = le_word (take 4 (drop (4 * i) bs))"

lemma le_int_range: "0 \<le> le_int bs \<and> le_int bs < 256 ^ length bs"
proof (induction bs)
  case (Cons b bs)
  then show ?case using word8_lt [of b] by (simp, linarith)
qed simp

lemma le_int_append: "le_int (bs @ cs) = le_int bs + 256 ^ length bs * le_int cs"
  by (induction bs) (auto simp: algebra_simps)

lemma le_int_zeros [simp]: "le_int (replicate n 0) = 0"
  by (induction n) auto

lemma word_at_zeros: "word_at (bs @ replicate n 0) i = word_at bs i"
  by (simp add: word_at_def le_word_def le_int_append take_replicate drop_replicate)

lemma word_at_beyond: "length bs \<le> 4 * i \<Longrightarrow> word_at bs i = 0"
  by (simp add: word_at_def le_word_def)

lemma word_at_prefix: "4 * Suc i \<le> length bs \<Longrightarrow> word_at (bs @ cs) i = word_at bs i"
  by (simp add: word_at_def)

lemma word_at_suffix: "length bs = 4 * n \<Longrightarrow> n \<le> i \<Longrightarrow> word_at (bs @ cs) i = word_at cs (i - n)"
  by (simp add: word_at_def diff_mult_distrib2)

lemma le_words_nth: "4 * i < length bs \<Longrightarrow> le_words bs ! i = word_at bs i"
proof (induction bs arbitrary: i rule: le_words.induct)
  case (2 b bs)
  then show ?case
  proof (cases i)
    case (Suc j)
    then have "4 * j < length (drop 4 (b # bs))" using 2(2) by auto
    moreover have "drop (4 * i) (b # bs) = drop (4 * j) (drop 4 (b # bs))"
      using Suc by (simp only: drop_drop mult_Suc_right add.commute)
    ultimately show ?thesis using 2(1) Suc by (simp add: word_at_def)
  qed (simp add: word_at_def)
qed simp

lemma length_le_words: "length (le_words bs) = (length bs + 3) div 4"
proof (induction bs rule: le_words.induct)
  case (2 b bs)
  then show ?case by (simp, presburger)
qed simp

section \<open>Filling arrays with bytes\<close>

text \<open>The words of the array are those of the bytes, the last one filled up with zeros.\<close>

definition reps :: "js_array \<Rightarrow> byte list \<Rightarrow> bool" where
  "reps xs bs = (\<forall>i. w32 (elem xs (int i)) = word_at bs i)"

lemma elem_set: "0 \<le> i \<Longrightarrow> elem (set_elem xs i v) (int k) = (if int k = i then v else elem xs (int k))"
  by (auto simp: elem_def set_elem_def nth_append nth_list_update split: option.split)

lemma length_set_elem: "length (set_elem xs (int i) v) = max (length xs) (Suc i)"
  by (auto simp: set_elem_def)

lemma or_byte:
  assumes "reps xs bs" "0 \<le> v" "v < 256"
  shows "reps (or_elem xs (int (length bs div 4)) (js_shl v (8 * (int (length bs) mod 4)))) (bs @ [word_of_int v])"
  unfolding reps_def
proof
  fix i
  define n r where "n = length bs div 4" and "r = length bs mod 4"
  have r: "r < 4" "length bs = 4 * n + r" by (simp_all add: n_def r_def)
  define ys where "ys = or_elem xs (int n) (js_shl v (int (8 * r)))"
  have "w32 (elem ys (int i)) = word_at (bs @ [word_of_int v]) i"
  proof (cases "i = n")
    case True
    define t where "t = drop (4 * n) bs"
    have t: "length t = r" "length (t @ [word_of_int v]) \<le> 4" using r by (simp_all add: t_def)
    have "w32 (elem ys (int i)) = word_at bs n OR push_bit (8 * r) (w32 v)"
      using True assms(1) r w32_shl [of "8 * r" v]
      by (simp add: ys_def or_elem_def elem_set w32_or reps_def)
    also have "word_at bs n = w32 (le_int t)"
      using t by (simp add: word_at_def le_word_def t_def)
    also have "w32 (le_int t) OR push_bit (8 * r) (w32 v) = w32 (le_int t OR 2 ^ (8 * r) * v)"
      by (simp only: of_int_or_eq push_bit_eq_mult of_int_mult of_int_power of_int_numeral mult.commute)
    also have "le_int t OR 2 ^ (8 * r) * v = le_int t + 2 ^ (8 * r) * v"
      using le_int_range [of t] by (intro less_or) (simp_all add: t power_mult)
    also have "\<dots> = le_int (t @ [word_of_int v])"
      using assms(2,3) by (simp add: le_int_append t power_mult)
    also have "w32 \<dots> = word_at (bs @ [word_of_int v]) n"
      using r t(2) by (simp add: word_at_def le_word_def t_def)
    finally show ?thesis using True by simp
  next
    case False
    have "w32 (elem ys (int i)) = word_at bs i"
      using False assms(1) by (simp add: ys_def or_elem_def elem_set reps_def)
    also have "word_at bs i = word_at (bs @ [word_of_int v]) i"
    proof (cases "i < n")
      case True
      then have "4 * Suc i \<le> 4 * n" by simp
      then have "4 * Suc i \<le> length bs" using r(2) by simp
      then show ?thesis by (simp add: word_at_prefix)
    next
      case False
      with \<open>i \<noteq> n\<close> have "n < i" by simp
      then have "length bs + 1 \<le> 4 * i" using r by linarith
      then show ?thesis by (simp add: word_at_beyond)
    qed
    finally show ?thesis .
  qed
  moreover have "8 * (int (length bs) mod 4) = int (8 * r)" by (simp add: r_def zmod_int)
  ultimately show "w32 (elem (or_elem xs (int (length bs div 4)) (js_shl v (8 * (int (length bs) mod 4)))) (int i))
      = word_at (bs @ [word_of_int v]) i"
    by (simp only: ys_def n_def)
qed

definition char_bytes :: "js_string \<Rightarrow> byte list" where
  "char_bytes s = map (\<lambda>c. word_of_int (uint c)) s"

definition byte_chars :: "byte list \<Rightarrow> js_string" where
  "byte_chars bs = map (\<lambda>b. word_of_int (uint b)) bs"

lemma length_char_bytes [simp]: "length (char_bytes s) = length s"
  by (simp add: char_bytes_def)

lemma sar_5: "8 * int n < 2 ^ 31 \<Longrightarrow> js_sar (8 * int n) 5 = int (n div 4)"
  by (simp add: js_sar_def to_int32_id drop_bit_eq_div zdiv_int)

lemma shift_bits: "8 * int n mod 32 = 8 * (int n mod 4)"
  by (simp add: mult_mod_right)

lemma put_chars_reps:
  "reps xs bs \<Longrightarrow> 8 * int (length bs + length cs) < 2 ^ 31 \<Longrightarrow>
   reps (put_chars (8 * int (length bs)) cs xs) (bs @ char_bytes cs) \<and>
   length (put_chars (8 * int (length bs)) cs xs)
     = max (length xs) (if cs = [] then 0 else (length bs + length cs + 3) div 4)"
proof (induction cs arbitrary: xs bs)
  case Nil
  then show ?case by (simp add: char_bytes_def)
next
  case (Cons c cs)
  let ?n = "length bs" and ?v = "js_and (uint c) 0xff"
  define ys where "ys = or_elem xs (int (?n div 4)) (js_shl ?v (8 * (int ?n mod 4)))"
  have "to_int32 (uint c) = uint c" by (simp add: to_int32_id less_trans [OF word16_lt])
  then have v: "?v = uint c mod 256"
    using and_mod [of "uint c" 8] by (simp add: js_and_def to_int32_id)
  have b: "word_of_int ?v = (word_of_int (uint c) :: byte)" unfolding v by (rule word_of_int_mod_8)
  have "reps ys (bs @ [word_of_int (uint c)])"
    unfolding ys_def b [symmetric] by (rule or_byte [OF Cons.prems(1)]) (simp_all add: v)
  from Cons.IH [OF this] Cons.prems(2)
  have IH: "reps (put_chars (8 * int ?n + 8) cs ys) (bs @ char_bytes (c # cs))"
    "length (put_chars (8 * int ?n + 8) cs ys) = max (length ys) (if cs = [] then 0 else (?n + length (c # cs) + 3) div 4)"
    by (simp_all add: algebra_simps char_bytes_def)
  have step: "put_chars (8 * int ?n) (c # cs) xs = put_chars (8 * int ?n + 8) cs ys"
    using Cons.prems(2) by (simp add: sar_5 shift_bits ys_def)
  have "length ys = max (length xs) (Suc (?n div 4))"
    by (simp add: ys_def or_elem_def length_set_elem)
  moreover have "Suc (?n div 4) \<le> (?n + length (c # cs) + 3) div 4"
    "cs = [] \<Longrightarrow> Suc (?n div 4) = (?n + length (c # cs) + 3) div 4" by simp_all
  ultimately have "length (put_chars (8 * int ?n + 8) cs ys) = max (length xs) ((?n + length (c # cs) + 3) div 4)"
    using IH(2) by (auto simp: max_def)
  then show ?case unfolding step using IH(1) by simp
qed

lemma reps_empty: "reps (replicate n (Some 0)) []"
  by (auto simp: reps_def elem_def word_at_beyond)

lemma rstr2binl_reps:
  assumes "length s < 2 ^ 28"
  shows "reps (rstr2binl s) (char_bytes s) \<and> length (rstr2binl s) = (length s + 3) div 4"
proof -
  have "js_sar (int (length s)) 2 = int (length s div 4)"
    using assms by (simp add: js_sar_def to_int32_id drop_bit_eq_div zdiv_int)
  moreover have "8 * int (length ([] :: byte list) + length s) < 2 ^ 31" using assms by simp
  moreover have "max (length s div 4) (if s = [] then 0 else (length s + 3) div 4) = (length s + 3) div 4"
    by (cases s) (auto simp: max_def)
  ultimately show ?thesis
    using put_chars_reps [OF reps_empty, of s "length s div 4"] by (simp add: rstr2binl_def)
qed

section \<open>Padding\<close>

lemma pad_zeros_length: "n + 1 + pad_zeros n = 64 * ((n + 8) div 64) + 56"
proof -
  define q r where "q = n div 64" and "r = n mod 64"
  have n: "n = 64 * q + r" "r < 64" by (simp_all add: q_def r_def)
  have zeros: "pad_zeros n = (119 - r) mod 64" by (simp add: pad_zeros_def r_def)
  have "n + 8 = (r + 8) + 64 * q" using n by simp
  then have quotient: "(n + 8) div 64 = q + (r + 8) div 64" by (simp only: div_mult_self2)
  show ?thesis
  proof (cases "r \<le> 55")
    case True
    then have "119 - r = (55 - r) + 64" by simp
    then have "(119 - r) mod 64 = (55 - r) mod 64" by (simp only: mod_add_self2)
    then show ?thesis using n True zeros quotient by simp
  next
    case False
    then have "(r + 8) div 64 = 1" using n(2) by (intro div_nat_eqI) simp_all
    then show ?thesis using n False zeros quotient by simp
  qed
qed

lemma le_int_digits: "le_int (map (\<lambda>k. word_of_int (v div 256 ^ k)) [0..<n]) = v mod 256 ^ n"
proof (induction n)
  case (Suc n)
  have "v mod 256 ^ Suc n = 256 ^ n * (v div 256 ^ n mod 256) + v mod 256 ^ n"
    using zmod_zmult2_eq [of 256 v "256 ^ n"] by (simp add: mult.commute)
  then show ?case using Suc by (simp add: le_int_append)
qed simp

lemma word_at_length:
  assumes "0 \<le> v" "v < 4294967296"
  shows "word_at (map (\<lambda>k. word_of_int (v div 256 ^ k)) [0..<8]) 0 = w32 v"
    and "word_at (map (\<lambda>k. word_of_int (v div 256 ^ k)) [0..<8]) 1 = 0"
proof -
  have "take 4 [0..<8] = [0..<4]" by simp
  then have "word_at (map (\<lambda>k. word_of_int (v div 256 ^ k)) [0..<8]) 0 = w32 (v mod 256 ^ 4)"
    using le_int_digits [of v 4] by (simp add: word_at_def le_word_def take_map del: take_upt)
  then show "word_at (map (\<lambda>k. word_of_int (v div 256 ^ k)) [0..<8]) 0 = w32 v"
    using assms by simp
  have zero: "v div 256 ^ k = 0" if "4 \<le> k" for k
  proof -
    have "(256 :: int) ^ 4 \<le> 256 ^ k" using that by (intro power_increasing) simp_all
    then show ?thesis using assms by (intro div_pos_pos_trivial) simp_all
  qed
  show "word_at (map (\<lambda>k. word_of_int (v div 256 ^ k)) [0..<8]) 1 = 0"
    using zero [of 4] zero [of 5] zero [of 6] zero [of 7]
    by (simp add: word_at_def le_word_def drop_map)
qed

lemma padding_words:
  fixes bs :: "byte list"
  defines "m \<equiv> (length bs + 8) div 64"
  assumes "8 * length bs < 2 ^ 32" "k < 16 * Suc m"
  shows "word_at (pad_message bs) k = (if k = 16 * m + 14 then w32 (8 * int (length bs)) else word_at (bs @ [0x80]) k)"
proof -
  define front where "front = (bs @ [0x80]) @ replicate (pad_zeros (length bs)) 0"
  have pad: "pad_message bs = front @ length_bytes (8 * length bs)"
    by (simp add: pad_message_def front_def)
  have len: "length front = 4 * (16 * m + 14)"
    using pad_zeros_length [of "length bs"] by (simp add: front_def m_def)
  have "length bs + 1 \<le> 4 * (16 * m + 14)" by (simp add: m_def)
  then have out: "16 * m + 14 \<le> k \<Longrightarrow> word_at (bs @ [0x80]) k = 0" by (intro word_at_beyond) simp
  have bytes: "length_bytes (8 * length bs) = map (\<lambda>k. word_of_int (int (8 * length bs) div 256 ^ k)) [0..<8]"
    by (simp only: length_bytes_def)
  have small: "0 \<le> int (8 * length bs)" "int (8 * length bs) < 4294967296" using assms(2) by simp_all
  have "k < 16 * m + 16" using assms(3) by simp
  then consider "k < 16 * m + 14" | "k = 16 * m + 14" | "k = 16 * m + 15" by linarith
  then show ?thesis
  proof cases
    case 1
    then have "4 * Suc k \<le> length front" unfolding len by simp
    then have "word_at (pad_message bs) k = word_at front k" unfolding pad by (rule word_at_prefix)
    then show ?thesis using 1 by (simp add: front_def word_at_zeros del: append_assoc)
  next
    case 2
    have "word_at (pad_message bs) k = word_at (length_bytes (8 * length bs)) 0"
      unfolding pad using word_at_suffix [OF len] 2 by simp
    also have "\<dots> = w32 (8 * int (length bs))"
      unfolding bytes using word_at_length(1) [OF small] by simp
    finally show ?thesis using 2 by simp
  next
    case 3
    have "word_at (pad_message bs) k = word_at (length_bytes (8 * length bs)) 1"
      unfolding pad using word_at_suffix [OF len, of k] 3 by simp
    also have "\<dots> = 0"
      unfolding bytes by (rule word_at_length(2) [OF small])
    finally show ?thesis using 3 out by simp
  qed
qed

section \<open>The digest\<close>

lemma le_words_padded:
  "length (le_words (pad_message bs)) = 16 * Suc ((length bs + 8) div 64)"
  "k < 16 * Suc ((length bs + 8) div 64) \<Longrightarrow> le_words (pad_message bs) ! k = word_at (pad_message bs) k"
proof -
  have len: "length (pad_message bs) = 64 * Suc ((length bs + 8) div 64)"
    using pad_zeros_length [of "length bs"] by (simp add: pad_message_def length_bytes_def)
  show "length (le_words (pad_message bs)) = 16 * Suc ((length bs + 8) div 64)"
    unfolding length_le_words len by simp
  show "k < 16 * Suc ((length bs + 8) div 64) \<Longrightarrow> le_words (pad_message bs) ! k = word_at (pad_message bs) k"
    by (rule le_words_nth) (simp add: len)
qed

lemma length_index:
  assumes "8 * n < 2 ^ 31"
  shows "js_shl (js_shr (8 * int n + 64) 9) 4 + 14 = int (16 * ((n + 8) div 64) + 14)"
proof -
  have "take_bit 32 (8 * int n + 64) = 8 * int n + 64"
    using assms by (intro take_bit_int_eq_self) simp_all
  then have shr: "js_shr (8 * int n + 64) 9 = int ((n + 8) div 64)"
    by (simp add: js_shr_def drop_bit_eq_div zdiv_int)
  have "(n + 8) div 64 < 2 ^ 26" using assms by (simp add: less_mult_imp_div_less)
  then have "js_shl (int ((n + 8) div 64)) 4 = 16 * int ((n + 8) div 64)"
    by (simp add: js_shl_def to_int32_id push_bit_eq_mult)
  then show ?thesis by (simp add: shr)
qed

fun w32_list :: "int list \<Rightarrow> digest \<Rightarrow> bool" where
  "w32_list [a, b, c, d] v = ((w32 a, w32 b, w32 c, w32 d) = v)"
| "w32_list _ v = False"

lemma binlMD5_digest:
  assumes x: "reps x bs" "length x = (length bs + 3) div 4" and small: "length bs < 2 ^ 28"
  shows "w32_list (binlMD5 x (8 * int (length bs))) (rfc_digest bs)"
proof -
  let ?n = "length bs"
  define m where "m = (?n + 8) div 64"
  define x1 where "x1 = or_elem x (int (?n div 4)) (js_shl 0x80 (8 * (int ?n mod 4)))"
  define x2 where "x2 = set_elem x1 (int (16 * m + 14)) (8 * int ?n)"
  define ws where "ws = le_words (pad_message bs)"
  have x1: "reps x1 (bs @ [0x80])"
    unfolding x1_def using or_byte [OF x(1), of "0x80"] by simp
  have "?n + 8 < 64 * Suc m" unfolding m_def by (simp add: dividend_less_times_div)
  then have n4: "?n div 4 \<le> 16 * m + 13" "(?n + 3) div 4 \<le> 16 * m + 14" by simp_all
  then have len: "length x2 = 16 * Suc m - 1"
    unfolding x2_def x1_def or_elem_def length_set_elem x(2) by simp
  have words: "\<forall>k < 16 * Suc m. w32 (elem x2 (int k)) = ws ! k"
  proof (intro allI impI)
    fix k assume k: "k < 16 * Suc m"
    have "8 * ?n < 2 ^ 32" using small by simp
    then have "ws ! k = (if k = 16 * m + 14 then w32 (8 * int ?n) else word_at (bs @ [0x80]) k)"
      using le_words_padded(2) [of k bs] padding_words [of bs k] k unfolding ws_def m_def by presburger
    moreover have "elem x2 (int k) = (if k = 16 * m + 14 then 8 * int ?n else elem x1 (int k))"
      unfolding x2_def by (subst elem_set) auto
    ultimately show "w32 (elem x2 (int k)) = ws ! k" using x1 by (simp add: reps_def)
  qed
  have "length ws = 16 * Suc m" unfolding ws_def m_def by (rule le_words_padded(1))
  from w32_loop [OF len words this, of 0 md5_start]
  have loop: "word_vars (md5_loop x2 (16 * 0) md5_start) = rfc_blocks (drop (16 * 0) ws) (word_vars md5_start)"
    by simp
  have start: "word_vars md5_start = rfc_start" by (simp add: md5_start_def rfc_start_def)
  obtain a b c d where abcd: "md5_loop x2 0 md5_start = (a, b, c, d)" by (cases "md5_loop x2 0 md5_start") auto
  have "binlMD5 x (8 * int ?n) = [a, b, c, d]"
    using small sar_5 [of ?n] length_index [of ?n] abcd unfolding x2_def x1_def m_def
    by (simp add: binlMD5_def shift_bits del: of_nat_add of_nat_mult)
  then show ?thesis using loop abcd start by (simp add: rfc_digest_def ws_def)
qed

end
