(* ===== verification/Md5_Correct.thy ===== *)
theory Md5_Correct
  imports Md5_Rounds
begin

text \<open>
  The MD5 routines of \<open>conflict-detection.js\<close> compute the message digest of RFC 1321 and the keyed
  hash of RFC 2104 of the UTF-8 bytes of their arguments.
\<close>

section \<open>Raw strings\<close>

lemma byte_of_word: "k < 4 \<Longrightarrow> js_and (js_shr w (8 * int k)) 0xff = uint (w32 w) div 256 ^ k mod 256"
proof -
  assume k: "k < 4"
  define y where "y = js_shr w (8 * int k)"
  have "8 * int k mod 32 = 8 * int k" "nat (8 * int k) = 8 * k" using k by simp_all
  then have y: "y = uint (w32 w) div 256 ^ k"
    by (simp add: y_def js_shr_def drop_bit_eq_div uint_word_of_int take_bit_eq_mod power_mult)
  have "to_int32 y mod 256 = y mod 256"
    using take_bit_signed_take_bit [of 8 31 y] by (simp add: to_int32_def take_bit_eq_mod)
  then show ?thesis using and_mod [of "to_int32 y" 8] unfolding y_def [symmetric] y [symmetric]
    by (simp add: js_and_def to_int32_id)
qed

lemma char_of_word:
  "k < 4 \<Longrightarrow> word_of_int (js_and (js_shr w (8 * int k)) 0xff) = (word_of_int (uint (word_bytes (w32 w) ! k)) :: code_unit)"
  by (simp only: byte_of_word) (simp add: word_bytes_def)

lemma bytes_of_digest:
  assumes "w32_list ws (a, b, c, d)"
  shows "binl2rstr ws = byte_chars (concat (map word_bytes [a, b, c, d]))"
proof -
  obtain a' b' c' d' where ws: "ws = [a', b', c', d']" and w: "a = w32 a'" "b = w32 b'" "c = w32 c'" "d = w32 d'"
    using assms by (cases "(ws, (a, b, c, d))" rule: w32_list.cases) auto
  have four: "word_bytes w = [word_bytes w ! 0, word_bytes w ! 1, word_bytes w ! 2, word_bytes w ! 3]" for w
    by (simp add: word_bytes_def upt_conv_Cons)
  have chars: "byte_chars (word_bytes (w32 w)) =
      [word_of_int (js_and (js_shr w 0) 0xff), word_of_int (js_and (js_shr w 8) 0xff),
       word_of_int (js_and (js_shr w 16) 0xff), word_of_int (js_and (js_shr w 24) 0xff)]" for w
    using char_of_word [of 0 w] char_of_word [of 1 w] char_of_word [of 2 w] char_of_word [of 3 w]
    by (subst four) (simp add: byte_chars_def)
  have "[0..<16] = [0, 1, 2, 3, 4, 5, 6, 7, 8, 9, 10, 11, 12, 13, 14, 15 :: nat]" by (simp add: upt_conv_Cons)
  then have "binl2rstr ws = concat (map (\<lambda>w. byte_chars (word_bytes (w32 w))) [a', b', c', d'])"
    unfolding ws binl2rstr_def chars
    using sar_5 [of 0] sar_5 [of 1] sar_5 [of 2] sar_5 [of 3] sar_5 [of 4] sar_5 [of 5] sar_5 [of 6] sar_5 [of 7]
      sar_5 [of 8] sar_5 [of 9] sar_5 [of 10] sar_5 [of 11] sar_5 [of 12] sar_5 [of 13] sar_5 [of 14] sar_5 [of 15]
    by simp
  then show ?thesis unfolding w by (simp add: byte_chars_def)
qed

lemma binl2rstr_digest:
  assumes "w32_list ws (rfc_digest bs)" shows "binl2rstr ws = byte_chars (rfc_md5 bs)"
proof -
  obtain a b c d where v: "rfc_digest bs = (a, b, c, d)" by (cases "rfc_digest bs") auto
  then show ?thesis using bytes_of_digest [of ws a b c d] assms by (simp add: rfc_md5_def)
qed

lemma rstrMD5_rfc: "length s < 2 ^ 28 \<Longrightarrow> rstrMD5 s = byte_chars (rfc_md5 (char_bytes s))"
  unfolding rstrMD5_def
  using binlMD5_digest [of "rstr2binl s" "char_bytes s"] rstr2binl_reps [of s]
  by (intro binl2rstr_digest) (simp add: mult.commute)

lemma char_bytes_chars [simp]: "char_bytes (byte_chars bs) = bs"
proof -
  have "(ucast (ucast b :: code_unit) :: byte) = b" for b :: byte
    by (rule bit_word_eqI) (auto simp: bit_simps)
  then show ?thesis by (simp add: char_bytes_def byte_chars_def comp_def)
qed

section \<open>The keyed hash\<close>

lemma xor_base:
  fixes x y u v :: int
  assumes "0 \<le> x" "x < 256" "0 \<le> y" "y < 256"
  shows "(x + 256 * u) XOR (y + 256 * v) = (x XOR y) + 256 * (u XOR v)"
proof -
  have high: "\<not> bit z n" if "0 \<le> z" "z < 256" "8 \<le> n" for z :: int and n
  proof -
    have "take_bit 8 z = z" using that by (intro take_bit_int_eq_self) simp_all
    then show ?thesis using that by (metis bit_take_bit_iff not_less)
  qed
  have form: "z + 256 * w = z OR push_bit 8 w" if "0 \<le> z" "z < 256" for z w :: int
    using less_or [of z 8 w] that by (simp add: push_bit_eq_mult mult.commute)
  have z: "0 \<le> x XOR y" "x XOR y < 256"
    using assms XOR_upper [of x 8 y] by simp_all
  show ?thesis unfolding form [OF assms(1,2)] form [OF assms(3,4)] form [OF z]
    by (rule bit_eqI) (auto simp: bit_simps high assms not_le)
qed

lemma le_int_xor:
  "length xs = length ys \<Longrightarrow> le_int (map2 (XOR) xs ys) = le_int xs XOR le_int ys"
proof (induction xs ys rule: list_induct2)
  case (Cons x xs y ys)
  then show ?case by (simp add: unsigned_xor_eq xor_base)
qed simp

lemma map2_replicate: "map2 f xs (replicate (length xs) y) = map (\<lambda>x. f x y) xs"
  by (induction xs) auto

lemma word_at_xor:
  assumes "length bs = 64" "i < 16"
  shows "word_at (map (\<lambda>b. b XOR p) bs) i = word_at bs i XOR le_word (replicate 4 p)"
proof -
  define t where "t = take 4 (drop (4 * i) bs)"
  have len: "length t = 4" using assms by (simp add: t_def)
  have "take 4 (drop (4 * i) (map (\<lambda>b. b XOR p) bs)) = map2 (XOR) t (replicate 4 p)"
    using map2_replicate [of "(XOR)" t p] len by (simp add: t_def take_map drop_map)
  then show ?thesis
    using le_int_xor [of t "replicate 4 p"] len
    by (simp add: word_at_def le_word_def of_int_xor_eq t_def)
qed

lemma reps_append:
  assumes "reps xs bs" "reps ys cs" "length bs = 4 * length xs"
  shows "reps (xs @ ys) (bs @ cs)"
  unfolding reps_def
proof
  fix i
  show "w32 (elem (xs @ ys) (int i)) = word_at (bs @ cs) i"
  proof (cases "i < length xs")
    case True
    then have "elem (xs @ ys) (int i) = elem xs (int i)" by (simp add: elem_def nth_append)
    moreover have "word_at (bs @ cs) i = word_at bs i" using True assms(3) by (intro word_at_prefix) simp
    ultimately show ?thesis using assms(1) by (simp add: reps_def)
  next
    case False
    then have "nat (int (i - length xs)) = i - length xs" "i < length (xs @ ys) \<longleftrightarrow> i - length xs < length ys" by auto
    then have "elem (xs @ ys) (int i) = elem ys (int (i - length xs))"
      using False unfolding elem_def nth_append by simp
    moreover have "word_at (bs @ cs) i = word_at cs (i - length xs)"
      using False assms(3) by (intro word_at_suffix) simp_all
    ultimately show ?thesis using assms(2) by (simp add: reps_def)
  qed
qed

lemma le_word_bytes: "le_word (word_bytes w) = w"
proof -
  have "uint w mod 256 ^ 4 = uint w" using uint_lt2p [of w] by simp
  then show ?thesis unfolding le_word_def word_bytes_def le_int_digits by simp
qed

lemma reps_digest:
  assumes "w32_list ws v"
  shows "reps (map Some ws) (case v of (a, b, c, d) \<Rightarrow> concat (map word_bytes [a, b, c, d])) \<and> length ws = 4"
proof -
  obtain a b c d where ws: "ws = [a, b, c, d]" and v: "v = (w32 a, w32 b, w32 c, w32 d)"
    using assms by (cases "(ws, v)" rule: w32_list.cases) auto
  have len: "length (word_bytes w) = 4" for w by (simp add: word_bytes_def)
  have one: "reps [Some a] (word_bytes (w32 a))" for a
    unfolding reps_def
  proof
    fix i
    show "w32 (elem [Some a] (int i)) = word_at (word_bytes (w32 a)) i"
    proof (cases i)
      case 0
      then show ?thesis using le_word_bytes [of "w32 a"] len by (simp add: elem_def word_at_def)
    next
      case (Suc j)
      then show ?thesis using len by (simp add: elem_def word_at_beyond)
    qed
  qed
  have "reps ([Some a] @ [Some b] @ [Some c] @ [Some d])
      (word_bytes (w32 a) @ word_bytes (w32 b) @ word_bytes (w32 c) @ word_bytes (w32 d))"
    by (intro reps_append one) (simp_all add: len)
  then show ?thesis by (simp add: ws v)
qed

lemma rfc_md5_digest: "rfc_md5 bs = (case rfc_digest bs of (a, b, c, d) \<Rightarrow> concat (map word_bytes [a, b, c, d]))"
  by (simp add: rfc_md5_def)

lemma length_rfc_md5 [simp]: "length (rfc_md5 bs) = 16"
  by (cases "rfc_digest bs") (simp add: rfc_md5_def word_bytes_def)

lemma reps_xor_pad:
  assumes "reps bkey k" "length k \<le> 64" "w32 pad = le_word (replicate 4 p)"
  shows "reps (xor_pad bkey pad) (map (\<lambda>b. b XOR p) (k @ replicate (64 - length k) 0))"
  unfolding reps_def
proof
  fix i
  let ?k0 = "k @ replicate (64 - length k) 0"
  have len: "length ?k0 = 64" using assms(2) by simp
  show "w32 (elem (xor_pad bkey pad) (int i)) = word_at (map (\<lambda>b. b XOR p) ?k0) i"
  proof (cases "i < 16")
    case True
    then have "elem (xor_pad bkey pad) (int i) = js_xor (elem bkey (int i)) pad"
      by (simp add: elem_def xor_pad_def)
    moreover have "w32 (elem bkey (int i)) = word_at ?k0 i"
      using assms(1) by (simp add: reps_def word_at_zeros)
    ultimately show ?thesis
      by (simp only: word_at_xor [OF len True] w32_xor assms(3))
  next
    case False
    then have "elem (xor_pad bkey pad) (int i) = 0" by (simp add: elem_def xor_pad_def)
    moreover have "word_at (map (\<lambda>b. b XOR p) ?k0) i = 0"
      using False len by (intro word_at_beyond) simp
    ultimately show ?thesis by simp
  qed
qed

lemma four_bytes: "replicate 4 p = [p, p, p, p]"
  by (simp add: numeral_eq_Suc)

lemma rstrHMACMD5_rfc:
  assumes "length key < 2 ^ 28" "length dat < 2 ^ 28 - 64"
  shows "rstrHMACMD5 key dat = byte_chars (rfc_hmac (char_bytes key) (char_bytes dat))"
proof -
  define k where "k = (if length key > 64 then rfc_md5 (char_bytes key) else char_bytes key)"
  define bkey where "bkey = (if length (rstr2binl key) > 16
      then map Some (binlMD5 (rstr2binl key) (int (length key) * 8)) else rstr2binl key)"
  have klen: "length k \<le> 64" by (simp add: k_def)
  have long: "length (rstr2binl key) > 16 \<longleftrightarrow> length key > 64"
    using rstr2binl_reps [OF assms(1)] by presburger
  have bkey: "reps bkey k"
  proof (cases "length key > 64")
    case True
    have "w32_list (binlMD5 (rstr2binl key) (8 * int (length key))) (rfc_digest (char_bytes key))"
      using binlMD5_digest [of "rstr2binl key" "char_bytes key"] rstr2binl_reps [OF assms(1)] assms(1) by simp
    from reps_digest [OF this] show ?thesis
      using True long by (simp add: bkey_def k_def rfc_md5_digest mult.commute)
  next
    case False
    then show ?thesis using long rstr2binl_reps [OF assms(1)] by (simp add: bkey_def k_def)
  qed
  define k0 where "k0 = rfc_key (char_bytes key)"
  have k0: "k0 = k @ replicate (64 - length k) 0" by (simp add: k0_def rfc_key_def k_def Let_def)
  have len: "length k0 = 64" using klen by (simp add: k0)
  have pads: "w32 0x36363636 = le_word (replicate 4 0x36)" "w32 0x5c5c5c5c = le_word (replicate 4 0x5c)"
    by (simp_all add: le_word_def four_bytes)
  have ipad: "reps (xor_pad bkey 0x36363636) (map (\<lambda>b. b XOR 0x36) k0)"
    and opad: "reps (xor_pad bkey 0x5c5c5c5c) (map (\<lambda>b. b XOR 0x5c) k0)"
    unfolding k0 by (rule reps_xor_pad [OF bkey klen], rule pads)+
  have plen: "length (xor_pad bkey pad) = 16" for pad by (simp add: xor_pad_def)
  define inner where "inner = map (\<lambda>b. b XOR 0x36) k0 @ char_bytes dat"
  define hash where "hash = binlMD5 (xor_pad bkey 0x36363636 @ rstr2binl dat) (512 + int (length dat) * 8)"
  have dat: "reps (rstr2binl dat) (char_bytes dat)" "length (rstr2binl dat) = (length dat + 3) div 4"
    using rstr2binl_reps [of dat] assms(2) by auto
  have "reps (xor_pad bkey 0x36363636 @ rstr2binl dat) inner"
    unfolding inner_def by (rule reps_append [OF ipad dat(1)]) (simp add: len plen)
  moreover have "8 * int (length inner) = 512 + int (length dat) * 8" by (simp add: inner_def len)
  ultimately have hash: "w32_list hash (rfc_digest inner)"
    using binlMD5_digest [of "xor_pad bkey 0x36363636 @ rstr2binl dat" inner] assms(2)
    by (simp add: hash_def inner_def len plen dat(2) mult.commute)
  define outer where "outer = map (\<lambda>b. b XOR 0x5c) k0 @ rfc_md5 inner"
  have "reps (xor_pad bkey 0x5c5c5c5c @ map Some hash) outer"
    unfolding outer_def rfc_md5_digest using reps_digest [OF hash] by (intro reps_append opad) (simp_all add: len plen)
  moreover have "length hash = 4" using reps_digest [OF hash] by simp
  ultimately have "w32_list (binlMD5 (xor_pad bkey 0x5c5c5c5c @ map Some hash) (512 + 128)) (rfc_digest outer)"
    using binlMD5_digest [of "xor_pad bkey 0x5c5c5c5c @ map Some hash" outer] by (simp add: outer_def len plen)
  from binl2rstr_digest [OF this] show ?thesis
    by (simp add: rstrHMACMD5_def rfc_hmac_def outer_def inner_def k0_def hash_def bkey_def Let_def)
qed

section \<open>Text\<close>

text \<open>Strings whose surrogates come in pairs, the ones that \<open>encodeURIComponent\<close> accepts.\<close>

fun well_paired :: "js_string \<Rightarrow> bool" where
  "well_paired [] = True"
| "well_paired (c # cs) =
     (if low_surrogate c then False
      else if high_surrogate c then (case cs of [] \<Rightarrow> False | d # ds \<Rightarrow> low_surrogate d \<and> well_paired ds)
      else well_paired cs)"

lemma upper_digits: "\<forall>d \<in> {0..<16}. hex_val (upper_digit d) = Some d \<and> upper_digit d \<noteq> 117"
proof -
  have "{0..<16} = set [0..15 :: int]" by auto
  also have "[0..15 :: int] = [0, 1, 2, 3, 4, 5, 6, 7, 8, 9, 10, 11, 12, 13, 14, 15]" by (simp add: upto_rec1)
  finally show ?thesis by (simp add: hex_val_def upper_digit_def)
qed

lemma unescape_byte:
  assumes "0 \<le> b" "b < 256"
  shows "unescape (percent_byte b @ r) = word_of_int b # unescape r"
proof -
  have d: "b div 16 \<in> {0..<16}" "b mod 16 \<in> {0..<16}" using assms by auto
  have "hex_number [upper_digit (b div 16), upper_digit (b mod 16)] = Some b"
    using upper_digits d by simp
  moreover have "upper_digit (b div 16) \<noteq> 117" using upper_digits d by blast
  ultimately show ?thesis
    by (subst unescape.simps) (simp add: percent_byte_def del: hex_number.simps)
qed

lemma unescape_bytes:
  "\<forall>b \<in> set bs. 0 \<le> b \<and> b < 256 \<Longrightarrow>
   unescape (concat (map percent_byte bs) @ r) = map word_of_int bs @ unescape r"
  by (induction bs) (auto simp: unescape_byte)

lemma unescape_plain: "c \<noteq> percent \<Longrightarrow> unescape (c # r) = c # unescape r"
  by (simp add: unescape.simps [of "c # r"])

lemma utf8_bytes_range:
  assumes "0 \<le> c" "c < 0x200000" shows "\<forall>b \<in> set (utf8_bytes c). 0 \<le> b \<and> b < 256"
  unfolding utf8_bytes_arith [OF assms] using assms by (auto intro: order_trans) 

lemma unreserved_plain:
  assumes "unreserved c"
  shows "c \<noteq> percent" "\<not> low_surrogate c" "\<not> high_surrogate c" "utf8_bytes (uint c) = [uint c]"
proof -
  have "set (js ''-_.!~*'' @ [39] @ js ''()'') = {45, 95, 46, 33, 126, 42, 39, 40, 41 :: code_unit}" by auto
  then have c: "uint c < 128 \<and> c \<noteq> 37" using assms by (auto simp: unreserved_def)
  then show "c \<noteq> percent" "\<not> low_surrogate c" "\<not> high_surrogate c" "utf8_bytes (uint c) = [uint c]"
    by (simp_all add: percent_def low_surrogate_def high_surrogate_def utf8_bytes_def)
qed

lemma uint_unit_range: "0 \<le> uint (c :: code_unit) \<and> uint c < 0x200000"
  using less_trans [OF word16_lt, of "0x200000" c] by simp

lemma unit_of_byte: "0 \<le> b \<Longrightarrow> b < 256 \<Longrightarrow> word_of_int (uint (word_of_int b :: byte)) = (word_of_int b :: code_unit)"
  by (simp add: uint_word_of_int_8 del: of_int_uint word_of_int_uint)

lemma byte_chars_append [simp]: "byte_chars (xs @ ys) = byte_chars xs @ byte_chars ys"
  by (simp add: byte_chars_def)

lemma byte_chars_ints:
  "\<forall>b \<in> set bs. 0 \<le> b \<and> b < 256 \<Longrightarrow> byte_chars (map word_of_int bs) = map word_of_int bs"
  by (simp add: byte_chars_def unit_of_byte del: of_int_uint word_of_int_uint)

text \<open>A raw string of the text: one character for each byte.\<close>

definition encoded :: "js_string \<Rightarrow> js_string option \<Rightarrow> bool" where
  "encoded s r = (case r of None \<Rightarrow> \<not> well_paired s | Some e \<Rightarrow> well_paired s \<and> unescape e = byte_chars (utf8 s))"

lemma encoded_char:
  assumes "encoded s r" "\<forall>b \<in> set bs. 0 \<le> b \<and> b < 256"
    and "well_paired t = well_paired s" "utf8 t = map word_of_int bs @ utf8 s"
  shows "encoded t (map_option (\<lambda>e. concat (map percent_byte bs) @ e) r)"
  using assms by (cases r) (auto simp: encoded_def unescape_bytes byte_chars_ints)

lemma encoded_encode: "encoded s (encodeURIComponent s)"
proof (induction s rule: encodeURIComponent.induct)
  case 1
  show ?case by (simp add: encoded_def unescape.simps [of "[]"] byte_chars_def)
next
  case (2 c cs)
  consider (plain) "unreserved c" | (low) "\<not> unreserved c" "low_surrogate c"
    | (high) "\<not> unreserved c" "\<not> low_surrogate c" "high_surrogate c"
    | (other) "\<not> unreserved c" "\<not> low_surrogate c" "\<not> high_surrogate c" by blast
  then show ?case
  proof cases
    case plain
    note c = unreserved_plain [OF plain]
    have "byte_chars [word_of_int (uint c)] = [c]"
      using c(4) byte_chars_ints [of "[uint c]"] utf8_bytes_range [of "uint c"] uint_unit_range [of c]
      by simp
    then have "byte_chars (utf8 (c # cs)) = c # byte_chars (utf8 cs)"
      using c by (simp add: byte_chars_def del: of_int_uint word_of_int_uint)
    moreover have "encoded cs (encodeURIComponent cs)" using 2(1) plain by blast
    ultimately show ?thesis using plain c
      by (auto simp: encoded_def unescape_plain simp del: utf8.simps split: option.split)
  next
    case low
    then show ?thesis by (simp add: encoded_def)
  next
    case high
    show ?thesis
    proof (cases cs)
      case Nil
      then show ?thesis using high by (simp add: encoded_def)
    next
      case (Cons d ds)
      show ?thesis
      proof (cases "low_surrogate d")
        case True
        then have "encoded ds (encodeURIComponent ds)" using 2(2) high Cons by blast
        then show ?thesis
          using encoded_char [of ds "encodeURIComponent ds" "utf8_bytes (code_point c d)" "c # cs"]
            utf8_bytes_range [of "code_point c d"] code_point_range [OF high(3) True] high Cons True by simp
      next
        case False
        then show ?thesis using high Cons by (simp add: encoded_def)
      qed
    qed
  next
    case other
    then have "encoded cs (encodeURIComponent cs)" using 2(3) by blast
    then show ?thesis
      using encoded_char [of cs "encodeURIComponent cs" "utf8_bytes (uint c)" "c # cs"]
        utf8_bytes_range [of "uint c"] uint_unit_range [of c] other by simp
  qed
qed

text \<open>A raw string of the text: one character for each byte.\<close>

lemma str2rstrUTF8_utf8:
  "str2rstrUTF8 s = (if well_paired s then Some (byte_chars (utf8 s)) else None)"
  using encoded_encode [of s] by (auto simp: str2rstrUTF8_def encoded_def split: option.splits)

lemma rstr2hex_bytes: "rstr2hex (byte_chars bs) = hex_bytes bs"
proof -
  have "js_and (js_shr (uint (word_of_int (uint b) :: code_unit)) 4) 0x0f = uint b div 16
      \<and> js_and (uint (word_of_int (uint b) :: code_unit)) 0x0f = uint b mod 16" for b :: byte
  proof -
    have u: "uint (word_of_int (uint b) :: code_unit) = uint b"
      using word8_lt [of b] by (simp add: unsigned_ucast_eq take_bit_int_eq_self del: word8_lt)
    have b: "0 \<le> uint b" "uint b < 256" by simp_all
    then have "uint b < 4294967296" by linarith
    then have "take_bit 32 (uint b) = uint b" using b(1) by (intro take_bit_int_eq_self) simp_all
    then have shr: "js_shr (uint b) 4 = uint b div 16" by (simp add: js_shr_def drop_bit_eq_div)
    have "0 \<le> uint b div 16" "uint b div 16 < 2147483648" "uint b < 2147483648" using b by linarith+
    then have "to_int32 (uint b) = uint b" "to_int32 (uint b div 16) = uint b div 16"
      using b(1) by (simp_all add: to_int32_id)
    moreover have "uint b div 16 mod 16 = uint b div 16"
      using b by (intro mod_pos_pos_trivial) linarith+
    ultimately show ?thesis
      using and_mod [of "uint b" 4] and_mod [of "uint b div 16" 4] unfolding u shr
      by (simp add: js_and_def to_int32_id)
  qed
  moreover have "nat (uint b div 16) = unat b div 16" "nat (uint b mod 16) = unat b mod 16" for b :: byte
    by (simp_all add: nat_div_distrib nat_mod_distrib)
  ultimately show ?thesis
    by (simp add: rstr2hex_def hex_bytes_def byte_chars_def comp_def del: of_int_uint word_of_int_uint)
qed

section \<open>Properties\<close>

text \<open>
  Property C10.  Without a key, \<open>md5\<close> returns the message digest of RFC 1321 of the UTF-8 bytes of its
  argument, as a text of hexadecimal digits, and throws exactly on strings with an unpaired
  surrogate, for every text of fewer than \<open>2 ^ 28\<close> bytes.
\<close>

theorem md5_is_rfc_1321:
  assumes "length (utf8 s) < 2 ^ 28"
  shows "md5 s None False = (if well_paired s then Some (hex_bytes (rfc_md5 (utf8 s))) else None)"
proof -
  have "length (byte_chars (utf8 s)) < 2 ^ 28" using assms by (simp add: byte_chars_def)
  from rstrMD5_rfc [OF this] show ?thesis
    by (simp add: md5_def hexMD5_def rawMD5_def str2rstrUTF8_utf8 rstr2hex_bytes)
qed

theorem md5_is_rfc_1321_witness:
  "md5 (js ''abc'') None False = Some (js ''900150983cd24fb0d6963f7d28e17f72'')"
proof -
  have "utf8 (js ''abc'') = [97, 98, 99]" "well_paired (js ''abc'')"
    by (simp_all add: high_surrogate_def low_surrogate_def utf8_bytes_def)
  moreover have "hex_bytes (rfc_md5 [97, 98, 99]) = js ''900150983cd24fb0d6963f7d28e17f72''" by code_simp
  ultimately show ?thesis using md5_is_rfc_1321 [of "js ''abc''"] by (simp del: js_simps)
qed

text \<open>
  Property C11.  With a key, \<open>md5\<close> returns the keyed hash of RFC 2104 of the UTF-8 bytes of its
  arguments; keys of more than 64 bytes are hashed first.
\<close>

theorem md5_is_rfc_2104:
  assumes "key \<noteq> []" "length (utf8 key) < 2 ^ 28" "length (utf8 s) < 2 ^ 28 - 64"
  shows "md5 s (Some key) False =
     (if well_paired key \<and> well_paired s then Some (hex_bytes (rfc_hmac (utf8 key) (utf8 s))) else None)"
proof -
  have "length (byte_chars (utf8 key)) < 2 ^ 28" "length (byte_chars (utf8 s)) < 2 ^ 28 - 64"
    using assms(2,3) by (simp_all add: byte_chars_def)
  from rstrHMACMD5_rfc [OF this]
  have "hexHMACMD5 key s =
      (if well_paired key \<and> well_paired s then Some (hex_bytes (rfc_hmac (utf8 key) (utf8 s))) else None)"
    by (simp add: hexHMACMD5_def rawHMACMD5_def str2rstrUTF8_utf8 rstr2hex_bytes)
  then show ?thesis using assms(1) by (auto simp: md5_def neq_Nil_conv)
qed

theorem md5_is_rfc_2104_witness:
  "md5 (js ''what do ya want for nothing?'') (Some (js ''Jefe'')) False
     = Some (js ''750c783e6ab0b503eaa86e310a5db738'')"
proof -
  let ?k = "[74, 101, 102, 101]" and ?s = "[119, 104, 97, 116, 32, 100, 111, 32, 121, 97, 32, 119, 97, 110, 116,
    32, 102, 111, 114, 32, 110, 111, 116, 104, 105, 110, 103, 63]"
  have "utf8 (js ''Jefe'') = ?k" "utf8 (js ''what do ya want for nothing?'') = ?s"
    "well_paired (js ''Jefe'')" "well_paired (js ''what do ya want for nothing?'')"
    by (simp_all add: high_surrogate_def low_surrogate_def utf8_bytes_def)
  moreover have "hex_bytes (rfc_hmac ?k ?s) = js ''750c783e6ab0b503eaa86e310a5db738''" by code_simp
  moreover have "js ''Jefe'' \<noteq> []" by simp
  ultimately show ?thesis
    using md5_is_rfc_2104 [of "js ''Jefe''" "js ''what do ya want for nothing?''"] by (simp del: js_simps)
qed

end
