(* ===== verification/Detector.thy ===== *)
theory Detector
  imports Md5 Fa_Registry Js_Timers
begin

text \<open>
  The detector of \<open>conflict-detection.js\<close>: which elements of the page are tested, the test of one
  element in a frame of its own, the collection of the answers, and the report.

  An element is given by its properties, the empty string for one that is absent or empty.  What a
  test observes in its frame is a parameter, for each time it polls.  Durations are natural numbers,
  \<open>None\<close> for an attribute that is not a number.  Timers run on time; a message arrives at any time.
\<close>

section \<open>Elements\<close>

record element =
  e_tag :: js_string
  e_src :: js_string
  e_href :: js_string
  e_text :: js_string
  e_ignored :: bool

text \<open>The outer \<open>None\<close> is the exception that \<open>md5\<close> throws for a text with an unpaired surrogate.\<close>

definition md5ForNode :: "element \<Rightarrow> js_string option option" where
  "md5ForNode n =
     (if e_src n \<noteq> [] then map_option Some (md5 (e_src n) None False)
      else if e_href n \<noteq> [] then map_option Some (md5 (e_href n) None False)
      else if e_text n \<noteq> [] then map_option Some (md5 (e_text n) None False)
      else Some None)"

text \<open>A property name, and the text of the name in the script of a frame.\<close>

definition name_of :: "js_string option \<Rightarrow> js_string" where
  "name_of m = (case m of None \<Rightarrow> js ''undefined'' | Some t \<Rightarrow> t)"

datatype technology = Webfont_link | Webfont_style | Svg_script

text \<open>A test: its kind, the name of the element, and the copy of the element that is tested.\<close>

type_synonym frame = "technology \<times> js_string \<times> element"

definition under_test :: "technology \<Rightarrow> element \<Rightarrow> element" where
  "under_test k e =
     (case k of
        Webfont_link \<Rightarrow> e\<lparr>e_src := [], e_text := []\<rparr>
      | Webfont_style \<Rightarrow> e\<lparr>e_src := [], e_href := []\<rparr>
      | Svg_script \<Rightarrow> e\<lparr>e_href := []\<rparr>)"

type_synonym named_elements = "(js_string, element) storage"

fun collect :: "technology \<Rightarrow> element list \<Rightarrow> named_elements \<times> frame list \<Rightarrow> (named_elements \<times> frame list) option" where
  "collect k [] (d, fs) = Some (d, fs)"
| "collect k (e # es) (d, fs) =
     (case md5ForNode e of
        None \<Rightarrow> None
      | Some m \<Rightarrow> collect k es (setItem (name_of m) e d, fs @ [(k, name_of m, under_test k e)]))"

record tested_page =
  pg_scripts :: "element list"
  pg_currentScript :: "nat option"
  pg_links :: "element list"
  pg_styles :: "element list"
  pg_replacementClass :: "js_string option"
  pg_origin :: js_string
  pg_timeout :: "nat option"
  pg_maxWait :: "nat option"

text \<open>
  The pattern for the style sheet that Font Awesome has inserted; the replacement class is taken to
  have no characters that are special in a pattern.
\<close>

definition own_style :: "js_string option \<Rightarrow> element \<Rightarrow> bool" where
  "own_style cls e = (case cls of None \<Rightarrow> False | Some c \<Rightarrow> indexOf (e_text e) (js ''svg:not(:root).'' @ c) \<noteq> None)"

definition detectWebfontConflicts :: "tested_page \<Rightarrow> (named_elements \<times> frame list) option" where
  "detectWebfontConflicts P =
     Option.bind (collect Webfont_link (filter (\<lambda>t. \<not> e_ignored t) (pg_links P)) ([], []))
       (collect Webfont_style (filter (\<lambda>t. \<not> e_ignored t \<and> \<not> own_style (pg_replacementClass P) t) (pg_styles P)))"

definition detectSvgConflicts :: "tested_page \<Rightarrow> (named_elements \<times> frame list) option" where
  "detectSvgConflicts P =
     collect Svg_script
       (map snd (filter (\<lambda>(i, t). \<not> e_ignored t \<and> pg_currentScript P \<noteq> Some i) (enumerate 0 (pg_scripts P)))) ([], [])"

section \<open>Polling\<close>

definition in_time :: "nat \<Rightarrow> nat option \<Rightarrow> bool" where
  "in_time n m = (case m of None \<Rightarrow> False | Some m \<Rightarrow> n \<le> m)"

text \<open>
  The polls of one test: \<open>fn k\<close> is what the k-th poll observes, the result says whether the promise
  is resolved, and at which time.
\<close>

function poll :: "nat option \<Rightarrow> (nat \<Rightarrow> bool) \<Rightarrow> nat \<Rightarrow> nat \<Rightarrow> nat \<Rightarrow> nat \<Rightarrow> bool \<times> nat" where
  "poll maxDuration fn k time duration cumulativeDuration =
     (if fn k then (True, time + duration)
      else if in_time (250 + cumulativeDuration) maxDuration
      then poll maxDuration fn (Suc k) (time + duration) 250 (250 + cumulativeDuration)
      else (False, time + duration))"
  by auto
termination
  by (relation "measure (\<lambda>(m, fn, k, t, d, c). case m of None \<Rightarrow> 0 | Some m \<Rightarrow> m - c)")
     (auto simp: in_time_def split: option.splits)

declare poll.simps [simp del]

definition pollUntil :: "nat option \<Rightarrow> (nat \<Rightarrow> bool) \<Rightarrow> bool \<times> nat" where
  "pollUntil maxDuration fn = poll maxDuration fn 0 0 1 0"

section \<open>Answers\<close>

datatype answer_type = Fontawesome_conflict | No_conflict

record answer =
  a_type :: answer_type
  a_md5 :: js_string
  a_tag :: js_string
  a_src :: js_string
  a_href :: js_string
  a_text :: js_string

text \<open>
  What the script of a frame posts.  For a style sheet without conflict it sends \<open>src\<close> of the element
  as \<open>href\<close>.
\<close>

definition webfont_answer :: "bool \<Rightarrow> js_string \<Rightarrow> element \<Rightarrow> answer" where
  "webfont_answer hit key node =
     \<lparr>a_type = (if hit then Fontawesome_conflict else No_conflict), a_md5 = key, a_tag = e_tag node,
      a_src = [], a_href = (if hit then e_href node else e_src node), a_text = e_text node\<rparr>"

definition script_answer :: "bool \<Rightarrow> js_string \<Rightarrow> element \<Rightarrow> answer" where
  "script_answer hit key node =
     \<lparr>a_type = (if hit then Fontawesome_conflict else No_conflict), a_md5 = key, a_tag = e_tag node,
      a_src = e_src node, a_href = [], a_text = e_text node\<rparr>"

fun frame_answer :: "nat option \<Rightarrow> (nat \<Rightarrow> bool) \<Rightarrow> frame \<Rightarrow> answer" where
  "frame_answer timeout probe (Svg_script, key, node) = script_answer (fst (pollUntil timeout probe)) key node"
| "frame_answer timeout probe (_, key, node) = webfont_answer (fst (pollUntil timeout probe)) key node"

type_synonym answers = "(js_string, answer) storage"

record results =
  r_conflict :: answers
  r_noConflict :: answers
  r_found :: named_elements

section \<open>The report\<close>

type_synonym table_row = "js_string \<times> js_string \<times> js_string \<times> js_string"

datatype console = Info js_string js_string | Table "table_row list"

definition or_text :: "js_string \<Rightarrow> js_string \<Rightarrow> js_string" where
  "or_text s t = (if s \<noteq> [] then s else t)"

definition excerpt :: "js_string \<Rightarrow> js_string" where
  "excerpt t = (if t \<noteq> [] then take 200 t @ js ''...'' else js ''(empty)'')"

definition answer_row :: "js_string \<times> answer \<Rightarrow> table_row" where
  "answer_row = (\<lambda>(key, a). (key, a_tag a, or_text (a_src a) (or_text (a_href a) (js ''n/a'')), excerpt (a_text a)))"

definition element_row :: "js_string \<times> element \<Rightarrow> table_row" where
  "element_row = (\<lambda>(key, e). (key, e_tag e, or_text (e_src e) (or_text (e_href e) (js ''n/a'')), excerpt (e_text e)))"

definition timedOutTests :: "results \<Rightarrow> named_elements" where
  "timedOutTests r =
     filter (\<lambda>(key, e). getItem (r_conflict r) key = None \<and> getItem (r_noConflict r) key = None) (r_found r)"

definition report :: "results \<Rightarrow> console list" where
  "report r =
     (let conflictsCount = length (storage_keys (r_conflict r));
          noConflictsCount = length (storage_keys (r_noConflict r));
          timeOutCount = length (storage_keys (timedOutTests r))
      in (if conflictsCount > 0
          then [Info (js ''%cConflict'' @ (if conflictsCount > 1 then js ''s'' else []) @ js '' found:'')
                  (js ''color: darkred; font-size: large''),
                Table (map answer_row (r_conflict r))] else [])
       @ (if noConflictsCount > 0
          then [Info (js ''%cNo conflict'' @ (if noConflictsCount > 1 then js ''s'' else []) @ js '' found with ''
                    @ (if noConflictsCount = 1 then js ''this'' else js ''these'') @ js '':'')
                  (js ''color: green; font-size: large''),
                Table (map answer_row (r_noConflict r))] else [])
       @ (if timeOutCount > 0
          then [Info (js ''%cLeftovers--we timed out before collecting test results for ''
                    @ (if timeOutCount = 1 then js ''this'' else js ''these'') @ js '':'')
                  (js ''color: blue; font-size: large''),
                Table (map element_row (timedOutTests r))] else []))"

section \<open>The detection\<close>

datatype outcome = Nothing_to_test | Waiting | Resolved | Timed_out

text \<open>
  The state of the page while it waits: the answers so far, the timer of the next poll with its
  cumulative duration, and the reports that were made, with the results they were called with.
  \<open>dt_done\<close> says that the results are published; they are the live objects, which answers that come
  later still change.
\<close>

record detector =
  dt_tested :: results
  dt_count :: nat
  dt_origin :: js_string
  dt_max :: "nat option"
  dt_clock :: "nat clock"
  dt_outcome :: outcome
  dt_done :: bool
  dt_reports :: "results list"

definition conflictDetection :: "tested_page \<Rightarrow> (detector \<times> frame list) option" where
  "conflictDetection P =
     Option.bind (detectSvgConflicts P) (\<lambda>(scriptsToTest, scriptFrames).
     Option.bind (detectWebfontConflicts P) (\<lambda>(cssToTest, cssFrames).
       let nodesFound = objectSpread (objectSpread [] scriptsToTest) cssToTest;
           testCount = length (storage_keys scriptsToTest) + length (storage_keys cssToTest);
           masterTimeout = (case (pg_timeout P, pg_maxWait P) of (Some a, Some b) \<Rightarrow> Some (a + b) | _ \<Rightarrow> None)
       in Some (\<lparr>dt_tested = \<lparr>r_conflict = [], r_noConflict = [], r_found = nodesFound\<rparr>,
                 dt_count = testCount, dt_origin = pg_origin P, dt_max = masterTimeout,
                 dt_clock = (if testCount = 0 then fresh_clock else start_timer 1 0 fresh_clock),
                 dt_outcome = (if testCount = 0 then Nothing_to_test else Waiting),
                 dt_done = False, dt_reports = []\<rparr>, scriptFrames @ cssFrames)))"

text \<open>\<open>window.onmessage\<close>: answers of another origin are ignored, unless the page is a file.\<close>

definition onmessage :: "js_string \<Rightarrow> answer \<Rightarrow> detector \<Rightarrow> detector" where
  "onmessage origin a d =
     (if dt_origin d = js ''file://'' \<or> origin = dt_origin d then
        (case a_type a of
           Fontawesome_conflict \<Rightarrow>
             d\<lparr>dt_tested := (dt_tested d)\<lparr>r_conflict := setItem (a_md5 a) a (r_conflict (dt_tested d))\<rparr>\<rparr>
         | No_conflict \<Rightarrow>
             d\<lparr>dt_tested := (dt_tested d)\<lparr>r_noConflict := setItem (a_md5 a) a (r_noConflict (dt_tested d))\<rparr>\<rparr>)
      else d)"

definition all_answered :: "detector \<Rightarrow> bool" where
  "all_answered d =
     (dt_count d \<le> length (storage_keys (r_conflict (dt_tested d))) + length (storage_keys (r_noConflict (dt_tested d))))"

text \<open>
  \<open>setDoneResults\<close> and the call of the report function.  When the latter throws after all answers have
  arrived, the rejection handler publishes the results and calls it again.
\<close>

definition finish :: "(results \<Rightarrow> bool) \<Rightarrow> outcome \<Rightarrow> detector \<Rightarrow> detector" where
  "finish throws o' d =
     (let r = dt_tested d in
      d\<lparr>dt_outcome := o', dt_done := True,
        dt_reports := dt_reports d @ (if o' = Resolved \<and> throws r then [r, r] else [r])\<rparr>)"

text \<open>The timer of a poll runs.\<close>

definition run_poll :: "(results \<Rightarrow> bool) \<Rightarrow> detector \<Rightarrow> detector" where
  "run_poll throws d =
     (case clk_jobs (dt_clock d) of
        [] \<Rightarrow> d
      | (t, i, cumulativeDuration) # _ \<Rightarrow>
          let d = d\<lparr>dt_clock := take_job (dt_clock d)\<rparr> in
          if all_answered d then finish throws Resolved d
          else if in_time (250 + cumulativeDuration) (dt_max d)
          then d\<lparr>dt_clock := start_timer 250 (250 + cumulativeDuration) (dt_clock d)\<rparr>
          else finish throws Timed_out d)"

end
