(* ===== verification/Detector_Correct.thy ===== *)
theory Detector_Correct
  imports Detector
begin

text \<open>
  What the detector promises: it always ends, within the time it allows, with one report; and the
  report names as conflicts the elements whose test saw one, and as leftovers those that have not
  answered.
\<close>

section \<open>Polling\<close>

text \<open>The polls of a test are numbered from 0; this is the number of the last one.\<close>

definition polls_left :: "nat option \<Rightarrow> nat \<Rightarrow> nat" where
  "polls_left m c = (case m of None \<Rightarrow> 0 | Some m \<Rightarrow> (m - c) div 250)"

abbreviation "last_poll m \<equiv> polls_left m 0"

lemma polls_left_step:
  "in_time (250 + c) m \<longleftrightarrow> 0 < polls_left m c"
  "in_time (250 + c) m \<Longrightarrow> polls_left m (250 + c) = polls_left m c - 1"
proof -
  show "in_time (250 + c) m \<longleftrightarrow> 0 < polls_left m c"
    by (auto simp: in_time_def polls_left_def div_greater_zero_iff split: option.split)
  show "in_time (250 + c) m \<Longrightarrow> polls_left m (250 + c) = polls_left m c - 1"
  proof (cases m)
    case (Some n)
    moreover assume "in_time (250 + c) m"
    ultimately have "n - c = (n - (250 + c)) + 250" by (simp add: in_time_def)
    then have "(n - c) div 250 = (n - (250 + c)) div 250 + 1" by (metis div_add_self2 zero_neq_numeral)
    then show ?thesis using Some by (simp add: polls_left_def)
  qed (simp add: in_time_def)
qed

lemma poll_result:
  "fst (poll m fn k t d c) \<longleftrightarrow> (\<exists>j \<le> polls_left m c. fn (k + j))"
proof (induction m fn k t d c rule: poll.induct)
  case (1 m fn k t d c)
  show ?case
  proof (cases "fn k")
    case True
    then show ?thesis by (subst poll.simps) (auto intro: exI [of _ 0])
  next
    case False
    show ?thesis
    proof (cases "in_time (250 + c) m")
      case True
      then obtain n where n: "polls_left m c = Suc n" "polls_left m (250 + c) = n"
        using polls_left_step [of c m] by (cases "polls_left m c") auto
      have "(\<exists>j \<le> Suc n. fn (k + j)) \<longleftrightarrow> (\<exists>j \<le> n. fn (Suc k + j))"
      proof
        assume "\<exists>j \<le> Suc n. fn (k + j)"
        then obtain j where "j \<le> Suc n" "fn (k + j)" by blast
        then show "\<exists>j \<le> n. fn (Suc k + j)" using False by (cases j) auto
      next
        assume "\<exists>j \<le> n. fn (Suc k + j)"
        then obtain j where "j \<le> n" "fn (k + Suc j)" by auto
        then show "\<exists>j \<le> Suc n. fn (k + j)" by (intro exI [of _ "Suc j"]) simp
      qed
      then show ?thesis using 1 False True n by (subst poll.simps) simp
    next
      case False
      then show ?thesis using \<open>\<not> fn k\<close> polls_left_step(1) [of c m] by (subst poll.simps) simp
    qed
  qed
qed

text \<open>A test finds a conflict if one of its polls sees it.\<close>

lemma pollUntil_sees: "fst (pollUntil m fn) \<longleftrightarrow> (\<exists>j \<le> last_poll m. fn j)"
  by (simp add: pollUntil_def poll_result)

lemma poll_time: "snd (poll m fn k t d c) \<le> t + d + 250 * polls_left m c"
proof (induction m fn k t d c rule: poll.induct)
  case (1 m fn k t d c)
  show ?case
  proof (cases "fn k \<or> \<not> in_time (250 + c) m")
    case True
    then show ?thesis by (subst poll.simps) auto
  next
    case False
    then have "250 * polls_left m c = 250 + 250 * polls_left m (250 + c)"
      using polls_left_step [of c m] by (cases "polls_left m c") simp_all
    then show ?thesis using 1 False by (subst poll.simps) simp
  qed
qed

section \<open>The detection ends\<close>

datatype detect_event = Ev_answer js_string answer | Ev_poll

fun do_detect :: "(results \<Rightarrow> bool) \<Rightarrow> detect_event \<Rightarrow> detector \<Rightarrow> detector" where
  "do_detect throws (Ev_answer origin a) d = onmessage origin a d"
| "do_detect throws Ev_poll d = run_poll throws d"

definition poll_load :: "detector \<Rightarrow> nat" where
  "poll_load d = sum_list (map (\<lambda>(t, i, c). Suc (polls_left (dt_max d) c)) (clk_jobs (dt_clock d)))"

lemma finish_fields [simp]:
  "dt_clock (finish throws o' d) = dt_clock d" "dt_max (finish throws o' d) = dt_max d"
  "dt_tested (finish throws o' d) = dt_tested d" "dt_count (finish throws o' d) = dt_count d"
  "dt_outcome (finish throws o' d) = o'" "dt_done (finish throws o' d)"
  by (simp_all add: finish_def Let_def)

interpretation polling: event_loop "\<lambda>d. clk_jobs (dt_clock d)" "run_poll throws" poll_load for throws
proof
  fix d :: detector
  assume "clk_jobs (dt_clock d) \<noteq> []"
  then obtain t i c js' where jobs: "clk_jobs (dt_clock d) = (t, i, c) # js'"
    by (cases "clk_jobs (dt_clock d)") auto
  show "poll_load (run_poll throws d) < poll_load d"
    using polls_left_step [of c "dt_max d"]
    by (auto simp: run_poll_def jobs Let_def poll_load_def take_job_def start_timer_def sum_insert_job)
qed

lemma detection_comes_to_rest:
  "\<exists>n \<le> poll_load d. clk_jobs (dt_clock ((run_poll throws ^^ n) d)) = []"
  by (rule polling.comes_to_rest)

text \<open>While the page waits there is one timer, and \<open>n\<close> polls after the next one are left.\<close>

definition waits :: "nat \<Rightarrow> detector \<Rightarrow> bool" where
  "waits n d \<longleftrightarrow> dt_outcome d = Waiting \<and> \<not> dt_done d \<and> dt_reports d = [] \<and>
     (\<exists>i j. clk_jobs (dt_clock d) = [(1 + 250 * j, i, 250 * j)] \<and> clk_now (dt_clock d) \<le> 1 + 250 * j
       \<and> j + n = last_poll (dt_max d))"

definition ended :: "(results \<Rightarrow> bool) \<Rightarrow> detector \<Rightarrow> bool" where
  "ended throws d \<longleftrightarrow> dt_outcome d \<in> {Resolved, Timed_out} \<and> dt_done d \<and> clk_jobs (dt_clock d) = [] \<and>
     (\<exists>r. dt_reports d = [r] \<or> throws r \<and> dt_reports d = [r, r])
     \<and> clk_now (dt_clock d) \<le> 1 + 250 * last_poll (dt_max d)"

lemma onmessage_fields [simp]:
  "dt_clock (onmessage org a d) = dt_clock d" "dt_max (onmessage org a d) = dt_max d"
  "dt_outcome (onmessage org a d) = dt_outcome d" "dt_done (onmessage org a d) = dt_done d"
  "dt_reports (onmessage org a d) = dt_reports d" "dt_count (onmessage org a d) = dt_count d"
  "r_found (dt_tested (onmessage org a d)) = r_found (dt_tested d)" "dt_origin (onmessage org a d) = dt_origin d"
  by (simp_all add: onmessage_def split: answer_type.split)

lemma polls_from: "in_time (250 + 250 * j) m \<longleftrightarrow> j < last_poll m"
  by (cases m) (auto simp: in_time_def polls_left_def less_eq_div_iff_mult_less_eq Suc_le_eq [symmetric])

lemma poll_waits:
  assumes "waits n d"
  shows "ended throws (run_poll throws d) \<or> (\<exists>m. n = Suc m \<and> waits m (run_poll throws d))"
proof -
  obtain i j where j: "clk_jobs (dt_clock d) = [(1 + 250 * j, i, 250 * j)]" "clk_now (dt_clock d) \<le> 1 + 250 * j"
    "j + n = last_poll (dt_max d)" "dt_outcome d = Waiting" "\<not> dt_done d" "dt_reports d = []"
    using assms by (auto simp: waits_def)
  define d1 where "d1 = d\<lparr>dt_clock := take_job (dt_clock d)\<rparr>"
  have clock: "clk_jobs (dt_clock d1) = []" "clk_now (dt_clock d1) = 1 + 250 * j"
    using j by (simp_all add: d1_def take_job_def)
  have run: "run_poll throws d = (if all_answered d1 then finish throws Resolved d1
      else if in_time (250 + 250 * j) (dt_max d)
      then d1\<lparr>dt_clock := start_timer 250 (250 + 250 * j) (dt_clock d1)\<rparr> else finish throws Timed_out d1)"
    using j by (simp add: run_poll_def d1_def Let_def)
  show ?thesis
  proof (cases "all_answered d1 \<or> \<not> in_time (250 + 250 * j) (dt_max d)")
    case True
    then have "ended throws (run_poll throws d)"
      unfolding run using clock j by (auto simp: ended_def finish_def d1_def Let_def)
    then show ?thesis ..
  next
    case False
    then obtain m where n: "n = Suc m" using j(3) by (cases n) (auto simp: polls_from)
    have "waits m (run_poll throws d)"
      unfolding run waits_def using False clock j n
      by (auto simp: start_timer_def d1_def intro!: exI [of _ "Suc j"])
    then show ?thesis using n by blast
  qed
qed

lemma poll_ended: "ended throws d \<Longrightarrow> run_poll throws d = d"
  by (auto simp: ended_def run_poll_def)

definition poll_count :: "detect_event list \<Rightarrow> nat" where
  "poll_count evs = length (filter (\<lambda>ev. ev = Ev_poll) evs)"

lemma ended_stays: "ended throws d \<Longrightarrow> ended throws (fold (do_detect throws) evs d)"
proof (induction evs arbitrary: d)
  case (Cons ev evs)
  have "ended throws (do_detect throws ev d)"
    using Cons.prems by (cases ev) (auto simp: poll_ended, auto simp: ended_def)
  then show ?case using Cons.IH by simp
qed simp

lemma waits_ends:
  "waits n d \<Longrightarrow> n < poll_count evs \<Longrightarrow> ended throws (fold (do_detect throws) evs d)"
proof (induction evs arbitrary: n d)
  case (Cons ev evs)
  show ?case
  proof (cases ev)
    case (Ev_answer org a)
    have "waits n (onmessage org a d)" using Cons.prems(1) by (simp add: waits_def)
    then show ?thesis using Cons Ev_answer by (simp add: poll_count_def)
  next
    case Ev_poll
    then show ?thesis
      using poll_waits [OF Cons.prems(1), of throws] Cons.IH Cons.prems(2) ended_stays
      by (auto simp: poll_count_def)
  qed
qed (simp add: poll_count_def)

lemma detection_starts:
  assumes "conflictDetection P = Some (d, fs)" "dt_count d \<noteq> 0"
  shows "waits (last_poll (dt_max d)) d"
  using assms
  by (auto simp: conflictDetection_def Let_def waits_def start_timer_def fresh_clock_def bind_eq_Some_conv split: prod.splits if_splits)

text \<open>
  Property C22.  Whatever answers arrive, and however they are spread between the polls, the detection
  has ended after the polls that fit into the time allowed: there is no timer left, the results are
  published, the report was made once (again only if it threw), and not later than the last poll.
\<close>

theorem detection_ends:
  assumes "conflictDetection P = Some (d, fs)" "dt_count d \<noteq> 0" "last_poll (dt_max d) < poll_count evs"
  shows "dt_outcome (fold (do_detect throws) evs d) \<in> {Resolved, Timed_out}
     \<and> dt_done (fold (do_detect throws) evs d) \<and> clk_jobs (dt_clock (fold (do_detect throws) evs d)) = []
     \<and> (\<exists>r. dt_reports (fold (do_detect throws) evs d) = [r]
            \<or> throws r \<and> dt_reports (fold (do_detect throws) evs d) = [r, r])
     \<and> clk_now (dt_clock (fold (do_detect throws) evs d)) \<le> 1 + 250 * last_poll (dt_max (fold (do_detect throws) evs d))"
  using waits_ends [OF detection_starts [OF assms(1,2)] assms(3)] unfolding ended_def by simp

definition demo_element :: element where
  "demo_element = \<lparr>e_tag = js ''SCRIPT'', e_src = [], e_href = [], e_text = [], e_ignored = False\<rparr>"

definition demo_tested_page :: tested_page where
  "demo_tested_page = \<lparr>pg_scripts = [demo_element], pg_currentScript = None, pg_links = [], pg_styles = [],
     pg_replacementClass = None, pg_origin = js ''http://h'', pg_timeout = Some 250, pg_maxWait = Some 250\<rparr>"

definition demo_frame :: frame where
  "demo_frame = (Svg_script, js ''undefined'', demo_element)"

definition demo_detector :: detector where
  "demo_detector = \<lparr>dt_tested = \<lparr>r_conflict = [], r_noConflict = [], r_found = [(js ''undefined'', demo_element)]\<rparr>,
     dt_count = 1, dt_origin = js ''http://h'', dt_max = Some 500, dt_clock = start_timer 1 0 fresh_clock,
     dt_outcome = Waiting, dt_done = False, dt_reports = []\<rparr>"

lemma demo_detection: "conflictDetection demo_tested_page = Some (demo_detector, [demo_frame])"
  by (simp add: conflictDetection_def demo_tested_page_def detectSvgConflicts_def detectWebfontConflicts_def
    md5ForNode_def demo_element_def name_of_def under_test_def setItem_def objectSpread_def storage_keys_def
    demo_detector_def demo_frame_def Let_def)

theorem detection_ends_witness:
  "dt_done (fold (do_detect (\<lambda>_. False)) [Ev_poll, Ev_poll, Ev_poll] demo_detector)
   \<and> clk_now (dt_clock (fold (do_detect (\<lambda>_. False)) [Ev_poll, Ev_poll, Ev_poll] demo_detector)) \<le> 501"
proof -
  have "dt_count demo_detector \<noteq> 0" "last_poll (dt_max demo_detector) < poll_count [Ev_poll, Ev_poll, Ev_poll]"
    by (simp_all add: demo_detector_def polls_left_def poll_count_def)
  note detection_ends [OF demo_detection this, of "\<lambda>_. False"]
  moreover have "dt_max (fold (do_detect (\<lambda>_. False)) [Ev_poll, Ev_poll, Ev_poll] demo_detector) = Some 500"
    by (simp add: run_poll_def demo_detector_def start_timer_def fresh_clock_def take_job_def all_answered_def
      storage_keys_def in_time_def Let_def)
  ultimately show ?thesis by (simp add: polls_left_def del: fold_simps)
qed

text \<open>When there is nothing to test, the results are never published and nothing is reported.\<close>

lemma nothing_to_test_is_never_done:
  assumes "conflictDetection P = Some (d, fs)" "dt_count d = 0"
  shows "\<not> dt_done (fold (do_detect throws) evs d) \<and> dt_reports (fold (do_detect throws) evs d) = []"
proof -
  define idle where "idle d \<longleftrightarrow> clk_jobs (dt_clock d) = [] \<and> \<not> dt_done d \<and> dt_reports d = []" for d :: detector
  have "idle d"
    using assms by (auto simp: conflictDetection_def Let_def idle_def fresh_clock_def bind_eq_Some_conv split: prod.splits if_splits)
  moreover have "idle d \<Longrightarrow> idle (do_detect throws ev d)" for d ev
    by (cases ev) (auto simp: idle_def run_poll_def)
  ultimately have "idle (fold (do_detect throws) evs d)" by (induction evs arbitrary: d) auto
  then show ?thesis by (simp add: idle_def)
qed

section \<open>The report\<close>

abbreviation frame_key :: "frame \<Rightarrow> js_string" where "frame_key f \<equiv> fst (snd f)"

lemma collect_keys:
  "collect k es (d, fs) = Some (d', fs') \<Longrightarrow> storage_ok d \<Longrightarrow>
   storage_ok d' \<and> (\<exists>gs. fs' = fs @ gs \<and> set (storage_keys d') = set (storage_keys d) \<union> frame_key ` set gs)"
proof (induction k es "(d, fs)" arbitrary: d fs rule: collect.induct)
  case (2 k e es d fs)
  then obtain m where m: "md5ForNode e = Some m" by (auto split: option.splits)
  let ?g = "(k, name_of m, under_test k e)"
  have "collect k es (setItem (name_of m) e d, fs @ [?g]) = Some (d', fs')" using 2(2) m by simp
  from 2(1) [OF m this storage.ok_put [OF 2(3)]] obtain gs where
    gs: "storage_ok d'" "fs' = (fs @ [?g]) @ gs"
      "set (storage_keys d') = set (storage_keys (setItem (name_of m) e d)) \<union> frame_key ` set gs" by blast
  then show ?case using storage.set_keys_put [OF 2(3)] by (auto intro!: exI [of _ "?g # gs"])
qed auto

lemma spread_keys:
  "storage_ok b \<Longrightarrow> storage_ok a \<Longrightarrow>
   set (storage_keys (objectSpread a b)) = set (storage_keys a) \<union> set (storage_keys b)"
  by (auto simp: storage.set_keys getItem_objectSpread split: option.splits)

lemma detection_names:
  assumes "conflictDetection P = Some (d, fs)"
  shows "set (storage_keys (r_found (dt_tested d))) = frame_key ` set fs"
    and "storage_ok (r_found (dt_tested d))"
    and "length (storage_keys (r_found (dt_tested d))) \<le> dt_count d"
    and "r_conflict (dt_tested d) = [] \<and> r_noConflict (dt_tested d) = []"
    and "dt_origin d = pg_origin P" and "dt_reports d = []"
proof -
  obtain sd sf cd cf where s: "detectSvgConflicts P = Some (sd, sf)" and c: "detectWebfontConflicts P = Some (cd, cf)"
    and fs: "fs = sf @ cf" and found: "r_found (dt_tested d) = objectSpread (objectSpread [] sd) cd"
    and count: "dt_count d = length (storage_keys sd) + length (storage_keys cd)"
    and rest: "r_conflict (dt_tested d) = [] \<and> r_noConflict (dt_tested d) = []" "dt_origin d = pg_origin P" "dt_reports d = []"
    using assms by (auto simp: conflictDetection_def Let_def bind_eq_Some_conv)
  have sk: "storage_ok sd" "set (storage_keys sd) = frame_key ` set sf"
    using collect_keys [of _ _ "[]" "[]" sd sf] s by (auto simp: detectSvgConflicts_def storage_keys_def)
  obtain ld lf where l: "collect Webfont_link (filter (\<lambda>t. \<not> e_ignored t) (pg_links P)) ([], []) = Some (ld, lf)"
    and st: "collect Webfont_style (filter (\<lambda>t. \<not> e_ignored t \<and> \<not> own_style (pg_replacementClass P) t) (pg_styles P)) (ld, lf) = Some (cd, cf)"
    using c by (auto simp: detectWebfontConflicts_def bind_eq_Some_conv)
  have lk: "storage_ok ld" "set (storage_keys ld) = frame_key ` set lf"
    using collect_keys [OF l] by (auto simp: storage_keys_def)
  have ck: "storage_ok cd" "set (storage_keys cd) = frame_key ` set cf"
    using collect_keys [OF st lk(1)] lk(2) image_Un [of frame_key] by (simp, metis set_append)
  show keys: "set (storage_keys (r_found (dt_tested d))) = frame_key ` set fs"
    unfolding found fs using sk ck by (simp add: spread_keys storage_keys_def [of "[]"] image_Un)
  show ok: "storage_ok (r_found (dt_tested d))" unfolding found by simp
  have "card (frame_key ` set fs) \<le> card (set (storage_keys sd)) + card (set (storage_keys cd))"
    unfolding fs set_append image_Un sk(2) [symmetric] ck(2) [symmetric] by (rule card_Un_le)
  then show "length (storage_keys (r_found (dt_tested d))) \<le> dt_count d"
    using storage.count_card [OF ok] storage.count_card [OF sk(1)] storage.count_card [OF ck(1)] keys count by simp
  show "r_conflict (dt_tested d) = [] \<and> r_noConflict (dt_tested d) = []" "dt_origin d = pg_origin P" "dt_reports d = []"
    by (fact rest)+
qed

text \<open>
  A test sees a conflict in one of its polls.  The answers are genuine when those of the page's own
  origin come from the frames of the tests.
\<close>

definition sees :: "tested_page \<Rightarrow> (frame \<Rightarrow> nat \<Rightarrow> bool) \<Rightarrow> frame \<Rightarrow> bool" where
  "sees P probe f = (\<exists>j \<le> last_poll (pg_timeout P). probe f j)"

definition genuine :: "tested_page \<Rightarrow> (frame \<Rightarrow> nat \<Rightarrow> bool) \<Rightarrow> frame list \<Rightarrow> detect_event list \<Rightarrow> bool" where
  "genuine P probe fs evs = (\<forall>ev \<in> set evs. case ev of
       Ev_answer origin a \<Rightarrow> (pg_origin P = js ''file://'' \<or> origin = pg_origin P) \<longrightarrow>
         (\<exists>f \<in> set fs. a = frame_answer (pg_timeout P) (probe f) f)
     | Ev_poll \<Rightarrow> True)"

lemma frame_answer_fields:
  "a_md5 (frame_answer T p f) = frame_key f"
  "a_type (frame_answer T p f) = (if \<exists>j \<le> last_poll T. p j then Fontawesome_conflict else No_conflict)"
  by (cases "(T, p, f)" rule: frame_answer.cases; simp add: webfont_answer_def script_answer_def pollUntil_sees)+

definition answers_ok :: "tested_page \<Rightarrow> (frame \<Rightarrow> nat \<Rightarrow> bool) \<Rightarrow> frame list \<Rightarrow> results \<Rightarrow> bool" where
  "answers_ok P probe fs r \<longleftrightarrow> storage_ok (r_conflict r) \<and> storage_ok (r_noConflict r) \<and>
     (\<forall>k. getItem (r_conflict r) k \<noteq> None \<longrightarrow> (\<exists>f \<in> set fs. k = frame_key f \<and> sees P probe f)) \<and>
     (\<forall>k. getItem (r_noConflict r) k \<noteq> None \<longrightarrow> (\<exists>f \<in> set fs. k = frame_key f \<and> \<not> sees P probe f)) \<and>
     storage_ok (r_found r) \<and> set (storage_keys (r_found r)) = frame_key ` set fs"

lemma onmessage_answers:
  assumes "answers_ok P probe fs (dt_tested d)" "dt_origin d = pg_origin P" "genuine P probe fs [Ev_answer org a]"
  shows "answers_ok P probe fs (dt_tested (onmessage org a d))"
proof (cases "dt_origin d = js ''file://'' \<or> org = dt_origin d")
  case True
  then obtain f where f: "f \<in> set fs" "a = frame_answer (pg_timeout P) (probe f) f"
    using assms(2,3) by (auto simp: genuine_def)
  then have a: "a_md5 a = frame_key f" "a_type a = (if sees P probe f then Fontawesome_conflict else No_conflict)"
    by (simp_all add: frame_answer_fields sees_def)
  note ok = assms(1) [unfolded answers_ok_def]
  show ?thesis
  proof (cases "sees P probe f")
    case True
    then have "dt_tested (onmessage org a d) =
        (dt_tested d)\<lparr>r_conflict := setItem (frame_key f) a (r_conflict (dt_tested d))\<rparr>"
      using \<open>dt_origin d = _ \<or> _\<close> a unfolding onmessage_def by simp
    moreover have "\<forall>k. getItem (setItem (frame_key f) a (r_conflict (dt_tested d))) k \<noteq> None
        \<longrightarrow> (\<exists>f \<in> set fs. k = frame_key f \<and> sees P probe f)"
      using ok True f(1) unfolding getItem_setItem by metis
    ultimately show ?thesis using ok by (simp add: answers_ok_def del: getItem_setItem)
  next
    case False
    then have "dt_tested (onmessage org a d) =
        (dt_tested d)\<lparr>r_noConflict := setItem (frame_key f) a (r_noConflict (dt_tested d))\<rparr>"
      using \<open>dt_origin d = _ \<or> _\<close> a unfolding onmessage_def by simp
    moreover have "\<forall>k. getItem (setItem (frame_key f) a (r_noConflict (dt_tested d))) k \<noteq> None
        \<longrightarrow> (\<exists>f \<in> set fs. k = frame_key f \<and> \<not> sees P probe f)"
      using ok False f(1) unfolding getItem_setItem by metis
    ultimately show ?thesis using ok by (simp add: answers_ok_def del: getItem_setItem)
  qed
next
  case False
  then show ?thesis using assms(1) unfolding onmessage_def by simp
qed

text \<open>When as many answers have arrived as there are tests, no element is left over.\<close>

lemma all_answered_complete:
  assumes "answers_ok P probe fs (dt_tested d)" "distinct (map frame_key fs)" "all_answered d"
    and "length (storage_keys (r_found (dt_tested d))) \<le> dt_count d"
  shows "timedOutTests (dt_tested d) = []"
proof -
  let ?r = "dt_tested d"
  define C N F where "C = set (storage_keys (r_conflict ?r))" and "N = set (storage_keys (r_noConflict ?r))"
    and "F = set (storage_keys (r_found ?r))"
  note ok = assms(1) [unfolded answers_ok_def]
  have C: "C = {k. getItem (r_conflict ?r) k \<noteq> None}" and N: "N = {k. getItem (r_noConflict ?r) k \<noteq> None}"
    using ok by (simp_all add: C_def N_def storage.set_keys)
  have sub: "C \<union> N \<subseteq> F" using ok by (auto simp: C N F_def)
  have "inj_on frame_key (set fs)" using assms(2) by (simp add: distinct_map)
  have "C \<inter> N = {}"
  proof (rule ccontr)
    assume "C \<inter> N \<noteq> {}"
    then obtain k where "getItem (r_conflict ?r) k \<noteq> None" "getItem (r_noConflict ?r) k \<noteq> None"
      unfolding C N by blast
    then obtain f g where "f \<in> set fs" "k = frame_key f" "sees P probe f" "g \<in> set fs" "k = frame_key g" "\<not> sees P probe g"
      using ok by metis
    then show False using inj_onD [OF \<open>inj_on frame_key (set fs)\<close>, of f g] by metis
  qed
  then have "card (C \<union> N) = card C + card N" by (intro card_Un_disjoint) (simp_all add: C_def N_def)
  moreover have "card F \<le> card C + card N"
  proof -
    have "length (storage_keys (r_conflict ?r)) = card C" "length (storage_keys (r_noConflict ?r)) = card N"
      "length (storage_keys (r_found ?r)) = card F"
      unfolding C_def N_def F_def using ok by (metis storage.count_card)+
    then show ?thesis using assms(3,4) unfolding all_answered_def by linarith
  qed
  ultimately have "C \<union> N = F" using sub by (intro card_seteq) (simp_all add: F_def)
  moreover have "k \<in> F" if "(k, e) \<in> set (r_found ?r)" for k e
    using that by (force simp: F_def storage_keys_def)
  ultimately have "k \<in> C \<union> N" if "(k, e) \<in> set (r_found ?r)" for k e using that by blast
  then show ?thesis unfolding timedOutTests_def filter_empty_conv C N by fastforce
qed

definition detect_ok :: "tested_page \<Rightarrow> (frame \<Rightarrow> nat \<Rightarrow> bool) \<Rightarrow> frame list \<Rightarrow> detector \<Rightarrow> bool" where
  "detect_ok P probe fs d \<longleftrightarrow> answers_ok P probe fs (dt_tested d) \<and> dt_origin d = pg_origin P
     \<and> length (storage_keys (r_found (dt_tested d))) \<le> dt_count d \<and> length (clk_jobs (dt_clock d)) \<le> 1
     \<and> (clk_jobs (dt_clock d) \<noteq> [] \<longrightarrow> dt_reports d = [])
     \<and> (\<forall>r \<in> set (dt_reports d). answers_ok P probe fs r \<and> (dt_outcome d = Resolved \<longrightarrow> timedOutTests r = []))"

lemma do_detect_ok:
  assumes "detect_ok P probe fs d" "genuine P probe fs [ev]" "distinct (map frame_key fs)"
  shows "detect_ok P probe fs (do_detect throws ev d)"
proof (cases ev)
  case (Ev_answer org a)
  then show ?thesis using assms onmessage_answers [of P probe fs d org a] by (auto simp: detect_ok_def)
next
  case Ev_poll
  show ?thesis
  proof (cases "clk_jobs (dt_clock d)")
    case Nil
    then show ?thesis using assms(1) Ev_poll by (simp add: run_poll_def)
  next
    case (Cons job js')
    obtain t i c where job: "job = (t, i, c)" by (cases job) auto
    have jobs: "clk_jobs (dt_clock d) = [(t, i, c)]" using assms(1) Cons job by (auto simp: detect_ok_def)
    define d1 where "d1 = d\<lparr>dt_clock := take_job (dt_clock d)\<rparr>"
    have d1: "detect_ok P probe fs d1" "clk_jobs (dt_clock d1) = []" "dt_reports d1 = []"
      using assms(1) jobs by (auto simp: detect_ok_def d1_def take_job_def)
    have run: "run_poll throws d = (if all_answered d1 then finish throws Resolved d1
        else if in_time (250 + c) (dt_max d) then d1\<lparr>dt_clock := start_timer 250 (250 + c) (dt_clock d1)\<rparr>
        else finish throws Timed_out d1)"
      using jobs by (simp add: run_poll_def d1_def Let_def)
    have "all_answered d1 \<Longrightarrow> timedOutTests (dt_tested d1) = []"
      using all_answered_complete [of P probe fs d1] d1(1) assms(3) by (simp add: detect_ok_def)
    then have "detect_ok P probe fs (run_poll throws d)"
      unfolding run using d1 by (auto simp: detect_ok_def finish_def start_timer_def Let_def)
    then show ?thesis using Ev_poll by simp
  qed
qed

lemma detect_run_ok:
  "detect_ok P probe fs d \<Longrightarrow> genuine P probe fs evs \<Longrightarrow> distinct (map frame_key fs) \<Longrightarrow>
   detect_ok P probe fs (fold (do_detect throws) evs d)"
proof (induction evs arbitrary: d)
  case (Cons ev evs)
  then show ?case using do_detect_ok [of P probe fs d ev throws] by (simp add: genuine_def)
qed simp

text \<open>
  Property C23.  When the elements have different names and the answers are those of the tests, every
  report is right: an element it lists as a conflict is one whose test saw a conflict in time, one it
  lists without conflict is one whose test saw none, it leaves over exactly the elements without an
  answer, and none if the detection did not time out.
\<close>

theorem report_is_right:
  assumes "conflictDetection P = Some (d, fs)" "distinct (map frame_key fs)" "genuine P probe fs evs"
    and "r \<in> set (dt_reports (fold (do_detect throws) evs d))" and "f \<in> set fs"
  shows "(getItem (r_conflict r) (frame_key f) \<noteq> None \<longrightarrow> sees P probe f)
     \<and> (getItem (r_noConflict r) (frame_key f) \<noteq> None \<longrightarrow> \<not> sees P probe f)
     \<and> (frame_key f \<in> set (storage_keys (timedOutTests r))
          \<longleftrightarrow> getItem (r_conflict r) (frame_key f) = None \<and> getItem (r_noConflict r) (frame_key f) = None)
     \<and> (dt_outcome (fold (do_detect throws) evs d) = Resolved \<longrightarrow> timedOutTests r = [])"
proof -
  note names = detection_names [OF assms(1)]
  have "answers_ok P probe fs (dt_tested d)" using names by (simp add: answers_ok_def)
  moreover have "length (clk_jobs (dt_clock d)) \<le> 1"
    using assms(1) by (auto simp: conflictDetection_def Let_def start_timer_def fresh_clock_def bind_eq_Some_conv split: prod.splits if_splits)
  ultimately have "detect_ok P probe fs d" using names by (simp add: detect_ok_def)
  then have "detect_ok P probe fs (fold (do_detect throws) evs d)"
    by (rule detect_run_ok) (fact assms(3), fact assms(2))
  then have r: "answers_ok P probe fs r" "dt_outcome (fold (do_detect throws) evs d) = Resolved \<longrightarrow> timedOutTests r = []"
    using assms(4) by (auto simp: detect_ok_def)
  have same: "f' \<in> set fs \<Longrightarrow> frame_key f = frame_key f' \<Longrightarrow> f' = f" for f'
    using assms(2,5) by (auto simp: distinct_map dest: inj_onD)
  have "frame_key f \<in> set (storage_keys (r_found r))" using r(1) assms(5) by (simp add: answers_ok_def)
  then have "frame_key f \<in> set (storage_keys (timedOutTests r))
      \<longleftrightarrow> getItem (r_conflict r) (frame_key f) = None \<and> getItem (r_noConflict r) (frame_key f) = None"
    by (force simp: timedOutTests_def storage_keys_def)
  moreover have "getItem (r_conflict r) (frame_key f) \<noteq> None \<longrightarrow> sees P probe f"
    "getItem (r_noConflict r) (frame_key f) \<noteq> None \<longrightarrow> \<not> sees P probe f"
    using r(1) same by (auto simp: answers_ok_def; metis)+
  ultimately show ?thesis using r(2) by blast
qed

theorem report_is_right_witness:
  "\<exists>r \<in> set (dt_reports (fold (do_detect (\<lambda>_. False))
       [Ev_answer (js ''http://h'') (frame_answer (Some 250) (\<lambda>j. j = 1) demo_frame), Ev_poll] demo_detector)).
     getItem (r_conflict r) (js ''undefined'') \<noteq> None \<and> sees demo_tested_page (\<lambda>_ j. j = 1) demo_frame"
proof -
  let ?a = "frame_answer (Some 250) (\<lambda>j. j = 1) demo_frame"
  let ?evs = "[Ev_answer (js ''http://h'') ?a, Ev_poll]"
  let ?r = "\<lparr>r_conflict = [(js ''undefined'', ?a)], r_noConflict = [], r_found = [(js ''undefined'', demo_element)]\<rparr>"
  have key: "frame_key demo_frame = js ''undefined''" by (simp add: demo_frame_def)
  have a: "a_md5 ?a = js ''undefined''" "a_type ?a = Fontawesome_conflict"
    by (auto simp: frame_answer_fields key polls_left_def)
  have "dt_tested (onmessage (js ''http://h'') ?a demo_detector) = ?r"
    using a by (simp add: onmessage_def demo_detector_def setItem_def)
  then have r: "?r \<in> set (dt_reports (fold (do_detect (\<lambda>_. False)) ?evs demo_detector))"
    using a by (simp add: run_poll_def onmessage_def demo_detector_def start_timer_def fresh_clock_def take_job_def
      all_answered_def storage_keys_def finish_def setItem_def Let_def)
  have "genuine demo_tested_page (\<lambda>_ j. j = 1) [demo_frame] ?evs"
    by (simp add: genuine_def demo_tested_page_def)
  from report_is_right [OF demo_detection _ this r, of demo_frame]
  have "getItem [(js ''undefined'', ?a)] (js ''undefined'') \<noteq> None \<longrightarrow> sees demo_tested_page (\<lambda>_ j. j = 1) demo_frame"
    unfolding key by simp
  then show ?thesis using r by (intro bexI [of _ ?r]) (simp_all add: getItem_Cons)
qed

text \<open>
  A script and a style sheet of the same name, two inline elements of the same text for example, are
  counted twice but have one answer: the detection times out though every test has answered.
\<close>

lemma same_name_never_resolved:
  assumes "conflictDetection P = Some (d, fs)" "genuine P probe fs evs"
    and "card (frame_key ` set fs) < dt_count d"
    and "\<forall>f \<in> set fs. \<forall>g \<in> set fs. frame_key f = frame_key g \<longrightarrow> sees P probe f = sees P probe g"
  shows "dt_outcome (fold (do_detect throws) evs d) \<noteq> Resolved"
proof -
  define few where "few d' \<longleftrightarrow> answers_ok P probe fs (dt_tested d') \<and> dt_origin d' = pg_origin P \<and>
    dt_count d' = dt_count d \<and> dt_outcome d' \<noteq> Resolved" for d' :: detector
  have not_all: "\<not> all_answered d'" if "few d'" for d'
  proof -
    define C N where "C = set (storage_keys (r_conflict (dt_tested d')))" and "N = set (storage_keys (r_noConflict (dt_tested d')))"
    have ok: "answers_ok P probe fs (dt_tested d')" using that by (simp add: few_def)
    note ok' = ok [unfolded answers_ok_def]
    have CN: "C = {k. getItem (r_conflict (dt_tested d')) k \<noteq> None}" "N = {k. getItem (r_noConflict (dt_tested d')) k \<noteq> None}"
      using ok' by (simp_all add: C_def N_def storage.set_keys)
    have "C \<inter> N = {}"
    proof (rule ccontr)
      assume "C \<inter> N \<noteq> {}"
      then obtain k where "getItem (r_conflict (dt_tested d')) k \<noteq> None" "getItem (r_noConflict (dt_tested d')) k \<noteq> None"
        unfolding CN by blast
      then obtain f g where "f \<in> set fs" "k = frame_key f" "sees P probe f" "g \<in> set fs" "k = frame_key g" "\<not> sees P probe g"
        using ok' by metis
      then show False using assms(4) by metis
    qed
    then have "card (C \<union> N) = card C + card N" by (intro card_Un_disjoint) (simp_all add: C_def N_def)
    moreover have "C \<union> N \<subseteq> frame_key ` set fs"
    proof
      fix k assume "k \<in> C \<union> N"
      then have "\<exists>f \<in> set fs. k = frame_key f" using ok' unfolding CN by blast
      then show "k \<in> frame_key ` set fs" by blast
    qed
    then have "card (C \<union> N) \<le> card (frame_key ` set fs)" by (intro card_mono) simp_all
    moreover have "length (storage_keys (r_conflict (dt_tested d'))) = card C" "length (storage_keys (r_noConflict (dt_tested d'))) = card N"
      unfolding C_def N_def using ok' by (metis storage.count_card)+
    ultimately show ?thesis using assms(3) that by (simp add: all_answered_def few_def)
  qed
  have step: "few (do_detect throws ev d')" if few: "few d'" and ev: "genuine P probe fs [ev]" for ev d'
  proof (cases ev)
    case (Ev_answer org a)
    then show ?thesis using few ev onmessage_answers [of P probe fs d' org a] by (auto simp: few_def)
  next
    case Ev_poll
    have "\<not> all_answered (d'\<lparr>dt_clock := c\<rparr>)" for c using not_all [OF few] by (simp add: all_answered_def)
    then show ?thesis using few Ev_poll
      by (auto simp: run_poll_def few_def Let_def finish_def split: list.split prod.split)
  qed
  have "few d" using detection_names [OF assms(1)] assms(1)
    by (auto simp: few_def answers_ok_def conflictDetection_def Let_def bind_eq_Some_conv split: prod.splits if_splits)
  then have "few (fold (do_detect throws) evs d)" using assms(2)
  proof (induction evs arbitrary: d rule: rev_induct)
    case (snoc ev evs)
    then show ?case using step by (simp add: genuine_def)
  qed simp
  then show ?thesis by (simp add: few_def)
qed

end
