(* ===== verification/Fa_Promise.thy ===== *)
theory Fa_Promise
  imports Js_Prelude
begin

text \<open>
  The promises of \<open>fontawesome.js\<close>, the implementation it uses where the browser has none.  Promises,
  the guards of adopted thenables and the collections of \<open>P.all\<close> are numbered in the order in which
  they are made, and a closure of the source is a value of the datatype \<open>closure\<close> that names what it
  captures.  Functions of the application are scripts of calls to the interface: a parameter gives the
  script for each function, its arguments and the state.  Their nesting is bounded by a depth that
  stands for the stack of the engine; a call at depth zero throws.  Listeners of the events of
  \<open>process\<close>, properties with changing getters, and subclasses of \<open>P\<close> are not modelled.
\<close>

section \<open>Values and state\<close>

datatype js_val =
    Undefined
  | Null
  | Boolean bool
  | Number int
  | Text js_string
  | Failure js_string \<comment> \<open>an \<open>Error\<close> by its message\<close>
  | Fun closure
  | Promise nat
  | Array nat \<comment> \<open>the array of results of a collection\<close>
  | Object nat
and closure =
    Resolve_fn nat \<comment> \<open>\<open>resolvePromise\<close>, of a promise\<close>
  | Reject_fn nat \<comment> \<open>\<open>rejectPromise\<close>\<close>
  | Adopt_value nat nat js_val \<comment> \<open>guard, promise and thenable of \<open>handleThenable\<close>\<close>
  | Adopt_reason nat nat
  | Collect_at nat nat \<comment> \<open>the result of \<open>resolver(i)\<close> of a collection\<close>
  | Then_fn nat \<comment> \<open>the method \<open>then\<close> of a promise\<close>
  | User nat

type_synonym outcome = "js_val + js_val" \<comment> \<open>thrown or returned\<close>

datatype status = Pending | Settled | Fulfilled | Rejected

record subscriber =
  owner :: nat
  derived :: nat
  on_fulfilled :: js_val
  on_rejected :: js_val

record promise =
  p_state :: status
  p_data :: js_val
  p_then :: "subscriber list option"
  p_handled :: bool

record collection =
  results :: "js_val option list"
  remaining :: int
  collects_for :: nat

datatype async_job =
    Publish_fulfillment nat
  | Publish_rejection nat
  | Invoke subscriber
  | Notify_handled nat

text \<open>
  What happened, in order: subscriptions, the calls of their callbacks with the status and the value of
  the promise, subscriptions without a callback for the status, the runs of functions of the application
  with their arguments, and the events sent to \<open>process\<close>.
\<close>

datatype happening =
    Registered subscriber
  | Called subscriber status js_val
  | Passed_on subscriber
  | Ran nat "js_val list"
  | Unhandled_rejection nat
  | Rejection_handled nat

record heap =
  promises :: "promise list"
  guards :: "bool list"
  collections :: "collection list"
  asyncQueue :: "async_job list"
  asyncTimer :: bool
  scheduled :: nat \<comment> \<open>timers of the browser that will run \<open>asyncFlush\<close>\<close>
  history :: "happening list"

text \<open>The calls an application makes.\<close>

datatype action =
    Call js_val "js_val list"
  | Construct bool js_val \<comment> \<open>\<open>P\<close> with or without \<open>new\<close>\<close>
  | Then js_val js_val js_val
  | Catch js_val js_val
  | All_of "js_val list option" \<comment> \<open>\<open>None\<close> is a value that is no array\<close>
  | Race_of "js_val list"
  | Resolved js_val
  | Rejected_with js_val

text \<open>
  What the implementation does not control: whether it runs in Node, the property \<open>then\<close> of objects
  and functions, the conversion to strings, and the functions of the application.  An action of a script
  is marked when the script catches its exceptions.
\<close>

record world =
  isNode :: bool
  then_of :: "js_val \<Rightarrow> outcome"
  text_of :: "js_val \<Rightarrow> js_string"
  code_of :: "nat \<Rightarrow> js_val list \<Rightarrow> heap \<Rightarrow> (bool \<times> action) list \<times> outcome"

type_synonym caller = "closure \<Rightarrow> js_val list \<Rightarrow> heap \<Rightarrow> outcome \<times> heap"

fun truthy :: "js_val \<Rightarrow> bool" where
  "truthy Undefined = False"
| "truthy Null = False"
| "truthy (Boolean b) = b"
| "truthy (Number n) = (n \<noteq> 0)"
| "truthy (Text t) = (t \<noteq> [])"
| "truthy _ = True"

fun object_or_function :: "js_val \<Rightarrow> bool" where
  "object_or_function Undefined = False"
| "object_or_function Null = False"
| "object_or_function (Boolean b) = False"
| "object_or_function (Number n) = False"
| "object_or_function (Text t) = False"
| "object_or_function _ = True"

fun function_of :: "js_val \<Rightarrow> closure option" where
  "function_of (Fun f) = Some f"
| "function_of _ = None"

definition get_then :: "world \<Rightarrow> js_val \<Rightarrow> outcome" where
  "get_then w v =
     (case v of Promise p \<Rightarrow> Inr (Fun (Then_fn p))
      | _ \<Rightarrow> if object_or_function v then then_of w v else Inr Undefined)"

definition arg :: "nat \<Rightarrow> js_val list \<Rightarrow> js_val" where
  "arg i args = (if i < length args then args ! i else Undefined)"

subsection \<open>Access to the state\<close>

definition fresh_promise :: promise where
  "fresh_promise = \<lparr>p_state = Pending, p_data = Undefined, p_then = Some [], p_handled = False\<rparr>"

text \<open>A number that is not yet in use names nothing that could still change.\<close>

definition promise_at :: "nat \<Rightarrow> heap \<Rightarrow> promise" where
  "promise_at p s = (if p < length (promises s) then promises s ! p else fresh_promise\<lparr>p_state := Fulfilled\<rparr>)"

definition put_promise :: "nat \<Rightarrow> (promise \<Rightarrow> promise) \<Rightarrow> heap \<Rightarrow> heap" where
  "put_promise p f s = s\<lparr>promises := (promises s)[p := f (promise_at p s)]\<rparr>"

definition new_promise :: "heap \<Rightarrow> nat \<times> heap" where
  "new_promise s = (length (promises s), s\<lparr>promises := promises s @ [fresh_promise]\<rparr>)"

definition note_down :: "happening \<Rightarrow> heap \<Rightarrow> heap" where
  "note_down h s = s\<lparr>history := history s @ [h]\<rparr>"

section \<open>Settling\<close>

definition asyncCall :: "async_job \<Rightarrow> heap \<Rightarrow> heap" where
  "asyncCall j s =
     (let s = s\<lparr>asyncQueue := asyncQueue s @ [j]\<rparr> in
      if asyncTimer s then s else s\<lparr>asyncTimer := True, scheduled := Suc (scheduled s)\<rparr>)"

definition settle :: "nat \<Rightarrow> js_val \<Rightarrow> heap \<Rightarrow> heap" where
  "settle p v = put_promise p (\<lambda>x. x\<lparr>p_state := Settled, p_data := v\<rparr>)"

definition fulfill :: "nat \<Rightarrow> js_val \<Rightarrow> heap \<Rightarrow> heap" where
  "fulfill p v s =
     (if p_state (promise_at p s) = Pending then asyncCall (Publish_fulfillment p) (settle p v s) else s)"

definition reject :: "nat \<Rightarrow> js_val \<Rightarrow> heap \<Rightarrow> heap" where
  "reject p v s =
     (if p_state (promise_at p s) = Pending then asyncCall (Publish_rejection p) (settle p v s) else s)"

definition guard_up :: "nat \<Rightarrow> heap \<Rightarrow> bool" where
  "guard_up g s \<longleftrightarrow> g < length (guards s) \<and> guards s ! g"

definition raise_guard :: "nat \<Rightarrow> heap \<Rightarrow> heap" where
  "raise_guard g s = s\<lparr>guards := (guards s)[g := True]\<rparr>"

text \<open>The result says whether the value was a thenable.\<close>

definition handleThenable :: "world \<Rightarrow> caller \<Rightarrow> nat \<Rightarrow> js_val \<Rightarrow> heap \<Rightarrow> bool \<times> heap" where
  "handleThenable w call p v s =
     (if v = Promise p then
        (True, reject p (Failure (js ''A promises callback cannot return that same promise.'')) s)
      else if truthy v \<and> object_or_function v then
        (case get_then w v of
           Inl e \<Rightarrow> (True, reject p e s)
         | Inr t \<Rightarrow>
             (case function_of t of
                None \<Rightarrow> (False, s)
              | Some f \<Rightarrow>
                  let g = length (guards s) in
                  (case call f [Fun (Adopt_value g p v), Fun (Adopt_reason g p)] (s\<lparr>guards := guards s @ [False]\<rparr>) of
                     (Inl e, s) \<Rightarrow> (True, if guard_up g s then s else reject p e s)
                   | (Inr _, s) \<Rightarrow> (True, s))))
      else (False, s))"

definition resolve :: "world \<Rightarrow> caller \<Rightarrow> nat \<Rightarrow> js_val \<Rightarrow> heap \<Rightarrow> heap" where
  "resolve w call p v s =
     (if v = Promise p then fulfill p v s
      else case handleThenable w call p v s of (True, s) \<Rightarrow> s | (False, s) \<Rightarrow> fulfill p v s)"

section \<open>Subscribing and publishing\<close>

definition callback_of :: "status \<Rightarrow> subscriber \<Rightarrow> js_val" where
  "callback_of st sub = (case st of Fulfilled \<Rightarrow> on_fulfilled sub | Rejected \<Rightarrow> on_rejected sub | _ \<Rightarrow> Undefined)"

text \<open>What is known of the callback when it is over: the status and the value to go on with.\<close>

definition run_callback :: "caller \<Rightarrow> subscriber \<Rightarrow> heap \<Rightarrow> status \<times> js_val \<times> heap" where
  "run_callback call sub s =
     (let st = p_state (promise_at (owner sub) s); v = p_data (promise_at (owner sub) s) in
      case function_of (callback_of st sub) of
        None \<Rightarrow> (st, v, note_down (Passed_on sub) s)
      | Some f \<Rightarrow>
          (case call f [v] (note_down (Called sub st v) s) of
             (Inl e, s) \<Rightarrow> (Fulfilled, v, reject (derived sub) e s)
           | (Inr x, s) \<Rightarrow> (Fulfilled, x, s)))"

definition invokeCallback :: "world \<Rightarrow> caller \<Rightarrow> subscriber \<Rightarrow> heap \<Rightarrow> heap" where
  "invokeCallback w call sub s =
     (case run_callback call sub s of (settled, v, s) \<Rightarrow>
      case handleThenable w call (derived sub) v s of
        (True, s) \<Rightarrow> s
      | (False, s) \<Rightarrow>
          if settled = Fulfilled then resolve w call (derived sub) v s
          else if settled = Rejected then reject (derived sub) v s
          else s)"

definition publish_promise :: "world \<Rightarrow> caller \<Rightarrow> nat \<Rightarrow> heap \<Rightarrow> heap" where
  "publish_promise w call p s =
     (case p_then (promise_at p s) of
        None \<Rightarrow> s
      | Some subs \<Rightarrow> put_promise p (\<lambda>x. x\<lparr>p_then := None\<rparr>) (fold (invokeCallback w call) subs s))"

definition publishFulfillment :: "world \<Rightarrow> caller \<Rightarrow> nat \<Rightarrow> heap \<Rightarrow> heap" where
  "publishFulfillment w call p s = publish_promise w call p (put_promise p (\<lambda>x. x\<lparr>p_state := Fulfilled\<rparr>) s)"

definition publishRejection :: "world \<Rightarrow> caller \<Rightarrow> nat \<Rightarrow> heap \<Rightarrow> heap" where
  "publishRejection w call p s =
     (let s = publish_promise w call p (put_promise p (\<lambda>x. x\<lparr>p_state := Rejected\<rparr>) s) in
      if \<not> p_handled (promise_at p s) \<and> isNode w then note_down (Unhandled_rejection p) s else s)"

definition run_async :: "world \<Rightarrow> caller \<Rightarrow> async_job \<Rightarrow> heap \<Rightarrow> heap" where
  "run_async w call j s =
     (case j of
        Publish_fulfillment p \<Rightarrow> publishFulfillment w call p s
      | Publish_rejection p \<Rightarrow> publishRejection w call p s
      | Invoke sub \<Rightarrow> invokeCallback w call sub s
      | Notify_handled p \<Rightarrow> note_down (Rejection_handled p) s)"

definition mark_handled :: "world \<Rightarrow> nat \<Rightarrow> heap \<Rightarrow> heap" where
  "mark_handled w p s =
     (let s' = put_promise p (\<lambda>x. x\<lparr>p_handled := True\<rparr>) s in
      if p_state (promise_at p s) = Rejected \<and> isNode w then asyncCall (Notify_handled p) s' else s')"

definition subscribe_to :: "subscriber \<Rightarrow> heap \<Rightarrow> heap" where
  "subscribe_to sub s =
     (if p_state (promise_at (owner sub) s) = Fulfilled \<or> p_state (promise_at (owner sub) s) = Rejected
      then asyncCall (Invoke sub) s
      else put_promise (owner sub) (\<lambda>x. x\<lparr>p_then := map_option (\<lambda>subs. subs @ [sub]) (p_then x)\<rparr>) s)"

text \<open>The method needs a promise: a number that names none is an error of the script.\<close>

definition then_method :: "world \<Rightarrow> nat \<Rightarrow> js_val \<Rightarrow> js_val \<Rightarrow> heap \<Rightarrow> outcome \<times> heap" where
  "then_method w p onFulfillment onRejection s =
     (if p < length (promises s) then
        (case new_promise s of (q, s) \<Rightarrow>
         let sub = \<lparr>owner = p, derived = q, on_fulfilled = onFulfillment, on_rejected = onRejection\<rparr>;
             s = note_down (Registered sub) s;
             s = (if (truthy onRejection \<or> truthy onFulfillment) \<and> \<not> p_handled (promise_at p s)
                  then mark_handled w p s else s)
         in (Inr (Promise q), subscribe_to sub s))
      else (Inl (Failure (js ''not a promise'')), s))"

definition catch_method :: "world \<Rightarrow> nat \<Rightarrow> js_val \<Rightarrow> heap \<Rightarrow> outcome \<times> heap" where
  "catch_method w p onRejection = then_method w p Null onRejection"

section \<open>Constructing\<close>

definition invokeResolver :: "(heap \<Rightarrow> outcome \<times> heap) \<Rightarrow> nat \<Rightarrow> heap \<Rightarrow> heap" where
  "invokeResolver resolver p s = (case resolver s of (Inl e, s) \<Rightarrow> reject p e s | (Inr _, s) \<Rightarrow> s)"

definition construct :: "(nat \<Rightarrow> heap \<Rightarrow> outcome \<times> heap) \<Rightarrow> heap \<Rightarrow> outcome \<times> heap" where
  "construct resolver s = (case new_promise s of (p, s) \<Rightarrow> (Inr (Promise p), invokeResolver (resolver p) p s))"

definition P :: "world \<Rightarrow> caller \<Rightarrow> bool \<Rightarrow> js_val \<Rightarrow> heap \<Rightarrow> outcome \<times> heap" where
  "P w call is_new resolver s =
     (case function_of resolver of
        None \<Rightarrow> (Inl (Failure (js ''Promise resolver '' @ text_of w resolver @ js '' is not a function'')), s)
      | Some f \<Rightarrow>
          if is_new then construct (\<lambda>p. call f [Fun (Resolve_fn p), Fun (Reject_fn p)]) s
          else (Inl (Failure (js (''Failed to construct 'Promise': Please use the 'new' operator, '' @
                      ''this object constructor cannot be called as a function.''))), s))"

definition put_at :: "nat \<Rightarrow> js_val \<Rightarrow> js_val option list \<Rightarrow> js_val option list" where
  "put_at i v xs = (if i < length xs then xs[i := Some v] else xs @ replicate (i - length xs) None @ [Some v])"

definition put_collection :: "nat \<Rightarrow> (collection \<Rightarrow> collection) \<Rightarrow> heap \<Rightarrow> heap" where
  "put_collection c f s = s\<lparr>collections := (collections s)[c := f (collections s ! c)]\<rparr>"

definition put_result :: "nat \<Rightarrow> nat \<Rightarrow> js_val \<Rightarrow> heap \<Rightarrow> heap" where
  "put_result c i v = put_collection c (\<lambda>x. x\<lparr>results := put_at i v (results x)\<rparr>)"

definition collect_result :: "world \<Rightarrow> caller \<Rightarrow> nat \<Rightarrow> nat \<Rightarrow> js_val \<Rightarrow> heap \<Rightarrow> heap" where
  "collect_result w call c i v s =
     (if c < length (collections s) then
        let s = put_collection c (\<lambda>x. x\<lparr>remaining := remaining x - 1\<rparr>) (put_result c i v s) in
        if remaining (collections s ! c) = 0 then resolve w call (collects_for (collections s ! c)) (Array c) s else s
      else s)"

fun all_loop :: "world \<Rightarrow> caller \<Rightarrow> nat \<Rightarrow> nat \<Rightarrow> nat \<Rightarrow> js_val list \<Rightarrow> heap \<Rightarrow> outcome \<times> heap" where
  "all_loop w call p c i [] s = (Inr Undefined, s)"
| "all_loop w call p c i (v # vs) s =
     (case (if truthy v then get_then w v else Inr Undefined) of
        Inl e \<Rightarrow> (Inl e, s)
      | Inr t \<Rightarrow>
          (case function_of t of
             None \<Rightarrow> all_loop w call p c (Suc i) vs (put_result c i v s)
           | Some f \<Rightarrow>
               (case call f [Fun (Collect_at c i), Fun (Reject_fn p)]
                       (put_collection c (\<lambda>x. x\<lparr>remaining := remaining x + 1\<rparr>) s) of
                  (Inl e, s) \<Rightarrow> (Inl e, s)
                | (Inr _, s) \<Rightarrow> all_loop w call p c (Suc i) vs s)))"

definition all_resolver :: "world \<Rightarrow> caller \<Rightarrow> js_val list \<Rightarrow> nat \<Rightarrow> heap \<Rightarrow> outcome \<times> heap" where
  "all_resolver w call vs p s =
     (let c = length (collections s);
          s = s\<lparr>collections := collections s @ [\<lparr>results = [], remaining = 0, collects_for = p\<rparr>]\<rparr>
      in case all_loop w call p c 0 vs s of
           (Inl e, s) \<Rightarrow> (Inl e, s)
         | (Inr x, s) \<Rightarrow>
             (Inr Undefined, if remaining (collections s ! c) = 0 then resolve w call p (Array c) s else s))"

definition P_all :: "world \<Rightarrow> caller \<Rightarrow> js_val list option \<Rightarrow> heap \<Rightarrow> outcome \<times> heap" where
  "P_all w call arr s =
     (case arr of
        None \<Rightarrow> (Inl (Failure (js ''You must pass an array to Promise.all().'')), s)
      | Some vs \<Rightarrow> construct (all_resolver w call vs) s)"

fun race_loop :: "world \<Rightarrow> caller \<Rightarrow> js_val list \<Rightarrow> nat \<Rightarrow> heap \<Rightarrow> outcome \<times> heap" where
  "race_loop w call [] p s = (Inr Undefined, s)"
| "race_loop w call (v # vs) p s =
     (case (if truthy v then get_then w v else Inr Undefined) of
        Inl e \<Rightarrow> (Inl e, s)
      | Inr t \<Rightarrow>
          (case function_of t of
             None \<Rightarrow> race_loop w call vs p (resolve w call p v s)
           | Some f \<Rightarrow>
               (case call f [Fun (Resolve_fn p), Fun (Reject_fn p)] s of
                  (Inl e, s) \<Rightarrow> (Inl e, s)
                | (Inr _, s) \<Rightarrow> race_loop w call vs p s)))"

definition P_race :: "world \<Rightarrow> caller \<Rightarrow> js_val list \<Rightarrow> heap \<Rightarrow> outcome \<times> heap" where
  "P_race w call vs = construct (race_loop w call vs)"

definition P_resolve :: "world \<Rightarrow> caller \<Rightarrow> js_val \<Rightarrow> heap \<Rightarrow> outcome \<times> heap" where
  "P_resolve w call v s =
     (case v of
        Promise p \<Rightarrow> (Inr v, s)
      | _ \<Rightarrow> construct (\<lambda>p s. (Inr Undefined, resolve w call p v s)) s)"

definition P_reject :: "js_val \<Rightarrow> heap \<Rightarrow> outcome \<times> heap" where
  "P_reject v = construct (\<lambda>p s. (Inr Undefined, reject p v s))"

section \<open>Calls\<close>

definition method_on :: "js_val \<Rightarrow> (nat \<Rightarrow> heap \<Rightarrow> outcome \<times> heap) \<Rightarrow> heap \<Rightarrow> outcome \<times> heap" where
  "method_on v m s = (case v of Promise p \<Rightarrow> m p s | _ \<Rightarrow> (Inl (Failure (js ''not a promise'')), s))"

fun do_action :: "world \<Rightarrow> caller \<Rightarrow> action \<Rightarrow> heap \<Rightarrow> outcome \<times> heap" where
  "do_action w call (Call f args) s =
     (case function_of f of None \<Rightarrow> (Inl (Failure (js ''not a function'')), s) | Some f \<Rightarrow> call f args s)"
| "do_action w call (Construct is_new v) s = P w call is_new v s"
| "do_action w call (Then v f r) s = method_on v (\<lambda>p. then_method w p f r) s"
| "do_action w call (Catch v r) s = method_on v (\<lambda>p. catch_method w p r) s"
| "do_action w call (All_of vs) s = P_all w call vs s"
| "do_action w call (Race_of vs) s = P_race w call vs s"
| "do_action w call (Resolved v) s = P_resolve w call v s"
| "do_action w call (Rejected_with v) s = P_reject v s"

fun run_script :: "world \<Rightarrow> caller \<Rightarrow> (bool \<times> action) list \<Rightarrow> outcome \<Rightarrow> heap \<Rightarrow> outcome \<times> heap" where
  "run_script w call [] r s = (r, s)"
| "run_script w call ((catches, a) # as) r s =
     (case do_action w call a s of
        (Inl e, s) \<Rightarrow> if catches then run_script w call as r s else (Inl e, s)
      | (Inr _, s) \<Rightarrow> run_script w call as r s)"

definition run_user :: "world \<Rightarrow> caller \<Rightarrow> nat \<Rightarrow> js_val list \<Rightarrow> heap \<Rightarrow> outcome \<times> heap" where
  "run_user w call n args s =
     (case code_of w n args s of (as, r) \<Rightarrow> run_script w call as r (note_down (Ran n args) s))"

definition adopt_value :: "world \<Rightarrow> caller \<Rightarrow> nat \<Rightarrow> nat \<Rightarrow> js_val \<Rightarrow> js_val \<Rightarrow> heap \<Rightarrow> heap" where
  "adopt_value w call g p v val s =
     (if guard_up g s then s
      else let s = raise_guard g s in if v = val then fulfill p val s else resolve w call p val s)"

definition adopt_reason :: "nat \<Rightarrow> nat \<Rightarrow> js_val \<Rightarrow> heap \<Rightarrow> heap" where
  "adopt_reason g p reason s = (if guard_up g s then s else reject p reason (raise_guard g s))"

primrec call_closure :: "world \<Rightarrow> caller \<Rightarrow> closure \<Rightarrow> js_val list \<Rightarrow> heap \<Rightarrow> outcome \<times> heap" where
  "call_closure w call (Resolve_fn p) args s = (Inr Undefined, resolve w call p (arg 0 args) s)"
| "call_closure w call (Reject_fn p) args s = (Inr Undefined, reject p (arg 0 args) s)"
| "call_closure w call (Adopt_value g p v) args s = (Inr Undefined, adopt_value w call g p v (arg 0 args) s)"
| "call_closure w call (Adopt_reason g p) args s = (Inr Undefined, adopt_reason g p (arg 0 args) s)"
| "call_closure w call (Collect_at c i) args s = (Inr Undefined, collect_result w call c i (arg 0 args) s)"
| "call_closure w call (Then_fn p) args s = then_method w p (arg 0 args) (arg 1 args) s"
| "call_closure w call (User n) args s = run_user w call n args s"

primrec call_fn :: "world \<Rightarrow> nat \<Rightarrow> caller" where
  "call_fn w 0 f args s = (Inl (Failure (js ''too much recursion'')), s)"
| "call_fn w (Suc d) f args s = call_closure w (call_fn w d) f args s"

section \<open>The event loop\<close>

text \<open>The queue grows while it is flushed; a flush that never ends has no result.\<close>

partial_function (option) asyncFlush :: "world \<Rightarrow> nat \<Rightarrow> nat \<Rightarrow> heap \<Rightarrow> heap option" where
  "asyncFlush w d i s =
     (if i < length (asyncQueue s)
      then asyncFlush w d (Suc i) (run_async w (call_fn w d) (asyncQueue s ! i) s)
      else Some (s\<lparr>asyncQueue := [], asyncTimer := False\<rparr>))"

text \<open>
  The page runs code of the application while it is idle; its timer starts a flush, which runs one
  job after the other and is over when it finds the queue at its end.
\<close>

type_synonym async_page = "heap \<times> nat option"

inductive step :: "world \<Rightarrow> nat \<Rightarrow> async_page \<Rightarrow> async_page \<Rightarrow> bool" for w d where
  Script: "step w d (s, None) (snd (run_script w (call_fn w d) as r s), None)"
| Timer: "0 < scheduled s \<Longrightarrow> step w d (s, None) (s\<lparr>scheduled := scheduled s - 1\<rparr>, Some 0)"
| Job: "i < length (asyncQueue s) \<Longrightarrow>
    step w d (s, Some i) (run_async w (call_fn w d) (asyncQueue s ! i) s, Some (Suc i))"
| Done: "length (asyncQueue s) \<le> i \<Longrightarrow> step w d (s, Some i) (s\<lparr>asyncQueue := [], asyncTimer := False\<rparr>, None)"

abbreviation steps :: "world \<Rightarrow> nat \<Rightarrow> async_page \<Rightarrow> async_page \<Rightarrow> bool" where
  "steps w d \<equiv> (step w d)\<^sup>*\<^sup>*"

definition empty_heap :: heap where
  "empty_heap = \<lparr>promises = [], guards = [], collections = [], asyncQueue = [], asyncTimer = False, scheduled = 0, history = []\<rparr>"

definition reachable :: "world \<Rightarrow> nat \<Rightarrow> async_page \<Rightarrow> bool" where
  "reachable w d = steps w d (empty_heap, None)"

end
