(* ===== verification/Fa_Promise_Correct.thy ===== *)
theory Fa_Promise_Correct
  imports Fa_Promise "HOL-Library.Sublist"
begin

text \<open>
  What the promises keep.  The interface \<open>promise_invariant\<close> asks for the laws of the operations that
  change promises, and shows that all code that is called, however deeply nested, keeps the predicate.
  It is interpreted on predicates that say: subscriptions and jobs are consistent, the timer is set when
  there are jobs, settled promises stay as they are, and the calls of callbacks that were noted down
  got the final value of their promise and did run the function.  Together they give that promises settle once, and that callbacks run once, in the order
  of their subscription.
\<close>

section \<open>Nested calls\<close>

definition caller_keeps :: "(heap \<Rightarrow> bool) \<Rightarrow> caller \<Rightarrow> bool" where
  "caller_keeps I call \<longleftrightarrow> (\<forall>f args s. I s \<longrightarrow> I (snd (call f args s)))"

definition action_keeps :: "(heap \<Rightarrow> bool) \<Rightarrow> (heap \<Rightarrow> outcome \<times> heap) \<Rightarrow> bool" where
  "action_keeps I m \<longleftrightarrow> (\<forall>s. I s \<longrightarrow> I (snd (m s)))"

lemma caller_keepsD: "caller_keeps I call \<Longrightarrow> I s \<Longrightarrow> call f args s = (r, s') \<Longrightarrow> I s'"
  by (metis caller_keeps_def snd_conv)

lemma action_keepsD: "action_keeps I m \<Longrightarrow> I s \<Longrightarrow> m s = (r, s') \<Longrightarrow> I s'"
  by (metis action_keeps_def snd_conv)

lemma action_keepsI: "(\<And>s r s'. I s \<Longrightarrow> m s = (r, s') \<Longrightarrow> I s') \<Longrightarrow> action_keeps I m"
  by (metis action_keeps_def prod.collapse)

locale promise_invariant =
  fixes w :: world and I :: "heap \<Rightarrow> bool"
  assumes guards: "I s \<Longrightarrow> I (s\<lparr>guards := g\<rparr>)"
    and collections: "I s \<Longrightarrow> I (s\<lparr>collections := c\<rparr>)"
    and alloc: "I s \<Longrightarrow> I (snd (new_promise s))"
    and fulfill: "I s \<Longrightarrow> I (fulfill p v s)"
    and reject: "I s \<Longrightarrow> I (reject p v s)"
    and then_method: "I s \<Longrightarrow> I (snd (then_method w p f r s))"
    and ran: "I s \<Longrightarrow> I (note_down (Ran n args) s)"
begin

lemma handleThenable:
  assumes "caller_keeps I call" "I s"
  shows "I (snd (handleThenable w call p v s))"
proof -
  have "I s'" if "call f args (s\<lparr>guards := g\<rparr>) = (r, s')" for f args g r s'
    using caller_keepsD [OF assms(1) guards [OF assms(2)] that] .
  then show ?thesis
    using assms(2) by (auto simp: handleThenable_def Let_def reject split: prod.split sum.split option.split)
qed

lemma resolve: "caller_keeps I call \<Longrightarrow> I s \<Longrightarrow> I (resolve w call p v s)"
  using handleThenable [of call s p v] by (auto simp: resolve_def fulfill split: prod.split bool.split)

lemma put_collection: "I s \<Longrightarrow> I (put_collection c f s)" "I s \<Longrightarrow> I (put_result c i v s)"
  by (simp_all add: put_collection_def put_result_def collections)

lemma collect_result: "caller_keeps I call \<Longrightarrow> I s \<Longrightarrow> I (collect_result w call c i v s)"
  by (simp add: collect_result_def Let_def put_collection resolve)

lemma invokeResolver: "action_keeps I m \<Longrightarrow> I s \<Longrightarrow> I (invokeResolver m p s)"
  by (auto simp: invokeResolver_def intro: reject action_keepsD split: prod.split sum.split)

lemma construct: "(\<And>p. action_keeps I (m p)) \<Longrightarrow> action_keeps I (construct m)"
  by (auto simp: action_keeps_def construct_def intro!: invokeResolver [unfolded action_keeps_def]
      split: prod.split dest: alloc)

lemma calling: "caller_keeps I call \<Longrightarrow> action_keeps I (call f args)"
  by (simp add: caller_keeps_def action_keeps_def)

lemma all_loop:
  assumes "caller_keeps I call" "I s"
  shows "I (snd (all_loop w call p c i vs s))"
  using assms(2)
proof (induction vs arbitrary: i s)
  case (Cons v vs)
  have "I s'" if "call f args (put_collection c h s) = (r, s')" for f args h r s'
    using caller_keepsD [OF assms(1) put_collection(1) [OF Cons.prems] that] .
  then show ?case
    using Cons by (auto simp: put_collection split: sum.split option.split prod.split)
qed simp

lemma race_loop:
  assumes "caller_keeps I call" "I s"
  shows "I (snd (race_loop w call vs p s))"
  using assms(2)
proof (induction vs arbitrary: s)
  case (Cons v vs)
  then show ?case
    using caller_keepsD [OF assms(1) Cons.prems]
    by (auto simp: resolve [OF assms(1)] split: sum.split option.split prod.split)
qed simp

lemma all_resolver: "caller_keeps I call \<Longrightarrow> action_keeps I (all_resolver w call vs p)"
proof (rule action_keepsI)
  fix s r s'
  assume call: "caller_keeps I call" and "I s" and run: "all_resolver w call vs p s = (r, s')"
  let ?c = "length (collections s)"
  have "I (snd (all_loop w call p ?c 0 vs (s\<lparr>collections := collections s @ [\<lparr>results = [], remaining = 0, collects_for = p\<rparr>]\<rparr>)))"
    by (rule all_loop [OF call collections]) fact
  then show "I s'"
    using run by (auto simp: all_resolver_def Let_def resolve [OF call] split: prod.splits sum.splits if_splits)
qed

lemma do_action: "caller_keeps I call \<Longrightarrow> action_keeps I (do_action w call a)"
proof (cases a)
  case (Construct n v)
  moreover assume "caller_keeps I call"
  then have "action_keeps I (construct (\<lambda>p. call f (g p)))" for f g
    by (intro construct calling)
  ultimately show ?thesis
    by (auto simp: action_keeps_def P_def split: option.split)
next
  case (All_of vs)
  moreover assume "caller_keeps I call"
  then have "action_keeps I (construct (all_resolver w call xs))" for xs
    by (intro construct all_resolver)
  ultimately show ?thesis
    by (auto simp: action_keeps_def P_all_def split: option.split)
next
  case (Race_of vs)
  moreover assume call: "caller_keeps I call"
  have "action_keeps I (construct (race_loop w call vs))"
    by (rule construct) (simp add: action_keeps_def race_loop [OF call])
  ultimately show ?thesis
    by (simp add: action_keeps_def P_race_def)
next
  case (Resolved v)
  moreover assume call: "caller_keeps I call"
  have "action_keeps I (construct (\<lambda>p s. (Inr Undefined, resolve w call p v s)))"
    by (rule construct) (simp add: action_keeps_def resolve [OF call])
  ultimately show ?thesis
    by (auto simp: action_keeps_def P_resolve_def split: js_val.split)
next
  case (Rejected_with v)
  moreover have "action_keeps I (construct (\<lambda>p s. (Inr Undefined, reject p v s)))"
    by (rule construct) (simp add: action_keeps_def reject)
  ultimately show ?thesis
    by (simp add: action_keeps_def P_reject_def)
qed (auto simp: action_keeps_def caller_keeps_def method_on_def catch_method_def then_method
    split: option.split js_val.split)

lemma run_script:
  assumes "caller_keeps I call" "I s"
  shows "I (snd (run_script w call as r s))"
  using assms(2)
proof (induction as arbitrary: s)
  case (Cons a as)
  obtain c b where a: "a = (c, b)" by fastforce
  show ?case
    using Cons action_keepsD [OF do_action [OF assms(1)] Cons.prems]
    by (auto simp: a split: prod.split sum.split)
qed simp

lemma call_closure: "caller_keeps I call \<Longrightarrow> I s \<Longrightarrow> I (snd (call_closure w call f args s))"
  by (cases f)
    (auto simp: resolve reject collect_result then_method adopt_value_def adopt_reason_def raise_guard_def guards fulfill
      run_user_def run_script ran Let_def split: prod.split)

theorem call_fn: "caller_keeps I (call_fn w d)"
proof (induction d)
  case (Suc d)
  then show ?case by (simp add: caller_keeps_def call_closure)
qed (simp add: caller_keeps_def)

text \<open>A callback is run after the call has been noted down.\<close>

lemma invokeCallback:
  assumes "\<And>f st v. st = p_state (promise_at (owner sub) s) \<Longrightarrow> v = p_data (promise_at (owner sub) s) \<Longrightarrow>
      callback_of st sub = Fun f \<Longrightarrow> I (snd (call_fn w d f [v] (note_down (Called sub st v) s)))"
    and "(\<And>f. callback_of (p_state (promise_at (owner sub) s)) sub \<noteq> Fun f) \<Longrightarrow> I (note_down (Passed_on sub) s)"
  shows "I (invokeCallback w (call_fn w d) sub s)"
proof -
  obtain settled v s' where run: "run_callback (call_fn w d) sub s = (settled, v, s')"
    by (metis prod.collapse)
  have "I s'"
  proof (cases "function_of (callback_of (p_state (promise_at (owner sub) s)) sub)")
    case None
    then have "I (note_down (Passed_on sub) s)" by (intro assms(2)) auto
    then show ?thesis using run None by (simp add: run_callback_def)
  next
    case (Some f)
    then have "callback_of (p_state (promise_at (owner sub) s)) sub = Fun f"
      by (auto elim: function_of.elims)
    note assms(1) [OF refl refl this]
    then show ?thesis
      using run Some by (auto simp: run_callback_def Let_def reject split: prod.splits sum.splits)
  qed
  obtain h s'' where adopt: "handleThenable w (call_fn w d) (derived sub) v s' = (h, s'')"
    by (metis prod.collapse)
  have "I s''"
    using handleThenable [OF call_fn \<open>I s'\<close>, of d "derived sub" v] by (simp add: adopt)
  then show ?thesis
    by (simp add: invokeCallback_def run adopt reject resolve [OF call_fn] split: bool.split)
qed

lemma invokeCallback_noted:
  assumes "\<And>st v. I (note_down (Called sub st v) s)" "I (note_down (Passed_on sub) s)"
  shows "I (invokeCallback w (call_fn w d) sub s)"
  by (rule invokeCallback) (use assms call_fn in \<open>auto simp: caller_keeps_def\<close>)

end

section \<open>The timer\<close>

text \<open>
  \<open>flushing\<close> is the position of a running flush.  While the page is idle there is exactly one timer
  when something is queued, and none otherwise.
\<close>

definition timer_ok :: "bool \<Rightarrow> heap \<Rightarrow> bool" where
  "timer_ok flushing s \<longleftrightarrow>
     scheduled s = (if asyncTimer s \<and> \<not> flushing then 1 else 0) \<and>
     (asyncTimer s \<or> asyncQueue s = [] \<and> \<not> flushing)"

lemma timer_ok_asyncCall: "timer_ok b s \<Longrightarrow> timer_ok b (asyncCall j s)"
  by (auto simp: timer_ok_def asyncCall_def Let_def split: if_splits)

lemma timer_ok_local [simp]:
  "timer_ok b (put_promise p f s) = timer_ok b s"
  "timer_ok b (note_down h s) = timer_ok b s"
  "timer_ok b (s\<lparr>promises := ps\<rparr>) = timer_ok b s"
  "timer_ok b (s\<lparr>guards := gs\<rparr>) = timer_ok b s"
  "timer_ok b (s\<lparr>collections := cs\<rparr>) = timer_ok b s"
  by (simp_all add: timer_ok_def put_promise_def note_down_def)

lemma timer_ok_settle: "timer_ok b s \<Longrightarrow> timer_ok b (fulfill p v s)" "timer_ok b s \<Longrightarrow> timer_ok b (reject p v s)"
  by (simp_all add: fulfill_def reject_def settle_def timer_ok_asyncCall)

lemma timer_ok_then: "timer_ok b s \<Longrightarrow> timer_ok b (snd (then_method w p f r s))"
  by (simp add: then_method_def Let_def new_promise_def subscribe_to_def mark_handled_def timer_ok_asyncCall)

interpretation timer: promise_invariant w "timer_ok b" for w b
  by unfold_locales
    (simp_all add: timer_ok_settle timer_ok_then new_promise_def)

lemma timer_ok_invokeCallback: "timer_ok b s \<Longrightarrow> timer_ok b (invokeCallback w (call_fn w d) sub s)"
  by (rule timer.invokeCallback_noted) simp_all

lemma fold_preserves: "(\<And>x s. I s \<Longrightarrow> I (f x s)) \<Longrightarrow> I s \<Longrightarrow> I (fold f xs s)"
  by (induction xs arbitrary: s) auto

lemma timer_ok_publish: "timer_ok b s \<Longrightarrow> timer_ok b (publish_promise w (call_fn w d) p s)"
  using fold_preserves [of "timer_ok b" "invokeCallback w (call_fn w d)", OF timer_ok_invokeCallback]
  by (simp add: publish_promise_def split: option.split)

lemma timer_ok_run_job: "timer_ok b s \<Longrightarrow> timer_ok b (run_async w (call_fn w d) j s)"
  by (simp add: run_async_def publishFulfillment_def publishRejection_def Let_def timer_ok_publish
      timer_ok_invokeCallback split: async_job.split)

section \<open>Subscriptions and jobs\<close>

primrec registered :: "nat \<Rightarrow> happening list \<Rightarrow> subscriber list" where
  "registered p [] = []"
| "registered p (h # hs) =
     (case h of Registered sub \<Rightarrow> if owner sub = p then sub # registered p hs else registered p hs
      | _ \<Rightarrow> registered p hs)"

text \<open>The subscriptions that were served: by a call of their callback, or by passing on what happened.\<close>

primrec served :: "nat \<Rightarrow> happening list \<Rightarrow> subscriber list" where
  "served p [] = []"
| "served p (h # hs) =
     (case h of Called sub st v \<Rightarrow> if owner sub = p then sub # served p hs else served p hs
      | Passed_on sub \<Rightarrow> if owner sub = p then sub # served p hs else served p hs
      | _ \<Rightarrow> served p hs)"

primrec queued :: "nat \<Rightarrow> async_job list \<Rightarrow> subscriber list" where
  "queued p [] = []"
| "queued p (j # jobs) =
     (case j of Invoke sub \<Rightarrow> if owner sub = p then sub # queued p jobs else queued p jobs | _ \<Rightarrow> queued p jobs)"

primrec published :: "async_job list \<Rightarrow> nat list" where
  "published [] = []"
| "published (j # jobs) =
     (case j of Publish_fulfillment p \<Rightarrow> p # published jobs | Publish_rejection p \<Rightarrow> p # published jobs
      | _ \<Rightarrow> published jobs)"

lemma registered_append [simp]: "registered p (hs @ hs') = registered p hs @ registered p hs'"
  by (induction hs) (auto split: happening.split)

lemma served_append [simp]: "served p (hs @ hs') = served p hs @ served p hs'"
  by (induction hs) (auto split: happening.split)

lemma queued_append [simp]: "queued p (jobs @ jobs') = queued p jobs @ queued p jobs'"
  by (induction jobs) (auto split: async_job.split)

lemma published_append [simp]: "published (jobs @ jobs') = published jobs @ published jobs'"
  by (induction jobs) (auto split: async_job.split)

text \<open>
  The subscriptions of a promise are those that were called, those the running publication still has
  to call (\<open>rest\<close>) and those that wait: with the promise, or in the queue.  A promise is settled and
  not yet published when the queue holds its publication, which it holds once.
\<close>

definition promise_ok where
  "promise_ok x pub rest reg cal que \<longleftrightarrow>
     (case p_state x of
        Pending \<Rightarrow> \<not> pub \<and> rest = None \<and> cal = [] \<and> que = [] \<and> p_then x = Some reg
      | Settled \<Rightarrow> pub \<and> rest = None \<and> cal = [] \<and> que = [] \<and> p_then x = Some reg
      | _ \<Rightarrow> \<not> pub \<and> reg = cal @ (case rest of None \<Rightarrow> [] | Some subs \<Rightarrow> subs) @ que)"

definition consistent :: "nat \<Rightarrow> (nat \<Rightarrow> subscriber list option) \<Rightarrow> heap \<Rightarrow> bool" where
  "consistent i cur s \<longleftrightarrow>
     (let jobs = drop i (asyncQueue s) in
      i \<le> length (asyncQueue s) \<and> distinct (published jobs) \<and>
      (\<forall>p < length (promises s).
         promise_ok (promises s ! p) (p \<in> set (published jobs)) (cur p)
           (registered p (history s)) (served p (history s)) (queued p jobs)) \<and>
      (\<forall>p \<ge> length (promises s).
         p \<notin> set (published jobs) \<and> registered p (history s) = [] \<and> served p (history s) = [] \<and> queued p jobs = [] \<and>
         cur p = None))"

lemma consistent_promise:
  assumes "consistent i cur s"
  shows "p < length (promises s) \<Longrightarrow>
      promise_ok (promises s ! p) (p \<in> set (published (drop i (asyncQueue s)))) (cur p)
        (registered p (history s)) (served p (history s)) (queued p (drop i (asyncQueue s)))"
    and "cur p \<noteq> None \<Longrightarrow> p < length (promises s)"
    and "p \<in> set (published (drop i (asyncQueue s))) \<Longrightarrow> p < length (promises s)"
    and "queued p (drop i (asyncQueue s)) \<noteq> [] \<Longrightarrow> p < length (promises s)"
  using assms by (auto simp: consistent_def Let_def not_less [symmetric])

lemma promises_put [simp]:
  "length (promises (put_promise p f s)) = length (promises s)"
  "asyncQueue (put_promise p f s) = asyncQueue s"
  "history (put_promise p f s) = history s"
  "q < length (promises s) \<Longrightarrow>
     promises (put_promise p f s) ! q = (if q = p then f (promises s ! p) else promises s ! q)"
  by (auto simp: put_promise_def nth_list_update promise_at_def)

lemma asyncCall_simps [simp]:
  "promises (asyncCall j s) = promises s"
  "asyncQueue (asyncCall j s) = asyncQueue s @ [j]"
  "history (asyncCall j s) = history s"
  by (simp_all add: asyncCall_def Let_def)

lemma consistent_cong:
  "promises s' = promises s \<Longrightarrow> asyncQueue s' = asyncQueue s \<Longrightarrow> history s' = history s \<Longrightarrow>
     consistent i cur s' = consistent i cur s"
  by (simp add: consistent_def)

lemma consistent_alloc: "consistent i cur s \<Longrightarrow> consistent i cur (snd (new_promise s))"
  by (auto simp: consistent_def Let_def new_promise_def nth_append promise_ok_def fresh_promise_def less_Suc_eq)

lemma consistent_settle:
  assumes "consistent i cur s" "p_state (promise_at p s) = Pending"
    and "j = Publish_fulfillment p \<or> j = Publish_rejection p"
  shows "consistent i cur (asyncCall j (settle p v s))"
proof -
  have "p < length (promises s)"
    using assms(2) by (auto simp: promise_at_def split: if_splits)
  then show ?thesis
    using assms
    by (auto simp: consistent_def Let_def settle_def promise_ok_def promise_at_def split: status.splits)
qed

lemma consistent_fulfill: "consistent i cur s \<Longrightarrow> consistent i cur (fulfill p v s)"
  by (auto simp: fulfill_def consistent_settle)

lemma consistent_reject: "consistent i cur s \<Longrightarrow> consistent i cur (reject p v s)"
  by (auto simp: reject_def consistent_settle)

lemma promise_at_local [simp]:
  "promise_at q (note_down h s) = promise_at q s"
  "promise_at q (asyncCall j s) = promise_at q s"
  by (simp_all add: promise_at_def note_down_def)

lemma note_down_simps [simp]:
  "promises (note_down h s) = promises s"
  "asyncQueue (note_down h s) = asyncQueue s"
  "history (note_down h s) = history s @ [h]"
  by (simp_all add: note_down_def)

lemma mark_handled_note_down: "mark_handled w p (note_down h s) = note_down h (mark_handled w p s)"
  by (simp add: mark_handled_def Let_def asyncCall_def note_down_def put_promise_def promise_at_def)

lemma consistent_mark_handled: "consistent i cur s \<Longrightarrow> consistent i cur (mark_handled w p s)"
  by (auto simp: consistent_def Let_def mark_handled_def promise_ok_def split: status.splits)

lemma length_promises_mark_handled [simp]: "length (promises (mark_handled w p s)) = length (promises s)"
  by (simp add: mark_handled_def Let_def)

lemma consistent_subscribe:
  assumes "consistent i cur s" "owner sub < length (promises s)"
  shows "consistent i cur (subscribe_to sub (note_down (Registered sub) s))"
  using assms
  by (auto simp: consistent_def Let_def subscribe_to_def promise_ok_def promise_at_def split: status.splits)

lemma consistent_then: "consistent i cur s \<Longrightarrow> consistent i cur (snd (then_method w p f r s))"
  using consistent_alloc [of i cur s]
  by (auto simp: then_method_def Let_def mark_handled_note_down new_promise_def
      intro!: consistent_subscribe consistent_mark_handled)

lemma consistent_ran: "consistent i cur s \<Longrightarrow> consistent i cur (note_down (Ran n args) s)"
  by (simp add: consistent_def Let_def)

interpretation subscriptions: promise_invariant w "consistent i cur" for w i cur
proof
  fix s
  assume "consistent i cur s"
  then show "consistent i cur (s\<lparr>guards := g\<rparr>)" "consistent i cur (s\<lparr>collections := c\<rparr>)" for g c
    by (simp_all add: consistent_def)
qed (simp_all add: consistent_alloc consistent_fulfill consistent_reject consistent_then consistent_ran)

subsection \<open>Publication\<close>

lemma owner_registered: "sub \<in> set (registered p hs) \<Longrightarrow> owner sub = p"
  by (induction hs) (auto split: happening.splits if_splits)

lemma consistent_call_next:
  assumes "consistent i [p \<mapsto> sub # subs] s"
    and "h = Called sub st v \<or> h = Passed_on sub"
  shows "consistent i [p \<mapsto> subs] (note_down h s)"
proof -
  have p: "p < length (promises s)"
    using consistent_promise(2) [OF assms(1)] by simp
  have "sub \<in> set (registered p (history s))"
    using consistent_promise(1) [OF assms(1) p] by (auto simp: promise_ok_def split: status.splits)
  then have "owner sub = p" by (rule owner_registered)
  then show ?thesis
    using assms p by (auto simp: consistent_def Let_def promise_ok_def split: status.splits if_splits)
qed

lemma consistent_publishing:
  "consistent i [p \<mapsto> subs] s \<Longrightarrow> consistent i [p \<mapsto> []] (fold (invokeCallback w (call_fn w d)) subs s)"
proof (induction subs arbitrary: s)
  case (Cons sub subs)
  have "consistent i [p \<mapsto> subs] (invokeCallback w (call_fn w d) sub s)"
    by (rule subscriptions.invokeCallback_noted) (auto intro: consistent_call_next [OF Cons.prems])
  then show ?case by (simp only: fold_Cons o_apply Cons.IH)
qed simp

lemma consistent_publish:
  assumes s: "consistent i Map.empty s" and i: "i < length (asyncQueue s)"
    and job: "asyncQueue s ! i = Publish_fulfillment p \<or> asyncQueue s ! i = Publish_rejection p"
    and st: "st = Fulfilled \<or> st = Rejected"
  shows "consistent (Suc i) Map.empty (publish_promise w (call_fn w d) p (put_promise p (\<lambda>x. x\<lparr>p_state := st\<rparr>) s))"
proof -
  let ?s = "put_promise p (\<lambda>x. x\<lparr>p_state := st\<rparr>) s"
  have drop: "drop i (asyncQueue s) = asyncQueue s ! i # drop (Suc i) (asyncQueue s)"
    using i by (simp add: Cons_nth_drop_Suc)
  have pub: "p \<in> set (published (drop i (asyncQueue s)))"
    using job by (auto simp: drop)
  have p: "p < length (promises s)"
    using consistent_promise(3) [OF s pub] .
  have subs: "p_then (promises s ! p) = Some (registered p (history s))" (is "_ = Some ?subs")
    using consistent_promise(1) [OF s p] pub by (auto simp: promise_ok_def split: status.splits)
  have "consistent (Suc i) [p \<mapsto> ?subs] ?s"
    using s job p i st by (auto simp: consistent_def Let_def drop promise_ok_def split: status.splits async_job.splits)
  then have "consistent (Suc i) [p \<mapsto> []] (fold (invokeCallback w (call_fn w d)) ?subs ?s)"
    by (rule consistent_publishing)
  then have "consistent (Suc i) Map.empty
      (put_promise p (\<lambda>x. x\<lparr>p_then := None\<rparr>) (fold (invokeCallback w (call_fn w d)) ?subs ?s))"
    by (auto simp: consistent_def Let_def promise_ok_def split: status.splits if_splits)
  then show ?thesis
    using p subs by (simp add: publish_promise_def promise_at_def)
qed

lemma consistent_run_job:
  assumes s: "consistent i Map.empty s" and i: "i < length (asyncQueue s)"
  shows "consistent (Suc i) Map.empty (run_async w (call_fn w d) (asyncQueue s ! i) s)"
proof -
  have drop: "drop i (asyncQueue s) = asyncQueue s ! i # drop (Suc i) (asyncQueue s)"
    using i by (simp add: Cons_nth_drop_Suc)
  have noted: "consistent j cur (note_down h x)"
    if "consistent j cur x" "h = Unhandled_rejection p \<or> h = Rejection_handled p" for j cur h x p
    using that by (auto simp: consistent_def Let_def)
  show ?thesis
  proof (cases "asyncQueue s ! i")
    case (Publish_fulfillment p)
    then show ?thesis
      using consistent_publish [OF s i] by (simp add: run_async_def publishFulfillment_def)
  next
    case (Publish_rejection p)
    then show ?thesis
      using consistent_publish [OF s i, of p Rejected w d]
      by (simp add: run_async_def publishRejection_def Let_def noted)
  next
    case (Invoke sub)
    let ?p = "owner sub"
    have que: "queued ?p (drop i (asyncQueue s)) = sub # queued ?p (drop (Suc i) (asyncQueue s))"
      by (simp add: drop Invoke)
    then have "?p < length (promises s)"
      using consistent_promise(4) [OF s, of ?p] by simp
    then have "consistent (Suc i) Map.empty (note_down h s)" if "h = Passed_on sub \<or> h = Called sub st v" for h st v
      using s i that consistent_promise(1) [OF s, of ?p]
      by (auto simp: consistent_def Let_def drop Invoke promise_ok_def split: status.splits if_splits)
    then show ?thesis
      by (simp add: run_async_def Invoke subscriptions.invokeCallback_noted)
  next
    case (Notify_handled p)
    have "consistent (Suc i) Map.empty s"
      using s i by (simp add: consistent_def Let_def drop Notify_handled)
    then show ?thesis
      by (simp add: run_async_def Notify_handled noted)
  qed
qed

section \<open>Numbers of subscriptions\<close>

text \<open>Each subscription has a derived promise of its own, with a number above all earlier ones.\<close>

definition numbered :: "nat \<Rightarrow> heap \<Rightarrow> bool" where
  "numbered p s \<longleftrightarrow>
     sorted_wrt (<) (map derived (registered p (history s))) \<and>
     (\<forall>sub \<in> set (registered p (history s)). derived sub < length (promises s))"

lemma numbered_local [simp]:
  "numbered p (put_promise q f s) = numbered p s"
  "numbered p (asyncCall j s) = numbered p s"
  "numbered p (note_down (Called sub st v) s) = numbered p s"
  "numbered p (note_down (Passed_on sub) s) = numbered p s"
  "numbered p (note_down (Ran n args) s) = numbered p s"
  "numbered p (note_down (Unhandled_rejection q) s) = numbered p s"
  "numbered p (note_down (Rejection_handled q) s) = numbered p s"
  "numbered p (mark_handled w q s) = numbered p s"
  "numbered p (s\<lparr>guards := gs\<rparr>) = numbered p s"
  "numbered p (s\<lparr>collections := cs\<rparr>) = numbered p s"
  by (simp_all add: numbered_def mark_handled_def Let_def)

lemma numbered_alloc: "numbered p s \<Longrightarrow> numbered p (s\<lparr>promises := promises s @ [x]\<rparr>)"
  by (auto simp: numbered_def)

lemma numbered_register:
  "numbered p s \<Longrightarrow> derived sub = length (promises s) \<Longrightarrow>
     numbered p (note_down (Registered sub) (s\<lparr>promises := promises s @ [x]\<rparr>))"
  by (auto simp: numbered_def sorted_wrt_append less_Suc_eq)

lemma numbered_then: "numbered p s \<Longrightarrow> numbered p (snd (then_method w q f r s))"
  by (simp add: then_method_def Let_def new_promise_def subscribe_to_def numbered_register)

interpretation numbers: promise_invariant w "numbered p" for w p
  by unfold_locales
    (simp_all add: fulfill_def reject_def settle_def new_promise_def numbered_alloc numbered_then)

lemma publish_keeps:
  assumes "\<And>sub s. I s \<Longrightarrow> I (invokeCallback w call sub s)" "\<And>p f s. I s \<Longrightarrow> I (put_promise p (\<lambda>x. x\<lparr>p_then := f x\<rparr>) s)"
  shows "I s \<Longrightarrow> I (publish_promise w call p s)"
  using fold_preserves [of I "invokeCallback w call", OF assms(1)] assms(2)
  by (simp add: publish_promise_def split: option.split)

lemma numbered_run_job: "numbered p s \<Longrightarrow> numbered p (run_async w (call_fn w d) j s)"
proof -
  have invoke: "numbered p s \<Longrightarrow> numbered p (invokeCallback w (call_fn w d) sub s)" for sub s
    by (rule numbers.invokeCallback_noted) simp_all
  then have "numbered p s \<Longrightarrow> numbered p (publish_promise w (call_fn w d) q s)" for q s
    by (rule publish_keeps) simp_all
  with invoke show "numbered p s \<Longrightarrow> numbered p (run_async w (call_fn w d) j s)"
    by (simp add: run_async_def publishFulfillment_def publishRejection_def Let_def split: async_job.split)
qed

section \<open>Settled promises\<close>

definition stays_settled :: "promise \<Rightarrow> promise \<Rightarrow> bool" where
  "stays_settled x y \<longleftrightarrow>
     (case p_state x of
        Pending \<Rightarrow> True
      | Settled \<Rightarrow> p_state y \<noteq> Pending \<and> p_data y = p_data x
      | st \<Rightarrow> p_state y = st \<and> p_data y = p_data x)"

definition grows :: "heap \<Rightarrow> heap \<Rightarrow> bool" where
  "grows s s' \<longleftrightarrow>
     length (promises s) \<le> length (promises s') \<and>
     (\<forall>p < length (promises s). stays_settled (promises s ! p) (promises s' ! p))"

lemma stays_settled_trans: "stays_settled x y \<Longrightarrow> stays_settled y z \<Longrightarrow> stays_settled x z"
  by (auto simp: stays_settled_def split: status.splits)

lemma grows_refl [simp]: "grows s s"
  by (simp add: grows_def stays_settled_def split: status.split)

lemma grows_trans: "grows s t \<Longrightarrow> grows t u \<Longrightarrow> grows s u"
  by (auto simp: grows_def intro: stays_settled_trans)

lemma grows_same [simp]:
  "grows s (note_down h t) = grows s t"
  "grows s (asyncCall j t) = grows s t"
  "grows s (t\<lparr>guards := gs\<rparr>) = grows s t"
  "grows s (t\<lparr>collections := cs\<rparr>) = grows s t"
  "grows s (t\<lparr>scheduled := n\<rparr>) = grows s t"
  "grows s (t\<lparr>asyncQueue := jobs, asyncTimer := b\<rparr>) = grows s t"
  by (simp_all add: grows_def)

lemma grows_put:
  assumes "grows s t" "\<And>x. stays_settled (promise_at p t) (f (promise_at p t))"
  shows "grows s (put_promise p f t)"
proof (rule grows_trans [OF assms(1)])
  show "grows t (put_promise p f t)"
    using assms(2) by (auto simp: grows_def promise_at_def stays_settled_def split: status.splits)
qed

lemma grows_local [simp]:
  "grows s t \<Longrightarrow> grows s (put_promise p (\<lambda>x. x\<lparr>p_then := f x\<rparr>) t)"
  "grows s t \<Longrightarrow> grows s (put_promise p (\<lambda>x. x\<lparr>p_handled := g x\<rparr>) t)"
  by (auto intro!: grows_put simp: stays_settled_def split: status.split)

lemma grows_alloc: "grows s t \<Longrightarrow> grows s (t\<lparr>promises := promises t @ [x]\<rparr>)"
  by (auto simp: grows_def nth_append)

lemma grows_settle: "grows s t \<Longrightarrow> p_state (promise_at p t) = Pending \<Longrightarrow> grows s (settle p v t)"
  unfolding settle_def by (rule grows_put) (simp_all add: stays_settled_def)

lemma grows_then: "grows s t \<Longrightarrow> grows s (snd (then_method w p f r t))"
  by (simp add: then_method_def Let_def new_promise_def subscribe_to_def mark_handled_def grows_alloc)

interpretation growing: promise_invariant w "grows s" for w s
  by unfold_locales (simp_all add: fulfill_def reject_def grows_settle new_promise_def grows_alloc grows_then)

lemma grows_publish:
  "grows s t \<Longrightarrow> grows s (publish_promise w (call_fn w d) p t)"
  by (rule publish_keeps) (simp_all add: growing.invokeCallback_noted)

lemma grows_run_job:
  assumes s: "consistent i Map.empty s" and i: "i < length (asyncQueue s)"
  shows "grows s (run_async w (call_fn w d) (asyncQueue s ! i) s)"
proof -
  have "grows s (publish_promise w (call_fn w d) p (put_promise p (\<lambda>x. x\<lparr>p_state := st\<rparr>) s))"
    if job: "asyncQueue s ! i = Publish_fulfillment p \<or> asyncQueue s ! i = Publish_rejection p"
      and st: "st = Fulfilled \<or> st = Rejected" for p st
  proof (rule grows_publish)
    have "drop i (asyncQueue s) = asyncQueue s ! i # drop (Suc i) (asyncQueue s)"
      using i by (simp add: Cons_nth_drop_Suc)
    then have pub: "p \<in> set (published (drop i (asyncQueue s)))"
      using job by auto
    have p: "p < length (promises s)"
      using consistent_promise(3) [OF s pub] .
    have "p_state (promises s ! p) = Settled"
      using consistent_promise(1) [OF s p] pub by (auto simp: promise_ok_def split: status.splits)
    then show "grows s (put_promise p (\<lambda>x. x\<lparr>p_state := st\<rparr>) s)"
      using st p by (auto intro!: grows_put simp: stays_settled_def promise_at_def)
  qed
  then show ?thesis
    by (simp add: run_async_def publishFulfillment_def publishRejection_def Let_def growing.invokeCallback_noted
        split: async_job.split)
qed

section \<open>What callbacks are called with\<close>

text \<open>
  A call that was noted down got the status and the value of its promise, which are final, and ran its
  function at once; a subscription was passed on when it has no function for the status.
\<close>

definition told :: "heap \<Rightarrow> happening \<Rightarrow> bool" where
  "told s h \<longleftrightarrow>
     (case h of
        Called sub st v \<Rightarrow>
          owner sub < length (promises s) \<and> st \<in> {Fulfilled, Rejected} \<and>
          p_state (promise_at (owner sub) s) = st \<and> p_data (promise_at (owner sub) s) = v \<and>
          (\<exists>f. callback_of st sub = Fun f)
      | Passed_on sub \<Rightarrow>
          owner sub < length (promises s) \<and> p_state (promise_at (owner sub) s) \<in> {Fulfilled, Rejected} \<and>
          (\<forall>f. callback_of (p_state (promise_at (owner sub) s)) sub \<noteq> Fun f)
      | _ \<Rightarrow> True)"

definition answered :: "happening list \<Rightarrow> bool" where
  "answered hs \<longleftrightarrow>
     (\<forall>k < length hs. \<forall>sub st v n. hs ! k = Called sub st v \<longrightarrow> callback_of st sub = Fun (User n) \<longrightarrow>
        Suc k < length hs \<and> hs ! Suc k = Ran n [v])"

definition truthful :: "heap \<Rightarrow> bool" where
  "truthful s \<longleftrightarrow> answered (history s) \<and> (\<forall>h \<in> set (history s). told s h)"

lemma told_grows: "told s h \<Longrightarrow> grows s t \<Longrightarrow> told t h"
  by (cases h) (fastforce simp: told_def grows_def promise_at_def stays_settled_def split: status.splits)+

lemma answered_append:
  "answered hs \<Longrightarrow> (\<And>sub st v n. h = Called sub st v \<Longrightarrow> callback_of st sub \<noteq> Fun (User n)) \<Longrightarrow> answered (hs @ [h])"
  "answered hs \<Longrightarrow> callback_of st sub = Fun (User n) \<Longrightarrow> answered (hs @ [Called sub st v, Ran n [v]])"
  by (auto simp: answered_def nth_append less_Suc_eq)

lemma truthful_grows: "truthful s \<Longrightarrow> grows s t \<Longrightarrow> history t = history s \<Longrightarrow> truthful t"
  by (auto simp: truthful_def intro: told_grows)

lemma truthful_note:
  "truthful s \<Longrightarrow> told s h \<Longrightarrow> (\<And>sub st v n. h = Called sub st v \<Longrightarrow> callback_of st sub \<noteq> Fun (User n)) \<Longrightarrow>
     truthful (note_down h s)"
  by (auto simp: truthful_def answered_append told_grows [where t = "note_down h s"])

lemma truthful_call:
  assumes "truthful s" "told s (Called sub st v)" "callback_of st sub = Fun (User n)"
  shows "truthful (note_down (Ran n [v]) (note_down (Called sub st v) s))"
proof -
  have "told t h" if "told s h" "t = note_down (Ran n [v]) (note_down (Called sub st v) s)" for h t
    using told_grows [OF that(1)] that(2) by simp
  moreover have "told t (Ran n [v])" for t by (simp add: told_def)
  ultimately show ?thesis
    using assms answered_append(2) [of "history s" st sub n v] by (auto simp: truthful_def)
qed

lemma history_settle [simp]: "history (fulfill p v s) = history s" "history (reject p v s) = history s"
  by (simp_all add: fulfill_def reject_def settle_def)

lemma truthful_then: "truthful s \<Longrightarrow> truthful (snd (then_method w p f r s))"
proof -
  assume s: "truthful s"
  have noted: "truthful (note_down (Registered sub) t)" if "truthful t" for sub t
    by (rule truthful_note [OF that]) (simp_all add: told_def)
  have grown: "truthful (mark_handled w p t)" "truthful (subscribe_to sub t)" if "truthful t" for sub t
    by (rule truthful_grows [OF that]; simp add: mark_handled_def subscribe_to_def Let_def)+
  have "truthful (s\<lparr>promises := promises s @ [x]\<rparr>)" for x
    by (rule truthful_grows [OF s]) (simp_all add: grows_alloc)
  then show ?thesis
    using s by (simp add: then_method_def Let_def new_promise_def noted grown)
qed

interpretation truth: promise_invariant w truthful for w
proof
  fix s assume s: "truthful s"
  show "truthful (s\<lparr>guards := g\<rparr>)" "truthful (s\<lparr>collections := c\<rparr>)" for g c
    by (rule truthful_grows [OF s]; simp)+
  show "truthful (snd (new_promise s))"
    by (rule truthful_grows [OF s]) (simp_all add: new_promise_def grows_alloc)
  show "truthful (fulfill p v s)" "truthful (reject p v s)" for p v
    by (rule truthful_grows [OF s]; simp add: growing.fulfill growing.reject)+
  show "truthful (snd (then_method w p f r s))" for p f r
    using s by (rule truthful_then)
  show "truthful (note_down (Ran n args) s)" for n args
    by (rule truthful_note [OF s]) (simp_all add: told_def)
qed

lemma truthful_invoke:
  assumes s: "truthful s" and own: "owner sub < length (promises s)" "p_state (promise_at (owner sub) s) \<in> {Fulfilled, Rejected}"
  shows "truthful (invokeCallback w (call_fn w (Suc d)) sub s)"
proof (rule truth.invokeCallback)
  fix f st v
  assume st: "st = p_state (promise_at (owner sub) s)" "v = p_data (promise_at (owner sub) s)" "callback_of st sub = Fun f"
  then have told: "told s (Called sub st v)"
    using own by (auto simp: told_def)
  show "truthful (snd (call_fn w (Suc d) f [v] (note_down (Called sub st v) s)))"
  proof (cases "\<exists>n. f = User n")
    case True
    then obtain n where User: "f = User n" by blast
    have "truthful (note_down (Ran n [v]) (note_down (Called sub st v) s))"
      using truthful_call [OF s told] st(3) User by simp
    then show ?thesis
      by (simp add: User run_user_def truth.run_script [OF truth.call_fn] split: prod.split)
  next
    case False
    then have "truthful (note_down (Called sub st v) s)"
      using st(3) by (intro truthful_note [OF s told]) auto
    then show ?thesis
      using truth.call_closure [OF truth.call_fn] by simp
  qed
next
  assume "\<And>f. callback_of (p_state (promise_at (owner sub) s)) sub \<noteq> Fun f"
  then show "truthful (note_down (Passed_on sub) s)"
    using own by (intro truthful_note [OF s]) (auto simp: told_def)
qed

lemma truthful_publish:
  assumes t: "truthful t" and p: "p < length (promises t)" "p_state (promise_at p t) \<in> {Fulfilled, Rejected}"
    and subs: "\<And>subs. p_then (promise_at p t) = Some subs \<Longrightarrow> \<forall>sub \<in> set subs. owner sub = p"
  shows "truthful (publish_promise w (call_fn w (Suc d)) p t)"
proof (cases "p_then (promise_at p t)")
  case (Some subs)
  have "truthful (fold (invokeCallback w (call_fn w (Suc d))) xs u)"
    if "truthful u" "grows t u" "\<forall>sub \<in> set xs. owner sub = p" for xs u
    using that
  proof (induction xs arbitrary: u)
    case (Cons sub xs)
    have "truthful (invokeCallback w (call_fn w (Suc d)) sub u)"
      using Cons.prems p by (intro truthful_invoke)
        (auto simp: grows_def promise_at_def stays_settled_def split: status.splits)
    then show ?case
      using Cons.prems Cons.IH growing.invokeCallback_noted [where s = u and sub = sub and w = w and d = "Suc d"] by (simp del: call_fn.simps)
  qed simp
  from this [OF t _ subs [OF Some]] show ?thesis
    using truthful_grows [where t = "put_promise p (\<lambda>x. x\<lparr>p_then := None\<rparr>) u" for u]
    by (simp add: publish_promise_def Some del: call_fn.simps)
qed (simp add: publish_promise_def t)

lemma truthful_run_job:
  assumes s: "consistent i Map.empty s" and t: "truthful s" and i: "i < length (asyncQueue s)"
  shows "truthful (run_async w (call_fn w (Suc d)) (asyncQueue s ! i) s)"
proof -
  have drop: "drop i (asyncQueue s) = asyncQueue s ! i # drop (Suc i) (asyncQueue s)"
    using i by (simp add: Cons_nth_drop_Suc)
  have publish: "truthful (publish_promise w (call_fn w (Suc d)) p (put_promise p (\<lambda>x. x\<lparr>p_state := st\<rparr>) s))"
    if job: "asyncQueue s ! i = Publish_fulfillment p \<or> asyncQueue s ! i = Publish_rejection p"
      and st: "st \<in> {Fulfilled, Rejected}" for p st
  proof -
    have pub: "p \<in> set (published (drop i (asyncQueue s)))"
      using job by (auto simp: drop)
    have p: "p < length (promises s)"
      using consistent_promise(3) [OF s pub] .
    have ok: "p_state (promises s ! p) = Settled" "p_then (promises s ! p) = Some (registered p (history s))"
      using consistent_promise(1) [OF s p] pub by (auto simp: promise_ok_def split: status.splits)
    have "grows s (put_promise p (\<lambda>x. x\<lparr>p_state := st\<rparr>) s)"
      using ok p st by (auto intro!: grows_put simp: stays_settled_def promise_at_def)
    then have "truthful (put_promise p (\<lambda>x. x\<lparr>p_state := st\<rparr>) s)"
      by (rule truthful_grows [OF t]) simp
    then show ?thesis
      using p ok st owner_registered by (intro truthful_publish) (auto simp: promise_at_def)
  qed
  show ?thesis
  proof (cases "asyncQueue s ! i")
    case (Publish_rejection p)
    then show ?thesis
      using publish [of p Rejected] truthful_note [where h = "Unhandled_rejection p"]
      by (simp add: run_async_def publishRejection_def Let_def told_def del: call_fn.simps)
  next
    case (Invoke sub)
    then have "owner sub < length (promises s)"
      using consistent_promise(4) [OF s, of "owner sub"] by (simp add: drop)
    then show ?thesis
      using consistent_promise(1) [OF s, of "owner sub"] t Invoke
      by (auto simp: run_async_def drop promise_ok_def promise_at_def intro!: truthful_invoke
          simp del: call_fn.simps split: status.splits)
  next
    case (Notify_handled p)
    have "truthful (note_down (Rejection_handled p) s)"
      by (rule truthful_note [OF t]) (simp_all add: told_def)
    then show ?thesis by (simp add: run_async_def Notify_handled)
  qed (use publish in \<open>simp add: run_async_def publishFulfillment_def del: call_fn.simps\<close>)
qed

section \<open>Steps of the page\<close>

definition page_ok :: "async_page \<Rightarrow> bool" where
  "page_ok pg = (case pg of
       (s, None) \<Rightarrow> consistent 0 Map.empty s \<and> timer_ok False s
     | (s, Some i) \<Rightarrow> consistent i Map.empty s \<and> timer_ok True s)"

inductive_cases step_cases: "step w d (s, ph) (s', ph')"

lemma page_ok_step: "step w d pg pg' \<Longrightarrow> page_ok pg \<Longrightarrow> page_ok pg'"
proof (induction rule: step.induct)
  case (Script s as r)
  then show ?case
    by (simp add: page_ok_def subscriptions.run_script subscriptions.call_fn timer.run_script timer.call_fn)
next
  case (Timer s)
  then have "timer_ok True (s\<lparr>scheduled := scheduled s - 1\<rparr>)"
    by (auto simp: page_ok_def timer_ok_def split: if_splits)
  with Timer show ?case
    by (simp add: page_ok_def consistent_def)
next
  case (Job i s)
  then show ?case
    by (simp add: page_ok_def consistent_run_job timer_ok_run_job)
next
  case (Done s i)
  then show ?case
    by (simp add: page_ok_def consistent_def timer_ok_def)
qed

lemma numbered_step: "step w d pg pg' \<Longrightarrow> numbered p (fst pg) \<Longrightarrow> numbered p (fst pg')"
proof (induction rule: step.induct)
  case (Script s as r)
  then show ?case by (simp add: numbers.run_script numbers.call_fn)
qed (simp_all add: numbered_run_job, simp_all add: numbered_def)

lemma grows_step: "step w d pg pg' \<Longrightarrow> page_ok pg \<Longrightarrow> grows (fst pg) (fst pg')"
proof (induction rule: step.induct)
  case (Script s as r)
  then show ?case by (simp add: growing.run_script growing.call_fn)
next
  case (Job i s)
  then show ?case by (simp add: page_ok_def grows_run_job)
qed simp_all

lemma truthful_step: "step w (Suc d) pg pg' \<Longrightarrow> page_ok pg \<Longrightarrow> truthful (fst pg) \<Longrightarrow> truthful (fst pg')"
proof (induction rule: step.induct)
  case (Script s as r)
  then show ?case by (simp add: truth.run_script truth.call_fn del: call_fn.simps)
next
  case (Job i s)
  then show ?case by (simp add: page_ok_def truthful_run_job del: call_fn.simps)
qed (auto intro: truthful_grows)

lemma reachable_page_ok:
  assumes "reachable w d pg"
  shows "page_ok pg" and "numbered p (fst pg)"
proof -
  have start: "page_ok (empty_heap, None)" "numbered p empty_heap"
    by (simp_all add: page_ok_def consistent_def timer_ok_def empty_heap_def numbered_def)
  show "page_ok pg"
    using assms unfolding reachable_def
    by (induction rule: rtranclp_induct) (auto simp: start dest: page_ok_step)
  show "numbered p (fst pg)"
    using assms unfolding reachable_def
    by (induction rule: rtranclp_induct) (auto simp: start dest: numbered_step)
qed

lemma grows_steps: "steps w d pg pg' \<Longrightarrow> page_ok pg \<Longrightarrow> grows (fst pg) (fst pg') \<and> page_ok pg'"
  by (induction rule: rtranclp_induct) (auto dest: grows_step page_ok_step intro: grows_trans)

lemma reachable_truthful:
  assumes "reachable w (Suc d) pg"
  shows "truthful (fst pg)"
proof -
  have start: "truthful empty_heap" "page_ok (empty_heap, None)"
    by (simp_all add: truthful_def answered_def empty_heap_def page_ok_def consistent_def timer_ok_def)
  have "page_ok pg \<and> truthful (fst pg)"
    using assms unfolding reachable_def
    by (induction rule: rtranclp_induct) (auto simp: start dest: page_ok_step truthful_step)
  then show ?thesis ..
qed

text \<open>A flush that ends is a sequence of these steps.\<close>

lemma asyncFlush_steps:
  assumes "asyncFlush w d i s = Some s'"
  shows "steps w d (s, Some i) (s', None)"
proof (rule asyncFlush.raw_induct [where P = "\<lambda>w d i s s'. steps w d (s, Some i) (s', None)", OF _ assms])
  fix flush :: "world \<Rightarrow> nat \<Rightarrow> nat \<Rightarrow> heap \<Rightarrow> heap option" and w d i s s'
  assume IH: "\<And>w d i s y. flush w d i s = Some y \<Longrightarrow> steps w d (s, Some i) (y, None)"
    and run: "(if i < length (asyncQueue s) then flush w d (Suc i) (run_async w (call_fn w d) (asyncQueue s ! i) s)
      else Some (s\<lparr>asyncQueue := [], asyncTimer := False\<rparr>)) = Some s'"
  show "steps w d (s, Some i) (s', None)"
  proof (cases "i < length (asyncQueue s)")
    case True
    then have "step w d (s, Some i) (run_async w (call_fn w d) (asyncQueue s ! i) s, Some (Suc i))"
      by (rule Job)
    moreover have "steps w d (run_async w (call_fn w d) (asyncQueue s ! i) s, Some (Suc i)) (s', None)"
      using IH run True by simp
    ultimately show ?thesis by (rule converse_rtranclp_into_rtranclp)
  next
    case False
    then show ?thesis using run Done [of s i w d] by auto
  qed
qed

lemma asyncFlush_job:
  "i < length (asyncQueue s) \<Longrightarrow>
     asyncFlush w d i s = asyncFlush w d (Suc i) (run_async w (call_fn w d) (asyncQueue s ! i) s)"
  by (subst asyncFlush.simps) simp

lemma asyncFlush_done:
  "length (asyncQueue s) \<le> i \<Longrightarrow> asyncFlush w d i s = Some (s\<lparr>asyncQueue := [], asyncTimer := False\<rparr>)"
  by (subst asyncFlush.simps) simp

section \<open>An example\<close>

text \<open>
  In this world the function 0 calls its argument back with 7, every other function returns 7, and
  objects are thenables whose method is the function of their number.
\<close>

definition example_world :: world where
  "example_world = \<lparr>isNode = False,
     then_of = (\<lambda>v. case v of Object n \<Rightarrow> Inr (Fun (User n)) | _ \<Rightarrow> Inr Undefined),
     text_of = (\<lambda>v. []),
     code_of = (\<lambda>n args s. if n = 0 then ([(False, Call (arg 0 args) [Number 7])], Inr Undefined) else ([], Inr (Number 7)))\<rparr>"

definition example_script :: "(bool \<times> action) list" where
  "example_script = [(False, Resolved (Number 5)), (False, Then (Promise 0) (Fun (User 1)) Undefined)]"

definition example_subscriber :: subscriber where
  "example_subscriber = \<lparr>owner = 0, derived = 1, on_fulfilled = Fun (User 1), on_rejected = Undefined\<rparr>"

definition example_start :: heap where
  "example_start = \<lparr>
     promises = [\<lparr>p_state = Settled, p_data = Number 5, p_then = Some [example_subscriber], p_handled = True\<rparr>, fresh_promise],
     guards = [], collections = [], asyncQueue = [Publish_fulfillment 0], asyncTimer = True, scheduled = 1,
     history = [Registered example_subscriber]\<rparr>"

definition example_end :: heap where
  "example_end = \<lparr>
     promises = [\<lparr>p_state = Fulfilled, p_data = Number 5, p_then = None, p_handled = True\<rparr>,
                 \<lparr>p_state = Fulfilled, p_data = Number 7, p_then = None, p_handled = False\<rparr>],
     guards = [], collections = [], asyncQueue = [], asyncTimer = False, scheduled = 0,
     history = [Registered example_subscriber, Called example_subscriber Fulfilled (Number 5), Ran 1 [Number 5]]\<rparr>"

definition example_middle :: heap where
  "example_middle = example_end\<lparr>
     promises := [\<lparr>p_state = Fulfilled, p_data = Number 5, p_then = None, p_handled = True\<rparr>,
                 \<lparr>p_state = Settled, p_data = Number 7, p_then = Some [], p_handled = False\<rparr>],
     asyncQueue := [Publish_fulfillment 0, Publish_fulfillment 1], asyncTimer := True\<rparr>"

lemmas example_defs = example_world_def example_script_def example_subscriber_def example_start_def example_end_def example_middle_def

lemma example_script_run: "snd (run_script example_world (call_fn example_world 3) example_script (Inr Undefined) empty_heap) = example_start"
  by code_simp

lemma example_jobs:
  "run_async example_world (call_fn example_world 3) (Publish_fulfillment 0) (example_start\<lparr>scheduled := 0\<rparr>) = example_middle"
  "(run_async example_world (call_fn example_world 3) (Publish_fulfillment 1) example_middle)
     \<lparr>asyncQueue := [], asyncTimer := False\<rparr> = example_end"
  "asyncQueue (run_async example_world (call_fn example_world 3) (Publish_fulfillment 1) example_middle) =
     [Publish_fulfillment 0, Publish_fulfillment 1]"
  by code_simp+

lemma example_flush: "asyncFlush example_world 3 0 (example_start\<lparr>scheduled := 0\<rparr>) = Some example_end"
proof -
  have "asyncQueue (example_start\<lparr>scheduled := 0\<rparr>) = [Publish_fulfillment 0]"
    "asyncQueue example_middle = [Publish_fulfillment 0, Publish_fulfillment 1]"
    by (simp_all add: example_defs)
  then show ?thesis
    by (simp add: asyncFlush_job asyncFlush_done example_jobs [simplified])
qed

lemma example_steps:
  "reachable example_world 3 (example_start, None)"
  "steps example_world 3 (example_start, None) (example_end, None)"
proof -
  show "reachable example_world 3 (example_start, None)"
    unfolding reachable_def using Script [of example_world 3 empty_heap example_script "Inr Undefined"]
    by (auto simp: example_script_run)
  have "step example_world 3 (example_start, None) (example_start\<lparr>scheduled := 0\<rparr>, Some 0)"
    using Timer [of example_start example_world 3] by (simp add: example_start_def)
  then show "steps example_world 3 (example_start, None) (example_end, None)"
    by (rule converse_rtranclp_into_rtranclp) (rule asyncFlush_steps [OF example_flush])
qed

section \<open>Theorems\<close>

text \<open>
  Property C21.  A promise settles once.  From the moment it is resolved or rejected its value or
  reason never changes, whatever the application and its thenables do afterwards; and once it is
  published as fulfilled or rejected it stays so.
\<close>

theorem settles_once:
  assumes "reachable w d (s, ph)" "steps w d (s, ph) (s', ph')"
    and "p < length (promises s)" "p_state (promise_at p s) \<noteq> Pending"
  shows "p_data (promise_at p s') = p_data (promise_at p s) \<and>
         p_state (promise_at p s') \<in> (if p_state (promise_at p s) = Settled then {Settled, Fulfilled, Rejected}
           else {p_state (promise_at p s)})"
proof -
  have "grows s s'"
    using grows_steps [OF assms(2)] reachable_page_ok(1) [OF assms(1)] by simp
  then have "p < length (promises s')" "stays_settled (promises s ! p) (promises s' ! p)"
    using assms(3) by (auto simp: grows_def)
  then show ?thesis
    using assms(3,4) by (cases "p_state (promises s' ! p)")
      (auto simp: promise_at_def stays_settled_def split: status.splits)
qed

theorem settles_once_witness:
  "p_data (promise_at 0 example_end) = Number 5 \<and> p_state (promise_at 0 example_end) \<noteq> Rejected"
  using settles_once [OF example_steps, of 0]
  by (simp add: promise_at_def example_start_def example_end_def)

text \<open>
  Property C9.  Callbacks run once, and in the order of their subscription.  What was served for a
  promise is, at every moment, the first part of the list of its subscriptions, in which no
  subscription occurs twice.  Nothing is served before the promise is published, and when the page is at
  rest a promise is pending or everything subscribed to it was served.  Serving a subscription with a
  function for the status of the promise is calling it with the value of the promise, and when it is a
  function of the application its run with that value is the very next thing that happens; only a
  subscription without such a function is passed on.  The stack is deep enough for one call.
\<close>

theorem callbacks_once_in_order:
  assumes "reachable w d (s, ph)" "p < length (promises s)" "0 < d"
  shows "prefix (served p (history s)) (registered p (history s)) \<and>
         distinct (map derived (registered p (history s))) \<and>
         (p_state (promise_at p s) \<in> {Pending, Settled} \<longrightarrow> served p (history s) = []) \<and>
         (ph = None \<and> scheduled s = 0 \<longrightarrow>
            p_state (promise_at p s) = Pending \<or>
            p_state (promise_at p s) \<in> {Fulfilled, Rejected} \<and> served p (history s) = registered p (history s)) \<and>
         (\<forall>k sub st v. k < length (history s) \<and> history s ! k = Called sub st v \<and> owner sub = p \<longrightarrow>
            st = p_state (promise_at p s) \<and> v = p_data (promise_at p s) \<and> (\<exists>f. callback_of st sub = Fun f) \<and>
            (\<forall>n. callback_of st sub = Fun (User n) \<longrightarrow>
               Suc k < length (history s) \<and> history s ! Suc k = Ran n [v])) \<and>
         (\<forall>sub. Passed_on sub \<in> set (history s) \<and> owner sub = p \<longrightarrow>
            (\<forall>f. callback_of (p_state (promise_at p s)) sub \<noteq> Fun f))"
proof -
  obtain i where i: "consistent i Map.empty s" "ph = None \<Longrightarrow> i = 0 \<and> timer_ok False s"
    using reachable_page_ok(1) [OF assms(1)] by (auto simp: page_ok_def split: option.splits)
  have numbers: "distinct (map derived (registered p (history s)))"
    using reachable_page_ok(2) [OF assms(1), of p] by (auto simp: numbered_def strict_sorted_iff)
  have rest: "asyncQueue s = []" if "ph = None" "scheduled s = 0"
    using i(2) that by (auto simp: timer_ok_def split: if_splits)
  have "queued p (drop i (asyncQueue s)) = [] \<and> p \<notin> set (published (drop i (asyncQueue s)))"
    if "ph = None" "scheduled s = 0"
    using rest [OF that] by simp
  moreover have "truthful s"
    using reachable_truthful [of w "d - 1" "(s, ph)"] assms(1,3) by simp
  then have "answered (history s)" "\<And>h. h \<in> set (history s) \<Longrightarrow> told s h"
    by (simp_all add: truthful_def)
  then have "\<forall>k sub st v. k < length (history s) \<and> history s ! k = Called sub st v \<and> owner sub = p \<longrightarrow>
        told s (Called sub st v) \<and> (\<forall>n. callback_of st sub = Fun (User n) \<longrightarrow>
           Suc k < length (history s) \<and> history s ! Suc k = Ran n [v])"
    "\<forall>sub. Passed_on sub \<in> set (history s) \<longrightarrow> told s (Passed_on sub)"
    unfolding answered_def by (metis nth_mem, blast)
  ultimately show ?thesis
    using consistent_promise(1) [OF i(1) assms(2)] assms(2) numbers
    by (cases "ph = None \<and> scheduled s = 0") (auto simp: promise_ok_def promise_at_def told_def split: status.splits)
qed

theorem callbacks_once_in_order_witness:
  "served 0 (history example_end) = registered 0 (history example_end) \<and>
   registered 0 (history example_end) = [example_subscriber] \<and>
   history example_end ! 1 = Called example_subscriber Fulfilled (Number 5) \<and> history example_end ! 2 = Ran 1 [Number 5]"
proof -
  have "reachable example_world 3 (example_end, None)"
    using example_steps unfolding reachable_def by (rule rtranclp_trans)
  from callbacks_once_in_order [OF this, of 0] show ?thesis
    by (simp add: promise_at_def example_end_def example_subscriber_def)
qed

end
