(* ===== verification/Fa_Promise_All.thy ===== *)
theory Fa_Promise_All
  imports Fa_Promise_Correct "HOL-Library.Multiset"
begin

text \<open>
  What \<open>P.all\<close> promises: of values and fulfilled promises it makes one promise, which is fulfilled with
  the array of all values, in the order of the arguments.  Where its arguments call back at once, or
  more than once, it is fulfilled too early.
\<close>

section \<open>Access\<close>

lemma promise_at_put:
  "promise_at q (put_promise p f s) =
     (if q = p \<and> p < length (promises s) then f (promise_at p s) else promise_at q s)"
  by (simp add: promise_at_def)

definition untouched :: "nat \<Rightarrow> heap \<Rightarrow> bool" where
  "untouched p s \<longleftrightarrow> p_state (promise_at p s) = Pending \<and> p_then (promise_at p s) = Some []"

lemma untouched_bound: "untouched p s \<Longrightarrow> p < length (promises s)"
  by (auto simp: untouched_def promise_at_def split: if_splits)

lemma put_collection_simps [simp]:
  "promises (put_collection c f s) = promises s"
  "asyncQueue (put_collection c f s) = asyncQueue s"
  "length (collections (put_collection c f s)) = length (collections s)"
  "promise_at p (put_collection c f s) = promise_at p s"
  "untouched p (put_collection c f s) = untouched p s"
  "c < length (collections s) \<Longrightarrow> collections (put_collection c f s) ! c = f (collections s ! c)"
  by (simp_all add: put_collection_def promise_at_def untouched_def)

lemma put_result_simps [simp]:
  "promises (put_result c k v s) = promises s"
  "asyncQueue (put_result c k v s) = asyncQueue s"
  "length (collections (put_result c k v s)) = length (collections s)"
  "promise_at p (put_result c k v s) = promise_at p s"
  "untouched p (put_result c k v s) = untouched p s"
  "c < length (collections s) \<Longrightarrow>
     collections (put_result c k v s) ! c = (collections s ! c)\<lparr>results := put_at k v (results (collections s ! c))\<rparr>"
  by (simp_all add: put_result_def)

lemma collections_local [simp]:
  "collections (put_promise p f s) = collections s"
  "collections (asyncCall j s) = collections s"
  "collections (note_down h s) = collections s"
  by (simp_all add: put_promise_def asyncCall_def note_down_def Let_def)

lemma put_at_nth:
  "j < length xs \<or> j = k \<Longrightarrow> put_at k v xs ! j = (if j = k then Some v else xs ! j)"
  by (auto simp: put_at_def nth_append)

lemma length_put_at [simp]: "length (put_at k v xs) = max (length xs) (Suc k)"
  by (simp add: put_at_def)

subsection \<open>Effects\<close>

lemma fulfill_untouched:
  "untouched p s \<Longrightarrow> fulfill p v s = asyncCall (Publish_fulfillment p) (settle p v s)"
  by (simp add: fulfill_def untouched_def)

lemma promise_at_settle:
  "untouched p s \<Longrightarrow>
     promise_at q (settle p v s) =
       (if q = p then (promise_at p s)\<lparr>p_state := Settled, p_data := v\<rparr> else promise_at q s)"
  by (simp add: settle_def promise_at_put untouched_bound)

lemma settle_simps [simp]:
  "asyncQueue (settle p v s) = asyncQueue s"
  "collections (settle p v s) = collections s"
  "length (promises (settle p v s)) = length (promises s)"
  by (simp_all add: settle_def)

definition plain :: "world \<Rightarrow> js_val \<Rightarrow> bool" where
  "plain w v \<longleftrightarrow> (\<forall>p. v \<noteq> Promise p) \<and> (\<exists>t. get_then w v = Inr t \<and> function_of t = None) \<or> \<not> truthy v"

lemma resolve_plain: "plain w v \<Longrightarrow> resolve w call p v s = fulfill p v s"
  by (auto simp: resolve_def handleThenable_def plain_def)

lemma invoke_fulfilled:
  assumes "p_state (promise_at (owner sub) s) = Fulfilled" "p_data (promise_at (owner sub) s) = v"
    and "on_fulfilled sub = Fun (Collect_at c k)"
  shows "invokeCallback w (call_fn w (Suc d)) sub s =
           fulfill (derived sub) Undefined (collect_result w (call_fn w d) c k v (note_down (Called sub Fulfilled v) s))"
proof -
  have undef: "handleThenable w call p Undefined s = (False, s)" for call p s
    by (simp add: handleThenable_def)
  show ?thesis
    using assms
    by (simp add: invokeCallback_def run_callback_def Let_def callback_of_def arg_def undef resolve_plain plain_def)
qed

text \<open>Subscribing to a fulfilled promise queues one job, and leaves the promises as they are.\<close>

section \<open>Gathering\<close>

text \<open>
  The subscriptions that wait for a job: that of a call, or those of the promise it publishes.
\<close>

fun waiting :: "heap \<Rightarrow> async_job \<Rightarrow> subscriber list" where
  "waiting s (Invoke sub) = [sub]"
| "waiting s (Publish_fulfillment p) = (case p_then (promise_at p s) of None \<Rightarrow> [] | Some subs \<Rightarrow> subs)"
| "waiting s _ = []"

definition outstanding :: "heap \<Rightarrow> async_job list \<Rightarrow> subscriber list" where
  "outstanding s jobs = concat (map (waiting s) jobs)"

lemma outstanding_simps [simp]:
  "outstanding s [] = []"
  "outstanding s (j # jobs) = waiting s j @ outstanding s jobs"
  "outstanding s (jobs @ jobs') = outstanding s jobs @ outstanding s jobs'"
  by (simp_all add: outstanding_def)

lemma outstanding_cong:
  "(\<And>p. Publish_fulfillment p \<in> set jobs \<Longrightarrow> p_then (promise_at p s') = p_then (promise_at p s)) \<Longrightarrow>
     outstanding s' jobs = outstanding s jobs"
proof (induction jobs)
  case (Cons j jobs)
  then show ?case by (cases j) simp_all
qed simp

text \<open>The index of the element of which a subscription waits for the result.\<close>

fun index_in :: "nat \<Rightarrow> js_val \<Rightarrow> nat option" where
  "index_in c (Fun (Collect_at d k)) = (if d = c then Some k else None)"
| "index_in c _ = None"

definition index_of :: "nat \<Rightarrow> subscriber \<Rightarrow> nat" where
  "index_of c sub = the (index_in c (on_fulfilled sub))"

lemma index_inD: "index_in c v = Some k \<Longrightarrow> v = Fun (Collect_at c k)"
  by (cases "(c, v)" rule: index_in.cases) (auto split: if_splits)

definition in_place :: "nat \<Rightarrow> (nat \<Rightarrow> js_val) \<Rightarrow> nat set \<Rightarrow> js_val option list \<Rightarrow> bool" where
  "in_place n val absent xs \<longleftrightarrow>
     length xs \<le> n \<and> (\<forall>k < n. k \<notin> absent \<longrightarrow> k < length xs \<and> xs ! k = Some (val k))"

lemma in_place_put: "in_place n val (insert k absent) xs \<Longrightarrow> k < n \<Longrightarrow> in_place n val absent (put_at k (val k) xs)"
  by (auto simp: in_place_def put_at_nth)

lemma in_place_more:
  "in_place k val absent xs \<Longrightarrow> in_place (Suc k) val absent (put_at k (val k) xs)"
  "in_place k val absent xs \<Longrightarrow> in_place (Suc k) val (insert k absent) xs"
  by (auto simp: in_place_def put_at_nth less_Suc_eq)

lemma in_place_all:
  assumes "in_place n val {} xs"
  shows "xs = map (\<lambda>k. Some (val k)) [0..<n]"
proof (rule nth_equalityI)
  show "length xs = length (map (\<lambda>k. Some (val k)) [0..<n])"
    using assms by (cases n) (auto simp: in_place_def)
qed (use assms in \<open>auto simp: in_place_def\<close>)

text \<open>A job of the queue publishes a promise, once, or calls what waits for a published promise.\<close>

fun job_ok :: "heap \<Rightarrow> async_job \<Rightarrow> bool" where
  "job_ok s (Publish_fulfillment p) \<longleftrightarrow>
     p_state (promise_at p s) = Settled \<and>
     (case p_then (promise_at p s) of None \<Rightarrow> False | Some subs \<Rightarrow> \<forall>sub \<in> set subs. owner sub = p)"
| "job_ok s (Invoke sub) \<longleftrightarrow> p_state (promise_at (owner sub) s) = Fulfilled"
| "job_ok s _ \<longleftrightarrow> False"

definition sub_ok where
  "sub_ok q c n val s sub \<longleftrightarrow>
     index_in c (on_fulfilled sub) \<noteq> None \<and> index_of c sub < n \<and> owner sub < length (promises s) \<and>
     p_state (promise_at (owner sub) s) \<in> {Settled, Fulfilled} \<and>
     p_data (promise_at (owner sub) s) = val (index_of c sub) \<and> untouched (derived sub) s \<and> derived sub \<noteq> q"

definition subs_ok where
  "subs_ok q c n val subs s \<longleftrightarrow>
     (\<forall>sub \<in> set subs. sub_ok q c n val s sub) \<and>
     distinct (map (index_of c) subs) \<and> distinct (map derived subs) \<and>
     c < length (collections s) \<and> collects_for (collections s ! c) = q \<and>
     remaining (collections s ! c) = int (length subs) \<and>
     in_place n val (index_of c ` set subs) (results (collections s ! c))"

text \<open>
  While the results of collection \<open>c\<close> are gathered, the subscriptions \<open>now\<close>, which are being called,
  and those waiting for the jobs from position \<open>i\<close> on are exactly those of the missing results.
\<close>

definition gathering where
  "gathering q c n val i now s \<longleftrightarrow>
     (let jobs = drop i (asyncQueue s) in
      i \<le> length (asyncQueue s) \<and> (\<forall>j \<in> set jobs. job_ok s j) \<and> distinct (published jobs) \<and>
      (\<forall>sub \<in> set now. p_state (promise_at (owner sub) s) = Fulfilled) \<and>
      subs_ok q c n val (now @ outstanding s jobs) s)"

lemma local_at [simp]:
  "untouched p (asyncCall j s) = untouched p s"
  "untouched p (note_down h s) = untouched p s"
  by (simp_all add: untouched_def)

lemma settle_at:
  assumes "untouched p s"
  shows "r \<noteq> p \<Longrightarrow> untouched r (settle p v s) = untouched r s"
    and "r \<noteq> p \<Longrightarrow> promise_at r (settle p v s) = promise_at r s"
    and "p_then (promise_at r (settle p v s)) = p_then (promise_at r s)"
    and "p_state (promise_at p (settle p v s)) = Settled" "p_data (promise_at p (settle p v s)) = v"
  using assms by (auto simp: untouched_def promise_at_settle)

lemma job_ok_settle:
  assumes x: "untouched x s" and j: "job_ok s j"
  shows "job_ok (settle x v s) j"
proof (cases j)
  case (Publish_fulfillment p)
  with assms have "p \<noteq> x" by (auto simp: untouched_def)
  then show ?thesis using j by (simp add: Publish_fulfillment settle_at(2) [OF x])
next
  case (Invoke sub)
  with assms have "owner sub \<noteq> x" by (auto simp: untouched_def)
  then show ?thesis using j by (simp add: Invoke settle_at(2) [OF x])
qed (use j in simp_all)

lemma sub_ok_settle:
  assumes x: "untouched x s" "derived sub \<noteq> x" and sub: "sub_ok q c n val s sub"
  shows "sub_ok q c n val (settle x v s) sub"
proof -
  have "owner sub \<noteq> x"
    using sub x(1) by (auto simp: sub_ok_def untouched_def)
  then show ?thesis
    using sub x(2) by (simp add: sub_ok_def settle_at(1,2) [OF x(1)])
qed

lemma published_ok: "\<forall>j \<in> set jobs. job_ok s j \<Longrightarrow> p \<in> set (published jobs) \<Longrightarrow> p_state (promise_at p s) = Settled"
proof (induction jobs)
  case (Cons j jobs)
  then show ?case by (cases j) auto
qed simp

lemma asyncCall_local [simp]:
  "job_ok (asyncCall j s) = job_ok s"
  "outstanding (asyncCall j s) = outstanding s"
  "job_ok (note_down h s) = job_ok s"
  "outstanding (note_down h s) = outstanding s"
proof -
  have "job_ok (asyncCall j s) x = job_ok s x" "waiting (asyncCall j s) x = waiting s x"
    "job_ok (note_down h s) x = job_ok s x" "waiting (note_down h s) x = waiting s x" for x
    by (cases x; simp)+
  then show "job_ok (asyncCall j s) = job_ok s" "outstanding (asyncCall j s) = outstanding s"
    "job_ok (note_down h s) = job_ok s" "outstanding (note_down h s) = outstanding s"
    by (auto simp: outstanding_def fun_eq_iff cong: map_cong)
qed

lemma outstanding_settle: "untouched x s \<Longrightarrow> outstanding (settle x v s) jobs = outstanding s jobs"
  by (rule outstanding_cong) (simp add: settle_at)

lemma gathering_fulfill:
  assumes g: "gathering q c n val i now s" and x: "untouched x s"
    and new: "x \<notin> derived ` set (now @ outstanding s (drop i (asyncQueue s)))"
  shows "gathering q c n val i now (fulfill x v s)"
    and "asyncQueue (fulfill x v s) = asyncQueue s @ [Publish_fulfillment x]"
    and "outstanding (fulfill x v s) (drop i (asyncQueue (fulfill x v s))) = outstanding s (drop i (asyncQueue s))"
proof -
  let ?jobs = "drop i (asyncQueue s)"
  have eq: "fulfill x v s = asyncCall (Publish_fulfillment x) (settle x v s)"
    using x by (rule fulfill_untouched)
  show queue: "asyncQueue (fulfill x v s) = asyncQueue s @ [Publish_fulfillment x]"
    by (simp add: eq)
  have jobs: "drop i (asyncQueue (fulfill x v s)) = ?jobs @ [Publish_fulfillment x]"
    using g by (simp add: queue gathering_def Let_def)
  have none: "p_then (promise_at x (settle x v s)) = Some []" "p_then (promise_at x s) = Some []"
    using x by (simp_all add: settle_at untouched_def)
  show out: "outstanding (fulfill x v s) (drop i (asyncQueue (fulfill x v s))) = outstanding s ?jobs"
    unfolding jobs by (simp add: eq outstanding_settle [OF x] none)
  have "x \<notin> set (published ?jobs)"
    using g x published_ok [of ?jobs s x] by (auto simp: gathering_def Let_def untouched_def)
  moreover have "sub_ok q c n val (settle x v s) sub" if "sub \<in> set (now @ outstanding s ?jobs)" for sub
    using g new that by (intro sub_ok_settle [OF x]) (auto simp: gathering_def Let_def subs_ok_def)
  moreover have "p_state (promise_at (owner sub) (settle x v s)) = Fulfilled" if "sub \<in> set now" for sub
  proof -
    have "p_state (promise_at (owner sub) s) = Fulfilled" using g that by (simp add: gathering_def Let_def)
    moreover from this have "owner sub \<noteq> x" using x by (auto simp: untouched_def)
    ultimately show ?thesis by (simp add: settle_at(2) [OF x])
  qed
  moreover have "job_ok (settle x v s) (Publish_fulfillment x)"
    by (simp add: none settle_at(4) [OF x])
  moreover have sub_eq: "sub_ok q c n val (asyncCall j t) = sub_ok q c n val t" for j t
    by (simp add: sub_ok_def fun_eq_iff)
  ultimately show "gathering q c n val i now (fulfill x v s)"
    using g job_ok_settle [OF x]
    by (auto simp: gathering_def Let_def jobs queue out subs_ok_def eq outstanding_settle [OF x] none)
qed

subsection \<open>One call\<close>

text \<open>What the promise of the collection is, while results are missing and when none is.\<close>

definition finished where
  "finished q c i s \<longleftrightarrow>
     p_data (promise_at q s) = Array c \<and>
     (p_state (promise_at q s) = Fulfilled \<or> Publish_fulfillment q \<in> set (drop i (asyncQueue s)))"

definition still_missing where
  "still_missing i now s = now @ outstanding s (drop i (asyncQueue s))"

definition progress where
  "progress q c n val i now s \<longleftrightarrow>
     gathering q c n val i now s \<and> (if still_missing i now s = [] then finished q c i s else untouched q s)"

text \<open>The jobs that will still run: each call adds one publication, and the last one two.\<close>

definition work where
  "work i now s =
     length (drop i (asyncQueue s)) + length (still_missing i now s) + (if still_missing i now s = [] then 0 else 1)"

lemma gathering_collected:
  assumes g: "gathering q c n val i (sub # now) s"
    and queue: "asyncQueue t = asyncQueue s" and promises: "promises t = promises s"
    and c: "length (collections t) = length (collections s)" "collects_for (collections t ! c) = collects_for (collections s ! c)"
      "remaining (collections t ! c) = remaining (collections s ! c) - 1"
      "results (collections t ! c) = put_at (index_of c sub) (val (index_of c sub)) (results (collections s ! c))"
  shows "gathering q c n val i now t" and "still_missing i now t = still_missing i now s"
proof -
  have at: "promise_at p t = promise_at p s" for p
    by (simp add: promise_at_def promises)
  have out: "outstanding t jobs = outstanding s jobs" for jobs
    by (rule outstanding_cong) (simp add: at)
  have job: "job_ok t j = job_ok s j" for j
    by (cases j) (simp_all add: at)
  have sub: "sub_ok q c n val t x = sub_ok q c n val s x" for x
    by (simp add: sub_ok_def at promises untouched_def)
  let ?rest = "now @ outstanding s (drop i (asyncQueue s))"
  have "in_place n val (insert (index_of c sub) (index_of c ` set ?rest)) (results (collections s ! c))" "index_of c sub < n"
    using g by (simp_all add: gathering_def Let_def subs_ok_def sub_ok_def)
  then have "in_place n val (index_of c ` set ?rest) (results (collections t ! c))"
    unfolding c(4) by (rule in_place_put)
  then show "gathering q c n val i now t"
    using g by (simp add: gathering_def Let_def subs_ok_def queue out job sub at c)
  show "still_missing i now t = still_missing i now s"
    by (simp add: still_missing_def queue out)
qed

lemma progress_call:
  assumes p: "progress q c n val i (sub # now) s" and arr: "plain w (Array c)"
    and run: "t = invokeCallback w (call_fn w (Suc d)) sub s"
  shows "progress q c n val i now t" and "work i now t = work i (sub # now) s"
proof -
  let ?k = "index_of c sub" and ?r = "derived sub"
  have g: "gathering q c n val i (sub # now) s" and q: "untouched q s"
    using p by (simp_all add: progress_def still_missing_def)
  have sub: "sub_ok q c n val s sub" and st: "p_state (promise_at (owner sub) s) = Fulfilled"
    and c: "c < length (collections s)" "collects_for (collections s ! c) = q"
      "remaining (collections s ! c) = 1 + int (length (still_missing i now s))"
    and new: "?r \<notin> derived ` set (still_missing i now s)" and i: "i \<le> length (asyncQueue s)"
    using g by (simp_all add: gathering_def Let_def subs_ok_def still_missing_def image_Un)
  then have cb: "on_fulfilled sub = Fun (Collect_at c ?k)"
    by (auto simp: sub_ok_def index_of_def dest: index_inD)
  have r: "untouched ?r s" "?r \<noteq> q" and data: "p_data (promise_at (owner sub) s) = val ?k"
    using sub by (simp_all add: sub_ok_def)
  define u where "u = put_collection c (\<lambda>x. x\<lparr>remaining := remaining x - 1\<rparr>)
      (put_result c ?k (val ?k) (note_down (Called sub Fulfilled (val ?k)) s))"
  have u: "gathering q c n val i now u" "still_missing i now u = still_missing i now s"
    by (rule gathering_collected [OF g]; simp add: u_def c(1))+
  have uq: "untouched q u" "untouched ?r u" "asyncQueue u = asyncQueue s"
    using q r by (simp_all add: u_def)
  have t: "t = fulfill ?r Undefined (if still_missing i now s = [] then fulfill q (Array c) u else u)"
    using c by (auto simp: run invoke_fulfilled [OF st data cb] collect_result_def Let_def resolve_plain [OF arr] u_def)
  show "progress q c n val i now t" "work i now t = work i (sub # now) s"
  proof (atomize (full), cases "still_missing i now s = []")
    case True
    let ?v = "fulfill q (Array c) u"
    have tv: "t = fulfill ?r Undefined ?v" by (simp add: t True)
    have empty: "now @ outstanding u (drop i (asyncQueue u)) = []"
      using True u(2) by (simp add: still_missing_def)
    have v: "gathering q c n val i now ?v" "asyncQueue ?v = asyncQueue s @ [Publish_fulfillment q]"
      "outstanding ?v (drop i (asyncQueue ?v)) = []"
      using gathering_fulfill [OF u(1) uq(1), of "Array c"] empty uq(3) by simp_all
    have rv: "untouched ?r ?v"
      using uq r by (simp add: fulfill_untouched settle_at)
    have w: "gathering q c n val i now t" "asyncQueue t = asyncQueue s @ [Publish_fulfillment q, Publish_fulfillment ?r]"
      "outstanding t (drop i (asyncQueue t)) = []"
      unfolding tv using gathering_fulfill [OF v(1) rv, of Undefined] v empty by (simp_all del: drop_append)
    have "promise_at q t = promise_at q ?v"
      using r by (simp add: tv fulfill_untouched [OF rv] settle_at(2) [OF rv])
    then have "p_data (promise_at q t) = Array c"
      by (simp add: fulfill_untouched [OF uq(1)] settle_at [OF uq(1)])
    then show "progress q c n val i now t \<and> work i now t = work i (sub # now) s"
      using w i True by (auto simp: progress_def finished_def still_missing_def work_def)
  next
    case False
    have new': "?r \<notin> derived ` set (now @ outstanding u (drop i (asyncQueue u)))"
      using new u(2) by (simp add: still_missing_def)
    have w: "gathering q c n val i now t" "asyncQueue t = asyncQueue s @ [Publish_fulfillment ?r]"
      "outstanding t (drop i (asyncQueue t)) = outstanding u (drop i (asyncQueue u))"
      using gathering_fulfill [OF u(1) uq(2), of Undefined] new' uq(3) by (simp_all add: t False del: drop_append)
    then have "still_missing i now t = still_missing i now s"
      using u(2) by (simp add: still_missing_def)
    moreover have "untouched q t"
      using uq r False by (simp add: t fulfill_untouched settle_at)
    ultimately show "progress q c n val i now t \<and> work i now t = work i (sub # now) s"
      using w i False by (simp add: progress_def work_def still_missing_def)
  qed
qed

lemma progress_calls:
  "progress q c n val i now s \<Longrightarrow> plain w (Array c) \<Longrightarrow>
     progress q c n val i [] (fold (invokeCallback w (call_fn w (Suc d))) now s) \<and>
     work i [] (fold (invokeCallback w (call_fn w (Suc d))) now s) = work i now s"
proof (induction now arbitrary: s)
  case (Cons sub now)
  then show ?case
    using progress_call [OF Cons.prems refl, of d] by (simp only: fold_Cons o_apply)
qed simp

subsection \<open>One job\<close>

lemma published_mem: "Publish_fulfillment p \<in> set jobs \<Longrightarrow> p \<in> set (published jobs)"
  by (induction jobs) (auto split: async_job.split)

lemma progress_publication:
  assumes p: "progress q c n val i [] s" and i: "i < length (asyncQueue s)" and job: "asyncQueue s ! i = Publish_fulfillment p"
    and subs: "p_then (promise_at p s) = Some subs"
  defines "t \<equiv> put_promise p (\<lambda>x. x\<lparr>p_state := Fulfilled\<rparr>) s"
  shows "progress q c n val (Suc i) subs t" "work (Suc i) subs t < work i [] s"
proof -
  let ?jobs = "drop (Suc i) (asyncQueue s)"
  have drop: "drop i (asyncQueue s) = Publish_fulfillment p # ?jobs"
    using i job by (simp flip: Cons_nth_drop_Suc)
  have g: "gathering q c n val i [] s" using p by (simp add: progress_def)
  have st: "p_state (promise_at p s) = Settled" and own: "\<forall>sub \<in> set subs. owner sub = p"
    and other: "p \<notin> set (published ?jobs)"
    using g by (simp_all add: gathering_def Let_def drop subs)
  have bound: "p < length (promises s)"
    using st by (auto simp: promise_at_def fresh_promise_def split: if_splits)
  have at: "promise_at x t = (if x = p then (promise_at p s)\<lparr>p_state := Fulfilled\<rparr> else promise_at x s)" for x
    using bound by (simp add: t_def promise_at_put)
  have local [simp]: "asyncQueue t = asyncQueue s" "length (promises t) = length (promises s)" "collections t = collections s"
    by (simp_all add: t_def)
  have out: "outstanding t ?jobs = outstanding s ?jobs"
    by (rule outstanding_cong) (simp add: at)
  have unt: "untouched x t = untouched x s" for x
    using st by (simp add: untouched_def at)
  have ok: "job_ok t j" if "j \<in> set ?jobs" for j
  proof -
    have j: "job_ok s j" using g that by (simp add: gathering_def Let_def drop)
    moreover have "j \<noteq> Publish_fulfillment p"
      using other that published_mem by blast
    ultimately show ?thesis by (cases j) (auto simp: at)
  qed
  have sub: "sub_ok q c n val t x" if "sub_ok q c n val s x" for x
    using that by (auto simp: sub_ok_def at unt)
  have "gathering q c n val (Suc i) subs t"
    using g i ok sub own by (auto simp: gathering_def Let_def drop subs out subs_ok_def at)
  moreover have eq: "still_missing (Suc i) subs t = still_missing i [] s"
    by (simp add: still_missing_def drop subs out)
  ultimately show "progress q c n val (Suc i) subs t"
    using p by (auto simp: progress_def finished_def unt at drop split: if_splits)
  show "work (Suc i) subs t < work i [] s"
    using i by (simp add: work_def eq)
qed

lemma progress_published:
  assumes p: "progress q c n val i [] s" and st: "p_state (promise_at p s) = Fulfilled"
  defines "t \<equiv> put_promise p (\<lambda>x. x\<lparr>p_then := None\<rparr>) s"
  shows "progress q c n val i [] t" "work i [] t = work i [] s"
proof -
  let ?jobs = "drop i (asyncQueue s)"
  have at: "p_state (promise_at x t) = p_state (promise_at x s)" "p_data (promise_at x t) = p_data (promise_at x s)"
    "x \<noteq> p \<Longrightarrow> promise_at x t = promise_at x s" for x
    by (auto simp: t_def promise_at_put)
  have local [simp]: "asyncQueue t = asyncQueue s" "length (promises t) = length (promises s)" "collections t = collections s"
    by (simp_all add: t_def)
  have g: "gathering q c n val i [] s" using p by (simp add: progress_def)
  have other: "x \<noteq> p" if "Publish_fulfillment x \<in> set ?jobs" for x
    using g that st by (auto simp: gathering_def Let_def)
  have out: "outstanding t ?jobs = outstanding s ?jobs"
    by (rule outstanding_cong) (simp add: other at(3))
  have unt: "untouched x t = untouched x s" for x
    using st at(3) [of x] by (cases "x = p") (simp_all add: untouched_def at(1))
  have ok: "job_ok t j" if "j \<in> set ?jobs" for j
    using g that other by (cases j) (auto simp: gathering_def Let_def at)
  have "sub_ok q c n val t = sub_ok q c n val s"
    by (simp add: fun_eq_iff sub_ok_def at unt)
  then have "gathering q c n val i [] t"
    using g ok by (simp add: gathering_def Let_def subs_ok_def out)
  moreover have eq: "still_missing i [] t = still_missing i [] s"
    by (simp add: still_missing_def out)
  ultimately show "progress q c n val i [] t" "work i [] t = work i [] s"
    using p by (auto simp: progress_def finished_def unt at work_def)
qed

lemma progress_job:
  assumes p: "progress q c n val i [] s" and i: "i < length (asyncQueue s)" and arr: "plain w (Array c)"
    and run: "t = run_async w (call_fn w (Suc d)) (asyncQueue s ! i) s"
  shows "progress q c n val (Suc i) [] t \<and> work (Suc i) [] t < work i [] s"
proof -
  have drop: "drop i (asyncQueue s) = asyncQueue s ! i # drop (Suc i) (asyncQueue s)"
    using i by (simp add: Cons_nth_drop_Suc)
  have g: "gathering q c n val i [] s" using p by (simp add: progress_def)
  then have ok: "job_ok s (asyncQueue s ! i)"
    by (simp add: gathering_def Let_def drop)
  show ?thesis
  proof (cases "asyncQueue s ! i")
    case (Publish_fulfillment r)
    then obtain subs where subs: "p_then (promise_at r s) = Some subs"
      using ok by (auto split: option.splits)
    let ?u = "put_promise r (\<lambda>x. x\<lparr>p_state := Fulfilled\<rparr>) s"
    let ?v = "fold (invokeCallback w (call_fn w (Suc d))) subs ?u"
    note u = progress_publication [OF p i Publish_fulfillment subs]
    note v = progress_calls [OF u(1) arr, of d]
    have "r < length (promises s)"
      using ok Publish_fulfillment by (auto simp: promise_at_def fresh_promise_def split: if_splits)
    then have r: "r < length (promises ?u)" "p_state (promise_at r ?u) = Fulfilled" "p_then (promise_at r ?u) = Some subs"
      by (simp_all add: promise_at_put subs)
    have "grows ?u ?v"
      by (rule fold_preserves) (simp_all add: growing.invokeCallback_noted)
    then have "p_state (promise_at r ?v) = Fulfilled"
      using r by (auto simp: grows_def promise_at_def stays_settled_def split: status.splits if_splits)
    moreover have "t = put_promise r (\<lambda>x. x\<lparr>p_then := None\<rparr>) ?v"
      using r(3) by (simp add: run run_async_def Publish_fulfillment publishFulfillment_def publish_promise_def)
    ultimately show ?thesis
      using progress_published [of q c n val "Suc i" ?v r] u(2) v by simp
  next
    case (Invoke sub)
    have "gathering q c n val (Suc i) [sub] s"
      using g i ok by (simp add: gathering_def Let_def drop Invoke)
    moreover have eq: "still_missing (Suc i) [sub] s = still_missing i [] s" "still_missing i [] s \<noteq> []"
      by (simp_all add: still_missing_def drop Invoke)
    ultimately have "progress q c n val (Suc i) [sub] s"
      using p by (simp add: progress_def)
    moreover have "work (Suc i) [sub] s < work i [] s"
      using i eq by (simp add: work_def)
    ultimately show ?thesis
      using progress_call [OF _ arr refl, of q n val "Suc i" sub "[]" s d]
      by (simp add: run run_async_def Invoke)
  qed (use ok in simp_all)
qed

section \<open>The flush\<close>

definition complete where
  "complete q c n val s \<longleftrightarrow>
     p_state (promise_at q s) = Fulfilled \<and> p_data (promise_at q s) = Array c \<and>
     results (collections s ! c) = map (\<lambda>k. Some (val k)) [0..<n]"

lemma flush_gathers:
  "progress q c n val i [] s \<Longrightarrow> plain w (Array c) \<Longrightarrow>
     \<exists>s'. asyncFlush w (Suc d) i s = Some s' \<and> complete q c n val s'"
proof (induction "work i [] s" arbitrary: i s rule: less_induct)
  case less
  show ?case
  proof (cases "i < length (asyncQueue s)")
    case True
    let ?t = "run_async w (call_fn w (Suc d)) (asyncQueue s ! i) s"
    have "progress q c n val (Suc i) [] ?t" "work (Suc i) [] ?t < work i [] s"
      using progress_job [OF less.prems(1) True less.prems(2) refl, of d] by simp_all
    then have "\<exists>s'. asyncFlush w (Suc d) (Suc i) ?t = Some s' \<and> complete q c n val s'"
      using less by blast
    then show ?thesis
      by (simp only: asyncFlush_job [OF True])
  next
    case False
    then have "finished q c i s" "in_place n val {} (results (collections s ! c))"
      using less.prems by (auto simp: progress_def still_missing_def gathering_def Let_def subs_ok_def)
    then have "complete q c n val (s\<lparr>asyncQueue := [], asyncTimer := False\<rparr>)"
      using False by (auto simp: complete_def finished_def in_place_all promise_at_def split: if_splits)
    then show ?thesis
      using False by (simp add: asyncFlush_done)
  qed
qed

section \<open>The loop over the arguments\<close>

text \<open>
  An argument is ready when it is no thenable, or a promise that is fulfilled or will be by the next
  flush.
\<close>

definition ready :: "world \<Rightarrow> heap \<Rightarrow> js_val \<Rightarrow> bool" where
  "ready w s v \<longleftrightarrow>
     (\<exists>p. v = Promise p \<and> p < length (promises s) \<and>
        (p_state (promise_at p s) = Fulfilled \<or> Publish_fulfillment p \<in> set (asyncQueue s))) \<or>
     (\<forall>p. v \<noteq> Promise p) \<and> plain w v"

definition value_in :: "heap \<Rightarrow> js_val \<Rightarrow> js_val" where
  "value_in s v = (case v of Promise p \<Rightarrow> p_data (promise_at p s) | _ \<Rightarrow> v)"

definition counting :: "nat \<Rightarrow> heap \<Rightarrow> heap" where
  "counting c = put_collection c (\<lambda>x. x\<lparr>remaining := remaining x + 1\<rparr>)"

definition element_sub :: "nat \<Rightarrow> nat \<Rightarrow> nat \<Rightarrow> nat \<Rightarrow> heap \<Rightarrow> subscriber" where
  "element_sub q c k p s =
     \<lparr>owner = p, derived = length (promises s), on_fulfilled = Fun (Collect_at c k), on_rejected = Fun (Reject_fn q)\<rparr>"

lemma element_sub_simps [simp]:
  "owner (element_sub q c k p s) = p" "derived (element_sub q c k p s) = length (promises s)"
  "index_of c (element_sub q c k p s) = k" "index_in c (on_fulfilled (element_sub q c k p s)) = Some k"
  by (simp_all add: element_sub_def index_of_def)

lemma counting_simps [simp]:
  "promises (counting c s) = promises s" "asyncQueue (counting c s) = asyncQueue s"
  "length (collections (counting c s)) = length (collections s)"
  "c < length (collections s) \<Longrightarrow>
     collections (counting c s) ! c = (collections s ! c)\<lparr>remaining := remaining (collections s ! c) + 1\<rparr>"
  by (simp_all add: counting_def)

lemma gathering_result:
  "gathering q c k val 0 [] s \<Longrightarrow> v = val k \<Longrightarrow> gathering q c (Suc k) val 0 [] (put_result c k v s)"
proof -
  assume g: "gathering q c k val 0 [] s" and v: "v = val k"
  let ?t = "put_result c k v s"
  have "job_ok ?t j = job_ok s j" for j by (cases j) simp_all
  moreover have "outstanding ?t jobs = outstanding s jobs" for jobs by (rule outstanding_cong) simp
  moreover have "sub_ok q c k val s sub \<Longrightarrow> sub_ok q c (Suc k) val ?t sub" for sub by (simp add: sub_ok_def)
  ultimately show "gathering q c (Suc k) val 0 [] ?t"
    using g v by (simp add: gathering_def Let_def subs_ok_def in_place_more)
qed

lemma distinct_map_mset: "mset xs = mset ys \<Longrightarrow> distinct (map f xs) = distinct (map f ys)"
  by (metis mset_eq_imp_distinct_iff mset_map)

text \<open>What a further subscription has to keep for the element to be added.\<close>

lemma gathering_element:
  assumes g: "gathering q c k val 0 [] s" and q: "untouched q s"
    and p: "p < length (promises s)" "p_state (promise_at p s) \<in> {Settled, Fulfilled}" "p_data (promise_at p s) = val k"
    and len: "length (promises t) = Suc (length (promises s))" and new: "untouched (length (promises s)) t"
    and old: "\<And>x. x < length (promises s) \<Longrightarrow> p_state (promise_at x t) = p_state (promise_at x s) \<and>
      p_data (promise_at x t) = p_data (promise_at x s)" "\<And>x. untouched x s \<Longrightarrow> untouched x t"
    and coll: "collections t = collections (counting c s)"
    and jobs: "\<forall>j \<in> set (asyncQueue t). job_ok t j" "distinct (published (asyncQueue t))"
    and out: "mset (outstanding t (asyncQueue t)) = add_mset (element_sub q c k p s) (mset (outstanding s (asyncQueue s)))"
  shows "gathering q c (Suc k) val 0 [] t"
proof -
  let ?sub = "element_sub q c k p s" and ?out = "outstanding s (asyncQueue s)"
  have eq: "mset (outstanding t (asyncQueue t)) = mset (?sub # ?out)"
    using out by simp
  have all: "sub_ok q c k val s x" if "x \<in> set ?out" for x
    using g that by (simp add: gathering_def Let_def subs_ok_def)
  have "sub_ok q c (Suc k) val t x" if "x \<in> set ?out" for x
    using all [OF that] len old by (auto simp: sub_ok_def)
  moreover have "q < length (promises s)" using untouched_bound [OF q] .
  then have "sub_ok q c (Suc k) val t ?sub"
    using p len new old by (simp add: sub_ok_def)
  moreover have "k \<notin> index_of c ` set ?out" "length (promises s) \<notin> derived ` set ?out"
    using all untouched_bound by (fastforce simp: sub_ok_def)+
  moreover have "set (outstanding t (asyncQueue t)) = insert ?sub (set ?out)"
    using mset_eq_setD [OF eq] by simp
  moreover have "length (outstanding t (asyncQueue t)) = Suc (length ?out)"
    using mset_eq_length [OF eq] by simp
  ultimately show ?thesis
    using g jobs distinct_map_mset [OF eq, of "index_of c"] distinct_map_mset [OF eq, of derived]
      in_place_more(2) [of k val "index_of c ` set ?out"]
    by (simp add: gathering_def Let_def subs_ok_def coll)
qed

subsection \<open>Subscribing to an argument\<close>

lemma put_promise_same: "f (promise_at p s) = promise_at p s \<Longrightarrow> put_promise p f s = s"
  by (cases "p < length (promises s)") (simp_all add: put_promise_def promise_at_def list_update_beyond)

definition subscribed :: "subscriber \<Rightarrow> heap \<Rightarrow> heap" where
  "subscribed sub s =
     subscribe_to sub (note_down (Registered sub)
       (put_promise (owner sub) (\<lambda>x. x\<lparr>p_handled := True\<rparr>) (snd (new_promise s))))"

lemma then_subscribed:
  assumes p: "p < length (promises s)" and st: "p_state (promise_at p s) \<noteq> Rejected"
  shows "then_method w p (Fun (Collect_at c k)) (Fun (Reject_fn q)) s =
           (Inr (Promise (length (promises s))), subscribed (element_sub q c k p s) s)"
proof -
  let ?s = "s\<lparr>promises := promises s @ [fresh_promise]\<rparr>"
  have at: "promise_at p ?s = promise_at p s"
    using p by (simp add: promise_at_def nth_append)
  have "mark_handled w p ?s = put_promise p (\<lambda>x. x\<lparr>p_handled := True\<rparr>) ?s"
    using st by (simp add: mark_handled_def Let_def at)
  moreover have "put_promise p (\<lambda>x. x\<lparr>p_handled := True\<rparr>) ?s = ?s" if "p_handled (promise_at p s)"
    by (rule put_promise_same) (simp add: at that)
  ultimately show ?thesis
    using p by (simp add: then_method_def new_promise_def subscribed_def Let_def mark_handled_note_down
        element_sub_def at)
qed

lemma subscribed_simps:
  assumes "p < length (promises s)" and sub: "owner sub = p"
  shows "length (promises (subscribed sub s)) = Suc (length (promises s))"
    and "collections (subscribed sub s) = collections s"
    and "p_state (promise_at p s) = Fulfilled \<Longrightarrow> asyncQueue (subscribed sub s) = asyncQueue s @ [Invoke sub]"
    and "p_state (promise_at p s) = Settled \<Longrightarrow> asyncQueue (subscribed sub s) = asyncQueue s"
    and "promise_at (length (promises s)) (subscribed sub s) = fresh_promise"
    and "x < length (promises s) \<Longrightarrow> p_state (promise_at x (subscribed sub s)) = p_state (promise_at x s)"
    and "x < length (promises s) \<Longrightarrow> p_data (promise_at x (subscribed sub s)) = p_data (promise_at x s)"
    and "x < length (promises s) \<Longrightarrow> x \<noteq> p \<or> p_state (promise_at p s) = Fulfilled \<Longrightarrow>
      p_then (promise_at x (subscribed sub s)) = p_then (promise_at x s)"
    and "p_state (promise_at p s) = Settled \<Longrightarrow>
      p_then (promise_at p (subscribed sub s)) = map_option (\<lambda>subs. subs @ [sub]) (p_then (promise_at p s))"
proof -
  define e where "e = note_down (Registered sub) (put_promise p (\<lambda>x. x\<lparr>p_handled := True\<rparr>) (snd (new_promise s)))"
  have e: "promise_at x e =
      (if x = length (promises s) then fresh_promise
       else if x = p then (promise_at p s)\<lparr>p_handled := True\<rparr> else promise_at x s)" for x
    using assms(1) by (auto simp: e_def new_promise_def promise_at_def nth_append nth_list_update)
  have t: "subscribed sub s = subscribe_to sub e"
    by (simp add: subscribed_def sub e_def)
  have len: "length (promises e) = Suc (length (promises s))" "collections e = collections s" "asyncQueue e = asyncQueue s"
    by (simp_all add: e_def new_promise_def)
  show "length (promises (subscribed sub s)) = Suc (length (promises s))" "collections (subscribed sub s) = collections s"
    by (simp_all add: t subscribe_to_def len)
  show "p_state (promise_at p s) = Fulfilled \<Longrightarrow> asyncQueue (subscribed sub s) = asyncQueue s @ [Invoke sub]"
    "p_state (promise_at p s) = Settled \<Longrightarrow> asyncQueue (subscribed sub s) = asyncQueue s"
    using assms by (simp_all add: t subscribe_to_def e len)
  have at: "promise_at x (subscribed sub s) =
      (if x = p \<and> p_state (promise_at p s) \<noteq> Fulfilled \<and> p_state (promise_at p s) \<noteq> Rejected
       then (promise_at x e)\<lparr>p_then := map_option (\<lambda>subs. subs @ [sub]) (p_then (promise_at x e))\<rparr>
       else promise_at x e)" for x
    using assms len by (simp add: t subscribe_to_def promise_at_put e)
  show "promise_at (length (promises s)) (subscribed sub s) = fresh_promise"
    using assms(1) by (simp add: at e)
  show "x < length (promises s) \<Longrightarrow> p_state (promise_at x (subscribed sub s)) = p_state (promise_at x s)"
    "x < length (promises s) \<Longrightarrow> p_data (promise_at x (subscribed sub s)) = p_data (promise_at x s)"
    "x < length (promises s) \<Longrightarrow> x \<noteq> p \<or> p_state (promise_at p s) = Fulfilled \<Longrightarrow>
      p_then (promise_at x (subscribed sub s)) = p_then (promise_at x s)"
    "p_state (promise_at p s) = Settled \<Longrightarrow>
      p_then (promise_at p (subscribed sub s)) = map_option (\<lambda>subs. subs @ [sub]) (p_then (promise_at p s))"
    using assms(1) by (auto simp: at e)
qed

lemma outstanding_push:
  assumes "distinct (published jobs)" "Publish_fulfillment p \<in> set jobs"
    and "p_then (promise_at p s) = Some subs" "p_then (promise_at p t) = Some (subs @ [sub])"
    and "\<And>x. x \<noteq> p \<Longrightarrow> Publish_fulfillment x \<in> set jobs \<Longrightarrow> p_then (promise_at x t) = p_then (promise_at x s)"
  shows "mset (outstanding t jobs) = add_mset sub (mset (outstanding s jobs))"
  using assms(1,2,5)
proof (induction jobs)
  case (Cons j jobs)
  show ?case
  proof (cases "j = Publish_fulfillment p")
    case True
    then have "Publish_fulfillment p \<notin> set jobs"
      using Cons.prems(1) published_mem by fastforce
    then have "outstanding t jobs = outstanding s jobs"
      using Cons.prems(3) by (intro outstanding_cong) (metis list.set_intros(2))
    then show ?thesis using True assms(3,4) by simp
  next
    case False
    then have "waiting t j = waiting s j"
      using Cons.prems(3) by (cases j) auto
    moreover have "mset (outstanding t jobs) = add_mset sub (mset (outstanding s jobs))"
      using Cons.prems False by (intro Cons.IH) (auto split: async_job.splits)
    ultimately show ?thesis by simp
  qed
qed simp

lemma gathering_promise:
  assumes g: "gathering q c k val 0 [] s" and q: "untouched q s" and p: "p < length (promises s)" "p_data (promise_at p s) = val k"
    and st: "p_state (promise_at p s) = Fulfilled \<or> Publish_fulfillment p \<in> set (asyncQueue s)"
  defines "t \<equiv> subscribed (element_sub q c k p s) (counting c s)"
  shows "gathering q c (Suc k) val 0 [] t" and "untouched q t"
proof -
  let ?sub = "element_sub q c k p s" and ?n = "length (promises s)"
  have jobs: "\<forall>j \<in> set (asyncQueue s). job_ok s j" "distinct (published (asyncQueue s))"
    using g by (simp_all add: gathering_def Let_def)
  have at [simp]: "promise_at x (counting c s) = promise_at x s" for x
    by (simp add: promise_at_def)
  have settled: "p_state (promise_at p s) = Settled" "\<exists>subs. p_then (promise_at p s) = Some subs"
    if "p_state (promise_at p s) \<noteq> Fulfilled"
    using st jobs(1) that by (auto split: option.splits)
  note new = subscribed_simps [of p "counting c s" ?sub, simplified, folded t_def, OF p(1)]
  have queued: "x < ?n" if "Publish_fulfillment x \<in> set (asyncQueue s)" for x
    using jobs(1) that by (auto simp: promise_at_def split: if_splits)
  have unt: "untouched x t" if "untouched x s" for x
    using untouched_bound [OF that] that settled(1) new(6,8)
    by (cases "x = p") (auto simp: untouched_def)
  then show "untouched q t" using q .
  have keep: "job_ok t j" if "j \<in> set (asyncQueue s)" for j
  proof -
    have j: "job_ok s j" using jobs(1) that by simp
    show ?thesis
    proof (cases j)
      case (Publish_fulfillment x)
      have x: "x < ?n" using queued that Publish_fulfillment by simp
      show ?thesis
      proof (cases "x = p")
        case True
        then show ?thesis
          using j x Publish_fulfillment new(6,9) by (auto split: option.splits)
      next
        case False
        then show ?thesis
          using j x Publish_fulfillment new(6) [of x] new(8) [of x] by simp
      qed
    next
      case (Invoke sub)
      then have "sub \<in> set (outstanding s (asyncQueue s))"
        using that by (force simp: outstanding_def)
      then have "owner sub < ?n"
        using g by (simp add: gathering_def Let_def subs_ok_def sub_ok_def)
      then show ?thesis using j Invoke new(6) by simp
    qed (use j in simp_all)
  qed
  have queue: "(\<forall>j \<in> set (asyncQueue t). job_ok t j) \<and> distinct (published (asyncQueue t)) \<and>
      mset (outstanding t (asyncQueue t)) = add_mset ?sub (mset (outstanding s (asyncQueue s)))"
  proof (cases "p_state (promise_at p s) = Fulfilled")
    case True
    then have "outstanding t (asyncQueue s) = outstanding s (asyncQueue s)"
      using new(8) queued by (intro outstanding_cong) blast
    then show ?thesis
      using True keep jobs new(3) new(6) [OF p(1)] by auto
  next
    case False
    obtain subs where subs: "p_then (promise_at p s) = Some subs" using settled(2) [OF False] by blast
    have "mset (outstanding t (asyncQueue s)) = add_mset ?sub (mset (outstanding s (asyncQueue s)))"
      using False st settled(1) [OF False] new(8,9) queued jobs(2) subs
      by (intro outstanding_push [where p = p and subs = subs]) auto
    then show ?thesis
      using keep jobs settled(1) [OF False] new(4) by auto
  qed
  show "gathering q c (Suc k) val 0 [] t"
  proof (rule gathering_element [OF g q p(1) _ p(2)])
    show "p_state (promise_at p s) \<in> {Settled, Fulfilled}" using settled(1) by blast
    show "untouched ?n t" by (simp add: untouched_def new(5) fresh_promise_def)
    show "p_state (promise_at x t) = p_state (promise_at x s) \<and> p_data (promise_at x t) = p_data (promise_at x s)"
      if "x < ?n" for x using that new(6,7) by blast
  qed (use new(1,2) unt queue in auto)
qed

subsection \<open>All arguments\<close>

text \<open>Later arguments stay ready, with the same value.\<close>

definition carries_on :: "heap \<Rightarrow> heap \<Rightarrow> bool" where
  "carries_on s t \<longleftrightarrow>
     (\<forall>p < length (promises s). p < length (promises t) \<and> p_state (promise_at p t) = p_state (promise_at p s) \<and>
        p_data (promise_at p t) = p_data (promise_at p s)) \<and>
     set (asyncQueue s) \<subseteq> set (asyncQueue t)"

lemma ready_carries_on: "carries_on s t \<Longrightarrow> ready w s v \<Longrightarrow> ready w t v \<and> value_in t v = value_in s v"
  by (auto simp: ready_def carries_on_def value_in_def split: js_val.split)

lemma gathering_loop:
  assumes "gathering q c k val 0 [] s" "untouched q s" "\<forall>v \<in> set vs. ready w s v"
    and "\<forall>j < length vs. val (k + j) = value_in s (vs ! j)"
  shows "\<exists>s'. all_loop w (call_fn w (Suc d)) q c k vs s = (Inr Undefined, s') \<and>
     gathering q c (k + length vs) val 0 [] s' \<and> untouched q s'"
  using assms
proof (induction vs arbitrary: k s)
  case (Cons v vs)
  have v: "val k = value_in s v" "ready w s v" using Cons.prems(3,4) by auto
  have rest: "val (Suc k + j) = value_in s (vs ! j)" if "j < length vs" for j
    using Cons.prems(4) that by (auto simp: dest: spec [where x = "Suc j"])
  have IH: "\<exists>s'. all_loop w (call_fn w (Suc d)) q c (Suc k) vs t = (Inr Undefined, s') \<and>
      gathering q c (Suc k + length vs) val 0 [] s' \<and> untouched q s'"
    if "carries_on s t" "gathering q c (Suc k) val 0 [] t" "untouched q t" for t
  proof (rule Cons.IH [OF that(2,3)])
    show "\<forall>v \<in> set vs. ready w t v"
      using Cons.prems(3) ready_carries_on [OF that(1)] by auto
    show "\<forall>j < length vs. val (Suc k + j) = value_in t (vs ! j)"
      using rest Cons.prems(3) ready_carries_on [OF that(1), of w] by simp
  qed
  show ?case
  proof (cases "\<exists>p. v = Promise p")
    case True
    then obtain p where p: "v = Promise p" "p < length (promises s)" "p_data (promise_at p s) = val k"
      and st: "p_state (promise_at p s) = Fulfilled \<or> Publish_fulfillment p \<in> set (asyncQueue s)"
      using v by (auto simp: ready_def value_in_def plain_def)
    then have settled: "p_state (promise_at p s) = Fulfilled \<or> p_state (promise_at p s) = Settled"
      using Cons.prems(1) by (auto simp: gathering_def Let_def)
    let ?t = "subscribed (element_sub q c k p s) (counting c s)"
    note new = subscribed_simps [of p "counting c s" "element_sub q c k p s", simplified, OF p(2)]
    have at: "promise_at x (counting c s) = promise_at x s" for x
      by (simp add: promise_at_def)
    have "element_sub q c k p (counting c s) = element_sub q c k p s"
      by (simp add: element_sub_def)
    then have "all_loop w (call_fn w (Suc d)) q c k (v # vs) s = all_loop w (call_fn w (Suc d)) q c (Suc k) vs ?t"
      using p settled then_subscribed [of p "counting c s" w c k q]
      by (auto simp: get_then_def arg_def at simp flip: counting_def)
    moreover have "carries_on s ?t"
      using new settled by (auto simp: carries_on_def at)
    ultimately show ?thesis
      using IH gathering_promise [OF Cons.prems(1,2) p(2,3) st] by (simp del: all_loop.simps call_fn.simps)
  next
    case False
    then have plain: "plain w v" using v(2) by (auto simp: ready_def)
    then have "all_loop w (call_fn w (Suc d)) q c k (v # vs) s =
        all_loop w (call_fn w (Suc d)) q c (Suc k) vs (put_result c k v s)"
      by (auto simp: plain_def)
    moreover have "v = val k"
      using False v(1) by (auto simp: value_in_def split: js_val.splits)
    moreover have "carries_on s (put_result c k v s)"
      by (simp add: carries_on_def)
    ultimately show ?thesis
      using IH gathering_result [OF Cons.prems(1)] Cons.prems(2) by (simp del: all_loop.simps call_fn.simps)
  qed
qed auto

lemma distinct_published:
  "\<forall>j \<in> set xs. \<exists>p. j = Publish_fulfillment p \<Longrightarrow> distinct xs \<Longrightarrow> distinct (published xs)"
proof (induction xs)
  case (Cons j xs)
  have "p \<in> set (published ys) \<Longrightarrow> Publish_fulfillment p \<in> set ys"
    if "\<forall>j \<in> set ys. \<exists>p. j = Publish_fulfillment p" for p ys
    using that by (induction ys) auto
  then show ?case using Cons by auto
qed simp

definition prepared :: "heap \<Rightarrow> heap" where
  "prepared s = s\<lparr>promises := promises s @ [fresh_promise],
     collections := collections s @ [\<lparr>results = [], remaining = 0, collects_for = length (promises s)\<rparr>]\<rparr>"

lemma gathering_starts:
  assumes "\<forall>j \<in> set (asyncQueue s). \<exists>p. j = Publish_fulfillment p \<and>
      p_state (promise_at p s) = Settled \<and> p_then (promise_at p s) = Some []"
    and "distinct (asyncQueue s)"
  shows "gathering (length (promises s)) (length (collections s)) 0 val 0 [] (prepared s)"
    and "untouched (length (promises s)) (prepared s)" and "carries_on s (prepared s)"
proof -
  let ?q = "length (promises s)" and ?u = "prepared s"
  have at: "promise_at p ?u = promise_at p s" if "p < ?q" for p
    using that by (simp add: prepared_def promise_at_def nth_append)
  have queue: "asyncQueue ?u = asyncQueue s" by (simp add: prepared_def)
  have jobs: "\<exists>p < ?q. j = Publish_fulfillment p \<and> p_state (promise_at p ?u) = Settled \<and> p_then (promise_at p ?u) = Some []"
    if j: "j \<in> set (asyncQueue ?u)" for j
  proof -
    obtain p where p: "j = Publish_fulfillment p" "p_state (promise_at p s) = Settled" "p_then (promise_at p s) = Some []"
      using assms(1) j queue by auto
    then have "p < ?q" by (auto simp: promise_at_def split: if_splits)
    with p at show ?thesis by auto
  qed
  have "outstanding ?u (asyncQueue ?u) = []"
    using jobs by (fastforce simp: outstanding_def)
  moreover have "distinct (published (asyncQueue ?u))"
    using jobs assms(2) queue by (intro distinct_published) fastforce+
  moreover have "\<forall>j \<in> set (asyncQueue ?u). job_ok ?u j"
    using jobs by fastforce
  ultimately show "gathering ?q (length (collections s)) 0 val 0 [] ?u"
    by (simp add: gathering_def Let_def subs_ok_def in_place_def) (simp add: prepared_def)
  show "untouched ?q ?u"
    by (simp add: prepared_def untouched_def promise_at_def fresh_promise_def)
  show "carries_on s ?u"
    using at by (auto simp: carries_on_def prepared_def)
qed

text \<open>
  Property C27.  \<open>P.all\<close> gathers in order.  It is called while the queue holds nothing but publications
  of promises to which nobody has subscribed, with values and with promises that are fulfilled or about
  to be.  It returns a new promise; the next flush ends, and leaves it fulfilled with the array of all
  values, each at the index of its argument.
\<close>

theorem all_gathers_in_order:
  assumes "\<forall>j \<in> set (asyncQueue s). \<exists>p. j = Publish_fulfillment p \<and>
      p_state (promise_at p s) = Settled \<and> p_then (promise_at p s) = Some []"
    and "distinct (asyncQueue s)" "\<forall>v \<in> set vs. ready w s v" "plain w (Array (length (collections s)))" "0 < d"
  shows "\<exists>s' s''. P_all w (call_fn w d) (Some vs) s = (Inr (Promise (length (promises s))), s') \<and>
     asyncFlush w d 0 s' = Some s'' \<and>
     p_state (promise_at (length (promises s)) s'') = Fulfilled \<and>
     p_data (promise_at (length (promises s)) s'') = Array (length (collections s)) \<and>
     results (collections s'' ! length (collections s)) = map (\<lambda>v. Some (value_in s v)) vs"
proof -
  let ?q = "length (promises s)" and ?c = "length (collections s)" and ?val = "\<lambda>k. value_in s (vs ! k)"
  obtain d' where d: "d = Suc d'" using assms(5) by (cases d) auto
  note start = gathering_starts [OF assms(1,2)]
  have "\<forall>v \<in> set vs. ready w (prepared s) v" "\<forall>j < length vs. ?val (0 + j) = value_in (prepared s) (vs ! j)"
    using assms(3) ready_carries_on [OF start(3), of w] by simp_all
  then obtain t where t: "all_loop w (call_fn w d) ?q ?c 0 vs (prepared s) = (Inr Undefined, t)"
    and g: "gathering ?q ?c (length vs) ?val 0 [] t" "untouched ?q t"
    using gathering_loop [OF start(1,2), of vs w ?val d'] unfolding d by auto
  define s' where "s' = (if still_missing 0 [] t = [] then fulfill ?q (Array ?c) t else t)"
  have rem: "remaining (collections t ! ?c) = int (length (still_missing 0 [] t))"
    using g(1) by (simp add: gathering_def Let_def subs_ok_def still_missing_def)
  have "P_all w (call_fn w d) (Some vs) s = (Inr (Promise ?q), s')"
    using t by (simp add: P_all_def construct_def new_promise_def invokeResolver_def all_resolver_def Let_def rem
        resolve_plain [OF assms(4)] s'_def prepared_def)
  moreover have "progress ?q ?c (length vs) ?val 0 [] s'"
  proof (cases "still_missing 0 [] t = []")
    case True
    then have new: "?q \<notin> derived ` set ([] @ outstanding t (drop 0 (asyncQueue t)))"
      by (simp add: still_missing_def)
    show ?thesis
      using True gathering_fulfill [OF g new, of "Array ?c"]
      by (auto simp: s'_def progress_def still_missing_def finished_def fulfill_untouched [OF g(2)] settle_at [OF g(2)])
  qed (use g in \<open>simp add: s'_def progress_def\<close>)
  then have "\<exists>s''. asyncFlush w d 0 s' = Some s'' \<and> complete ?q ?c (length vs) ?val s''"
    unfolding d by (rule flush_gathers [OF _ assms(4)])
  moreover have "map (\<lambda>k. Some (?val k)) [0..<length vs] = map (\<lambda>v. Some (value_in s v)) vs"
    by (rule nth_equalityI) simp_all
  ultimately show ?thesis by (auto simp: complete_def)
qed

text \<open>
  The situation of \<open>generateSvgReplacementMutation\<close>: two promises that were just resolved, with the two
  icons.
\<close>

definition two_icons :: heap where
  "two_icons = snd (run_script example_world (call_fn example_world 3)
     [(False, Resolved (Text [1])), (False, Resolved (Text [2]))] (Inr Undefined) empty_heap)"

lemma two_icons:
  "asyncQueue two_icons = [Publish_fulfillment 0, Publish_fulfillment 1]" "collections two_icons = []"
  "promises two_icons = [\<lparr>p_state = Settled, p_data = Text [1], p_then = Some [], p_handled = False\<rparr>,
                         \<lparr>p_state = Settled, p_data = Text [2], p_then = Some [], p_handled = False\<rparr>]"
  by code_simp+

theorem all_gathers_in_order_witness:
  "\<exists>s' s''. P_all example_world (call_fn example_world 3) (Some [Promise 1, Number 3, Promise 0]) two_icons = (Inr (Promise 2), s') \<and>
     asyncFlush example_world 3 0 s' = Some s'' \<and> p_data (promise_at 2 s'') = Array 0 \<and>
     results (collections s'' ! 0) = [Some (Text [2]), Some (Number 3), Some (Text [1])]"
proof -
  have at: "promise_at 0 two_icons = \<lparr>p_state = Settled, p_data = Text [1], p_then = Some [], p_handled = False\<rparr>"
    "promise_at 1 two_icons = \<lparr>p_state = Settled, p_data = Text [2], p_then = Some [], p_handled = False\<rparr>"
    by (simp_all add: two_icons promise_at_def)
  have "plain example_world (Array 0)" "plain example_world (Number 3)"
    by (simp_all add: plain_def get_then_def example_world_def)
  then show ?thesis
    using all_gathers_in_order [of two_icons "[Promise 1, Number 3, Promise 0]" example_world 3]
    by (auto simp: two_icons at at(2) [unfolded One_nat_def] ready_def value_in_def numeral_2_eq_2)
qed

section \<open>Thenables that are not promises\<close>

text \<open>
  \<open>P.all\<close> counts its arguments while it calls their method \<open>then\<close>.  The object 0 calls back at once, so
  the count is back at zero before the next argument is looked at: the promise is resolved while
  promise 2, an argument as well, is still pending.
\<close>

lemma all_resolves_too_early:
  "case P_all example_world (call_fn example_world 3) (Some [Object 0, Promise 2]) (snd (new_promise example_end)) of
     (r, s) \<Rightarrow> r = Inr (Promise 3) \<and> p_state (promise_at 3 s) = Settled \<and> p_state (promise_at 2 s) = Pending"
  by code_simp

text \<open>
  A reason that is a thenable is not passed on by a promise without a callback for it: the derived
  promise takes the value of the thenable, and is fulfilled.
\<close>

definition rejected_by_thenable :: heap where
  "rejected_by_thenable =
     snd (run_script example_world (call_fn example_world 3)
       [(False, Rejected_with (Object 0)), (False, Then (Promise 0) Undefined Undefined)] (Inr Undefined) empty_heap)"

lemma thenable_reason_becomes_value:
  "case run_async example_world (call_fn example_world 3) (Publish_rejection 0) rejected_by_thenable of
     s \<Rightarrow> asyncQueue s = [Publish_rejection 0, Publish_fulfillment 1] \<and> p_data (promise_at 1 s) = Number 7"
  by code_simp

end
