(* ===== verification/Spec2Isabelle.thy ===== *)
theory Spec2Isabelle
  imports Client_Connect Client_Backoff Client_Trace_Correct Trilateration Fa_Render_Correct Web_Ui_Circles Bs_Toast_Correct Bs_Collapse_Correct
    Md5_Correct Detector_Correct Fa_Promise_All
begin

text \<open>
  Verification of the browser side of an indoor positioning system.

  The system measures positions with ultra-wideband radios.  Tags and anchors report to a gateway,
  which publishes what it receives to an MQTT broker.  The web server serves one page,
  \<open>home/templates/home/index.html\<close>, and everything the user sees happens in its scripts: the page
  connects to the broker over a WebSocket, keeps a list of nodes, draws them on a map and sends
  commands back.  This development models these scripts.  All paths below are relative to
  \<open>src/software/linux/web-server/home\<close>, those of the libraries to its directory \<open>static/home\<close>.

  \<^bold>\<open>The parts and how they interact.\<close>

  The page calls the MQTT client \<open>paho.javascript-1.1.0/paho-mqtt.js\<close>, which calls back for messages,
  connections and their loss.  It shows notices with the plugin Toast and cards with the plugin
  Collapse of \<open>bootstrap-4.5.3-dist/js/bootstrap.js\<close>.  It loads the minified files of these
  libraries; the readable files they are made from are modelled.  The server also ships the scripts
  of Font Awesome in \<open>fontawesome-free-5.15.1-web/js\<close>: \<open>fontawesome.js\<close> replaces icons by SVG
  elements, and \<open>conflict-detection.js\<close>, a tool for developers that no page loads, finds out which
  script or style sheet of a page conflicts with it.
  \<open>software/algorithm/multilateration/multilateration.js\<close>, next to the web server in \<open>src\<close>, is a
  script of its own, whose two functions the page repeats.

  \<^bold>\<open>The theories.\<close>

  \<^item> The language.  Js_Prelude: strings as lists of UTF-16 code units, bytes, 32-bit conversion,
    exceptions as values (\<open>js_exn + 'a\<close>), and operations on a state that return a value or throw
    (\<open>op\<close>, \<open>andthen\<close>, \<open>try_catch\<close>), with the predicate \<open>keeps\<close> for state invariants.  Js_Object: objects
    as dictionaries, an interface with two providers, tables with numeric keys and key/value
    stores.  Js_Text: string methods.  Js_Float: numbers as exact reals with NaN and infinities.
    Js_Timers: \<open>setTimeout\<close> and the order of the event loop, and the interface of a loop that comes to
    rest.

  \<^item> The MQTT client, wire format.  Paho_Base: packet types, \<open>ERROR\<close>, \<open>format\<close>, \<open>validate\<close>.  Utf8:
    \<open>UTF8Length\<close>, \<open>stringToUTF8\<close>, \<open>parseUTF8\<close>.  Mbi: \<open>writeUint16\<close>, \<open>writeString\<close>, \<open>encodeMBI\<close> and the
    decoding loop.  Paho_Message: the class \<open>Message\<close>.  Wire: \<open>WireMessage\<close>, \<open>encode\<close> and
    \<open>decodeMessage\<close>.  Wire_Correct specifies a packet as the concatenation of its fields and shows
    that \<open>encode\<close> produces it.  Framing: \<open>_deframeMessages\<close>, and the theorem that the packets decoded do
    not depend on how the stream is cut.

  \<^item> The MQTT client, state.  Client_State: the fields of \<open>ClientImpl\<close> with its sockets, timers, pingers
    and \<open>localStorage\<close> as the record \<open>client\<close>; \<open>Pinger\<close> and \<open>Timeout\<close>.  Client_Store: \<open>store\<close>, \<open>restore\<close>
    and the constructor.  Client_Impl: \<open>connect\<close>, \<open>_doConnect\<close>, \<open>_disconnected\<close>, \<open>_reconnect\<close>,
    \<open>_process_queue\<close>, \<open>_requires_ack\<close>, \<open>subscribe\<close>, \<open>unsubscribe\<close>, \<open>send\<close>, \<open>disconnect\<close>.  Client_Session:
    the handlers of the socket and \<open>_handleMessage\<close> with every packet type.  Client_Api: the public
    class \<open>Client\<close> with the checks of its arguments.  Client_Steps puts the client into its
    surroundings: calls, nested callbacks and browser events as an inductive step relation with
    page reloads.

  \<^item> The MQTT client, theorems.  Client_Frame: two interfaces, \<open>session_invariant\<close> and
    \<open>delivery_invariant\<close>, under which every step keeps a predicate of the session state; they are
    interpreted in Client_Durable (what awaits an acknowledgement is in \<open>localStorage\<close>) and in
    Client_Backoff (the delay of a reconnect).  Client_Queue: the order of what is sent.  Client_Qos:
    the receiver of quality 2 refines an abstract exactly-once exchange.  Client_Connect: the addresses
    that are tried, the fall-back of the protocol version, automatic reconnection.  Client_Trace models
    the properties the public class only lets be read and the trace buffer, and Client_Trace_Correct
    shows that the buffer holds the last hundred entries; the other theories leave the calls of the
    tracing functions out.

  \<^item> Trilateration: \<open>trilaterate\<close> and its caller, with the geometry of three and four spheres.

  \<^item> Font Awesome.  Fa_Text: escaping, attribute and style lists, \<open>toHtml\<close>.  Fa_Html: a parser that reads
    this HTML back.  Fa_Transform: power transforms.  Fa_Registry: the configuration, the icon
    definitions and the lookup tables.  Fa_Abstract: the tree of an icon.  Fa_Render: from an element to
    its replacement, the observer of the page and the API.  Fa_Render_Correct: the result is well formed
    and is recognised as the same icon.

  \<^item> The promises of Font Awesome.  Fa_Promise: \<open>P\<close> with \<open>then\<close>, \<open>catch\<close>, \<open>all\<close>, \<open>race\<close>, \<open>resolve\<close> and
    \<open>reject\<close>, the adoption of thenables and the queue of asynchronous calls, with the page as a step
    relation.  Fa_Promise_Correct: the interface \<open>promise_invariant\<close> for what all nested code keeps, and
    by it that promises settle once and callbacks run once and in order.  The state keeps a history that
    the program does not have: a call of a callback is noted down where it is made, and a run of a
    function of the application where it starts, so that the order and the calls can be stated.
    Fa_Promise_All: \<open>P.all\<close> gathers
    its results in the order of its arguments.

  \<^item> The conflict detection.  Md5: the digest of \<open>conflict-detection.js\<close>, on 32-bit signed words,
    with the text codings around it.  Md5_Spec: the digest as RFC 1321 and RFC 2104 define it.
    Md5_Rounds compares the sixty-four steps, and Md5_Correct shows that the script computes the
    specified digest of every text below \<open>2 ^ 28\<close> bytes.  Detector: the elements of the page and their
    digests, the frames that probe one element each, the polls, the answers and the report.
    Detector_Correct: the detection ends, and the report lists each conflict once.

  \<^item> The page.  Web_Ui: the inline script, with the list of nodes, the cards, the map and the commands.
    Web_Ui_Correct: the invariant of the page, locations shown and locations sent.  Web_Ui_Circles: the
    circles of the distances.

  \<^item> Bootstrap.  Bs_Util: \<open>extend\<close>, \<open>typeCheckConfig\<close>, and the emulation of \<open>transitionend\<close>.  Bs_Toast and
    Bs_Toast_Correct: the plugin Toast and \<open>toastError\<close> of the page, over time.  Bs_Collapse and
    Bs_Collapse_Correct: the plugin Collapse refines an abstract machine of panels.
\<close>

text \<open>
  \<^bold>\<open>Parameters, bounds and fuel.\<close>

  \<^item> The record \<open>env\<close> of Client_State holds what the client does not control: the callbacks, exceptions
    of the \<open>WebSocket\<close> interface, texts of engine errors, the order that sorting by an inconsistent
    comparison gives.  In Client_Steps the callbacks are scripts of further calls, nested up to a depth
    that stands for the stack of the engine; the theorems hold for every depth.

  \<^item> \<open>loop_bound\<close> bounds the loops of \<open>_process_queue\<close> and of the drain of the buffer, because a
    callback may queue more while they run.  A run that exceeds it ends with \<open>Out_of_fuel\<close>, which no
    handler catches.  The theorems on sending ask for a bound above the number of queued packets, and
    then show that the loop ends normally; the invariants hold for every bound.

  \<^item> All other loops are structural or have a termination proof: decoding, framing, identifiers, the
    parsers, the builders of trees.  The event loops of Bs_Toast and Bs_Collapse end because a measure of
    the pending timers falls with each one that runs; that of Detector ends because the number of polls
    is at most the time limit divided by their interval.

  \<^item> In Font Awesome, identifiers drawn at random and the text of a number (\<open>fmt\<close>) are arguments.  In
    Fa_Promise the functions of the application are a parameter, as scripts of calls, nested up to a
    depth at which the stack is exhausted; a flush of its queue that never ends has no result.  In
    Detector, whether the frame of an element reports a conflict, and when, is an argument.

  \<^bold>\<open>Not modelled.\<close>

  \<^item> Numbers of coordinates and sizes are exact: rounding is not modelled, nor the overflow of a sum or a
    product.  The properties of Trilateration are about its formulas over the reals; that of Fa_Transform
    is restricted to amounts with which all numbers are whole and doubles are exact.  The decoded length
    of a packet is an unbounded integer, which differs from a double only for malformed input.  Prototype properties of
    objects, and the ascending order of integer-like keys of plain objects, are not; the scripts use
    neither for their data.
  \<^item> \<open>localStorage\<close> keeps each entry as the record its JSON text stands for, and has no quota.  The
    in-memory substitute the client uses without \<open>localStorage\<close> is left out.
  \<^item> JSON parsing in the page: a message is its type and fields.  The drawing of the map is the list of
    points and circles given to the plotting library.
  \<^item> Font Awesome: where Fa_Render waits for promises, it takes their results at once; the asynchronous sweep over the page, pseudo-elements; \<open>solid.js\<close>,
    \<open>brands.js\<close> and \<open>regular.js\<close>, which are tables of icon paths; the texts the conflict detection
    writes to the console.
  \<^item> The other Bootstrap plugins, which the page does not use, and \<open>bootstrap.bundle.js\<close>, which repeats
    \<open>bootstrap.js\<close>; \<open>all.js\<close>, which repeats \<open>fontawesome.js\<close> with the icons; minified files.
  \<^item> The gateway (Python), the firmware (C), the web server and the hardware.
\<close>

end
